(* ===== verification/Prelude.thy ===== *)
theory Prelude
  imports Main "HOL-Library.AList" "HOL-Library.Word" "HOL-Library.Sublist"
begin

text \<open>
  Shared vocabulary of the development.

  \<^item> \<open>hmap\<close>: a Rust \<^verbatim>\<open>HashMap\<close> as an association list with one entry per key.
    Iteration visits the entries in list order; a theorem that holds for every list
    holds for every iteration order of the hash table.
  \<^item> string operations of the Rust standard library on UTF-8 byte strings.
  \<^item> \<open>reach\<close>: reachable states of a step relation, and the locales that the components
    instantiate: \<open>step_system\<close> (invariants of reachable states), \<open>event_source\<close> (streams of
    consecutively numbered events) and \<open>pending_store\<close> (requests parked under an id and taken
    at most once).
\<close>

section \<open>Hash maps\<close>

named_theorems hm_simps \<open>lookup laws of the hash map operations\<close>

type_synonym ('k, 'v) hmap = "('k \<times> 'v) list"

abbreviation hm_get :: "('k, 'v) hmap \<Rightarrow> 'k \<Rightarrow> 'v option" where
  "hm_get m k \<equiv> map_of m k"

abbreviation hm_insert :: "'k \<Rightarrow> 'v \<Rightarrow> ('k, 'v) hmap \<Rightarrow> ('k, 'v) hmap" where
  "hm_insert k v m \<equiv> AList.update k v m"

abbreviation hm_remove :: "'k \<Rightarrow> ('k, 'v) hmap \<Rightarrow> ('k, 'v) hmap" where
  "hm_remove k m \<equiv> AList.delete k m"

abbreviation hm_keys :: "('k, 'v) hmap \<Rightarrow> 'k set" where
  "hm_keys m \<equiv> fst ` set m"

abbreviation hm_wf :: "('k, 'v) hmap \<Rightarrow> bool" where
  "hm_wf m \<equiv> distinct (map fst m)"

text \<open>\<^verbatim>\<open>if let Some(v) = m.get_mut(k) { *v = f(*v) }\<close>\<close>

definition hm_modify :: "'k \<Rightarrow> ('v \<Rightarrow> 'v) \<Rightarrow> ('k, 'v) hmap \<Rightarrow> ('k, 'v) hmap" where
  "hm_modify k f m = (case map_of m k of None \<Rightarrow> m | Some v \<Rightarrow> AList.update k (f v) m)"

text \<open>\<^verbatim>\<open>*m.entry(k).or_insert(d)\<close> followed by the in-place update \<open>f\<close>\<close>

definition hm_entry :: "'k \<Rightarrow> 'v \<Rightarrow> ('v \<Rightarrow> 'v) \<Rightarrow> ('k, 'v) hmap \<Rightarrow> ('k, 'v) hmap" where
  "hm_entry k d f m = AList.update k (f (case map_of m k of None \<Rightarrow> d | Some v \<Rightarrow> v)) m"

definition hm_values :: "('k, 'v) hmap \<Rightarrow> 'v list" where
  "hm_values m = map snd m"

text \<open>\<^verbatim>\<open>m.retain(|k, v| p(k, v))\<close>\<close>

definition hm_retain :: "('k \<Rightarrow> 'v \<Rightarrow> bool) \<Rightarrow> ('k, 'v) hmap \<Rightarrow> ('k, 'v) hmap" where
  "hm_retain p m = filter (\<lambda>(k, v). p k v) m"

text \<open>Lookups stay lookups: membership of the entry is not their normal form.\<close>

declare map_of_eq_Some_iff [simp del]

lemma hm_get_insert [hm_simps, simp]:
  "map_of (AList.update k v m) k' = (if k' = k then Some v else map_of m k')"
  by (simp add: update_conv')

lemma hm_get_remove [hm_simps, simp]:
  "map_of (AList.delete k m) k' = (if k' = k then None else map_of m k')"
  by (simp add: delete_conv')

lemma hm_get_modify [hm_simps, simp]:
  "map_of (hm_modify k f m) k' = (if k' = k then map_option f (map_of m k) else map_of m k')"
  by (auto simp: hm_modify_def split: option.splits)

lemma hm_get_entry [hm_simps, simp]:
  "map_of (hm_entry k d f m) k' =
     (if k' = k then Some (f (case map_of m k of None \<Rightarrow> d | Some v \<Rightarrow> v)) else map_of m k')"
  by (simp add: hm_entry_def)

lemma hm_keys_insert [hm_simps, simp]: "hm_keys (AList.update k v m) = insert k (hm_keys m)"
  using dom_update [of k v m] by simp

lemma hm_keys_remove [hm_simps, simp]: "hm_keys (AList.delete k m) = hm_keys m - {k}"
  by (auto simp: AList.delete_eq image_iff)

lemma hm_keys_modify [hm_simps, simp]: "hm_keys (hm_modify k f m) = hm_keys m"
proof (cases "map_of m k")
  case (Some v)
  then have "k \<in> hm_keys m" by (auto dest!: map_of_SomeD intro: rev_image_eqI)
  with Some show ?thesis by (auto simp: hm_modify_def insert_absorb simp del: map_of_eq_None_iff)
qed (simp add: hm_modify_def)

lemma hm_keys_entry [hm_simps, simp]: "hm_keys (hm_entry k d f m) = insert k (hm_keys m)"
  by (simp add: hm_entry_def)

lemma hm_wf_insert [simp, intro]: "hm_wf m \<Longrightarrow> hm_wf (AList.update k v m)"
  by (rule distinct_update)

lemma hm_wf_remove [simp, intro]: "hm_wf m \<Longrightarrow> hm_wf (AList.delete k m)"
  by (rule distinct_delete)

lemma hm_wf_modify [simp, intro]: "hm_wf m \<Longrightarrow> hm_wf (hm_modify k f m)"
  by (auto simp: hm_modify_def distinct_update split: option.splits)

lemma hm_wf_entry [simp, intro]: "hm_wf m \<Longrightarrow> hm_wf (hm_entry k d f m)"
  by (simp add: hm_entry_def distinct_update)

lemma hm_wf_retain [simp, intro]: "hm_wf m \<Longrightarrow> hm_wf (hm_retain p m)"
  by (auto simp: hm_retain_def intro: distinct_map_filter)

lemma hm_key_iff: "k \<in> hm_keys m \<longleftrightarrow> (\<exists>v. map_of m k = Some v)"
  by (metis map_of_eq_None_iff not_None_eq)

lemma hm_get_retain:
  "hm_wf m \<Longrightarrow> map_of (hm_retain p m) k =
     (case map_of m k of None \<Rightarrow> None | Some v \<Rightarrow> if p k v then Some v else None)"
proof (induction m)
  case (Cons kv m)
  obtain k0 v0 where kv: "kv = (k0, v0)" by (cases kv)
  have "k0 \<notin> fst ` set m" using Cons.prems kv by simp
  then have "map_of m k0 = None" and "map_of (hm_retain p m) k0 = None"
    by (auto simp: map_of_eq_None_iff hm_retain_def)
  with Cons kv show ?case by (auto simp: hm_retain_def)
qed (simp add: hm_retain_def)

lemma hm_values_get: "hm_wf m \<Longrightarrow> set (hm_values m) = {v. \<exists>k. map_of m k = Some v}"
  by (auto simp: hm_values_def image_iff map_of_eq_Some_iff) (force intro: map_of_SomeD)+

lemma hm_len_insert:
  "length (AList.update k v m) = (if k \<in> hm_keys m then length m else Suc (length m))"
  by (induction m) auto

lemma hm_len_remove:
  "hm_wf m \<Longrightarrow> length (AList.delete k m) = (if k \<in> hm_keys m then length m - 1 else length m)"
proof (induction m)
  case (Cons a m)
  have "k \<in> hm_keys m \<Longrightarrow> m \<noteq> []" by auto
  with Cons show ?case by (auto simp: neq_Nil_conv)
qed simp

lemma hm_len_modify [simp]: "length (hm_modify k f m) = length m"
proof (cases "map_of m k")
  case (Some v)
  then have "k \<in> hm_keys m" by (auto dest!: map_of_SomeD intro: rev_image_eqI)
  with Some show ?thesis by (simp add: hm_modify_def hm_len_insert)
qed (simp add: hm_modify_def)

lemma hm_len_card: "hm_wf m \<Longrightarrow> length m = card (hm_keys m)"
  by (metis distinct_card length_map set_map)


section \<open>Strings\<close>

text \<open>
  A Rust \<^verbatim>\<open>String\<close> is its UTF-8 byte sequence, a \<open>string\<close> here; \<^verbatim>\<open>len\<close> is \<open>length\<close>,
  \<^verbatim>\<open>starts_with\<close> is \<open>prefix\<close>, and equality is equality of bytes.
\<close>

definition starts_with :: "string \<Rightarrow> string \<Rightarrow> bool" where
  "starts_with s p = prefix p s"

definition strip_suffix :: "string \<Rightarrow> string \<Rightarrow> string option" where
  "strip_suffix s suf = (if suffix suf s then Some (take (length s - length suf) s) else None)"

definition strip_prefix :: "string \<Rightarrow> string \<Rightarrow> string option" where
  "strip_prefix s pre = (if prefix pre s then Some (drop (length pre) s) else None)"

text \<open>\<^verbatim>\<open>s.split_once(pat)\<close>: split at the first occurrence of a non-empty pattern.\<close>

fun split_once :: "string \<Rightarrow> string \<Rightarrow> (string \<times> string) option" where
  "split_once [] pat = None"
| "split_once (c # s) pat =
     (if prefix pat (c # s) then Some ([], drop (length pat) (c # s))
      else map_option (\<lambda>(a, b). (c # a, b)) (split_once s pat))"

definition str_contains :: "string \<Rightarrow> string \<Rightarrow> bool" where
  "str_contains s pat = list_ex (prefix pat) (suffixes s)"

text \<open>The apostrophe that error messages put around names.\<close>

definition quote :: "string \<Rightarrow> string" where
  "quote s = CHR 0x27 # s @ [CHR 0x27]"

text \<open>Decimal \<^verbatim>\<open>Display\<close> of integers.\<close>

fun show_nat :: "nat \<Rightarrow> string" where
  "show_nat n = (if n < 10 then [char_of (48 + n)] else show_nat (n div 10) @ [char_of (48 + n mod 10)])"

declare show_nat.simps [simp del]

definition show_int :: "int \<Rightarrow> string" where
  "show_int i = (if i < 0 then CHR ''-'' # show_nat (nat (- i)) else show_nat (nat i))"

lemma strip_suffix_Some [simp]: "strip_suffix s suf = Some p \<longleftrightarrow> s = p @ suf"
  by (auto simp: strip_suffix_def suffix_def)

lemma strip_suffix_None: "strip_suffix s suf = None \<longleftrightarrow> \<not> suffix suf s"
  by (simp add: strip_suffix_def)

lemma strip_prefix_Some [simp]: "strip_prefix s pre = Some p \<longleftrightarrow> s = pre @ p"
  by (auto simp: strip_prefix_def prefix_def)

lemma split_once_Some: "split_once s pat = Some (a, b) \<Longrightarrow> s = a @ pat @ b"
  by (induction s pat arbitrary: a b rule: split_once.induct)
     (auto simp: prefix_def split: if_splits)

section \<open>Reachable states and invariants\<close>

inductive reach :: "('s \<Rightarrow> bool) \<Rightarrow> ('s \<Rightarrow> 's \<Rightarrow> bool) \<Rightarrow> 's \<Rightarrow> bool"
  for init :: "'s \<Rightarrow> bool" and step :: "'s \<Rightarrow> 's \<Rightarrow> bool" where
  reach_init: "init s \<Longrightarrow> reach init step s"
| reach_step: "reach init step s \<Longrightarrow> step s t \<Longrightarrow> reach init step t"

locale step_system =
  fixes init :: "'s \<Rightarrow> bool"
    and step :: "'s \<Rightarrow> 's \<Rightarrow> bool"
    and inv :: "'s \<Rightarrow> bool"
  assumes inv_init: "init s \<Longrightarrow> inv s"
    and inv_step: "inv s \<Longrightarrow> step s t \<Longrightarrow> inv t"
begin

lemma reach_inv: "reach init step s \<Longrightarrow> inv s"
  by (induction rule: reach.induct) (auto intro: inv_init inv_step)

end

section \<open>Consecutively numbered events\<close>

definition consecutive :: "'n::len word \<Rightarrow> 'n word list \<Rightarrow> bool" where
  "consecutive s ws \<longleftrightarrow> (\<forall>i < length ws. ws ! i = s + of_nat (Suc i))"

lemma consecutive_Nil [simp]: "consecutive s []"
  by (simp add: consecutive_def)

lemma consecutive_Cons [simp]:
  "consecutive s (w # ws) \<longleftrightarrow> w = s + 1 \<and> consecutive (s + 1) ws"
  unfolding consecutive_def by (auto simp: less_Suc_eq_0_disj ac_simps)

lemma consecutive_append:
  "consecutive s (xs @ ys) \<longleftrightarrow>
     consecutive s xs \<and> consecutive (s + of_nat (length xs)) ys"
  by (induction xs arbitrary: s) (auto simp: ac_simps)

lemma consecutive_unat:
  assumes "consecutive s ws" and "unat s + length ws < 2 ^ LENGTH('n::len)"
  shows "map unat (ws :: 'n word list) = [Suc (unat s) ..< Suc (unat s + length ws)]"
proof (rule nth_equalityI)
  fix i assume i: "i < length (map unat ws)"
  with assms(1) have "ws ! i = s + of_nat (Suc i)" by (simp add: consecutive_def)
  moreover have "unat (of_nat (Suc i) :: 'n word) = Suc i"
    using assms(2) i by (simp add: unat_of_nat del: of_nat_Suc)
  moreover have "unat s + Suc i < 2 ^ LENGTH('n)" using assms(2) i by auto
  ultimately have "unat (ws ! i) = unat s + Suc i"
    by (simp add: unat_word_ariths del: of_nat_Suc)
  with i show "map unat ws ! i = [Suc (unat s) ..< Suc (unat s + length ws)] ! i"
    by (simp add: nth_upt del: upt_Suc)
qed (simp del: upt_Suc)

lemma consecutive_strict:
  assumes "consecutive s ws" and "unat s + length ws < 2 ^ LENGTH('n::len)"
  shows "sorted_wrt (<) (ws :: 'n word list)"
proof -
  have "sorted_wrt (<) (map unat ws)"
    unfolding consecutive_unat [OF assms] by (rule sorted_wrt_upt)
  then show ?thesis by (simp add: sorted_wrt_map flip: word_less_nat_alt)
qed

lemma sint_small:
  assumes "unat (w :: 64 word) < 2 ^ 63"
  shows "sint w = int (unat w)"
proof -
  have u: "uint w < 2 ^ 63"
    using assms unfolding unat_eq_nat_uint
    by (simp only: nat_less_iff uint_ge_0 of_nat_power of_nat_numeral)
  have "\<not> bit (uint w) 63"
    unfolding bit_iff_odd using u by (simp only: div_pos_pos_trivial uint_ge_0 even_zero simp_thms)
  then have "signed_take_bit 63 (uint w) = take_bit 63 (uint w)" by (rule signed_take_bit_eq_if_positive)
  also have "\<dots> = uint w" using u by (intro take_bit_int_eq_self) simp_all
  finally show ?thesis by (simp add: sint_uint)
qed

text \<open>
  An event source consumes messages one at a time; each message yields a list of events
  numbered consecutively from the source's counter.
\<close>

fun emit_all :: "('s \<Rightarrow> 'm \<Rightarrow> 's \<times> 'e list) \<Rightarrow> 's \<Rightarrow> 'm list \<Rightarrow> 's \<times> 'e list" where
  "emit_all emit s [] = (s, [])"
| "emit_all emit s (m # ms) =
     (let (s1, es1) = emit s m; (s2, es2) = emit_all emit s1 ms in (s2, es1 @ es2))"

locale event_source =
  fixes emit :: "'s \<Rightarrow> 'm \<Rightarrow> 's \<times> 'e list"
    and seq_of :: "'s \<Rightarrow> 'n::len word"
    and ev_seq :: "'e \<Rightarrow> 'n word"
  assumes emit_consecutive: "consecutive (seq_of s) (map ev_seq (snd (emit s m)))"
    and emit_seq: "seq_of (fst (emit s m)) = seq_of s + of_nat (length (snd (emit s m)))"
begin

lemma emit_all_seq:
  "consecutive (seq_of s) (map ev_seq (snd (emit_all emit s ms))) \<and>
   seq_of (fst (emit_all emit s ms)) = seq_of s + of_nat (length (snd (emit_all emit s ms)))"
proof (induction ms arbitrary: s)
  case (Cons m ms)
  obtain s1 es1 where e: "emit s m = (s1, es1)" by fastforce
  obtain s2 es2 where a: "emit_all emit s1 ms = (s2, es2)" by fastforce
  from emit_consecutive [of s m] emit_seq [of s m] Cons.IH [of s1] show ?case
    by (simp add: e a consecutive_append)
qed simp

lemma emit_all_strict:
  assumes "unat (seq_of s) + length (snd (emit_all emit s ms)) < 2 ^ LENGTH('n)"
  shows "sorted_wrt (<) (map ev_seq (snd (emit_all emit s ms)))"
  using assms by (intro consecutive_strict [OF emit_all_seq [THEN conjunct1]]) simp

end

section \<open>Requests parked under an identifier\<close>

datatype ('k, 'v) store_op = Put 'k 'v | Grab 'k

fun run_store ::
  "('k \<Rightarrow> 'v \<Rightarrow> 's \<Rightarrow> 's) \<Rightarrow> ('k \<Rightarrow> 's \<Rightarrow> 's \<times> 'v option) \<Rightarrow> 's \<Rightarrow> ('k, 'v) store_op list
    \<Rightarrow> 's \<times> ('k \<times> 'v) list" where
  "run_store put grab s [] = (s, [])"
| "run_store put grab s (Put k v # ops) = run_store put grab (put k v s) ops"
| "run_store put grab s (Grab k # ops) =
     (let (s1, r) = grab k s; (s2, got) = run_store put grab s1 ops
      in (s2, (case r of None \<Rightarrow> got | Some v \<Rightarrow> (k, v) # got)))"

definition puts_of :: "'k \<Rightarrow> ('k, 'v) store_op list \<Rightarrow> nat" where
  "puts_of k ops = length (filter (\<lambda>op. case op of Put k' _ \<Rightarrow> k' = k | Grab _ \<Rightarrow> False) ops)"

definition grabs_of :: "'k \<Rightarrow> ('k \<times> 'v) list \<Rightarrow> nat" where
  "grabs_of k got = length (filter (\<lambda>(k', _). k' = k) got)"

locale pending_store =
  fixes put :: "'k \<Rightarrow> 'v \<Rightarrow> 's \<Rightarrow> 's"
    and grab :: "'k \<Rightarrow> 's \<Rightarrow> 's \<times> 'v option"
    and peek :: "'s \<Rightarrow> 'k \<Rightarrow> 'v option"
  assumes peek_put: "peek (put k v s) k' = (if k' = k then Some v else peek s k')"
    and grab_val: "snd (grab k s) = peek s k"
    and peek_grab: "peek (fst (grab k s)) k' = (if k' = k then None else peek s k')"
begin

lemma grab_put: "snd (grab k (put k v s)) = Some v"
  by (simp add: grab_val peek_put)

lemma grab_twice: "snd (grab k (fst (grab k s))) = None"
  by (simp add: grab_val peek_grab)

text \<open>No request is answered more often than it was parked.\<close>

lemma grabs_le_puts:
  "grabs_of k (snd (run_store put grab s ops))
     \<le> puts_of k ops + (if peek s k = None then 0 else 1)"
proof (induction ops arbitrary: s)
  case Nil
  show ?case by (simp add: grabs_of_def puts_of_def)
next
  case (Cons op ops)
  show ?case
  proof (cases op)
    case (Put k' v)
    show ?thesis using Cons.IH [of "put k' v s"]
      by (auto simp: Put puts_of_def peek_put split: if_splits)
  next
    case (Grab k')
    obtain s1 r where g: "grab k' s = (s1, r)" by fastforce
    have r: "r = peek s k'" using grab_val [of k' s] g by simp
    have p: "peek s1 k = (if k = k' then None else peek s k)"
      using peek_grab [of k' s k] g by simp
    show ?thesis using Cons.IH [of s1]
      by (auto simp: Grab g r p puts_of_def grabs_of_def case_prod_beta
               split: option.splits if_splits)
  qed
qed

end

end
