(* ===== verification/CoreDb.thy ===== *)
theory CoreDb
  imports Prelude
begin

unbundle bit_operations_syntax

text \<open>
  Shared database support, \<^verbatim>\<open>crates/betcode-core/src/db.rs\<close>: the error type, and the base64
  codec used for stored event payloads. SQLite itself is not part of the sources. A
  statement takes a \<open>sqlite\<close> argument: whether the engine executes it, and the text of the
  error it reports when it does not or when a constraint of the schema is violated. The
  theory proves that decoding inverts encoding on every byte string.
\<close>

datatype database_error =
    Io string
  | Connection string
  | Migration string
  | Query string
  | DbNotFound string

definition show_database_error :: "database_error \<Rightarrow> string" where
  "show_database_error e = (case e of
      Io s \<Rightarrow> ''I/O error: '' @ s
    | Connection s \<Rightarrow> ''Connection error: '' @ s
    | Migration s \<Rightarrow> ''Migration error: '' @ s
    | Query s \<Rightarrow> ''Query error: '' @ s
    | DbNotFound s \<Rightarrow> ''Not found: '' @ s)"

type_synonym sqlite = "bool \<times> string"

section \<open>Base64\<close>

type_synonym byte = "8 word"

definition base64_chars :: string where
  "base64_chars = ''ABCDEFGHIJKLMNOPQRSTUVWXYZabcdefghijklmnopqrstuvwxyz0123456789+/''"

definition sextet :: "32 word \<Rightarrow> nat \<Rightarrow> char" where
  "sextet n k = base64_chars ! unat (drop_bit k n AND 0x3F)"

definition pack3 :: "byte \<Rightarrow> byte \<Rightarrow> byte \<Rightarrow> 32 word" where
  "pack3 b0 b1 b2 = push_bit 16 (ucast b0) OR push_bit 8 (ucast b1) OR ucast b2"

fun base64_encode :: "byte list \<Rightarrow> string" where
  "base64_encode [] = []"
| "base64_encode [b0] =
     (let n = pack3 b0 0 0 in [sextet n 18, sextet n 12, CHR ''='', CHR ''=''])"
| "base64_encode [b0, b1] =
     (let n = pack3 b0 b1 0 in [sextet n 18, sextet n 12, sextet n 6, CHR ''=''])"
| "base64_encode (b0 # b1 # b2 # rest) =
     (let n = pack3 b0 b1 b2 in
      [sextet n 18, sextet n 12, sextet n 6, sextet n 0] @ base64_encode rest)"

text \<open>The \<^verbatim>\<open>DECODE\<close> table: the position of a character, \<open>None\<close> for the entry 255.\<close>

fun index_of :: "char \<Rightarrow> string \<Rightarrow> nat \<Rightarrow> nat option" where
  "index_of c [] i = None"
| "index_of c (d # ds) i = (if c = d then Some i else index_of c ds (Suc i))"

definition decode_char :: "char \<Rightarrow> nat option" where
  "decode_char c = index_of c base64_chars 0"

text \<open>\<^verbatim>\<open>b as char\<close> printed: a byte from 128 on is a character of two UTF-8 bytes.\<close>

definition byte_as_char :: "char \<Rightarrow> string" where
  "byte_as_char b = (let k = (of_char b :: nat) in
     if k < 128 then [b] else [char_of (192 + k div 64), char_of (128 + k mod 64)])"

text \<open>The inner loop over one chunk, with \<open>i\<close> the position in the chunk.\<close>

fun decode_chunk :: "string \<Rightarrow> nat \<Rightarrow> 32 word \<Rightarrow> string + 32 word" where
  "decode_chunk [] i n = Inr n"
| "decode_chunk (b # bs) i n =
     (case decode_char b of
        None \<Rightarrow> Inl (''Invalid base64 character: '' @ byte_as_char b)
      | Some v \<Rightarrow> decode_chunk bs (Suc i) (n OR push_bit (18 - i * 6) (of_nat v)))"

definition chunk_bytes :: "nat \<Rightarrow> 32 word \<Rightarrow> byte list" where
  "chunk_bytes len n =
     [ucast (drop_bit 16 n AND 0xFF)]
     @ (if 2 < len then [ucast (drop_bit 8 n AND 0xFF)] else [])
     @ (if 3 < len then [ucast (n AND 0xFF)] else [])"

function decode_chunks :: "string \<Rightarrow> string + byte list" where
  "decode_chunks s =
     (if s = [] then Inr []
      else case decode_chunk (take 4 s) 0 0 of
        Inl e \<Rightarrow> Inl e
      | Inr n \<Rightarrow>
          (case decode_chunks (drop 4 s) of
             Inl e \<Rightarrow> Inl e
           | Inr rest \<Rightarrow> Inr (chunk_bytes (length (take 4 s)) n @ rest)))"
  by pat_completeness auto
termination
proof (relation "measure length", goal_cases)
  case (2 s)
  then show ?case by (cases s) auto
qed simp

declare decode_chunks.simps [simp del]

definition trim_end_matches :: "char \<Rightarrow> string \<Rightarrow> string" where
  "trim_end_matches c s = rev (dropWhile (\<lambda>d. d = c) (rev s))"

definition base64_decode :: "string \<Rightarrow> string + byte list" where
  "base64_decode s =
     (let input = trim_end_matches (CHR ''='') s in
      if length input mod 4 = 1 then Inl ''Invalid base64 length'' else decode_chunks input)"

section \<open>Round trip\<close>

lemma base64_chars_len: "length base64_chars = 64"
  by (simp add: base64_chars_def)

lemma index_of_nth:
  "i < length cs \<Longrightarrow> distinct cs \<Longrightarrow> index_of (cs ! i) cs k = Some (k + i)"
proof (induction cs arbitrary: i k)
  case (Cons c cs)
  then show ?case by (cases i) (auto simp: nth_mem)
qed simp

lemma base64_chars_distinct: "distinct base64_chars"
  by (simp add: base64_chars_def)

lemma sextet_bound: "unat (drop_bit k (n :: 32 word) AND 0x3F) < 64"
proof -
  have "drop_bit k n AND 0x3F \<le> 0x3F" by (rule word_and_le1)
  then show ?thesis by (simp add: word_le_nat_alt)
qed

lemma decode_sextet:
  "decode_char (sextet n k) = Some (unat (drop_bit k n AND 0x3F))"
  unfolding decode_char_def sextet_def
  using index_of_nth [of "unat (drop_bit k n AND 0x3F)" base64_chars 0]
  by (simp add: base64_chars_len base64_chars_distinct sextet_bound)

lemma sextet_not_pad: "sextet n k \<noteq> CHR ''=''"
proof
  assume "sextet n k = CHR ''=''"
  moreover have "decode_char (CHR ''='') = None" by code_simp
  ultimately show False using decode_sextet [of n k] by simp
qed

lemma bit_mask6: "bit (0x3F :: 32 word) k \<longleftrightarrow> k < 6"
proof -
  have "(0x3F :: 32 word) = mask 6" by (simp add: mask_eq_exp_minus_1)
  then show ?thesis by (simp only: bit_mask_iff) (auto)
qed

lemma bit_mask8: "bit (0xFF :: 32 word) k \<longleftrightarrow> k < 8"
proof -
  have "(0xFF :: 32 word) = mask 8" by (simp add: mask_eq_exp_minus_1)
  then show ?thesis by (simp only: bit_mask_iff) (auto)
qed

lemma bit_pack3:
  "bit (pack3 b0 b1 b2) k \<longleftrightarrow>
     (16 \<le> k \<and> k < 24 \<and> bit b0 (k - 16)) \<or> (8 \<le> k \<and> k < 16 \<and> bit b1 (k - 8)) \<or> (k < 8 \<and> bit b2 k)"
  by (auto simp: pack3_def bit_simps dest: bit_imp_le_length)

lemma bit_sextet:
  fixes n :: "32 word"
  assumes "k < 32"
  shows "bit (push_bit j (drop_bit j n AND 0x3F)) k \<longleftrightarrow> j \<le> k \<and> k < j + 6 \<and> bit n k"
  using assms
  by (simp only: bit_push_bit_iff bit_and_iff bit_drop_bit_eq bit_mask6 o_def) (auto simp: possible_bit_word)

lemma join_sextets:
  fixes n :: "32 word"
  assumes "\<And>k. 24 \<le> k \<Longrightarrow> \<not> bit n k"
  shows "push_bit 18 (drop_bit 18 n AND 0x3F) OR push_bit 12 (drop_bit 12 n AND 0x3F)
     OR push_bit 6 (drop_bit 6 n AND 0x3F) OR push_bit 0 (drop_bit 0 n AND 0x3F) = n"
proof (rule bit_word_eqI)
  fix k assume "k < LENGTH(32)"
  then have "k < 32" by simp
  then show "bit (push_bit 18 (drop_bit 18 n AND 0x3F) OR push_bit 12 (drop_bit 12 n AND 0x3F)
     OR push_bit 6 (drop_bit 6 n AND 0x3F) OR push_bit 0 (drop_bit 0 n AND 0x3F)) k \<longleftrightarrow> bit n k"
    using assms [of k] by (simp only: bit_or_iff bit_sextet) auto
qed

lemma byte_of_word:
  fixes n :: "32 word" and b :: byte
  assumes "\<And>k. k < 8 \<Longrightarrow> bit n (j + k) \<longleftrightarrow> bit b k"
  shows "ucast (drop_bit j n AND 0xFF) = b"
proof (rule bit_word_eqI)
  fix k assume "k < LENGTH(8)"
  then have "k < 8" by simp
  then show "bit (ucast (drop_bit j n AND 0xFF) :: byte) k \<longleftrightarrow> bit b k"
    using assms [of k]
    by (simp only: bit_ucast_iff bit_and_iff bit_drop_bit_eq bit_mask8 o_def) auto
qed

lemma chunk_bytes_pack3:
  "chunk_bytes (Suc (Suc (Suc (Suc 0)))) (pack3 b0 b1 b2) = [b0, b1, b2]"
  "chunk_bytes (Suc (Suc (Suc 0))) (pack3 b0 b1 b2) = [b0, b1]"
  "chunk_bytes (Suc (Suc 0)) (pack3 b0 b1 b2) = [b0]"
  using byte_of_word [of "pack3 b0 b1 b2" 0 b2] byte_of_word [of "pack3 b0 b1 b2" 8 b1]
    byte_of_word [of "pack3 b0 b1 b2" 16 b0]
  by (simp_all add: chunk_bytes_def bit_pack3)

lemma decode_sextets:
  "decode_chunk [sextet n 18, sextet n 12, sextet n 6, sextet n 0] 0 0
     = Inr (push_bit 18 (drop_bit 18 n AND 0x3F) OR push_bit 12 (drop_bit 12 n AND 0x3F)
     OR push_bit 6 (drop_bit 6 n AND 0x3F) OR push_bit 0 (drop_bit 0 n AND 0x3F))"
  "decode_chunk [sextet n 18, sextet n 12, sextet n 6] 0 0
     = Inr (push_bit 18 (drop_bit 18 n AND 0x3F) OR push_bit 12 (drop_bit 12 n AND 0x3F)
     OR push_bit 6 (drop_bit 6 n AND 0x3F))"
  "decode_chunk [sextet n 18, sextet n 12] 0 0
     = Inr (push_bit 18 (drop_bit 18 n AND 0x3F) OR push_bit 12 (drop_bit 12 n AND 0x3F))"
  by (simp_all add: decode_sextet ac_simps)

lemma join_prefix:
  fixes n :: "32 word"
  assumes "\<And>k. 24 \<le> k \<Longrightarrow> \<not> bit n k"
  shows "(\<And>k. k < 6 \<Longrightarrow> \<not> bit n k) \<Longrightarrow> push_bit 18 (drop_bit 18 n AND 0x3F)
      OR push_bit 12 (drop_bit 12 n AND 0x3F) OR push_bit 6 (drop_bit 6 n AND 0x3F) = n"
    and "(\<And>k. k < 12 \<Longrightarrow> \<not> bit n k) \<Longrightarrow> push_bit 18 (drop_bit 18 n AND 0x3F)
      OR push_bit 12 (drop_bit 12 n AND 0x3F) = n"
proof -
  assume low: "\<And>k. k < 6 \<Longrightarrow> \<not> bit n k"
  show "push_bit 18 (drop_bit 18 n AND 0x3F)
      OR push_bit 12 (drop_bit 12 n AND 0x3F) OR push_bit 6 (drop_bit 6 n AND 0x3F) = n"
  proof (rule bit_word_eqI)
    fix k assume "k < LENGTH(32)"
    then have "k < 32" by simp
    then show "bit (push_bit 18 (drop_bit 18 n AND 0x3F)
      OR push_bit 12 (drop_bit 12 n AND 0x3F) OR push_bit 6 (drop_bit 6 n AND 0x3F)) k \<longleftrightarrow> bit n k"
      using assms [of k] low [of k] by (cases "24 \<le> k"; simp only: bit_or_iff bit_sextet) auto
  qed
next
  assume low: "\<And>k. k < 12 \<Longrightarrow> \<not> bit n k"
  show "push_bit 18 (drop_bit 18 n AND 0x3F) OR push_bit 12 (drop_bit 12 n AND 0x3F) = n"
  proof (rule bit_word_eqI)
    fix k assume "k < LENGTH(32)"
    then have "k < 32" by simp
    then show "bit (push_bit 18 (drop_bit 18 n AND 0x3F)
      OR push_bit 12 (drop_bit 12 n AND 0x3F)) k \<longleftrightarrow> bit n k"
      using assms [of k] low [of k] by (cases "24 \<le> k"; simp only: bit_or_iff bit_sextet) auto
  qed
qed

lemma decode_full:
  "decode_chunk [sextet (pack3 a b c) 18, sextet (pack3 a b c) 12, sextet (pack3 a b c) 6,
     sextet (pack3 a b c) 0] 0 0 = Inr (pack3 a b c)"
  by (simp only: decode_sextets, subst join_sextets) (auto simp: bit_pack3)

lemma decode_three:
  "decode_chunk [sextet (pack3 a b 0) 18, sextet (pack3 a b 0) 12, sextet (pack3 a b 0) 6] 0 0
     = Inr (pack3 a b 0)"
  by (simp only: decode_sextets, subst join_prefix(1)) (auto simp: bit_pack3)

lemma decode_two:
  "decode_chunk [sextet (pack3 a 0 0) 18, sextet (pack3 a 0 0) 12] 0 0 = Inr (pack3 a 0 0)"
  by (simp only: decode_sextets, subst join_prefix(2)) (auto simp: bit_pack3)

text \<open>The padding is exactly what \<open>trim_end_matches\<close> removes.\<close>

fun unpadded :: "byte list \<Rightarrow> string" where
  "unpadded [] = []"
| "unpadded [b0] = (let n = pack3 b0 0 0 in [sextet n 18, sextet n 12])"
| "unpadded [b0, b1] = (let n = pack3 b0 b1 0 in [sextet n 18, sextet n 12, sextet n 6])"
| "unpadded (b0 # b1 # b2 # rest) = (let n = pack3 b0 b1 b2 in
      [sextet n 18, sextet n 12, sextet n 6, sextet n 0] @ unpadded rest)"

lemma trim_append:
  "xs \<noteq> [] \<Longrightarrow> last xs \<noteq> c \<Longrightarrow> trim_end_matches c (ys @ xs) = ys @ xs"
  by (induction xs rule: rev_induct) (auto simp: trim_end_matches_def)

lemma encode_unpadded:
  "\<exists>k. base64_encode bs = unpadded bs @ replicate k (CHR ''='')"
proof (induction bs rule: base64_encode.induct)
  case (2 b0)
  show ?case by (rule exI [of _ 2]) (simp add: Let_def numeral_2_eq_2)
next
  case (3 b0 b1)
  show ?case by (rule exI [of _ 1]) (simp add: Let_def)
qed (auto simp: Let_def)

lemma unpadded_last: "unpadded bs = [] \<or> last (unpadded bs) \<noteq> CHR ''=''"
  by (induction bs rule: unpadded.induct) (auto simp: Let_def sextet_not_pad)

lemma trim_encode: "trim_end_matches (CHR ''='') (base64_encode bs) = unpadded bs"
proof -
  obtain k where k: "base64_encode bs = unpadded bs @ replicate k (CHR ''='')"
    using encode_unpadded by blast
  have "trim_end_matches (CHR ''='') (xs @ replicate k (CHR ''='')) = trim_end_matches (CHR ''='') xs" for xs
  proof -
    have "dropWhile (\<lambda>d. d = CHR ''='') (replicate k (CHR ''='') @ ys) = dropWhile (\<lambda>d. d = CHR ''='') ys" for ys
      by (induction k) auto
    then show ?thesis by (simp add: trim_end_matches_def)
  qed
  moreover have "trim_end_matches (CHR ''='') (unpadded bs) = unpadded bs"
    using trim_append [of "unpadded bs" "CHR ''=''" "[]"] unpadded_last [of bs]
    by (cases "unpadded bs = []") (auto simp: trim_end_matches_def)
  ultimately show ?thesis by (simp add: k)
qed

lemma decode_unpadded: "decode_chunks (unpadded bs) = Inr bs \<and> length (unpadded bs) mod 4 \<noteq> 1"
proof (induction bs rule: unpadded.induct)
  case (4 b0 b1 b2 rest)
  then show ?case
    by (subst decode_chunks.simps) (simp add: Let_def decode_full chunk_bytes_pack3 del: decode_chunk.simps)
qed (simp_all add: decode_chunks.simps Let_def decode_two decode_three chunk_bytes_pack3
       del: decode_chunk.simps)

text \<open>Decoding a payload that was stored with \<^verbatim>\<open>base64_encode\<close> returns its bytes.\<close>

theorem base64_roundtrip: "base64_decode (base64_encode bs) = Inr bs"
  using decode_unpadded [of bs] by (simp add: base64_decode_def Let_def trim_encode)

end
