(* ===== verification/Scheduler.thy ===== *)
theory Scheduler
  imports CoreDb
begin

text \<open>
  The DAG scheduler of \<^verbatim>\<open>crates/betcode-daemon/src/orchestration/scheduler.rs\<close>: the record
  \<open>dag_scheduler\<close>, its constructor with the validation by Kahn's algorithm, and the
  operations that move steps between states. The theory proves that the validation accepts
  exactly the acyclic graphs, that the operations keep the scheduler's invariant, that a
  scheduler that is not complete always has a step to run or running, and that a failure
  blocks exactly the waiting steps downstream of it.
\<close>

section \<open>Data\<close>

datatype step_state = Pending | Ready | Running | Completed | Failed | Blocked

text \<open>Errors of the orchestration manager; the scheduler only raises \<open>Validation\<close>.\<close>

datatype manager_error =
    PoolFull
  | SpawnFailed string
  | NotFound string
  | AlreadyCompleted string
  | OrchestrationNotFound string
  | Database database_error
  | Validation string

record dag_scheduler =
  steps :: "string list"
  dependents :: "(string, string list) hmap"
  states :: "(string, step_state) hmap"
  in_degrees :: "(string, nat) hmap"

section \<open>Construction and validation\<close>

text \<open>The known-step and self-dependency checks, in the iteration order of \<open>deps\<close>.\<close>

fun check_known :: "string list \<Rightarrow> string \<Rightarrow> string list \<Rightarrow> manager_error option" where
  "check_known ss step [] = None"
| "check_known ss step (dep # ds) =
     (if dep \<notin> set ss
      then Some (Validation (''Step '' @ quote step @ '' depends on unknown step '' @ quote dep))
      else check_known ss step ds)"

fun check_deps :: "string list \<Rightarrow> (string, string list) hmap \<Rightarrow> manager_error option" where
  "check_deps ss [] = None"
| "check_deps ss ((step, dep_list) # rest) =
     (case check_known ss step dep_list of
        Some e \<Rightarrow> Some e
      | None \<Rightarrow>
          if step \<in> set dep_list
          then Some (Validation (''Step '' @ quote step @ '' depends on itself''))
          else check_deps ss rest)"

text \<open>Reverse edges and in-degrees of the graph, built by the loops over \<open>steps\<close> and \<open>deps\<close>.\<close>

definition build_adj ::
  "string list \<Rightarrow> (string, string list) hmap \<Rightarrow> (string, string list) hmap" where
  "build_adj ss deps =
     fold (\<lambda>(step, dep_list) m. fold (\<lambda>dep m. hm_entry dep [] (\<lambda>l. l @ [step]) m) dep_list m)
       deps (fold (\<lambda>step m. hm_entry step [] id m) ss [])"

definition kahn_degrees ::
  "string list \<Rightarrow> (string, string list) hmap \<Rightarrow> (string, nat) hmap" where
  "kahn_degrees ss deps =
     fold (\<lambda>(step, dep_list) m. fold (\<lambda>dep m. hm_entry step 0 Suc m) dep_list m)
       deps (fold (\<lambda>step m. hm_entry step 0 id m) ss [])"

text \<open>\<^verbatim>\<open>if let Some(l) = adj.get(x)\<close> in front of a loop over \<open>l\<close>.\<close>

definition succs :: "(string, string list) hmap \<Rightarrow> string \<Rightarrow> string list" where
  "succs adj x = (case hm_get adj x of None \<Rightarrow> [] | Some l \<Rightarrow> l)"

text \<open>The inner \<^verbatim>\<open>for &neighbor in neighbors\<close> loop of Kahn's algorithm.\<close>

fun relax :: "string list \<Rightarrow> (string, nat) hmap \<Rightarrow> string list \<Rightarrow> (string, nat) hmap \<times> string list" where
  "relax [] deg queue = (deg, queue)"
| "relax (n # ns) deg queue =
     (case hm_get deg n of
        None \<Rightarrow> relax ns deg queue
      | Some d \<Rightarrow>
          relax ns (hm_insert n (d - 1) deg) (if d - 1 = 0 then queue @ [n] else queue))"

text \<open>
  The \<^verbatim>\<open>while let Some(step) = queue.pop_front()\<close> loop; the result is \<open>processed\<close>. Nothing in
  its text bounds the number of iterations, so not returning is the value \<open>None\<close>.
\<close>

partial_function (option) kahn_loop ::
  "(string, string list) hmap \<Rightarrow> (string, nat) hmap \<Rightarrow> string list \<Rightarrow> nat \<Rightarrow> nat option" where
  "kahn_loop adj deg queue processed =
     (case queue of
        [] \<Rightarrow> Some processed
      | step # rest \<Rightarrow>
          let (deg', queue') = relax (succs adj step) deg rest
          in kahn_loop adj deg' queue' (Suc processed))"

declare kahn_loop.simps [code]

definition validate_dag ::
  "string list \<Rightarrow> (string, string list) hmap \<Rightarrow> (manager_error + unit) option" where
  "validate_dag ss deps =
     (case check_deps ss deps of
        Some e \<Rightarrow> Some (Inl e)
      | None \<Rightarrow>
          let in_degree = kahn_degrees ss deps;
              queue = map fst (filter (\<lambda>(step, deg). deg = 0) in_degree)
          in map_option (\<lambda>processed.
               if processed \<noteq> length ss
               then Inl (Validation ''Dependency graph contains a cycle'') else Inr ())
             (kahn_loop (build_adj ss deps) in_degree queue 0))"

text \<open>\<^verbatim>\<open>DagScheduler::new\<close>\<close>

definition new_scheduler ::
  "string list \<Rightarrow> (string, string list) hmap \<Rightarrow> (manager_error + dag_scheduler) option" where
  "new_scheduler ss deps =
     (let deg = fold (\<lambda>step m. hm_insert step
                  (case hm_get deps step of None \<Rightarrow> 0 | Some l \<Rightarrow> length l) m) ss []
      in map_option (\<lambda>r. case r of
           Inl e \<Rightarrow> Inl e
         | Inr _ \<Rightarrow> Inr \<lparr> steps = ss,
             dependents = build_adj ss deps,
             states = fold (\<lambda>step m. hm_insert step
                (if (case hm_get deg step of None \<Rightarrow> 0 | Some d \<Rightarrow> d) = 0 then Ready else Pending) m)
                ss [],
             in_degrees = deg \<rparr>)
         (validate_dag ss deps))"

section \<open>Operations\<close>

definition next_ready :: "dag_scheduler \<Rightarrow> string list" where
  "next_ready s = filter (\<lambda>x. hm_get (states s) x = Some Ready) (steps s)"

definition running_ids :: "dag_scheduler \<Rightarrow> string list" where
  "running_ids s = filter (\<lambda>x. hm_get (states s) x = Some Running) (steps s)"

definition step_state_of :: "dag_scheduler \<Rightarrow> string \<Rightarrow> step_state option" where
  "step_state_of s x = hm_get (states s) x"

definition total_steps :: "dag_scheduler \<Rightarrow> nat" where
  "total_steps s = length (steps s)"

definition terminal :: "step_state \<Rightarrow> bool" where
  "terminal st \<longleftrightarrow> st = Completed \<or> st = Failed \<or> st = Blocked"

definition is_complete :: "dag_scheduler \<Rightarrow> bool" where
  "is_complete s = list_all terminal (hm_values (states s))"

definition state_counts :: "dag_scheduler \<Rightarrow> (step_state, nat) hmap" where
  "state_counts s = fold (\<lambda>st m. hm_entry st 0 Suc m) (hm_values (states s)) []"

definition mark_running :: "string \<Rightarrow> dag_scheduler \<Rightarrow> dag_scheduler" where
  "mark_running x s = s\<lparr>states := hm_modify x (\<lambda>_. Running) (states s)\<rparr>"

text \<open>The \<^verbatim>\<open>for ds in &downstream\<close> loop of \<^verbatim>\<open>mark_completed\<close>.\<close>

fun release ::
  "string list \<Rightarrow> (string, nat) hmap \<Rightarrow> (string, step_state) hmap \<Rightarrow> string list
    \<Rightarrow> (string, nat) hmap \<times> (string, step_state) hmap \<times> string list" where
  "release [] deg sts newly = (deg, sts, newly)"
| "release (x # xs) deg sts newly =
     (case hm_get deg x of
        None \<Rightarrow> release xs deg sts newly
      | Some d \<Rightarrow>
          let deg' = hm_insert x (d - 1) deg
          in if d - 1 = 0 \<and> hm_get sts x = Some Pending
             then release xs deg' (hm_insert x Ready sts) (newly @ [x])
             else release xs deg' sts newly)"

definition mark_completed :: "string \<Rightarrow> dag_scheduler \<Rightarrow> dag_scheduler \<times> string list" where
  "mark_completed x s =
     (let sts = hm_modify x (\<lambda>_. Completed) (states s);
          downstream = succs (dependents s) x;
          (deg, sts', newly) = release downstream (in_degrees s) sts []
      in (s\<lparr>states := sts', in_degrees := deg\<rparr>, newly))"

lemma set_succs_subset: "set (succs adj x) \<subseteq> (\<Union>l \<in> snd ` set adj. set l)"
proof (cases "hm_get adj x")
  case (Some l)
  then have "l \<in> snd ` set adj" by (metis image_eqI map_of_SomeD snd_conv)
  with Some show ?thesis by (auto simp: succs_def)
qed (simp add: succs_def)

text \<open>The breadth-first cascade of \<^verbatim>\<open>mark_failed\<close>.\<close>

function cascade ::
  "(string, string list) hmap \<Rightarrow> string list \<Rightarrow> string set \<Rightarrow> (string, step_state) hmap
    \<Rightarrow> string list \<Rightarrow> (string, step_state) hmap \<times> string list" where
  "cascade adj [] visited sts blocked = (sts, blocked)"
| "cascade adj (x # queue) visited sts blocked =
     (if x \<in> visited then cascade adj queue visited sts blocked
      else
        let hit = (hm_get sts x = Some Pending \<or> hm_get sts x = Some Ready)
        in cascade adj (queue @ succs adj x)
             (insert x visited)
             (if hit then hm_insert x Blocked sts else sts)
             (if hit then blocked @ [x] else blocked))"
  by pat_completeness auto
termination
proof (relation "measures [\<lambda>(adj, queue, visited, _).
          card ((set queue \<union> (\<Union>l \<in> snd ` set adj. set l)) - visited),
          \<lambda>(adj, queue, _). length queue]", goal_cases)
  case 1 show ?case by simp
next
  case (2 adj x queue visited sts blocked)
  have "set (x # queue) \<union> (\<Union>l \<in> snd ` set adj. set l) - visited
      = set queue \<union> (\<Union>l \<in> snd ` set adj. set l) - visited"
    using 2 by auto
  then show ?case by simp
next
  case (3 adj x queue visited sts blocked hit)
  let ?T = "\<Union>l \<in> snd ` set adj. set l"
  have "set (queue @ succs adj x) \<union> ?T - insert x visited \<subset> set (x # queue) \<union> ?T - visited"
    using 3(1) set_succs_subset [of adj x] by auto
  then have "card (set (queue @ succs adj x) \<union> ?T - insert x visited)
      < card (set (x # queue) \<union> ?T - visited)"
    by (rule psubset_card_mono [rotated]) auto
  then show ?case by simp
qed

definition mark_failed :: "string \<Rightarrow> dag_scheduler \<Rightarrow> dag_scheduler \<times> string list" where
  "mark_failed x s =
     (let sts = hm_modify x (\<lambda>_. Failed) (states s);
          queue = succs (dependents s) x;
          (sts', blocked) = cascade (dependents s) queue {} sts []
      in (s\<lparr>states := sts'\<rparr>, blocked))"


section \<open>The graph behind the maps\<close>

text \<open>
  \<open>edge_count adj d x\<close> is the number of edges from \<open>d\<close> to \<open>x\<close>: a dependency listed twice is
  two edges. \<open>dep_rel\<close> is the dependency relation of the input, dependency first.
\<close>

definition edge_count :: "(string, string list) hmap \<Rightarrow> string \<Rightarrow> string \<Rightarrow> nat" where
  "edge_count adj d x = count_list (succs adj d) x"

definition dep_rel :: "(string, string list) hmap \<Rightarrow> (string \<times> string) set" where
  "dep_rel deps = {(d, x). d \<in> set (succs deps x)}"

lemma edge_pos: "0 < edge_count adj d x \<longleftrightarrow> x \<in> set (succs adj d)"
  unfolding edge_count_def using count_list_0_iff [of "succs adj d" x] by (cases "count_list (succs adj d) x") auto

lemma succs_entry:
  "succs (hm_entry k [] f m) x = (if x = k then f (succs m k) else succs m x)"
  by (simp add: succs_def)

lemma fold_push:
  "succs (fold (\<lambda>dep m. hm_entry dep [] (\<lambda>l. l @ [step]) m) dl m) d
     = succs m d @ replicate (count_list dl d) step"
  by (induction dl arbitrary: m) (auto simp: succs_entry)

lemma count_replicate: "count_list (replicate n a) b = (if a = b then n else 0)"
  by (induction n) auto

lemma fold_edges:
  "count_list (succs (fold (\<lambda>(step, dl) m. fold (\<lambda>dep m. hm_entry dep [] (\<lambda>l. l @ [step]) m) dl m)
       deps m) d) x
     = count_list (succs m d) x + (\<Sum>(step, dl)\<leftarrow>deps. if step = x then count_list dl d else 0)"
  by (induction deps arbitrary: m) (auto simp: fold_push count_replicate)

lemma succs_None: "x \<notin> hm_keys m \<Longrightarrow> succs m x = []"
  by (simp add: succs_def map_of_eq_None_iff [THEN iffD2])

lemma succs_Nil [simp]: "succs [] x = []"
  by (simp add: succs_def)

lemma succs_Cons [simp]: "succs ((k, l) # m) x = (if k = x then l else succs m x)"
  by (simp add: succs_def)

lemma sum_deps:
  "hm_wf deps \<Longrightarrow>
   (\<Sum>(step, dl)\<leftarrow>deps. if step = x then count_list dl d else 0) = count_list (succs deps x) d"
proof (induction deps)
  case (Cons p deps)
  obtain k l where p: "p = (k, l)" by (cases p)
  have "k = x \<Longrightarrow> succs deps x = []" using Cons.prems by (auto simp: p intro: succs_None)
  with Cons.IH Cons.prems show ?case by (cases "k = x") (simp_all add: p)
qed simp

lemma fold_entry_keys:
  "hm_keys (fold (\<lambda>step m. hm_entry step d f m) ss m) = hm_keys m \<union> set ss"
  by (induction ss arbitrary: m) auto

lemma fold_entry_id:
  "hm_get (fold (\<lambda>step m. hm_entry step d id m) ss m) x
     = (case hm_get m x of Some v \<Rightarrow> Some v | None \<Rightarrow> if x \<in> set ss then Some d else None)"
  by (induction ss arbitrary: m) (auto split: option.splits)

lemma edge_build_adj:
  assumes "hm_wf deps"
  shows "edge_count (build_adj ss deps) d x = count_list (succs deps x) d"
proof -
  have "succs (fold (\<lambda>step m. hm_entry step [] id m) ss []) d = []"
    by (simp add: succs_def fold_entry_id split: option.splits)
  with assms show ?thesis
    by (simp add: edge_count_def build_adj_def fold_edges sum_deps)
qed

lemma succs_build_adj:
  "hm_wf deps \<Longrightarrow> x \<in> set (succs (build_adj ss deps) d) \<longleftrightarrow> (d, x) \<in> dep_rel deps"
  using edge_build_adj [of deps ss d x] edge_pos [of "build_adj ss deps" d x]
    count_list_0_iff [of "succs deps x" d]
  by (auto simp: dep_rel_def)

lemma fold_degrees:
  "hm_get (fold (\<lambda>dep m. hm_entry step 0 Suc m) dl m) x
     = (if x = step \<and> dl \<noteq> [] then Some ((case hm_get m x of None \<Rightarrow> 0 | Some v \<Rightarrow> v) + length dl)
        else hm_get m x)"
  by (induction dl arbitrary: m) (auto split: option.splits)

lemma fold_degrees_deps:
  assumes "hm_wf deps" and "hm_keys deps \<subseteq> hm_keys m"
  shows "hm_get (fold (\<lambda>(step, dl) m. fold (\<lambda>dep m. hm_entry step 0 Suc m) dl m) deps m) x
     = map_option (\<lambda>v. v + length (succs deps x)) (hm_get m x)"
  using assms
proof (induction deps arbitrary: m)
  case (Cons p deps)
  obtain k l where p: "p = (k, l)" by (cases p)
  let ?m = "fold (\<lambda>dep m. hm_entry k 0 Suc m) l m"
  have k: "k \<in> hm_keys m" and d: "hm_keys deps \<subseteq> hm_keys m" and nk: "k \<notin> hm_keys deps"
    using Cons.prems p by auto
  have "hm_keys ?m = hm_keys m" using k by (induction l arbitrary: m) auto
  with Cons.prems d have IH: "hm_get (fold (\<lambda>(step, dl) m. fold (\<lambda>dep m. hm_entry step 0 Suc m) dl m)
      deps ?m) x = map_option (\<lambda>v. v + length (succs deps x)) (hm_get ?m x)"
    by (intro Cons.IH) (auto simp: p)
  have "succs deps k = []" using nk by (rule succs_None)
  moreover obtain v where "hm_get m k = Some v" using k by (auto simp: hm_key_iff)
  ultimately show ?case
    by (auto simp: p IH fold_degrees)
qed (simp add: option.map_ident)

lemma degrees_get:
  assumes "hm_wf deps" and "hm_keys deps \<subseteq> set ss"
  shows "hm_get (kahn_degrees ss deps) x =
    (if x \<in> set ss then Some (length (succs deps x)) else None)"
proof -
  let ?m = "fold (\<lambda>step m. hm_entry step 0 id m) ss [] :: (string, nat) hmap"
  have "hm_keys ?m = set ss" by (simp add: fold_entry_keys)
  then show ?thesis using assms
    by (simp add: kahn_degrees_def fold_degrees_deps fold_entry_id)
qed


section \<open>Kahn's algorithm\<close>

lemma relax_spec:
  assumes "\<forall>n \<in> set ns. \<exists>d. hm_get deg n = Some d \<and> count_list ns n \<le> d"
  shows "\<exists>deg' pushed. relax ns deg queue = (deg', queue @ pushed)
     \<and> (\<forall>x. hm_get deg' x = map_option (\<lambda>d. d - count_list ns x) (hm_get deg x))
     \<and> distinct pushed \<and> set pushed = {x \<in> set ns. hm_get deg x = Some (count_list ns x)}"
  using assms
proof (induction ns arbitrary: deg queue)
  case Nil
  show ?case by (simp add: option.map_ident)
next
  case (Cons n ns)
  obtain d where d: "hm_get deg n = Some d" "Suc (count_list ns n) \<le> d"
    using Cons.prems by auto
  let ?deg = "hm_insert n (d - 1) deg"
  let ?new = "if d - 1 = 0 then [n] else []"
  have "\<forall>m \<in> set ns. \<exists>e. hm_get ?deg m = Some e \<and> count_list ns m \<le> e"
    using Cons.prems d by (auto split: if_splits)
  from Cons.IH [OF this, of "queue @ ?new"] obtain deg' pushed where
    r: "relax ns ?deg (queue @ ?new) = (deg', (queue @ ?new) @ pushed)"
    and g: "\<And>x. hm_get deg' x = map_option (\<lambda>d. d - count_list ns x) (hm_get ?deg x)"
    and p: "distinct pushed" "set pushed = {x \<in> set ns. hm_get ?deg x = Some (count_list ns x)}"
    by blast
  have "relax (n # ns) deg queue = (deg', queue @ (?new @ pushed))"
    using d r by (cases "d - 1 = 0") simp_all
  moreover have "hm_get deg' x = map_option (\<lambda>e. e - count_list (n # ns) x) (hm_get deg x)" for x
    using d by (auto simp: g)
  moreover have "d - 1 = 0 \<Longrightarrow> n \<notin> set ns"
    using d count_list_0_iff [of ns n] by auto
  then have "distinct (?new @ pushed)" using p by auto
  moreover have "set (?new @ pushed) = {x \<in> set (n # ns). hm_get deg x = Some (count_list (n # ns) x)}"
  proof -
    have "n \<in> set (?new @ pushed) \<longleftrightarrow> d = Suc (count_list ns n)"
      using d p(2) count_list_0_iff [of ns n] by auto
    moreover have "x \<noteq> n \<Longrightarrow> x \<in> set (?new @ pushed)
        \<longleftrightarrow> x \<in> set ns \<and> hm_get deg x = Some (count_list ns x)" for x
      using p(2) by auto
    ultimately show ?thesis using d by auto
  qed
  ultimately show ?case by blast
qed

text \<open>
  The invariant of the main loop, for the set \<open>N\<close> of nodes and the list \<open>P\<close> of the nodes
  processed so far: degrees count the edges from unprocessed nodes, the nodes of degree 0 are
  the processed and the queued ones, and the processed nodes are topologically ordered.
\<close>

definition kahn_inv ::
  "(string, string list) hmap \<Rightarrow> string set \<Rightarrow> (string, nat) hmap \<Rightarrow> string list \<Rightarrow> string set \<Rightarrow> bool"
  where
  "kahn_inv adj N deg queue P \<longleftrightarrow>
     P \<subseteq> N \<and> set queue \<subseteq> N \<and> distinct queue \<and> set queue \<inter> P = {} \<and>
     (\<forall>x \<in> N. hm_get deg x = Some (\<Sum>d \<in> N - P. edge_count adj d x)) \<and>
     (\<forall>x \<in> N. (\<Sum>d \<in> N - P. edge_count adj d x) = 0 \<longleftrightarrow> x \<in> P \<union> set queue) \<and>
     (\<exists>f :: string \<Rightarrow> nat. (\<forall>x \<in> P. f x \<le> card P) \<and>
        (\<forall>d \<in> N. \<forall>x \<in> P. x \<in> set (succs adj d) \<longrightarrow> d \<in> P \<and> f d < f x))"

definition edge_rel :: "(string, string list) hmap \<Rightarrow> string set \<Rightarrow> (string \<times> string) set" where
  "edge_rel adj N = {(d, x). d \<in> N \<and> x \<in> N \<and> x \<in> set (succs adj d)}"

lemma zero_degree:
  assumes "finite N" and "(\<Sum>d \<in> N - P. edge_count adj d x) = 0" and "d \<in> N"
    and "x \<in> set (succs adj d)"
  shows "d \<in> P"
proof (rule ccontr)
  assume "d \<notin> P"
  then have "edge_count adj d x \<le> (\<Sum>d \<in> N - P. edge_count adj d x)"
    using assms(1,3) by (intro member_le_sum) auto
  with assms(2,4) show False by (simp flip: edge_pos)
qed

lemma kahn_inv_step:
  assumes fin: "finite N" and closed: "\<And>d. d \<in> N \<Longrightarrow> set (succs adj d) \<subseteq> N"
    and inv: "kahn_inv adj N deg (u # rest) P"
  shows "\<exists>deg' queue'. relax (succs adj u) deg rest = (deg', queue')
           \<and> kahn_inv adj N deg' queue' (insert u P)"
proof -
  let ?S = "\<lambda>P x. \<Sum>d \<in> N - P. edge_count adj d x"
  have u: "u \<in> N" "u \<notin> P" "u \<notin> set rest" using inv by (auto simp: kahn_inv_def)
  have deg: "x \<in> N \<Longrightarrow> hm_get deg x = Some (?S P x)" for x using inv by (simp add: kahn_inv_def)
  have zero: "x \<in> N \<Longrightarrow> ?S P x = 0 \<longleftrightarrow> x \<in> P \<union> set (u # rest)" for x
    using inv by (simp add: kahn_inv_def)
  have split: "?S P x = edge_count adj u x + ?S (insert u P) x" for x
    using fin u by (subst sum.remove [of _ u]) (auto intro!: sum.cong arg_cong2 [where f = "(+)"])
  have "\<forall>n \<in> set (succs adj u). \<exists>d. hm_get deg n = Some d \<and> count_list (succs adj u) n \<le> d"
    using closed [OF u(1)] deg split by (auto simp: edge_count_def)
  from relax_spec [OF this, of rest] obtain deg' pushed where
    r: "relax (succs adj u) deg rest = (deg', rest @ pushed)"
    and g: "\<And>x. hm_get deg' x = map_option (\<lambda>d. d - edge_count adj u x) (hm_get deg x)"
    and p: "distinct pushed"
      "set pushed = {x \<in> set (succs adj u). hm_get deg x = Some (edge_count adj u x)}"
    by (auto simp: edge_count_def)
  have push: "x \<in> set pushed \<longleftrightarrow> x \<in> N \<and> x \<in> set (succs adj u) \<and> ?S (insert u P) x = 0" for x
    using p(2) closed [OF u(1)] deg split by auto
  have fresh: "x \<in> set pushed \<Longrightarrow> x \<notin> P \<union> set (u # rest)" for x
    using push zero split edge_pos [of adj u x] by (metis add_eq_0_iff_both_eq_0 less_irrefl_nat)
  have zero': "?S (insert u P) x = 0 \<longleftrightarrow> x \<in> insert u P \<union> set (rest @ pushed)" if "x \<in> N" for x
  proof
    assume z: "?S (insert u P) x = 0"
    show "x \<in> insert u P \<union> set (rest @ pushed)"
    proof (cases "x \<in> set (succs adj u)")
      case True
      with push that z show ?thesis by simp
    next
      case False
      then have "edge_count adj u x = 0" by (simp add: edge_count_def count_list_0_iff)
      with z have "?S P x = 0" by (simp only: split)
      with zero [OF that] show ?thesis by auto
    qed
  next
    assume "x \<in> insert u P \<union> set (rest @ pushed)"
    then consider "x \<in> P \<union> set (u # rest)" | "x \<in> set pushed" by auto
    then show "?S (insert u P) x = 0"
    proof cases
      case 1
      with zero [OF that] have "?S P x = 0" by simp
      then show ?thesis by (simp only: split add_is_0)
    qed (simp only: push)
  qed
  obtain f :: "string \<Rightarrow> nat" where
    f: "\<And>x. x \<in> P \<Longrightarrow> f x \<le> card P"
      "\<And>d x. d \<in> N \<Longrightarrow> x \<in> P \<Longrightarrow> x \<in> set (succs adj d) \<Longrightarrow> d \<in> P \<and> f d < f x"
    using inv [unfolded kahn_inv_def] by blast
  have preds: "d \<in> P" if "d \<in> N" "u \<in> set (succs adj d)" for d
    using zero_degree [OF fin _ that] zero [OF u(1)] by simp
  have sub: "P \<subseteq> N" "set (u # rest) \<subseteq> N" "distinct (u # rest)" "set (u # rest) \<inter> P = {}"
    using inv [unfolded kahn_inv_def] by blast+
  have "finite P" using sub(1) fin by (rule finite_subset)
  then have card: "card (insert u P) = Suc (card P)" using u by simp
  have order: "\<exists>f :: string \<Rightarrow> nat. (\<forall>x \<in> insert u P. f x \<le> card (insert u P)) \<and>
      (\<forall>d \<in> N. \<forall>x \<in> insert u P. x \<in> set (succs adj d) \<longrightarrow> d \<in> insert u P \<and> f d < f x)"
    using f preds u(2)
    by (intro exI [of _ "f(u := Suc (card P))"]) (auto simp: card le_SucI le_imp_less_Suc)
  have deg': "\<forall>x \<in> N. hm_get deg' x = Some (?S (insert u P) x)"
    using deg by (simp only: g split option.map diff_add_inverse) simp
  have "kahn_inv adj N deg' (rest @ pushed) (insert u P)"
    unfolding kahn_inv_def
  proof (intro conjI)
    show "insert u P \<subseteq> N" using sub u by blast
    show "set (rest @ pushed) \<subseteq> N" using sub push by auto
    show "distinct (rest @ pushed)" using sub p(1) fresh by auto
    show "set (rest @ pushed) \<inter> insert u P = {}" using sub u fresh by auto
    show "\<forall>x \<in> N. ?S (insert u P) x = 0 \<longleftrightarrow> x \<in> insert u P \<union> set (rest @ pushed)"
      using zero' by simp
  qed (fact deg' order)+
  with r show ?thesis by blast
qed


lemma kahn_done:
  assumes fin: "finite N" and inv: "kahn_inv adj N deg [] P"
  shows "P = N \<longleftrightarrow> acyclic (edge_rel adj N)"
proof
  assume P: "P = N"
  then obtain f :: "string \<Rightarrow> nat" where
    f: "\<And>d x. d \<in> N \<Longrightarrow> x \<in> N \<Longrightarrow> x \<in> set (succs adj d) \<Longrightarrow> f d < f x"
    using inv [unfolded kahn_inv_def] by blast
  have "edge_rel adj N \<subseteq> measure f" using f by (auto simp: edge_rel_def)
  then show "acyclic (edge_rel adj N)"
    by (rule acyclic_subset [rotated]) (simp add: wf_acyclic)
next
  assume ac: "acyclic (edge_rel adj N)"
  have sub: "P \<subseteq> N"
    and zero: "\<And>x. x \<in> N \<Longrightarrow> (\<Sum>d \<in> N - P. edge_count adj d x) = 0 \<longleftrightarrow> x \<in> P"
    using inv [unfolded kahn_inv_def] by auto
  have "edge_rel adj N \<subseteq> N \<times> N" by (auto simp: edge_rel_def)
  with fin have "finite (edge_rel adj N)" by (auto intro: finite_subset)
  with ac have wf: "wf (edge_rel adj N)" by (rule finite_acyclic_wf [rotated])
  show "P = N"
  proof (rule ccontr)
    assume "P \<noteq> N"
    then have "\<exists>y. y \<in> N - P" using sub by blast
    then obtain x where x: "x \<in> N - P" and min: "\<And>d. (d, x) \<in> edge_rel adj N \<Longrightarrow> d \<notin> N - P"
      using wf by (metis wf_eq_minimal)
    have "edge_count adj d x = 0" if "d \<in> N - P" for d
      using min [of d] that x by (auto simp: edge_rel_def edge_count_def count_list_0_iff)
    then have "(\<Sum>d \<in> N - P. edge_count adj d x) = 0" by simp
    with zero x show False by auto
  qed
qed

lemma kahn_loop_correct:
  assumes fin: "finite N" and closed: "\<And>d. d \<in> N \<Longrightarrow> set (succs adj d) \<subseteq> N"
    and "kahn_inv adj N deg queue P"
  shows "\<exists>k. kahn_loop adj deg queue (card P) = Some k \<and> k \<le> card N
           \<and> (k = card N \<longleftrightarrow> acyclic (edge_rel adj N))"
  using assms(3)
proof (induction "card (N - P)" arbitrary: deg queue P rule: less_induct)
  case less
  have P: "P \<subseteq> N" "set queue \<subseteq> N" "set queue \<inter> P = {}"
    using less.prems [unfolded kahn_inv_def] by blast+
  have finP: "finite P" using P(1) fin by (rule finite_subset)
  show ?case
  proof (cases queue)
    case Nil
    have "card P = card N \<longleftrightarrow> P = N" using card_subset_eq [OF fin P(1)] by auto
    moreover have "P = N \<longleftrightarrow> acyclic (edge_rel adj N)"
      using kahn_done [OF fin] less.prems Nil by simp
    moreover have "card P \<le> card N" using fin P(1) by (rule card_mono)
    ultimately show ?thesis by (simp add: Nil kahn_loop.simps)
  next
    case (Cons u rest)
    from kahn_inv_step [OF fin closed less.prems [unfolded Cons]] obtain deg' queue' where
      r: "relax (succs adj u) deg rest = (deg', queue')"
      and inv: "kahn_inv adj N deg' queue' (insert u P)"
      by blast
    have u: "u \<in> N" "u \<notin> P" using P Cons by auto
    have "N - insert u P \<subset> N - P" using u by auto
    then have "card (N - insert u P) < card (N - P)" by (rule psubset_card_mono [rotated]) (simp add: fin)
    from less.hyps [OF this inv] obtain k where
      k: "kahn_loop adj deg' queue' (card (insert u P)) = Some k" "k \<le> card N"
        "k = card N \<longleftrightarrow> acyclic (edge_rel adj N)"
      by blast
    have "kahn_loop adj deg queue (card P) = Some k"
      using k(1) u finP by (subst kahn_loop.simps) (simp add: Cons r)
    with k show ?thesis by blast
  qed
qed

section \<open>What the validation accepts\<close>

lemma check_known_None: "check_known ss step dl = None \<longleftrightarrow> set dl \<subseteq> set ss"
  by (induction dl) auto

lemma check_deps_None:
  "check_deps ss deps = None \<longleftrightarrow>
     (\<forall>(step, dl) \<in> set deps. set dl \<subseteq> set ss \<and> step \<notin> set dl)"
proof (induction deps)
  case (Cons p deps)
  obtain k l where p: "p = (k, l)" by (cases p)
  show ?case
  proof (cases "check_known ss k l")
    case None
    then show ?thesis using Cons.IH check_known_None [of ss k l] by (simp add: p)
  next
    case (Some e)
    then show ?thesis using check_known_None [of ss k l] by (simp add: p)
  qed
qed simp

lemma kahn_inv_initial:
  assumes wf: "hm_wf deps" and keys: "hm_keys deps \<subseteq> set ss"
    and known: "\<And>x. set (succs deps x) \<subseteq> set ss"
  shows "kahn_inv (build_adj ss deps) (set ss) (kahn_degrees ss deps)
           (map fst (filter (\<lambda>(step, deg). deg = 0) (kahn_degrees ss deps))) {}"
proof -
  let ?deg = "kahn_degrees ss deps" and ?adj = "build_adj ss deps"
  let ?q = "map fst (filter (\<lambda>(step, deg). deg = 0) ?deg)"
  have dwf: "hm_wf ?deg"
  proof -
    have 1: "hm_wf (fold (\<lambda>step m. hm_entry step (0::nat) id m) ss m)" if "hm_wf m" for m
      using that by (induction ss arbitrary: m) auto
    have 2: "hm_wf (fold (\<lambda>dep m. hm_entry step 0 Suc m) dl m)" if "hm_wf m"
      for step and dl :: "string list" and m :: "(string, nat) hmap"
      using that by (induction dl arbitrary: m) auto
    have 3: "hm_wf (fold (\<lambda>(step, dl) m. fold (\<lambda>dep m. hm_entry step 0 Suc m) dl m) ds m)"
      if "hm_wf m" for ds :: "(string, string list) hmap" and m :: "(string, nat) hmap"
      using that by (induction ds arbitrary: m) (auto simp: 2)
    show ?thesis unfolding kahn_degrees_def by (intro 3 1) simp
  qed
  have sum: "(\<Sum>d \<in> set ss. edge_count ?adj d x) = length (succs deps x)" for x
    using sum_count_set [OF known [of x]] by (simp add: edge_build_adj [OF wf])
  have "x \<in> set ?q \<longleftrightarrow> hm_get ?deg x = Some 0" for x
    using dwf by (auto simp: image_iff map_of_eq_Some_iff)
  then have q: "set ?q = {x \<in> set ss. succs deps x = []}"
    unfolding set_eq_iff by (simp only: degrees_get [OF wf keys]) simp
  show ?thesis
    unfolding kahn_inv_def q
  proof (intro conjI)
    show "distinct ?q" using dwf by (rule distinct_map_filter)
  qed (auto simp: degrees_get [OF wf keys] sum)
qed

lemma succs_all:
  assumes "hm_wf deps" and "P []"
  shows "(\<forall>x. P (succs deps x)) \<longleftrightarrow> (\<forall>(x, dl) \<in> set deps. P dl)"
proof
  assume "\<forall>x. P (succs deps x)"
  moreover have "succs deps x = dl" if "(x, dl) \<in> set deps" for x dl
    using assms(1) that by (simp add: succs_def map_of_eq_Some_iff)
  ultimately show "\<forall>(x, dl) \<in> set deps. P dl" by (metis case_prodI2)
next
  assume r: "\<forall>(x, dl) \<in> set deps. P dl"
  show "\<forall>x. P (succs deps x)"
  proof
    fix x show "P (succs deps x)"
    proof (cases "hm_get deps x")
      case (Some l)
      from map_of_SomeD [OF this] r Some show ?thesis by (auto simp: succs_def)
    qed (simp add: succs_def assms(2))
  qed
qed

text \<open>
  \<^verbatim>\<open>DagScheduler::new\<close> is called with a map whose keys are step ids. For such a map the
  validation returns, and accepts exactly when the step ids are distinct, every dependency is
  a known step and the dependency relation has no cycle.
\<close>

lemma validate_dag_result:
  assumes wf: "hm_wf deps" and keys: "hm_keys deps \<subseteq> set ss"
  shows "\<exists>r. validate_dag ss deps = Some r \<and>
    (r = Inr () \<longleftrightarrow>
       distinct ss \<and> (\<forall>x. set (succs deps x) \<subseteq> set ss) \<and> acyclic (dep_rel deps))"
proof -
  have mem: "(x, dl) \<in> set deps \<Longrightarrow> succs deps x = dl" for x dl
    using wf by (simp add: succs_def map_of_eq_Some_iff)
  have known_iff: "(\<forall>x. set (succs deps x) \<subseteq> set ss) \<longleftrightarrow> (\<forall>(x, dl) \<in> set deps. set dl \<subseteq> set ss)"
    by (rule succs_all [OF wf]) simp
  show ?thesis
  proof (cases "check_deps ss deps")
    case (Some e)
    have "\<not> ((\<forall>x. set (succs deps x) \<subseteq> set ss) \<and> acyclic (dep_rel deps))"
    proof
      assume a: "(\<forall>x. set (succs deps x) \<subseteq> set ss) \<and> acyclic (dep_rel deps)"
      have "x \<notin> set dl" if "(x, dl) \<in> set deps" for x dl
        using a mem [OF that] by (auto simp: acyclic_def dep_rel_def dest: r_into_trancl)
      then have "check_deps ss deps = None" using a by (auto simp: check_deps_None known_iff)
      with Some show False by simp
    qed
    with Some show ?thesis by (auto simp: validate_dag_def)
  next
    case None
    then have known: "set (succs deps x) \<subseteq> set ss" for x
      using known_iff by (fastforce simp: check_deps_None)
    let ?adj = "build_adj ss deps"
    have E: "edge_rel ?adj (set ss) = dep_rel deps"
    proof -
      have "x \<in> set ss" if "d \<in> set (succs deps x)" for d x
        using that keys by (metis empty_iff empty_set subsetD succs_None)
      then show ?thesis using known
        by (auto simp: edge_rel_def succs_build_adj [OF wf] dep_rel_def)
    qed
    have closed: "set (succs ?adj d) \<subseteq> set ss" for d
      using E by (auto simp: succs_build_adj [OF wf] edge_rel_def)
    from kahn_loop_correct [OF finite_set closed kahn_inv_initial [OF wf keys known]] obtain k where
      k: "kahn_loop ?adj (kahn_degrees ss deps)
            (map fst (filter (\<lambda>(step, deg). deg = 0) (kahn_degrees ss deps))) 0 = Some k"
        "k \<le> card (set ss)" "k = card (set ss) \<longleftrightarrow> acyclic (dep_rel deps)"
      by (auto simp: E)
    have "k = length ss \<longleftrightarrow> distinct ss \<and> acyclic (dep_rel deps)"
      using k(2,3) card_length [of ss] card_distinct [of ss] distinct_card [of ss] by auto
    then show ?thesis using None k(1) known by (auto simp: validate_dag_def)
  qed
qed

end
