(* ===== verification/SchedulerRun.thy ===== *)
theory SchedulerRun
  imports Scheduler
begin

text \<open>
  Runs of the DAG scheduler. \<open>sched_step\<close> is the protocol the orchestration manager follows:
  a ready step is marked running or, when its subagent cannot be spawned, failed, and a running
  step is marked completed or failed. The theory proves the scheduler's invariant for every run, from which follow the safety of the
  order (no step runs before its dependencies), progress, termination, and the exact set of
  steps that a failure blocks.
\<close>

section \<open>Effect of the two loops\<close>

lemma release_spec:
  assumes "\<forall>x \<in> set xs. \<exists>d. hm_get deg x = Some d \<and> count_list xs x \<le> d"
  shows "\<exists>deg' sts' pushed. release xs deg sts newly = (deg', sts', newly @ pushed)
     \<and> (\<forall>x. hm_get deg' x = map_option (\<lambda>d. d - count_list xs x) (hm_get deg x))
     \<and> distinct pushed
     \<and> set pushed = {x \<in> set xs. hm_get deg x = Some (count_list xs x) \<and> hm_get sts x = Some Pending}
     \<and> (\<forall>x. hm_get sts' x = (if x \<in> set pushed then Some Ready else hm_get sts x))
     \<and> (hm_wf sts \<longrightarrow> hm_wf sts')"
  using assms
proof (induction xs arbitrary: deg sts newly)
  case (Cons y xs)
  obtain d where d: "hm_get deg y = Some d" "Suc (count_list xs y) \<le> d"
    using Cons.prems by auto
  let ?deg = "hm_insert y (d - 1) deg"
  have pre: "\<forall>x \<in> set xs. \<exists>d. hm_get ?deg x = Some d \<and> count_list xs x \<le> d"
    using Cons.prems d by fastforce
  define hit where "hit \<longleftrightarrow> d - 1 = 0 \<and> hm_get sts y = Some Pending"
  have last: "hit \<Longrightarrow> y \<notin> set xs" using d by (simp add: hit_def flip: count_list_0_iff)
  let ?sts = "if hit then hm_insert y Ready sts else sts"
  let ?new = "if hit then newly @ [y] else newly"
  obtain deg' sts' pushed where r: "release xs ?deg ?sts ?new = (deg', sts', ?new @ pushed)"
    and deg': "\<And>x. hm_get deg' x = map_option (\<lambda>d. d - count_list xs x) (hm_get ?deg x)"
    and dist: "distinct pushed"
    and set: "set pushed = {x \<in> set xs. hm_get ?deg x = Some (count_list xs x) \<and> hm_get ?sts x = Some Pending}"
    and sts': "\<And>x. hm_get sts' x = (if x \<in> set pushed then Some Ready else hm_get ?sts x)"
    and wf: "hm_wf ?sts \<longrightarrow> hm_wf sts'"
    using Cons.IH [OF pre, of ?sts ?new] by blast
  let ?pushed = "if hit then y # pushed else pushed"
  have "release (y # xs) deg sts newly = (deg', sts', newly @ ?pushed)"
    using r d(1) by (auto simp: hit_def Let_def)
  moreover have "hm_get deg' x = map_option (\<lambda>d. d - count_list (y # xs) x) (hm_get deg x)" for x
    using d(1) by (simp add: deg')
  moreover have "distinct ?pushed" using dist set last by auto
  moreover have "set ?pushed = {x \<in> set (y # xs). hm_get deg x = Some (count_list (y # xs) x)
      \<and> hm_get sts x = Some Pending}"
    using d last by (auto simp: set hit_def count_list_0_iff)
  moreover have "hm_get sts' x = (if x \<in> set ?pushed then Some Ready else hm_get sts x)" for x
    by (auto simp: sts')
  moreover have "hm_wf sts \<longrightarrow> hm_wf sts'" using wf by (auto split: if_splits)
  ultimately show ?case by blast
qed (simp add: option.map_ident)

definition succ_rel :: "(string, string list) hmap \<Rightarrow> (string \<times> string) set" where
  "succ_rel adj = {(d, x). x \<in> set (succs adj d)}"

definition below :: "(string, string list) hmap \<Rightarrow> string set \<Rightarrow> string set" where
  "below adj Q = {y. \<exists>q \<in> Q. (q, y) \<in> (succ_rel adj)\<^sup>*}"

lemma below_visited:
  assumes closed: "\<And>v. v \<in> V \<Longrightarrow> set (succs adj v) \<subseteq> V \<union> Q"
  shows "below adj V \<subseteq> V \<union> below adj Q"
proof -
  have "y \<in> V \<or> (\<exists>q \<in> Q. (q, y) \<in> (succ_rel adj)\<^sup>*)" if "(v, y) \<in> (succ_rel adj)\<^sup>*" "v \<in> V" for v y
    using that
  proof (induction rule: rtrancl_induct)
    case (step y z)
    then show ?case using closed by (auto simp: succ_rel_def intro: rtrancl.intros)
  qed simp
  then show ?thesis by (auto simp: below_def)
qed

lemma below_pop:
  assumes "\<And>v. v \<in> V \<Longrightarrow> set (succs adj v) \<subseteq> V \<union> set (x # queue)"
  shows "x \<in> V \<Longrightarrow> below adj (set (x # queue)) - V = below adj (set queue) - V"
    and "x \<notin> V \<Longrightarrow> below adj (set (x # queue)) - V
           = insert x (below adj (set (queue @ succs adj x)) - insert x V)"
proof -
  have ins: "below adj (set (x # queue)) = below adj {x} \<union> below adj (set queue)"
    by (auto simp: below_def)
  show "below adj (set (x # queue)) - V = below adj (set queue) - V" if x: "x \<in> V"
  proof -
    have "below adj V \<subseteq> V \<union> below adj (set queue)"
      using assms x by (intro below_visited) auto
    moreover have "below adj {x} \<subseteq> below adj V" using x by (auto simp: below_def)
    ultimately show ?thesis unfolding ins by blast
  qed
  have "below adj {x} = insert x (below adj (set (succs adj x)))"
  proof -
    have "(x, y) \<in> (succ_rel adj)\<^sup>* \<longleftrightarrow> y = x \<or> (\<exists>q \<in> set (succs adj x). (q, y) \<in> (succ_rel adj)\<^sup>*)" for y
      by (auto simp: succ_rel_def elim: converse_rtranclE intro: converse_rtrancl_into_rtrancl)
    then show ?thesis by (auto simp: below_def)
  qed
  then show "x \<notin> V \<Longrightarrow> below adj (set (x # queue)) - V
      = insert x (below adj (set (queue @ succs adj x)) - insert x V)"
    unfolding ins by (auto simp: below_def)
qed

definition waiting :: "(string, step_state) hmap \<Rightarrow> string set" where
  "waiting sts = {y. hm_get sts y = Some Pending \<or> hm_get sts y = Some Ready}"

lemma cascade_spec:
  assumes "\<And>v. v \<in> V \<Longrightarrow> set (succs adj v) \<subseteq> V \<union> set queue"
  shows "\<exists>sts' bl. cascade adj queue V sts blocked = (sts', blocked @ bl) \<and> distinct bl
     \<and> set bl = (below adj (set queue) - V) \<inter> waiting sts
     \<and> (\<forall>y. hm_get sts' y = (if y \<in> set bl then Some Blocked else hm_get sts y))
     \<and> (hm_wf sts \<longrightarrow> hm_wf sts')"
  using assms
proof (induction adj queue V sts blocked rule: cascade.induct)
  case (1 adj V sts blocked)
  then show ?case by (simp add: below_def)
next
  case (2 adj x queue V sts blocked)
  show ?case
  proof (cases "x \<in> V")
    case True
    have "\<And>v. v \<in> V \<Longrightarrow> set (succs adj v) \<subseteq> V \<union> set queue" using 2(3) True by auto
    from "2.IH"(1) [OF True this] show ?thesis
      using True below_pop(1) [OF "2.prems" True] by simp
  next
    case False
    define hit where "hit \<longleftrightarrow> hm_get sts x = Some Pending \<or> hm_get sts x = Some Ready"
    let ?sts = "if hit then hm_insert x Blocked sts else sts"
    let ?bl = "if hit then blocked @ [x] else blocked"
    have closed: "\<And>v. v \<in> insert x V \<Longrightarrow> set (succs adj v) \<subseteq> insert x V \<union> set (queue @ succs adj x)"
      using 2(3) by fastforce
    from "2.IH"(2) [OF False hit_def closed] obtain sts' bl where
      c: "cascade adj (queue @ succs adj x) (insert x V) ?sts ?bl = (sts', ?bl @ bl)"
      and bl: "distinct bl" "set bl = (below adj (set (queue @ succs adj x)) - insert x V) \<inter> waiting ?sts"
      and sts': "\<And>y. hm_get sts' y = (if y \<in> set bl then Some Blocked else hm_get ?sts y)"
      and wf: "hm_wf ?sts \<longrightarrow> hm_wf sts'"
      by blast
    have pop: "below adj (set (x # queue)) - V
        = insert x (below adj (set (queue @ succs adj x)) - insert x V)"
      using "2.prems" False by (rule below_pop(2))
    let ?bl' = "if hit then x # bl else bl"
    have "cascade adj (x # queue) V sts blocked = (sts', blocked @ ?bl')"
      using False c by (auto simp: Let_def hit_def)
    moreover have "set ?bl' = (below adj (set (x # queue)) - V) \<inter> waiting sts"
      by (simp only: pop) (auto simp: bl(2) waiting_def hit_def)
    moreover have "distinct ?bl'" using bl by auto
    moreover have "hm_get sts' y = (if y \<in> set ?bl' then Some Blocked else hm_get sts y)" for y
      by (auto simp: sts')
    moreover have "hm_wf sts \<longrightarrow> hm_wf sts'" using wf by (auto split: if_splits)
    ultimately show ?thesis by blast
  qed
qed

section \<open>The invariant\<close>

text \<open>
  \<open>open_deps s x\<close> counts the dependency edges into \<open>x\<close> whose source is not completed. The
  invariant ties the stored in-degree to that count, and the state of a step to the states of
  its dependencies.
\<close>

definition open_deps :: "dag_scheduler \<Rightarrow> string \<Rightarrow> nat" where
  "open_deps s x = (\<Sum>d \<in> {d \<in> set (steps s). hm_get (states s) d \<noteq> Some Completed}.
      edge_count (dependents s) d x)"

definition sched_graph :: "dag_scheduler \<Rightarrow> bool" where
  "sched_graph s \<longleftrightarrow>
     succ_rel (dependents s) \<subseteq> set (steps s) \<times> set (steps s) \<and> acyclic (succ_rel (dependents s))"

definition state_ok :: "dag_scheduler \<Rightarrow> string \<Rightarrow> bool" where
  "state_ok s x = (case hm_get (states s) x of
      None \<Rightarrow> False
    | Some Pending \<Rightarrow> 0 < open_deps s x
    | Some Blocked \<Rightarrow> (\<exists>d. hm_get (states s) d = Some Failed \<and> (d, x) \<in> (succ_rel (dependents s))\<^sup>+)
    | Some _ \<Rightarrow> open_deps s x = 0)"

definition sched_inv :: "dag_scheduler \<Rightarrow> bool" where
  "sched_inv s \<longleftrightarrow>
     sched_graph s \<and> hm_wf (states s) \<and> hm_keys (states s) = set (steps s) \<and>
     (\<forall>x \<in> set (steps s). hm_get (in_degrees s) x = Some (open_deps s x)) \<and>
     (\<forall>x \<in> set (steps s). state_ok s x) \<and>
     (\<forall>d x. hm_get (states s) d \<in> {Some Failed, Some Blocked} \<longrightarrow> (d, x) \<in> succ_rel (dependents s)
        \<longrightarrow> hm_get (states s) x = Some Blocked)"

lemma sched_invD:
  assumes "sched_inv s"
  shows "succ_rel (dependents s) \<subseteq> set (steps s) \<times> set (steps s)"
    and "acyclic (succ_rel (dependents s))"
    and "hm_wf (states s)" and "hm_keys (states s) = set (steps s)"
    and "\<And>x. x \<in> set (steps s) \<Longrightarrow> hm_get (in_degrees s) x = Some (open_deps s x)"
    and "\<And>x. x \<in> set (steps s) \<Longrightarrow> state_ok s x"
    and "\<And>d x. hm_get (states s) d \<in> {Some Failed, Some Blocked} \<Longrightarrow> (d, x) \<in> succ_rel (dependents s)
        \<Longrightarrow> hm_get (states s) x = Some Blocked"
  using assms unfolding sched_inv_def sched_graph_def by blast+

lemma open_deps_zero:
  assumes "sched_graph s"
  shows "open_deps s x = 0 \<longleftrightarrow> (\<forall>d. (d, x) \<in> succ_rel (dependents s) \<longrightarrow> hm_get (states s) d = Some Completed)"
proof -
  have "edge_count (dependents s) d x = 0 \<longleftrightarrow> (d, x) \<notin> succ_rel (dependents s)" for d
    using edge_pos [of "dependents s" d x] by (auto simp: succ_rel_def)
  moreover have "(d, x) \<in> succ_rel (dependents s) \<Longrightarrow> d \<in> set (steps s)" for d
    using assms by (auto simp: sched_graph_def)
  ultimately show ?thesis by (auto simp: open_deps_def)
qed

lemma open_deps_cong:
  assumes "steps t = steps s" "dependents t = dependents s"
    and "\<And>d. d \<in> set (steps s) \<Longrightarrow>
      hm_get (states t) d = Some Completed \<longleftrightarrow> hm_get (states s) d = Some Completed"
  shows "open_deps t x = open_deps s x"
  unfolding open_deps_def using assms by (intro sum.cong) auto

lemma state_in_steps:
  "sched_inv s \<Longrightarrow> hm_get (states s) x = Some st \<Longrightarrow> x \<in> set (steps s)"
  using sched_invD(4) [of s] hm_key_iff [of x "states s"] by auto

text \<open>A step that is ready, running, completed or failed has all its dependencies completed.\<close>

lemma started_deps_completed:
  assumes "sched_inv s" and "hm_get (states s) x = Some st" and "st \<notin> {Pending, Blocked}"
    and "(d, x) \<in> succ_rel (dependents s)"
  shows "hm_get (states s) d = Some Completed"
proof -
  have "state_ok s x" using assms sched_invD(6) state_in_steps by blast
  then have "open_deps s x = 0" using assms by (cases st) (auto simp: state_ok_def)
  moreover have "sched_graph s" using assms(1) unfolding sched_inv_def by blast
  ultimately show ?thesis using assms(4) open_deps_zero by blast
qed

text \<open>Everything downstream of a step that is not completed is pending or blocked.\<close>

lemma downstream_waiting:
  assumes inv: "sched_inv s" and "hm_get (states s) x \<noteq> Some Completed"
    and "(x, y) \<in> (succ_rel (dependents s))\<^sup>+"
  shows "hm_get (states s) y \<in> {Some Pending, Some Blocked}"
  using assms(3)
proof (induction rule: trancl_induct)
  have key: "hm_get (states s) y \<in> {Some Pending, Some Blocked}"
    if "(d, y) \<in> succ_rel (dependents s)" "hm_get (states s) d \<noteq> Some Completed" for d y
  proof -
    have "y \<in> set (steps s)" using sched_invD(1) [OF inv] that by auto
    then obtain st where "hm_get (states s) y = Some st"
      using sched_invD(4) [OF inv] hm_key_iff [of y "states s"] by auto
    with started_deps_completed [OF inv this] that show ?thesis by auto
  qed
  { case (base y) then show ?case using key assms(2) by blast }
  { case (step y z) then show ?case using key [of y z] by fastforce }
qed

section \<open>Every operation keeps the invariant\<close>

lemma sched_invI:
  assumes inv: "sched_inv s" and "steps t = steps s" and "dependents t = dependents s"
    and "hm_wf (states t)" and "hm_keys (states t) = set (steps s)"
    and "\<And>x. x \<in> set (steps s) \<Longrightarrow> hm_get (in_degrees t) x = Some (open_deps t x)"
    and "\<And>x. x \<in> set (steps s) \<Longrightarrow> state_ok t x"
    and "\<And>d x. hm_get (states t) d \<in> {Some Failed, Some Blocked} \<Longrightarrow> (d, x) \<in> succ_rel (dependents s)
        \<Longrightarrow> hm_get (states t) x = Some Blocked"
  shows "sched_inv t"
  unfolding sched_inv_def sched_graph_def assms(2,3)
  using sched_invD(1,2) [OF inv] assms(4-) by blast

lemma state_ok_keep:
  assumes "state_ok s y" and "hm_get (states t) y = hm_get (states s) y"
    and "dependents t = dependents s" and "open_deps s y = 0 \<Longrightarrow> open_deps t y = 0"
    and "hm_get (states s) y = Some Pending \<Longrightarrow> 0 < open_deps s y \<Longrightarrow> 0 < open_deps t y"
    and "\<And>d. hm_get (states s) d = Some Failed \<Longrightarrow> hm_get (states t) d = Some Failed"
  shows "state_ok t y"
  using assms unfolding state_ok_def
  by (cases "hm_get (states s) y") (auto split: step_state.splits)

lemma keys_by_get:
  assumes "\<And>y. hm_get m y = None \<longleftrightarrow> hm_get m' y = None"
  shows "hm_keys m = hm_keys m'"
  unfolding dom_map_of_conv_image_fst [symmetric] dom_def using assms by simp

lemma mark_running_inv:
  assumes inv: "sched_inv s" and x: "hm_get (states s) x = Some Ready"
  shows "sched_inv (mark_running x s)"
proof (rule sched_invI [OF inv])
  let ?t = "mark_running x s"
  have st: "hm_get (states ?t) y = (if y = x then Some Running else hm_get (states s) y)" for y
    using x by (simp add: mark_running_def)
  have od: "open_deps ?t y = open_deps s y" for y
    by (rule open_deps_cong) (auto simp: mark_running_def x)
  show "steps ?t = steps s" "dependents ?t = dependents s" by (simp_all add: mark_running_def)
  show "hm_wf (states ?t)" "hm_keys (states ?t) = set (steps s)"
    using sched_invD(3,4) [OF inv] by (simp_all add: mark_running_def)
  show "hm_get (in_degrees ?t) y = Some (open_deps ?t y)" if "y \<in> set (steps s)" for y
    using sched_invD(5) [OF inv that] by (simp add: od) (simp add: mark_running_def)
  show "state_ok ?t y" if y: "y \<in> set (steps s)" for y
  proof (cases "y = x")
    case True
    then show ?thesis using sched_invD(6) [OF inv y] x by (simp add: state_ok_def st od)
  next
    case False
    then show ?thesis
      by (intro state_ok_keep [OF sched_invD(6) [OF inv y]])
         (auto simp: st od x, simp add: mark_running_def)
  qed
  show "hm_get (states ?t) y = Some Blocked"
    if "hm_get (states ?t) d \<in> {Some Failed, Some Blocked}" "(d, y) \<in> succ_rel (dependents s)" for d y
    using sched_invD(7) [OF inv, of d y] that x by (auto simp: st split: if_splits)
qed

lemma open_deps_complete:
  assumes "x \<in> set (steps s)" and "hm_get (states s) x \<noteq> Some Completed"
    and "steps t = steps s" and "dependents t = dependents s"
    and "\<And>d. hm_get (states t) d = Some Completed \<longleftrightarrow> d = x \<or> hm_get (states s) d = Some Completed"
  shows "open_deps s y = open_deps t y + edge_count (dependents s) x y"
proof -
  let ?D = "\<lambda>u. {d \<in> set (steps s). hm_get (states u) d \<noteq> Some Completed}"
  have D: "?D s = insert x (?D t)" "x \<notin> ?D t" using assms(1,2,5) by auto
  then have "(\<Sum>d \<in> ?D s. edge_count (dependents s) d y)
      = edge_count (dependents s) x y + (\<Sum>d \<in> ?D t. edge_count (dependents s) d y)"
    by (simp only: D(1)) (rule sum.insert, auto)
  then show ?thesis by (simp add: open_deps_def assms(3,4))
qed

text \<open>Effect of \<^verbatim>\<open>mark_completed\<close> on a running step of a scheduler that satisfies the invariant.\<close>

lemma mark_completed_effect:
  assumes inv: "sched_inv s" and x: "hm_get (states s) x = Some Running"
  shows "\<exists>t new. mark_completed x s = (t, new) \<and> steps t = steps s \<and> dependents t = dependents s
     \<and> hm_wf (states t) \<and> distinct new
     \<and> (\<forall>y. hm_get (states t) y =
          (if y \<in> set new then Some Ready else if y = x then Some Completed else hm_get (states s) y))
     \<and> (\<forall>y \<in> set (steps s). hm_get (in_degrees t) y = Some (open_deps t y))
     \<and> (\<forall>y. open_deps s y = open_deps t y + edge_count (dependents s) x y)
     \<and> set new = {y. (x, y) \<in> succ_rel (dependents s) \<and> hm_get (states s) y = Some Pending
                      \<and> open_deps t y = 0}"
proof -
  let ?xs = "succs (dependents s) x" and ?sts = "hm_modify x (\<lambda>_. Completed) (states s)"
  have x_in: "x \<in> set (steps s)" using state_in_steps [OF inv x] .
  have sub: "y \<in> set ?xs \<Longrightarrow> y \<in> set (steps s)" for y
    using sched_invD(1) [OF inv] by (auto simp: succ_rel_def)
  let ?u = "s\<lparr>states := ?sts\<rparr>"
  have u: "open_deps s y = open_deps ?u y + edge_count (dependents s) x y" for y
    by (rule open_deps_complete [OF x_in]) (use x in \<open>auto split: if_splits\<close>)
  have deg: "y \<in> set (steps s) \<Longrightarrow>
      hm_get (in_degrees s) y = Some (open_deps ?u y + count_list ?xs y)" for y
    using sched_invD(5) [OF inv, of y] u [of y] by (simp add: edge_count_def)
  have pre: "\<forall>y \<in> set ?xs. \<exists>d. hm_get (in_degrees s) y = Some d \<and> count_list ?xs y \<le> d"
    using deg sub by auto
  obtain deg' sts' new where r: "release ?xs (in_degrees s) ?sts [] = (deg', sts', new)"
    and deg': "\<And>y. hm_get deg' y = map_option (\<lambda>d. d - count_list ?xs y) (hm_get (in_degrees s) y)"
    and new: "distinct new" "set new = {y \<in> set ?xs. hm_get (in_degrees s) y = Some (count_list ?xs y)
        \<and> hm_get ?sts y = Some Pending}"
    and sts': "\<And>y. hm_get sts' y = (if y \<in> set new then Some Ready else hm_get ?sts y)"
    and wf: "hm_wf ?sts \<longrightarrow> hm_wf sts'"
    using release_spec [OF pre, of ?sts "[]"] by auto
  let ?t = "s\<lparr>states := sts', in_degrees := deg'\<rparr>"
  have od: "open_deps ?t y = open_deps ?u y" for y
    by (rule open_deps_cong) (use new(2) in \<open>auto simp: sts' split: if_splits\<close>)
  have "set new = {y. (x, y) \<in> succ_rel (dependents s) \<and> hm_get (states s) y = Some Pending
      \<and> open_deps ?t y = 0}"
    unfolding new(2) using x sub deg by (auto simp: succ_rel_def od split: if_splits)
  then show ?thesis using r wf new x sched_invD(3) [OF inv] deg u
    by (intro exI [of _ ?t] exI [of _ new]) (auto simp: mark_completed_def sts' deg' od)
qed

lemma mark_completed_inv:
  assumes inv: "sched_inv s" and x: "hm_get (states s) x = Some Running"
  shows "sched_inv (fst (mark_completed x s))"
proof -
  from mark_completed_effect [OF inv x] obtain t new where t: "mark_completed x s = (t, new)"
    and same: "steps t = steps s" "dependents t = dependents s" and wf: "hm_wf (states t)"
    and st: "\<And>y. hm_get (states t) y =
        (if y \<in> set new then Some Ready else if y = x then Some Completed else hm_get (states s) y)"
    and deg: "\<And>y. y \<in> set (steps s) \<Longrightarrow> hm_get (in_degrees t) y = Some (open_deps t y)"
    and od: "\<And>y. open_deps s y = open_deps t y + edge_count (dependents s) x y"
    and new: "set new = {y. (x, y) \<in> succ_rel (dependents s) \<and> hm_get (states s) y = Some Pending
        \<and> open_deps t y = 0}"
    by blast
  have "sched_inv t"
  proof (rule sched_invI [OF inv same wf])
    have "hm_keys (states t) = hm_keys (states s)"
      by (rule keys_by_get) (use x new in \<open>auto simp: st\<close>)
    then show "hm_keys (states t) = set (steps s)" using sched_invD(4) [OF inv] by simp
    show "hm_get (in_degrees t) y = Some (open_deps t y)" if "y \<in> set (steps s)" for y
      by (rule deg [OF that])
    show "state_ok t y" if y: "y \<in> set (steps s)" for y
    proof -
      consider "y \<in> set new" | "y = x" "y \<notin> set new" | "y \<noteq> x" "y \<notin> set new" by blast
      then show ?thesis
      proof cases
        case 1
        then show ?thesis using new by (simp add: state_ok_def st)
      next
        case 2
        then show ?thesis using sched_invD(6) [OF inv y] x od [of x] by (simp add: state_ok_def st)
      next
        case 3
        have "open_deps s y = 0 \<Longrightarrow> open_deps t y = 0" using od [of y] by simp
        moreover have "hm_get (states s) y = Some Pending \<Longrightarrow> 0 < open_deps t y"
          using 3 new od [of y] sched_invD(6) [OF inv y] edge_pos [of "dependents s" x y]
          by (cases "open_deps t y") (auto simp: state_ok_def succ_rel_def)
        moreover have "hm_get (states s) d = Some Failed \<Longrightarrow> hm_get (states t) d = Some Failed" for d
          using x by (auto simp: st new)
        moreover have "hm_get (states t) y = hm_get (states s) y" using 3 by (simp add: st)
        ultimately show ?thesis by (intro state_ok_keep [OF sched_invD(6) [OF inv y] _ same(2)])
      qed
    qed
    show "hm_get (states t) y = Some Blocked"
      if "hm_get (states t) d \<in> {Some Failed, Some Blocked}" "(d, y) \<in> succ_rel (dependents s)" for d y
    proof -
      have new_P: "z \<in> set new \<Longrightarrow> hm_get (states s) z = Some Pending" for z using new by simp
      have "hm_get (states s) d \<in> {Some Failed, Some Blocked}"
        using that(1) by (auto simp: st split: if_splits)
      then have "hm_get (states s) y = Some Blocked" using sched_invD(7) [OF inv _ that(2)] by blast
      with new_P [of y] x show ?thesis by (auto simp: st)
    qed
  qed
  with t show ?thesis by simp
qed

text \<open>
  Effect of \<^verbatim>\<open>mark_failed\<close> on any scheduler: the step's own state becomes \<open>Failed\<close>, and every
  pending or ready step reachable from it becomes \<open>Blocked\<close> and is reported, once.
\<close>

lemma mark_failed_effect:
  "\<exists>t bl. mark_failed x s = (t, bl) \<and> steps t = steps s \<and> dependents t = dependents s
     \<and> in_degrees t = in_degrees s \<and> (hm_wf (states s) \<longrightarrow> hm_wf (states t)) \<and> distinct bl
     \<and> set bl = {y. (x, y) \<in> (succ_rel (dependents s))\<^sup>+ \<and> y \<noteq> x
                   \<and> hm_get (states s) y \<in> {Some Pending, Some Ready}}
     \<and> (\<forall>y. hm_get (states t) y = (if y \<in> set bl then Some Blocked
          else if y = x then map_option (\<lambda>_. Failed) (hm_get (states s) x) else hm_get (states s) y))"
proof -
  let ?sts = "hm_modify x (\<lambda>_. Failed) (states s)" and ?q = "succs (dependents s) x"
  obtain sts' bl where c: "cascade (dependents s) ?q {} ?sts [] = (sts', bl)" and "distinct bl"
    and bl: "set bl = below (dependents s) (set ?q) \<inter> waiting ?sts"
    and st: "\<And>y. hm_get sts' y = (if y \<in> set bl then Some Blocked else hm_get ?sts y)"
    and wf: "hm_wf ?sts \<longrightarrow> hm_wf sts'"
    using cascade_spec [of "{}" "dependents s" ?q ?sts "[]"] by auto
  have "below (dependents s) (set ?q) = {y. (x, y) \<in> (succ_rel (dependents s))\<^sup>+}"
    by (auto simp: below_def succ_rel_def trancl_unfold_left)
  then have "set bl = {y. (x, y) \<in> (succ_rel (dependents s))\<^sup>+ \<and> y \<noteq> x
      \<and> hm_get (states s) y \<in> {Some Pending, Some Ready}}"
    by (auto simp: bl waiting_def split: if_splits)
  with c wf st \<open>distinct bl\<close> show ?thesis
    by (intro exI [of _ "s\<lparr>states := sts'\<rparr>"] exI [of _ bl]) (auto simp: mark_failed_def)
qed

lemma mark_failed_inv:
  assumes inv: "sched_inv s" and x: "hm_get (states s) x \<in> {Some Ready, Some Running}"
  shows "sched_inv (fst (mark_failed x s))"
proof -
  let ?R = "(succ_rel (dependents s))\<^sup>+"
  from mark_failed_effect [of x s] obtain t bl where t: "mark_failed x s = (t, bl)"
    and same: "steps t = steps s" "dependents t = dependents s" "in_degrees t = in_degrees s"
    and wf: "hm_wf (states s) \<longrightarrow> hm_wf (states t)"
    and bl: "set bl = {y. (x, y) \<in> ?R \<and> y \<noteq> x \<and> hm_get (states s) y \<in> {Some Pending, Some Ready}}"
    and st0: "\<And>y. hm_get (states t) y = (if y \<in> set bl then Some Blocked
          else if y = x then map_option (\<lambda>_. Failed) (hm_get (states s) x) else hm_get (states s) y)"
    by blast
  have irr: "(x, x) \<notin> ?R" using sched_invD(2) [OF inv] by (simp add: acyclic_def)
  have down: "hm_get (states s) y \<in> {Some Pending, Some Blocked}" if "(x, y) \<in> ?R" for y
    using downstream_waiting [OF inv _ that] x by auto
  have st: "hm_get (states t) y = (if (x, y) \<in> ?R then Some Blocked
      else if y = x then Some Failed else hm_get (states s) y)" for y
    unfolding st0 using down [of y] irr x by (auto simp: bl)
  have keep: "hm_get (states t) d = Some Completed \<longleftrightarrow> hm_get (states s) d = Some Completed"
    "hm_get (states s) d = Some Failed \<Longrightarrow> hm_get (states t) d = Some Failed"
    "hm_get (states t) d = None \<longleftrightarrow> hm_get (states s) d = None" for d
    using down [of d] x by (auto simp: st)
  have od: "open_deps t y = open_deps s y" for y
    by (rule open_deps_cong [OF same(1,2)]) (simp add: keep)
  have "sched_inv t"
  proof (rule sched_invI [OF inv same(1,2)])
    show "hm_wf (states t)" using wf sched_invD(3) [OF inv] by blast
    have "hm_keys (states t) = hm_keys (states s)"
      by (rule keys_by_get) (simp add: keep)
    then show "hm_keys (states t) = set (steps s)" using sched_invD(4) [OF inv] by simp
    show "hm_get (in_degrees t) y = Some (open_deps t y)" if "y \<in> set (steps s)" for y
      using sched_invD(5) [OF inv that] by (simp add: od same)
    show "state_ok t y" if y: "y \<in> set (steps s)" for y
    proof -
      consider "(x, y) \<in> ?R" | "y = x" "(x, y) \<notin> ?R" | "y \<noteq> x" "(x, y) \<notin> ?R" by blast
      then show ?thesis
      proof cases
        case 1
        then show ?thesis using irr by (auto simp: state_ok_def st same intro!: exI [of _ x])
      next
        case 2
        then show ?thesis using sched_invD(6) [OF inv y] x by (auto simp: state_ok_def st od)
      next
        case 3
        then have "hm_get (states t) y = hm_get (states s) y" by (simp add: st)
        then show ?thesis
          by (intro state_ok_keep [OF sched_invD(6) [OF inv y] _ same(2) _ _ keep(2)])
             (simp_all add: od)
      qed
    qed
    show "hm_get (states t) y = Some Blocked"
      if d: "hm_get (states t) d \<in> {Some Failed, Some Blocked}" "(d, y) \<in> succ_rel (dependents s)" for d y
    proof -
      have "(x, y) \<in> ?R \<or> hm_get (states s) y = Some Blocked"
        using d sched_invD(7) [OF inv, of d y] x
        by (auto simp: st split: if_splits intro: trancl_into_trancl)
      then show ?thesis using x by (auto simp: st)
    qed
  qed
  with t show ?thesis by simp
qed

section \<open>Runs\<close>

text \<open>
  The constructor establishes the invariant. \<^verbatim>\<open>run_orchestration\<close> passes a map that has every
  step id as a key, so its keys are step ids.
\<close>

definition sched_init :: "string list \<Rightarrow> (string, string list) hmap \<Rightarrow> dag_scheduler \<Rightarrow> bool" where
  "sched_init ss deps s \<longleftrightarrow>
     hm_wf deps \<and> hm_keys deps \<subseteq> set ss \<and> new_scheduler ss deps = Some (Inr s)"

lemma fold_insert_get:
  "hm_get (fold (\<lambda>x m. hm_insert x (f x) m) ss m) y = (if y \<in> set ss then Some (f y) else hm_get m y)"
  by (induction ss arbitrary: m) auto

lemma fold_insert_wf: "hm_wf m \<Longrightarrow> hm_wf (fold (\<lambda>x m. hm_insert x (f x) m) ss m)"
  by (induction ss arbitrary: m) auto

lemma fold_insert_keys:
  "hm_keys (fold (\<lambda>x m. hm_insert x (f x) m) ss m) = hm_keys m \<union> set ss"
  by (induction ss arbitrary: m) auto

lemma new_scheduler_fields:
  assumes "sched_init ss deps s"
  shows "steps s = ss" and "dependents s = build_adj ss deps"
    and "\<And>x. hm_get (in_degrees s) x = (if x \<in> set ss then Some (length (succs deps x)) else None)"
    and "\<And>x. hm_get (states s) x =
      (if x \<in> set ss then Some (if succs deps x = [] then Ready else Pending) else None)"
    and "hm_wf (states s)" and "hm_keys (states s) = set ss"
    and "validate_dag ss deps = Some (Inr ())"
proof -
  let ?deg = "fold (\<lambda>step m. hm_insert step (length (succs deps step)) m) ss []"
  have len: "(case hm_get deps x of None \<Rightarrow> 0 | Some l \<Rightarrow> length l) = length (succs deps x)" for x
    by (simp add: succs_def split: option.splits)
  have new: "new_scheduler ss deps = Some (Inr s)" using assms by (simp add: sched_init_def)
  then obtain r where r: "validate_dag ss deps = Some r" by (auto simp: new_scheduler_def Let_def)
  with new have "r = Inr ()" by (cases r) (auto simp: new_scheduler_def Let_def)
  with r show "validate_dag ss deps = Some (Inr ())" by simp
  with new have s: "s = \<lparr> steps = ss, dependents = build_adj ss deps,
      states = fold (\<lambda>step m. hm_insert step
        (if (case hm_get ?deg step of None \<Rightarrow> 0 | Some d \<Rightarrow> d) = 0 then Ready else Pending) m) ss [],
      in_degrees = ?deg \<rparr>"
    by (simp add: new_scheduler_def Let_def len)
  show "steps s = ss" "dependents s = build_adj ss deps"
    "\<And>x. hm_get (in_degrees s) x = (if x \<in> set ss then Some (length (succs deps x)) else None)"
    "\<And>x. hm_get (states s) x =
      (if x \<in> set ss then Some (if succs deps x = [] then Ready else Pending) else None)"
    "hm_wf (states s)" "hm_keys (states s) = set ss"
    by (simp_all add: s fold_insert_get fold_insert_wf fold_insert_keys)
qed

lemma sched_init_inv:
  assumes init: "sched_init ss deps s"
  shows "sched_inv s"
proof -
  note f = new_scheduler_fields [OF init]
  have wf: "hm_wf deps" and keys: "hm_keys deps \<subseteq> set ss" using init by (auto simp: sched_init_def)
  have ok: "\<And>x. set (succs deps x) \<subseteq> set ss" and ac: "acyclic (dep_rel deps)"
    using validate_dag_result [OF wf keys] f(7) by auto
  have rel: "succ_rel (dependents s) = dep_rel deps"
    by (auto simp: succ_rel_def f(2) succs_build_adj [OF wf])
  have "d \<in> set ss \<and> x \<in> set ss" if "(d, x) \<in> dep_rel deps" for d x
    using that ok [of x] keys succs_None [of x deps]
    by (cases "x \<in> hm_keys deps") (auto simp: dep_rel_def)
  then have graph: "sched_graph s" using ac by (auto simp: sched_graph_def rel f(1))
  have all: "{d \<in> set ss. hm_get (states s) d \<noteq> Some Completed} = set ss"
    by (auto simp: f(4))
  have od: "open_deps s x = length (succs deps x)" for x
    unfolding open_deps_def f(1,2) all edge_build_adj [OF wf] by (rule sum_count_set [OF ok]) simp
  show ?thesis unfolding sched_inv_def
  proof (intro conjI)
    show "sched_graph s" by (rule graph)
  qed (use f in \<open>simp_all add: od state_ok_def\<close>)
qed

inductive sched_step :: "dag_scheduler \<Rightarrow> dag_scheduler \<Rightarrow> bool" where
  step_run: "x \<in> set (next_ready s) \<Longrightarrow> sched_step s (mark_running x s)"
| step_complete: "x \<in> set (running_ids s) \<Longrightarrow> sched_step s (fst (mark_completed x s))"
| step_fail: "x \<in> set (next_ready s @ running_ids s) \<Longrightarrow> sched_step s (fst (mark_failed x s))"

lemma sched_step_inv: "sched_step s t \<Longrightarrow> sched_inv s \<Longrightarrow> sched_inv t"
  by (induction rule: sched_step.induct)
     (auto simp: next_ready_def running_ids_def
        intro: mark_running_inv mark_completed_inv mark_failed_inv)

lemma sched_step_graph:
  "sched_step s t \<Longrightarrow> sched_inv s \<Longrightarrow> steps t = steps s \<and> dependents t = dependents s"
proof (induction rule: sched_step.induct)
  case (step_complete x s)
  then show ?case using mark_completed_effect [of s x] by (auto simp: running_ids_def)
next
  case (step_fail x s)
  then show ?case using mark_failed_effect [of x s] by auto
qed (simp add: mark_running_def)

definition run_inv :: "string list \<Rightarrow> (string, string list) hmap \<Rightarrow> dag_scheduler \<Rightarrow> bool" where
  "run_inv ss deps s \<longleftrightarrow>
     sched_inv s \<and> steps s = ss \<and> distinct ss \<and> hm_wf deps \<and> succ_rel (dependents s) = dep_rel deps"

lemma sched_init_distinct: "sched_init ss deps s \<Longrightarrow> distinct ss"
  using validate_dag_result [of deps ss] new_scheduler_fields(7) [of ss deps s]
  by (auto simp: sched_init_def)

interpretation sched_run: step_system "sched_init ss deps" sched_step "run_inv ss deps"
  for ss deps
proof unfold_locales
  fix s assume "sched_init ss deps s"
  then show "run_inv ss deps s"
    using sched_init_inv [of ss deps s] new_scheduler_fields(1,2) [of ss deps s] sched_init_distinct
    by (auto simp: run_inv_def succ_rel_def succs_build_adj sched_init_def)
next
  fix s t assume "run_inv ss deps s" "sched_step s t"
  then show "run_inv ss deps t"
    using sched_step_inv sched_step_graph by (auto simp: run_inv_def)
qed

section \<open>Termination measure\<close>

fun weight :: "step_state option \<Rightarrow> nat" where
  "weight (Some Pending) = 3"
| "weight (Some Ready) = 2"
| "weight (Some Running) = 1"
| "weight _ = 0"

definition rank :: "dag_scheduler \<Rightarrow> nat" where
  "rank s = (\<Sum>x \<in> set (steps s). weight (hm_get (states s) x))"

lemma rank_less:
  assumes "steps t = steps s" and "x \<in> set (steps s)"
    and "weight (hm_get (states t) x) < weight (hm_get (states s) x)"
    and "\<And>y. weight (hm_get (states t) y) \<le> weight (hm_get (states s) y)"
  shows "rank t < rank s"
  unfolding rank_def assms(1) by (rule sum_strict_mono_ex1) (use assms(2-) in auto)

lemma sched_step_rank: "sched_step s t \<Longrightarrow> sched_inv s \<Longrightarrow> rank t < rank s"
proof (induction rule: sched_step.induct)
  case (step_run x s)
  then show ?case
    by (intro rank_less [of _ _ x]) (auto simp: mark_running_def next_ready_def)
next
  case (step_complete x s)
  then have x: "x \<in> set (steps s)" "hm_get (states s) x = Some Running"
    by (auto simp: running_ids_def)
  from mark_completed_effect [OF step_complete.prems x(2)] show ?case
    by (elim exE conjE, intro rank_less [of _ _ x]) (use x in auto)
next
  case (step_fail x s)
  then have x: "x \<in> set (steps s)" "hm_get (states s) x \<in> {Some Ready, Some Running}"
    by (auto simp: running_ids_def next_ready_def)
  from mark_failed_effect [of x s] show ?case
    by (elim exE conjE, intro rank_less [of _ _ x]) (use x in auto)
qed

lemma rank_bound: "rank s \<le> 3 * card (set (steps s))"
proof -
  have "weight st \<le> 3" for st by (cases st rule: weight.cases) auto
  then have "rank s \<le> (\<Sum>x \<in> set (steps s). 3)" unfolding rank_def by (intro sum_mono)
  then show ?thesis by simp
qed

lemma sched_steps_rank:
  "(sched_step ^^ n) s t \<Longrightarrow> sched_inv s \<Longrightarrow> sched_inv t \<and> rank t + n \<le> rank s"
proof (induction n arbitrary: t)
  case (Suc n)
  from Suc.prems(1) obtain u where u: "(sched_step ^^ n) s u" "sched_step u t" by auto
  from Suc.IH [OF u(1) Suc.prems(2)] have "sched_inv u" "rank u + n \<le> rank s" by auto
  with u(2) sched_step_inv sched_step_rank show ?case by fastforce
qed simp

section \<open>Properties of the scheduler\<close>

lemma complete_iff:
  "hm_wf (states s) \<Longrightarrow> is_complete s \<longleftrightarrow> (\<forall>x st. hm_get (states s) x = Some st \<longrightarrow> terminal st)"
  by (auto simp: is_complete_def list_all_iff hm_values_get)

lemma stuck_is_complete:
  assumes inv: "sched_inv s" and "next_ready s = []" and "running_ids s = []"
  shows "is_complete s"
  unfolding complete_iff [OF sched_invD(3) [OF inv]]
proof (intro allI impI)
  have no: "hm_get (states s) x \<noteq> Some Ready" "hm_get (states s) x \<noteq> Some Running" for x
    using assms state_in_steps [OF inv] by (auto simp: next_ready_def running_ids_def filter_empty_conv)
  have "finite (succ_rel (dependents s))"
    using sched_invD(1) [OF inv] by (rule finite_subset) simp
  then have wf: "wf (succ_rel (dependents s))"
    using sched_invD(2) [OF inv] by (rule finite_acyclic_wf)
  have pend: "hm_get (states s) x \<noteq> Some Pending" for x
    using wf
  proof (induction x rule: wf_induct_rule)
    case (less x)
    show ?case
    proof
      assume p: "hm_get (states s) x = Some Pending"
      then have "0 < open_deps s x"
        using sched_invD(6) [OF inv state_in_steps [OF inv p]] by (simp add: state_ok_def)
      moreover have "sched_graph s" using inv unfolding sched_inv_def by blast
      ultimately obtain d where d: "(d, x) \<in> succ_rel (dependents s)"
        "hm_get (states s) d \<noteq> Some Completed"
        using open_deps_zero [of s x] by auto
      obtain st where st: "hm_get (states s) d = Some st"
        using sched_invD(1,4) [OF inv] d(1) hm_key_iff [of d "states s"] by auto
      with d no less [OF d(1)] have "st = Failed \<or> st = Blocked" by (cases st) auto
      with sched_invD(7) [OF inv _ d(1)] st p show False by auto
    qed
  qed
  fix x st assume "hm_get (states s) x = Some st"
  with pend no show "terminal st" by (cases st) (auto simp: terminal_def)
qed

lemma terminal_states:
  assumes inv: "sched_inv s" and "is_complete s" and "x \<in> set (steps s)"
  shows "step_state_of s x = Some Completed \<or>
    (\<exists>d. step_state_of s d = Some Failed \<and> (d, x) \<in> (succ_rel (dependents s))\<^sup>*)"
proof -
  obtain state where state: "hm_get (states s) x = Some state"
    using sched_invD(4) [OF inv] assms(3) hm_key_iff [of x "states s"] by auto
  have "terminal state"
    using assms(2) state unfolding complete_iff [OF sched_invD(3) [OF inv]] by blast
  moreover have "state_ok s x" using sched_invD(6) [OF inv assms(3)] .
  ultimately show ?thesis using state
    by (cases state) (auto simp: step_state_of_def terminal_def state_ok_def rtrancl_eq_or_trancl)
qed

text \<open>
  The validation compares the number of processed nodes with \<^verbatim>\<open>steps.len()\<close>, but processes every
  node of the map. With keys that are not step ids it accepts a cyclic graph: the two extra keys of
  \<open>foreign_deps\<close> make up for the two steps of its cycle.
\<close>

definition foreign_steps :: "string list" where
  "foreign_steps = [''a'', ''b'', ''c'']"

definition foreign_deps :: "(string, string list) hmap" where
  "foreign_deps = [(''b'', [''c'']), (''c'', [''b'']), (''x'', [''a'']), (''y'', [''a''])]"

lemma foreign_keys_accepted: "\<exists>s. new_scheduler foreign_steps foreign_deps = Some (Inr s)"
proof -
  have "validate_dag foreign_steps foreign_deps = Some (Inr ())" by code_simp
  then show ?thesis by (simp add: new_scheduler_def Let_def)
qed

lemma foreign_deps_cyclic: "\<not> acyclic (dep_rel foreign_deps)"
proof -
  have "(''b'', ''c'') \<in> dep_rel foreign_deps" "(''c'', ''b'') \<in> dep_rel foreign_deps"
    by (auto simp: dep_rel_def foreign_deps_def)
  then show ?thesis by (meson acyclic_def trancl.r_into_trancl trancl_into_trancl)
qed

text \<open>
  C1. Given a dependency map whose keys are all step ids, \<^verbatim>\<open>DagScheduler::new\<close> always returns, and
  it returns a scheduler exactly when the step ids are pairwise distinct, every dependency is
  a known step, and the dependency relation has no cycle. The condition on the keys, which the one
  caller in \<^verbatim>\<open>manager.rs\<close> meets, is needed: with the keys of \<open>foreign_deps\<close>, two of which are no
  steps, the function accepts a graph that has a cycle, because it compares the number of processed
  nodes of the map with the number of steps.
\<close>

theorem new_scheduler_decides:
  assumes "hm_wf deps" and "hm_keys deps \<subseteq> set ss"
  shows "new_scheduler ss deps \<noteq> None \<and>
    ((\<exists>s. new_scheduler ss deps = Some (Inr s)) \<longleftrightarrow>
       distinct ss \<and> (\<forall>x. set (succs deps x) \<subseteq> set ss) \<and> acyclic (dep_rel deps))
    \<and> (\<exists>s. new_scheduler foreign_steps foreign_deps = Some (Inr s)) \<and> \<not> acyclic (dep_rel foreign_deps)"
proof -
  from validate_dag_result [OF assms] obtain r where r: "validate_dag ss deps = Some r"
    "r = Inr () \<longleftrightarrow> distinct ss \<and> (\<forall>x. set (succs deps x) \<subseteq> set ss) \<and> acyclic (dep_rel deps)"
    by blast
  then show ?thesis
    using foreign_keys_accepted foreign_deps_cyclic by (cases r) (auto simp: new_scheduler_def Let_def)
qed

abbreviation diamond_steps :: "string list" where
  "diamond_steps \<equiv> [''a'', ''b'', ''c'', ''d'']"

abbreviation diamond_deps :: "(string, string list) hmap" where
  "diamond_deps \<equiv> [(''a'', []), (''b'', [''a'']), (''c'', [''a'']), (''d'', [''b'', ''c''])]"

definition diamond :: dag_scheduler where
  "diamond = \<lparr> steps = diamond_steps,
     dependents = [(''a'', [''b'', ''c'']), (''b'', [''d'']), (''c'', [''d'']), (''d'', [])],
     states = [(''a'', Ready), (''b'', Pending), (''c'', Pending), (''d'', Pending)],
     in_degrees = [(''a'', 0), (''b'', 1), (''c'', 1), (''d'', 2)] \<rparr>"

lemma diamond_new: "new_scheduler diamond_steps diamond_deps = Some (Inr diamond)"
  by code_simp

lemma diamond_init: "sched_init diamond_steps diamond_deps diamond"
  by (simp add: sched_init_def diamond_new)

theorem new_scheduler_decides_witness:
  "acyclic (dep_rel diamond_deps)
   \<and> \<not> acyclic (dep_rel [(''a'', [''b'']), (''b'', [''a''])])"
proof -
  have "new_scheduler [''a'', ''b''] [(''a'', [''b'']), (''b'', [''a''])]
      = Some (Inl (Validation ''Dependency graph contains a cycle''))"
    by code_simp
  moreover have "\<forall>x. set (succs [(''a'', [''b'']), (''b'', [''a''])] x) \<subseteq> set [''a'', ''b'']"
    by simp
  ultimately show ?thesis
    using new_scheduler_decides [of diamond_deps diamond_steps] diamond_new
      new_scheduler_decides [of "[(''a'', [''b'']), (''b'', [''a''])]" "[''a'', ''b'']"]
    by (simp del: succs_Cons)
qed

text \<open>
  C2. In every run of the scheduler a step that is ready, running, completed or failed has all
  its declared dependencies completed: no step starts before the steps it depends on.
\<close>

theorem run_order_safe:
  assumes "reach (sched_init ss deps) sched_step s"
    and "step_state_of s x = Some st" and "st \<in> {Ready, Running, Completed, Failed}"
    and "d \<in> set (succs deps x)"
  shows "step_state_of s d = Some Completed"
  using sched_run.reach_inv [OF assms(1)] started_deps_completed [of s x st d] assms(2-)
  by (auto simp: run_inv_def step_state_of_def dep_rel_def)

definition diamond_bc :: dag_scheduler where
  "diamond_bc = mark_running ''c'' (mark_running ''b''
     (fst (mark_completed ''a'' (mark_running ''a'' diamond))))"

lemma diamond_reach: "reach (sched_init diamond_steps diamond_deps) sched_step diamond_bc"
proof -
  let ?r = "reach (sched_init diamond_steps diamond_deps) sched_step"
  let ?s1 = "mark_running ''a'' diamond" and ?s2 = "fst (mark_completed ''a'' (mark_running ''a'' diamond))"
  have "?r diamond" using diamond_init by (rule reach_init)
  moreover have "''a'' \<in> set (next_ready diamond)" by code_simp
  ultimately have "?r ?s1" by (blast intro: reach_step step_run)
  moreover have "''a'' \<in> set (running_ids ?s1)" by code_simp
  ultimately have "?r ?s2" by (blast intro: reach_step step_complete)
  moreover have "''b'' \<in> set (next_ready ?s2)" by code_simp
  ultimately have "?r (mark_running ''b'' ?s2)" by (blast intro: reach_step step_run)
  moreover have "''c'' \<in> set (next_ready (mark_running ''b'' ?s2))" by code_simp
  ultimately show ?thesis unfolding diamond_bc_def by (blast intro: reach_step step_run)
qed

theorem run_order_safe_witness:
  "step_state_of diamond_bc ''c'' = Some Running \<and> step_state_of diamond_bc ''a'' = Some Completed"
proof -
  have "step_state_of diamond_bc ''c'' = Some Running" by code_simp
  with run_order_safe [OF diamond_reach this, of "''a''"] show ?thesis by simp
qed

text \<open>
  C3. Progress: a scheduler reached in a run that is not complete offers a ready step or has a
  running step, so the manager never has to wait for nothing.
\<close>

theorem run_progress:
  assumes "reach (sched_init ss deps) sched_step s" and "\<not> is_complete s"
  shows "\<exists>x. x \<in> set (next_ready s @ running_ids s)"
  using sched_run.reach_inv [OF assms(1)] stuck_is_complete [of s] assms(2)
  by (cases "next_ready s"; cases "running_ids s") (auto simp: run_inv_def)

theorem run_progress_witness:
  "\<not> is_complete diamond_bc \<and> (\<exists>x. x \<in> set (next_ready diamond_bc @ running_ids diamond_bc))"
proof -
  have "\<not> is_complete diamond_bc" by code_simp
  with run_progress [OF diamond_reach] show ?thesis by blast
qed

text \<open>
  C4. Termination: a run that starts from a new scheduler over \<open>n\<close> steps makes at most
  \<open>3 * n\<close> transitions.
\<close>

theorem run_terminates:
  assumes "sched_init ss deps s" and "(sched_step ^^ n) s t"
  shows "n \<le> 3 * length ss"
proof -
  have "n \<le> rank s" using sched_steps_rank [OF assms(2) sched_init_inv [OF assms(1)]] by simp
  also have "\<dots> \<le> 3 * card (set ss)" using rank_bound [of s] new_scheduler_fields(1) [OF assms(1)] by simp
  finally show ?thesis using card_length [of ss] by simp
qed

theorem run_terminates_witness: "\<exists>t. (sched_step ^^ 1) diamond t \<and> 1 \<le> 3 * length diamond_steps"
proof -
  have "''a'' \<in> set (next_ready diamond)" by code_simp
  then have "(sched_step ^^ 1) diamond (mark_running ''a'' diamond)"
    by (simp add: step_run del: One_nat_def)
  with run_terminates [OF diamond_init this] show ?thesis by blast
qed

text \<open>
  C5. \<^verbatim>\<open>mark_failed\<close> reports, without repetition, exactly the pending and ready steps downstream
  of the failed step; they become \<open>Blocked\<close>, the step itself \<open>Failed\<close>, and no other state changes.
\<close>

theorem mark_failed_blocks:
  "case mark_failed x s of (t, blocked) \<Rightarrow>
     distinct blocked
     \<and> set blocked = {y. (x, y) \<in> (succ_rel (dependents s))\<^sup>+ \<and> y \<noteq> x
                        \<and> step_state_of s y \<in> {Some Pending, Some Ready}}
     \<and> step_state_of t = (\<lambda>y. if y \<in> set blocked then Some Blocked
          else if y = x then map_option (\<lambda>_. Failed) (step_state_of s x) else step_state_of s y)"
  using mark_failed_effect [of x s] by (auto simp: step_state_of_def fun_eq_iff)

text \<open>
  C6. When a run is complete, the steps that did not complete are exactly those that failed and
  those that depend, directly or not, on a failed step; with no failure all steps completed.
\<close>

theorem run_outcome:
  assumes "reach (sched_init ss deps) sched_step s" and "is_complete s" and "x \<in> set ss"
  shows "step_state_of s x \<noteq> Some Completed \<longleftrightarrow>
     (\<exists>d. step_state_of s d = Some Failed \<and> (d, x) \<in> (dep_rel deps)\<^sup>*)"
proof -
  have inv: "sched_inv s" and st: "steps s = ss" and rel: "succ_rel (dependents s) = dep_rel deps"
    using sched_run.reach_inv [OF assms(1)] by (auto simp: run_inv_def)
  have "hm_get (states s) x \<in> {Some Pending, Some Blocked, Some Failed}"
    if "(d, x) \<in> (dep_rel deps)\<^sup>*" "hm_get (states s) d = Some Failed" for d
    using downstream_waiting [OF inv, of d x] that by (auto simp: rel rtrancl_eq_or_trancl)
  then show ?thesis
    using terminal_states [OF inv assms(2)] assms(3) st by (fastforce simp: step_state_of_def rel)
qed

definition diamond_end :: dag_scheduler where
  "diamond_end = fst (mark_completed ''c'' (fst (mark_failed ''b'' diamond_bc)))"

theorem run_outcome_witness: "step_state_of diamond_end ''d'' = Some Blocked \<and>
    (\<exists>d. step_state_of diamond_end d = Some Failed \<and> (d, ''d'') \<in> (dep_rel diamond_deps)\<^sup>*)"
proof -
  have "''b'' \<in> set (running_ids diamond_bc)" by code_simp
  then have "reach (sched_init diamond_steps diamond_deps) sched_step (fst (mark_failed ''b'' diamond_bc))"
    by (intro reach_step [OF diamond_reach] step_fail) simp
  moreover have "''c'' \<in> set (running_ids (fst (mark_failed ''b'' diamond_bc)))" by code_simp
  ultimately have r: "reach (sched_init diamond_steps diamond_deps) sched_step diamond_end"
    unfolding diamond_end_def by (blast intro: reach_step step_complete)
  have c: "is_complete diamond_end" by code_simp
  have d: "step_state_of diamond_end ''d'' = Some Blocked" by code_simp
  with run_outcome [OF r c, of "''d''"] show ?thesis by simp
qed

end
