(* ===== verification/Pool.thy ===== *)
theory Pool
  imports Prelude
begin

text \<open>
  The subprocess pool, \<^verbatim>\<open>crates/betcode-daemon/src/orchestration/pool.rs\<close>: a semaphore of
  permits and the map of active entries. A permit is returned by dropping it, which is the
  operation \<open>release_permit\<close>. A sender half of a channel is represented by the identity of
  the channel.
\<close>

record pool_entry =
  pe_subagent_id :: string
  pe_stdin_tx :: nat

record subprocess_pool =
  semaphore :: nat
  max_concurrency :: nat
  entries :: "(string, pool_entry) hmap"

definition DEFAULT_MAX_CONCURRENCY :: nat where
  "DEFAULT_MAX_CONCURRENCY = 5"

definition new_pool :: "nat \<Rightarrow> subprocess_pool" where
  "new_pool n =
     (let limit = if n = 0 then DEFAULT_MAX_CONCURRENCY else n
      in \<lparr> semaphore = limit, max_concurrency = limit, entries = [] \<rparr>)"

definition default_pool :: subprocess_pool where
  "default_pool = new_pool DEFAULT_MAX_CONCURRENCY"

text \<open>\<^verbatim>\<open>try_acquire\<close>: \<open>None\<close> when no permit is available; otherwise one permit is taken.\<close>

definition try_acquire :: "subprocess_pool \<Rightarrow> subprocess_pool option" where
  "try_acquire p = (if semaphore p = 0 then None else Some (p\<lparr>semaphore := semaphore p - 1\<rparr>))"

text \<open>One poll of \<^verbatim>\<open>acquire\<close>: \<open>None\<close> means that the caller keeps waiting. The semaphore is never
  closed, so \<^verbatim>\<open>PoolError::Closed\<close> does not arise.\<close>

definition poll_acquire :: "subprocess_pool \<Rightarrow> subprocess_pool option" where
  "poll_acquire p = try_acquire p"

definition release_permit :: "subprocess_pool \<Rightarrow> subprocess_pool" where
  "release_permit p = p\<lparr>semaphore := Suc (semaphore p)\<rparr>"

definition pool_register :: "pool_entry \<Rightarrow> subprocess_pool \<Rightarrow> subprocess_pool" where
  "pool_register e p = p\<lparr>entries := hm_insert (pe_subagent_id e) e (entries p)\<rparr>"

definition pool_unregister :: "string \<Rightarrow> subprocess_pool \<Rightarrow> subprocess_pool \<times> pool_entry option" where
  "pool_unregister i p = (p\<lparr>entries := hm_remove i (entries p)\<rparr>, hm_get (entries p) i)"

definition pool_get :: "string \<Rightarrow> subprocess_pool \<Rightarrow> pool_entry option" where
  "pool_get i p = hm_get (entries p) i"

definition active_ids :: "subprocess_pool \<Rightarrow> string list" where
  "active_ids p = map fst (entries p)"

definition active_count :: "subprocess_pool \<Rightarrow> nat" where
  "active_count p = length (entries p)"

definition available_permits :: "subprocess_pool \<Rightarrow> nat" where
  "available_permits p = semaphore p"

lemmas pool_defs = try_acquire_def release_permit_def pool_register_def pool_unregister_def
  pool_get_def active_ids_def active_count_def available_permits_def

text \<open>\<open>pool_ok held p\<close>: the permits that are held and those available add up to the limit.\<close>

definition pool_ok :: "nat \<Rightarrow> subprocess_pool \<Rightarrow> bool" where
  "pool_ok held p \<longleftrightarrow> semaphore p + held = max_concurrency p \<and> hm_wf (entries p)"

lemma pool_ok_new: "pool_ok 0 (new_pool n)"
  by (simp add: pool_ok_def new_pool_def Let_def)

lemma pool_ok_acquire: "pool_ok held p \<Longrightarrow> try_acquire p = Some q \<Longrightarrow> pool_ok (Suc held) q"
  by (auto simp: pool_ok_def try_acquire_def split: if_splits)

lemma pool_ok_release: "pool_ok (Suc held) p \<Longrightarrow> pool_ok held (release_permit p)"
  by (simp add: pool_ok_def release_permit_def)

lemma pool_ok_register [simp]: "pool_ok held p \<Longrightarrow> pool_ok held (pool_register e p)"
  by (simp add: pool_ok_def pool_register_def)

lemma pool_ok_unregister [simp]: "pool_ok held p \<Longrightarrow> pool_ok held (fst (pool_unregister i p))"
  by (simp add: pool_ok_def pool_unregister_def)

lemma pool_full_iff: "pool_ok held p \<Longrightarrow> try_acquire p = None \<longleftrightarrow> held = max_concurrency p"
  by (auto simp: pool_ok_def try_acquire_def)

end
