(* ===== verification/SubagentStore.thy ===== *)
theory SubagentStore
  imports CoreDb
begin

text \<open>
  The subagent tables of the daemon's database and the queries on them,
  \<^verbatim>\<open>crates/betcode-daemon/src/storage/queries_subagents.rs\<close> with the row types of
  \<^verbatim>\<open>models.rs\<close> and the constraints of the migration \<^verbatim>\<open>20260216000000_subagents.sql\<close>. A table
  is the list of its rows in insertion order; primary keys, foreign keys and \<^verbatim>\<open>CHECK\<close> clauses
  are conditions of the statements. Foreign keys are enforced (\<^verbatim>\<open>open_pool\<close> switches them on).
  The current time is an argument.
\<close>

section \<open>Rows and tables\<close>

record subagent_row =
  sa_id :: string
  sa_parent_session_id :: string
  sa_prompt :: string
  sa_model :: "string option"
  sa_max_turns :: int
  sa_auto_approve :: int
  sa_allowed_tools :: string
  sa_working_directory :: "string option"
  sa_status :: string
  sa_exit_code :: "int option"
  sa_result_summary :: "string option"
  sa_created_at :: int
  sa_started_at :: "int option"
  sa_completed_at :: "int option"

record orchestration_row =
  or_id :: string
  or_parent_session_id :: string
  or_strategy :: string
  or_status :: string
  or_created_at :: int
  or_completed_at :: "int option"

record orchestration_step_row =
  st_id :: string
  st_orchestration_id :: string
  st_subagent_id :: "string option"
  st_step_index :: int
  st_prompt :: string
  st_depends_on :: string
  st_status :: string
  st_created_at :: int

record subagent_db =
  session_ids :: "string list"
  subagents :: "subagent_row list"
  orchestrations :: "orchestration_row list"
  orchestration_steps :: "orchestration_step_row list"

definition subagent_status_ok :: "string \<Rightarrow> bool" where
  "subagent_status_ok s \<longleftrightarrow> s \<in> {''pending'', ''running'', ''completed'', ''failed'', ''cancelled''}"

definition orchestration_status_ok :: "string \<Rightarrow> bool" where
  "orchestration_status_ok s \<longleftrightarrow> s \<in> {''pending'', ''running'', ''completed'', ''failed''}"

definition strategy_ok :: "string \<Rightarrow> bool" where
  "strategy_ok s \<longleftrightarrow> s \<in> {''parallel'', ''sequential'', ''dag''}"

definition step_status_ok :: "string \<Rightarrow> bool" where
  "step_status_ok s \<longleftrightarrow> s \<in> {''pending'', ''running'', ''completed'', ''failed'', ''blocked''}"

section \<open>Subagents\<close>

definition get_subagent :: "sqlite \<Rightarrow> string \<Rightarrow> subagent_db \<Rightarrow> database_error + subagent_row" where
  "get_subagent q i db =
     (if \<not> fst q then Inl (Query (snd q))
      else case find (\<lambda>r. sa_id r = i) (subagents db) of
        None \<Rightarrow> Inl (DbNotFound (''Subagent '' @ i))
      | Some r \<Rightarrow> Inr r)"

definition create_subagent ::
  "sqlite \<Rightarrow> sqlite \<Rightarrow> int \<Rightarrow> string \<Rightarrow> string \<Rightarrow> string \<Rightarrow> string option \<Rightarrow> int \<Rightarrow> bool \<Rightarrow> string
    \<Rightarrow> string option \<Rightarrow> subagent_db \<Rightarrow> subagent_db \<times> (database_error + subagent_row)" where
  "create_subagent q q' now i parent prompt model max_turns auto_approve allowed_tools wd db =
     (if \<not> fst q \<or> i \<in> set (map sa_id (subagents db)) \<or> parent \<notin> set (session_ids db)
      then (db, Inl (Query (snd q)))
      else
        let db' = db\<lparr>subagents := subagents db @ [\<lparr> sa_id = i, sa_parent_session_id = parent,
              sa_prompt = prompt, sa_model = model, sa_max_turns = max_turns,
              sa_auto_approve = (if auto_approve then 1 else 0), sa_allowed_tools = allowed_tools,
              sa_working_directory = wd, sa_status = ''pending'', sa_exit_code = None,
              sa_result_summary = None, sa_created_at = now, sa_started_at = None,
              sa_completed_at = None \<rparr>]\<rparr>
        in (db', get_subagent q' i db'))"

text \<open>\<^verbatim>\<open>ORDER BY created_at DESC\<close>; rows of the same second come in insertion order.\<close>

definition list_subagents_for_session ::
  "sqlite \<Rightarrow> string \<Rightarrow> string option \<Rightarrow> subagent_db \<Rightarrow> database_error + subagent_row list" where
  "list_subagents_for_session q parent status_filter db =
     (if \<not> fst q then Inl (Query (snd q))
      else Inr (sort_key (\<lambda>r. - sa_created_at r)
        (filter (\<lambda>r. sa_parent_session_id r = parent
            \<and> (case status_filter of None \<Rightarrow> True | Some st \<Rightarrow> sa_status r = st))
          (subagents db))))"

definition update_rows :: "('a \<Rightarrow> bool) \<Rightarrow> ('a \<Rightarrow> 'a) \<Rightarrow> 'a list \<Rightarrow> 'a list" where
  "update_rows p f rows = map (\<lambda>r. if p r then f r else r) rows"

definition update_subagent_status ::
  "sqlite \<Rightarrow> int \<Rightarrow> string \<Rightarrow> string \<Rightarrow> int option \<Rightarrow> string option \<Rightarrow> subagent_db
    \<Rightarrow> subagent_db \<times> (database_error + unit)" where
  "update_subagent_status q now i status exit_code result_summary db =
     (let upd = (\<lambda>f. db\<lparr>subagents := update_rows (\<lambda>r. sa_id r = i) f (subagents db)\<rparr>) in
      if \<not> fst q then (db, Inl (Query (snd q)))
      else if status = ''running''
      then (upd (\<lambda>r. r\<lparr>sa_status := status, sa_started_at := Some now\<rparr>), Inr ())
      else if status \<in> {''completed'', ''failed'', ''cancelled''}
      then (upd (\<lambda>r. r\<lparr>sa_status := status, sa_exit_code := exit_code,
                      sa_result_summary := result_summary, sa_completed_at := Some now\<rparr>), Inr ())
      else if \<not> subagent_status_ok status \<and> i \<in> set (map sa_id (subagents db))
      then (db, Inl (Query (snd q)))
      else (upd (\<lambda>r. r\<lparr>sa_status := status\<rparr>), Inr ()))"

section \<open>Orchestrations\<close>

definition get_orchestration ::
  "sqlite \<Rightarrow> string \<Rightarrow> subagent_db \<Rightarrow> database_error + orchestration_row" where
  "get_orchestration q i db =
     (if \<not> fst q then Inl (Query (snd q))
      else case find (\<lambda>r. or_id r = i) (orchestrations db) of
        None \<Rightarrow> Inl (DbNotFound (''Orchestration '' @ i))
      | Some r \<Rightarrow> Inr r)"

definition create_orchestration ::
  "sqlite \<Rightarrow> sqlite \<Rightarrow> int \<Rightarrow> string \<Rightarrow> string \<Rightarrow> string \<Rightarrow> subagent_db
    \<Rightarrow> subagent_db \<times> (database_error + orchestration_row)" where
  "create_orchestration q q' now i parent strategy db =
     (if \<not> fst q \<or> i \<in> set (map or_id (orchestrations db)) \<or> parent \<notin> set (session_ids db)
        \<or> \<not> strategy_ok strategy
      then (db, Inl (Query (snd q)))
      else
        let db' = db\<lparr>orchestrations := orchestrations db @ [\<lparr> or_id = i,
              or_parent_session_id = parent, or_strategy = strategy, or_status = ''pending'',
              or_created_at = now, or_completed_at = None \<rparr>]\<rparr>
        in (db', get_orchestration q' i db'))"

definition update_orchestration_status ::
  "sqlite \<Rightarrow> int \<Rightarrow> string \<Rightarrow> string \<Rightarrow> subagent_db \<Rightarrow> subagent_db \<times> (database_error + unit)" where
  "update_orchestration_status q now i status db =
     (let completed_at = (if status \<in> {''completed'', ''failed''} then Some now else None) in
      if \<not> fst q \<or> (\<not> orchestration_status_ok status \<and> i \<in> set (map or_id (orchestrations db)))
      then (db, Inl (Query (snd q)))
      else (db\<lparr>orchestrations := update_rows (\<lambda>r. or_id r = i)
             (\<lambda>r. r\<lparr>or_status := status,
                   or_completed_at := (case completed_at of None \<Rightarrow> or_completed_at r | Some t \<Rightarrow> Some t)\<rparr>)
             (orchestrations db)\<rparr>, Inr ()))"

section \<open>Orchestration steps\<close>

definition get_orchestration_step ::
  "sqlite \<Rightarrow> string \<Rightarrow> subagent_db \<Rightarrow> database_error + orchestration_step_row" where
  "get_orchestration_step q i db =
     (if \<not> fst q then Inl (Query (snd q))
      else case find (\<lambda>r. st_id r = i) (orchestration_steps db) of
        None \<Rightarrow> Inl (DbNotFound (''OrchestrationStep '' @ i))
      | Some r \<Rightarrow> Inr r)"

definition create_orchestration_step ::
  "sqlite \<Rightarrow> sqlite \<Rightarrow> int \<Rightarrow> string \<Rightarrow> string \<Rightarrow> int \<Rightarrow> string \<Rightarrow> string \<Rightarrow> subagent_db
    \<Rightarrow> subagent_db \<times> (database_error + orchestration_step_row)" where
  "create_orchestration_step q q' now i orch_id step_index prompt depends_on db =
     (if \<not> fst q \<or> i \<in> set (map st_id (orchestration_steps db))
        \<or> orch_id \<notin> set (map or_id (orchestrations db))
      then (db, Inl (Query (snd q)))
      else
        let db' = db\<lparr>orchestration_steps := orchestration_steps db @ [\<lparr> st_id = i,
              st_orchestration_id = orch_id, st_subagent_id = None, st_step_index = step_index,
              st_prompt = prompt, st_depends_on = depends_on, st_status = ''pending'',
              st_created_at = now \<rparr>]\<rparr>
        in (db', get_orchestration_step q' i db'))"

definition get_steps_for_orchestration ::
  "sqlite \<Rightarrow> string \<Rightarrow> subagent_db \<Rightarrow> database_error + orchestration_step_row list" where
  "get_steps_for_orchestration q orch_id db =
     (if \<not> fst q then Inl (Query (snd q))
      else Inr (sort_key st_step_index
        (filter (\<lambda>r. st_orchestration_id r = orch_id) (orchestration_steps db))))"

text \<open>
  The foreign key of \<^verbatim>\<open>subagent_id\<close> and the \<^verbatim>\<open>CHECK\<close> on the status are evaluated when a row is
  updated.
\<close>

definition update_step_status ::
  "sqlite \<Rightarrow> string \<Rightarrow> string \<Rightarrow> string option \<Rightarrow> subagent_db \<Rightarrow> subagent_db \<times> (database_error + unit)"
  where
  "update_step_status q i status subagent_id db =
     (let hit = (i \<in> set (map st_id (orchestration_steps db)));
          bad = (\<not> step_status_ok status
                 \<or> (case subagent_id of None \<Rightarrow> False | Some s \<Rightarrow> s \<notin> set (map sa_id (subagents db))))
      in if \<not> fst q \<or> (hit \<and> bad) then (db, Inl (Query (snd q)))
      else (db\<lparr>orchestration_steps := update_rows (\<lambda>r. st_id r = i)
             (\<lambda>r. case subagent_id of
                    None \<Rightarrow> r\<lparr>st_status := status\<rparr>
                  | Some s \<Rightarrow> r\<lparr>st_status := status, st_subagent_id := Some s\<rparr>)
             (orchestration_steps db)\<rparr>, Inr ()))"

section \<open>Integrity of the tables\<close>

text \<open>The constraints of the schema, as a predicate on the tables.\<close>

definition store_wf :: "subagent_db \<Rightarrow> bool" where
  "store_wf db \<longleftrightarrow>
     distinct (map sa_id (subagents db))
     \<and> list_all (\<lambda>r. sa_parent_session_id r \<in> set (session_ids db) \<and> subagent_status_ok (sa_status r)
           \<and> sa_auto_approve r \<in> {0, 1}) (subagents db)
     \<and> distinct (map or_id (orchestrations db))
     \<and> list_all (\<lambda>r. or_parent_session_id r \<in> set (session_ids db) \<and> strategy_ok (or_strategy r)
           \<and> orchestration_status_ok (or_status r)) (orchestrations db)
     \<and> distinct (map st_id (orchestration_steps db))
     \<and> list_all (\<lambda>r. st_orchestration_id r \<in> set (map or_id (orchestrations db))
           \<and> step_status_ok (st_status r)
           \<and> (case st_subagent_id r of None \<Rightarrow> True | Some s \<Rightarrow> s \<in> set (map sa_id (subagents db))))
         (orchestration_steps db)"

lemma update_rows_map:
  "(\<And>r. g (f r) = g r) \<Longrightarrow> map g (update_rows p f rows) = map g rows"
  by (auto simp: update_rows_def)

lemma update_rows_all:
  "list_all P rows \<Longrightarrow> (\<And>r. P r \<Longrightarrow> p r \<Longrightarrow> P (f r)) \<Longrightarrow> list_all P (update_rows p f rows)"
  by (auto simp: update_rows_def list_all_iff)

lemma find_update_rows:
  assumes "\<And>r. p r \<Longrightarrow> p (f r)"
  shows "find p (update_rows p f rows) = map_option f (find p rows)"
  using assms by (induction rows) (auto simp: update_rows_def)

lemma find_update_other:
  assumes "\<And>r. p r \<Longrightarrow> \<not> p' r" and "\<And>r. p r \<Longrightarrow> \<not> p' (f r)"
  shows "find p' (update_rows p f rows) = find p' rows"
  using assms by (induction rows) (auto simp: update_rows_def)

lemma find_id_iff: "(\<exists>r. find (\<lambda>r. g r = i) rows = Some r) \<longleftrightarrow> i \<in> set (map g rows)"
  by (induction rows) auto

lemma update_rows_len [simp]: "length (update_rows p f rows) = length rows"
  by (simp add: update_rows_def)

lemma update_rows_allI:
  assumes "list_all P rows" and "\<And>r. r \<in> set rows \<Longrightarrow> P r \<Longrightarrow> p r \<Longrightarrow> P (f r)"
  shows "list_all P (update_rows p f rows)"
  using assms by (auto simp: update_rows_def list_all_iff)

text \<open>Every statement keeps the constraints.\<close>

lemma create_subagent_wf:
  "store_wf sd \<Longrightarrow> store_wf (fst (create_subagent q q' now i p pr mo mt aa at wd sd))"
  by (auto simp: store_wf_def create_subagent_def Let_def subagent_status_ok_def list_all_iff
           split: option.splits)

lemma update_subagents_wf:
  assumes "store_wf sd"
    and "\<And>r. sa_id (f r) = sa_id r" and "\<And>r. sa_parent_session_id (f r) = sa_parent_session_id r"
    and "\<And>r. sa_auto_approve (f r) = sa_auto_approve r"
    and "\<And>r. subagent_status_ok (sa_status r) \<Longrightarrow> subagent_status_ok (sa_status (f r))"
  shows "store_wf (sd\<lparr>subagents := update_rows p f (subagents sd)\<rparr>)"
proof -
  have ids: "map sa_id (update_rows p f (subagents sd)) = map sa_id (subagents sd)"
    by (rule update_rows_map) (rule assms)
  show ?thesis
    using assms(1) unfolding store_wf_def
    by (simp add: ids arg_cong [OF ids, of set, simplified] del: insert_iff cong: option.case_cong)
       (auto elim!: update_rows_all simp: assms(3-5) simp del: insert_iff)
qed

lemma update_rows_none: "(\<And>r. r \<in> set rows \<Longrightarrow> \<not> p r) \<Longrightarrow> update_rows p f rows = rows"
  unfolding update_rows_def by (rule map_idI) simp

lemma update_subagent_status_wf:
  assumes wf: "store_wf sd"
  shows "store_wf (fst (update_subagent_status q now i st ec rs sd))"
proof -
  let ?upd = "\<lambda>f. sd\<lparr>subagents := update_rows (\<lambda>r. sa_id r = i) f (subagents sd)\<rparr>"
  have fin: "store_wf (?upd (\<lambda>r. r\<lparr>sa_status := st, sa_exit_code := ec, sa_result_summary := rs,
      sa_completed_at := Some now\<rparr>))" if "st \<in> {''completed'', ''failed'', ''cancelled''}"
    using that by (intro update_subagents_wf [OF wf]) (simp_all add: subagent_status_ok_def)
  have run: "store_wf (?upd (\<lambda>r. r\<lparr>sa_status := st, sa_started_at := Some now\<rparr>))" if "st = ''running''"
    using that by (intro update_subagents_wf [OF wf]) (simp_all add: subagent_status_ok_def)
  have other: "store_wf (?upd (\<lambda>r. r\<lparr>sa_status := st\<rparr>))" if "subagent_status_ok st"
    using that by (intro update_subagents_wf [OF wf]) simp_all
  have none: "?upd f = sd" if "i \<notin> set (map sa_id (subagents sd))" for f
    using that by (subst update_rows_none) auto
  show ?thesis
    unfolding update_subagent_status_def Let_def
    using wf fin run other none by (simp only: if_splits fst_conv split: if_split) metis
qed

lemma create_orchestration_wf:
  "store_wf sd \<Longrightarrow> store_wf (fst (create_orchestration q q' now i p st sd))"
  by (auto simp: store_wf_def create_orchestration_def Let_def orchestration_status_ok_def list_all_iff
           cong: option.case_cong)

lemma update_orchestration_status_wf:
  assumes "store_wf sd"
  shows "store_wf (fst (update_orchestration_status q now i st sd))"
proof (cases "fst q \<and> (orchestration_status_ok st \<or> i \<notin> set (map or_id (orchestrations sd)))")
  case True
  define f :: "orchestration_row \<Rightarrow> orchestration_row" where "f = (\<lambda>r. r\<lparr>or_status := st, or_completed_at :=
    (case if st \<in> {''completed'', ''failed''} then Some now else None of
       None \<Rightarrow> or_completed_at r | Some t \<Rightarrow> Some t)\<rparr>)"
  have e: "fst (update_orchestration_status q now i st sd)
      = sd\<lparr>orchestrations := update_rows (\<lambda>r. or_id r = i) f (orchestrations sd)\<rparr>"
    using True by (auto simp: update_orchestration_status_def Let_def f_def)
  have ids: "map or_id (update_rows (\<lambda>r. or_id r = i) f (orchestrations sd)) = map or_id (orchestrations sd)"
    by (rule update_rows_map) (simp add: f_def)
  have "list_all (\<lambda>r. or_parent_session_id r \<in> set (session_ids sd) \<and> strategy_ok (or_strategy r)
           \<and> orchestration_status_ok (or_status r)) (update_rows (\<lambda>r. or_id r = i) f (orchestrations sd))"
    using assms True unfolding store_wf_def update_rows_def list_all_iff by (auto simp: f_def)
  with assms show ?thesis unfolding e store_wf_def
    by (simp add: ids arg_cong [OF ids, of set, simplified] cong: option.case_cong)
next
  case False
  with assms show ?thesis by (auto simp: update_orchestration_status_def Let_def simp del: set_map)
qed

lemma create_orchestration_step_wf:
  "store_wf sd \<Longrightarrow> store_wf (fst (create_orchestration_step q q' now i oi ix p d sd))"
  by (auto simp: store_wf_def create_orchestration_step_def Let_def step_status_ok_def list_all_iff
           cong: option.case_cong)

lemma update_step_status_wf:
  assumes "store_wf sd"
  shows "store_wf (fst (update_step_status q i st sub sd))"
proof (cases "fst q \<and> (i \<in> set (map st_id (orchestration_steps sd)) \<longrightarrow> step_status_ok st \<and>
    (case sub of None \<Rightarrow> True | Some s \<Rightarrow> s \<in> set (map sa_id (subagents sd))))")
  case True
  define f :: "orchestration_step_row \<Rightarrow> orchestration_step_row" where "f = (\<lambda>r. case sub of None \<Rightarrow> r\<lparr>st_status := st\<rparr>
    | Some s \<Rightarrow> r\<lparr>st_status := st, st_subagent_id := Some s\<rparr>)"
  have e: "fst (update_step_status q i st sub sd)
      = sd\<lparr>orchestration_steps := update_rows (\<lambda>r. st_id r = i) f (orchestration_steps sd)\<rparr>"
    using True by (auto simp: update_step_status_def Let_def f_def simp del: set_map split: option.splits)
  have ids: "map st_id (update_rows (\<lambda>r. st_id r = i) f (orchestration_steps sd)) = map st_id (orchestration_steps sd)"
    by (rule update_rows_map) (simp add: f_def split: option.splits)
  have "list_all (\<lambda>r. st_orchestration_id r \<in> set (map or_id (orchestrations sd)) \<and> step_status_ok (st_status r)
      \<and> (case st_subagent_id r of None \<Rightarrow> True | Some s \<Rightarrow> s \<in> set (map sa_id (subagents sd))))
      (update_rows (\<lambda>r. st_id r = i) f (orchestration_steps sd))" (is "list_all ?P _")
  proof (rule update_rows_allI)
    show "list_all ?P (orchestration_steps sd)" using assms unfolding store_wf_def by blast
    fix r assume r: "r \<in> set (orchestration_steps sd)" "?P r" "st_id r = i"
    then have "step_status_ok st" "case sub of None \<Rightarrow> True | Some s \<Rightarrow> s \<in> set (map sa_id (subagents sd))"
      using True by auto
    with r(2) show "?P (f r)" by (cases sub) (simp_all add: f_def)
  qed
  with assms show ?thesis unfolding e store_wf_def
    by (simp add: ids arg_cong [OF ids, of set, simplified] cong: option.case_cong)
next
  case False
  with assms show ?thesis
    by (auto simp: update_step_status_def Let_def simp del: set_map split: option.splits)
qed

end
