(* ===== verification/Json.thy ===== *)
theory Json
  imports Prelude
begin

text \<open>
  JSON values as \<^verbatim>\<open>serde_json::Value\<close> presents them to the code: an object is the list of its
  members, ordered by key without repetition (the default map of \<^verbatim>\<open>serde_json\<close>). A number is an
  unsigned or a negative integer or a float, the float by its 64-bit pattern. Parsing and
  printing are \<^verbatim>\<open>serde_json\<close>'s: they are arguments of the definitions that use them.
\<close>

type_synonym f64 = "64 word"

datatype json_number = PosInt "64 word" | NegInt int | Float f64

datatype json =
    JNull
  | JBool bool
  | JNumber json_number
  | JString string
  | JArray "json list"
  | JObject "(string \<times> json) list"

text \<open>\<^verbatim>\<open>value.get(key)\<close>, and the accessors that return \<^verbatim>\<open>None\<close> on a value of another type.\<close>

definition jget :: "json \<Rightarrow> string \<Rightarrow> json option" where
  "jget v k = (case v of JObject m \<Rightarrow> map_of m k | _ \<Rightarrow> None)"

definition as_str :: "json \<Rightarrow> string option" where
  "as_str v = (case v of JString s \<Rightarrow> Some s | _ \<Rightarrow> None)"

definition as_array :: "json \<Rightarrow> json list option" where
  "as_array v = (case v of JArray xs \<Rightarrow> Some xs | _ \<Rightarrow> None)"

definition as_object :: "json \<Rightarrow> (string \<times> json) list option" where
  "as_object v = (case v of JObject m \<Rightarrow> Some m | _ \<Rightarrow> None)"

definition as_bool :: "json \<Rightarrow> bool option" where
  "as_bool v = (case v of JBool b \<Rightarrow> Some b | _ \<Rightarrow> None)"

definition as_u64 :: "json \<Rightarrow> 64 word option" where
  "as_u64 v = (case v of JNumber (PosInt n) \<Rightarrow> Some n | _ \<Rightarrow> None)"

text \<open>\<^verbatim>\<open>value.get(a).and_then(|v| v.as_str())\<close> and \<^verbatim>\<open>unwrap_or\<close>.\<close>

definition get_str :: "json \<Rightarrow> string \<Rightarrow> string option" where
  "get_str v k = Option.bind (jget v k) as_str"

definition unwrap_or :: "'a \<Rightarrow> 'a option \<Rightarrow> 'a" where
  "unwrap_or d x = (case x of None \<Rightarrow> d | Some v \<Rightarrow> v)"

lemma unwrap_or_simps [simp]: "unwrap_or d None = d" "unwrap_or d (Some v) = v"
  by (simp_all add: unwrap_or_def)

lemma jget_simps [simp]:
  "jget (JObject m) k = map_of m k" "jget JNull k = None" "jget (JString s) k = None"
  "jget (JArray xs) k = None" "jget (JBool b) k = None" "jget (JNumber n) k = None"
  by (simp_all add: jget_def)

lemma as_str_simps [simp]:
  "as_str (JString s) = Some s" "as_str JNull = None" "as_str (JBool b) = None"
  "as_str (JArray xs) = None" "as_str (JObject m) = None" "as_str (JNumber n) = None"
  by (simp_all add: as_str_def)

lemma as_str_Some: "as_str v = Some s \<longleftrightarrow> v = JString s"
  by (cases v) auto

end
