(* ===== verification/Subagents.thy ===== *)
theory Subagents
  imports Scheduler Pool SubagentStore Json
begin

text \<open>
  The subagent manager, \<^verbatim>\<open>crates/betcode-daemon/src/orchestration/manager.rs\<close> without the
  orchestration loop: \<^verbatim>\<open>spawn\<close> with its monitoring task, \<^verbatim>\<open>subscribe\<close>, \<^verbatim>\<open>send_input\<close>, \<^verbatim>\<open>cancel\<close>,
  \<^verbatim>\<open>revoke_auto_approve\<close>, and the parser of the subprocess output. What the operating system
  and the database do in a call (whether the process starts, its id, whether a statement
  executes) is an argument of the operation. The theory proves when \<^verbatim>\<open>spawn\<close> finds the pool full and
  which status a subagent ends with, each call taken as one step; the theory \<open>SpawnRuns\<close> cuts
  the calls at their awaits.
\<close>

section \<open>Events\<close>

datatype subagent_event =
    SubagentStarted string
  | SubagentOutput string bool
  | SubagentToolUse string string string
  | SubagentPermissionRequest string string string
  | SubagentCompleted int string
  | SubagentCancelled string
  | SubagentFailed int string

text \<open>Blocks of type \<open>ty\<close> in \<^verbatim>\<open>message.content\<close>.\<close>

definition content_blocks :: "json \<Rightarrow> json list option" where
  "content_blocks v = Option.bind (Option.bind (jget v ''message'') (\<lambda>m. jget m ''content'')) as_array"

definition text_block :: "json \<Rightarrow> string option" where
  "text_block b = (if get_str b ''type'' = Some ''text'' then get_str b ''text'' else None)"

definition tool_use_block :: "json \<Rightarrow> subagent_event option" where
  "tool_use_block b =
     (if get_str b ''type'' = Some ''tool_use''
      then Some (SubagentToolUse (unwrap_or [] (get_str b ''id'')) (unwrap_or [] (get_str b ''name'')) [])
      else None)"

definition parse_stdout_line :: "(string \<Rightarrow> json option) \<Rightarrow> string \<Rightarrow> subagent_event list" where
  "parse_stdout_line from_str line =
     (case from_str line of
        None \<Rightarrow> []
      | Some v \<Rightarrow>
          let msg_type = unwrap_or [] (get_str v ''type'') in
          if msg_type = ''assistant'' then
            let txt = (case content_blocks v of None \<Rightarrow> []
                        | Some bs \<Rightarrow> concat (List.map_filter text_block bs));
                out = (if txt \<noteq> [] then [SubagentOutput txt False] else []);
                tools = (case content_blocks v of None \<Rightarrow> [] | Some bs \<Rightarrow> List.map_filter tool_use_block bs)
            in out @ tools
          else if msg_type = ''content_block_delta'' then
            let txt = unwrap_or [] (Option.bind (jget v ''delta'') (\<lambda>d. get_str d ''text''))
            in (if txt = [] then [] else [SubagentOutput txt False])
          else if msg_type = ''control_request'' then
            [SubagentPermissionRequest (unwrap_or [] (get_str v ''request_id''))
               (unwrap_or [] (Option.bind (jget v ''request'') (\<lambda>r. get_str r ''tool_name''))) []]
          else [])"

section \<open>State\<close>

record subagent_config =
  cfg_id :: string
  cfg_parent_session_id :: string
  cfg_prompt :: string
  cfg_model :: "string option"
  cfg_working_directory :: string
  cfg_allowed_tools :: "string list"
  cfg_max_turns :: int
  cfg_auto_approve :: bool
  cfg_timeout_secs :: nat

record running_subagent =
  event_txs :: "nat list"
  pid :: "nat option"
  rs_auto_approve :: bool

text \<open>A bounded channel to a watcher: whether the receiver is gone, and what was delivered.\<close>

record watch_chan =
  chan_closed :: bool
  delivered :: "subagent_event list"

text \<open>
  \<open>notify\<close> is the permit of \<^verbatim>\<open>step_notify\<close>: \<^verbatim>\<open>Notify::notify_one\<close> stores at most one permit, and
  \<^verbatim>\<open>notified().await\<close> takes it or waits.
\<close>

record orchestration_state =
  notify :: bool

text \<open>
  \<open>monitors\<close> are the live monitoring tasks: one per spawned subprocess, each holding a pool
  permit until it ends.
\<close>

record subagent_manager =
  sm_pool :: subprocess_pool
  sm_db :: subagent_db
  running :: "(string, running_subagent) hmap"
  orch_map :: "(string, orchestration_state) hmap"
  subagent_to_orchestration :: "(string, string) hmap"
  chans :: "(nat, watch_chan) hmap"
  monitors :: "string list"

definition new_manager :: "subprocess_pool \<Rightarrow> subagent_db \<Rightarrow> subagent_manager" where
  "new_manager p db = \<lparr> sm_pool = p, sm_db = db, running = [], orch_map = [],
     subagent_to_orchestration = [], chans = [], monitors = [] \<rparr>"

section \<open>Spawning\<close>

definition DEFAULT_TIMEOUT_SECS :: nat where
  "DEFAULT_TIMEOUT_SECS = 600"

definition spawn_timeout :: "subagent_config \<Rightarrow> nat" where
  "spawn_timeout cfg = (if cfg_timeout_secs cfg = 0 then DEFAULT_TIMEOUT_SECS else cfg_timeout_secs cfg)"

text \<open>The arguments of the \<^verbatim>\<open>claude\<close> command.\<close>

definition claude_args :: "subagent_config \<Rightarrow> string list" where
  "claude_args cfg =
     [''--output-format'', ''stream-json'', ''--input-format'', ''stream-json'', ''--verbose'']
     @ (if cfg_auto_approve cfg \<and> cfg_allowed_tools cfg \<noteq> []
        then ''--allowedTools'' # cfg_allowed_tools cfg else [])
     @ [''-p'', cfg_prompt cfg, ''--include-partial-messages'']
     @ (case cfg_model cfg of None \<Rightarrow> [] | Some m \<Rightarrow> [''--model'', m])
     @ (if 0 < cfg_max_turns cfg then [''--max-turns'', show_int (cfg_max_turns cfg)] else [])"

text \<open>The working directory: the configured one if it is given and exists.\<close>

definition working_dir :: "(string \<Rightarrow> bool) \<Rightarrow> string option \<Rightarrow> string \<Rightarrow> subagent_config \<Rightarrow> string" where
  "working_dir path_exists home_dir temp_dir cfg =
     (if cfg_working_directory cfg = [] \<or> \<not> path_exists (cfg_working_directory cfg)
      then (case home_dir of None \<Rightarrow> temp_dir | Some h \<Rightarrow> h)
      else cfg_working_directory cfg)"

text \<open>
  What one call of \<^verbatim>\<open>spawn\<close> meets: the three statements, the result of starting the process
  (an error text, or the process id), whether its standard input was captured, the identity
  of the new input channel, and the JSON text of the tool list.
\<close>

record spawn_env =
  se_insert :: sqlite
  se_select :: sqlite
  se_update :: sqlite
  se_child :: "string + nat option"
  se_stdin :: bool
  se_chan :: nat
  se_tools_json :: string

definition spawn ::
  "spawn_env \<Rightarrow> int \<Rightarrow> subagent_config \<Rightarrow> subagent_manager \<Rightarrow> subagent_manager \<times> (manager_error + string)"
  where
  "spawn env now cfg m =
     (if cfg_prompt cfg = [] then (m, Inl (Validation ''prompt must not be empty''))
      else if cfg_auto_approve cfg \<and> cfg_allowed_tools cfg = []
      then (m, Inl (Validation ''auto_approve requires non-empty allowed_tools''))
      else case try_acquire (sm_pool m) of
        None \<Rightarrow> (m, Inl PoolFull)
      | Some p \<Rightarrow>
          (let (db, created) = create_subagent (se_insert env) (se_select env) now (cfg_id cfg)
                 (cfg_parent_session_id cfg) (cfg_prompt cfg) (cfg_model cfg) (cfg_max_turns cfg)
                 (cfg_auto_approve cfg) (se_tools_json env) (Some (cfg_working_directory cfg)) (sm_db m);
               m1 = m\<lparr>sm_pool := release_permit p, sm_db := db\<rparr>
           in case created of
             Inl e \<Rightarrow> (m1, Inl (Database e))
           | Inr _ \<Rightarrow>
               (case se_child env of
                  Inl reason \<Rightarrow> (m1, Inl (SpawnFailed reason))
                | Inr child_pid \<Rightarrow>
                    if \<not> se_stdin env then (m1, Inl (SpawnFailed ''Failed to capture stdin''))
                    else
                      let p2 = pool_register \<lparr> pe_subagent_id = cfg_id cfg, pe_stdin_tx = se_chan env \<rparr> p;
                          run = hm_insert (cfg_id cfg) \<lparr> event_txs = [], pid = child_pid,
                                  rs_auto_approve = cfg_auto_approve cfg \<rparr> (running m);
                          (db2, upd) = update_subagent_status (se_update env) now (cfg_id cfg)
                                         ''running'' None None db
                      in case upd of
                        Inl e \<Rightarrow> (m\<lparr>sm_pool := release_permit p2, sm_db := db2, running := run\<rparr>,
                                  Inl (Database e))
                      | Inr _ \<Rightarrow> (m\<lparr>sm_pool := p2, sm_db := db2, running := run,
                                   monitors := cfg_id cfg # monitors m\<rparr>, Inr (cfg_id cfg)))))"

section \<open>Broadcasting and the end of a subprocess\<close>

definition deliver :: "subagent_event \<Rightarrow> nat \<Rightarrow> (nat, watch_chan) hmap \<Rightarrow> (nat, watch_chan) hmap" where
  "deliver ev c cs = hm_modify c
     (\<lambda>ch. if chan_closed ch then ch else ch\<lparr>delivered := delivered ch @ [ev]\<rparr>) cs"

definition chan_open :: "(nat, watch_chan) hmap \<Rightarrow> nat \<Rightarrow> bool" where
  "chan_open cs c = (case hm_get cs c of None \<Rightarrow> False | Some ch \<Rightarrow> \<not> chan_closed ch)"

definition broadcast_event :: "string \<Rightarrow> subagent_event \<Rightarrow> subagent_manager \<Rightarrow> subagent_manager" where
  "broadcast_event i ev m =
     (case hm_get (running m) i of
        None \<Rightarrow> m
      | Some sa \<Rightarrow>
          let txs = filter (chan_open (chans m)) (event_txs sa)
          in m\<lparr>running := hm_insert i (sa\<lparr>event_txs := txs\<rparr>) (running m),
               chans := fold (deliver ev) txs (chans m)\<rparr>)"

text \<open>
  \<open>Exited code\<close>: \<^verbatim>\<open>child.wait()\<close> returned; \<open>code\<close> is \<open>None\<close> when a signal ended the process.
\<close>

datatype exit_result = Exited "int option" | WaitError string | TimedOut

definition classify_exit :: "exit_result \<Rightarrow> string \<times> int option \<times> string option" where
  "classify_exit r =
     (case r of
        Exited code \<Rightarrow>
          if code = Some 0 then (''completed'', code, Some ''Completed successfully'')
          else (''failed'', code, Some (''Exited with code '' @ show_int (unwrap_or (-1) code)))
      | WaitError e \<Rightarrow> (''failed'', None, Some (''Process error: '' @ e))
      | TimedOut \<Rightarrow> (''failed'', None, Some ''Timed out''))"

definition as_i32 :: "int \<Rightarrow> int" where
  "as_i32 x = signed_take_bit 31 x"

definition terminal_event :: "string \<Rightarrow> int option \<Rightarrow> string option \<Rightarrow> subagent_event" where
  "terminal_event status exit_code summary =
     (if status = ''completed''
      then SubagentCompleted (as_i32 (unwrap_or 0 exit_code)) (unwrap_or [] summary)
      else if status = ''cancelled'' then SubagentCancelled (unwrap_or [] summary)
      else SubagentFailed (as_i32 (unwrap_or (-1) exit_code)) (unwrap_or [] summary))"

definition notify_one :: "string \<Rightarrow> subagent_manager \<Rightarrow> subagent_manager" where
  "notify_one orch m = m\<lparr>orch_map := hm_modify orch (\<lambda>st. st\<lparr>notify := True\<rparr>) (orch_map m)\<rparr>"

text \<open>The monitoring task from the exit of the subprocess to its end, where the permit is dropped.\<close>

definition monitor_exit :: "sqlite \<Rightarrow> int \<Rightarrow> string \<Rightarrow> exit_result \<Rightarrow> subagent_manager \<Rightarrow> subagent_manager"
  where
  "monitor_exit q now i r m =
     (let (status, exit_code, summary) = classify_exit r;
          (db, _) = update_subagent_status q now i status exit_code summary (sm_db m);
          m1 = broadcast_event i (terminal_event status exit_code summary) (m\<lparr>sm_db := db\<rparr>);
          m2 = m1\<lparr>sm_pool := fst (pool_unregister i (sm_pool m1)), running := hm_remove i (running m1)\<rparr>;
          m3 = (case hm_get (subagent_to_orchestration m2) i of
                  None \<Rightarrow> m2
                | Some orch \<Rightarrow>
                    (let m' = notify_one orch m2
                     in m'\<lparr>subagent_to_orchestration := hm_remove i (subagent_to_orchestration m')\<rparr>))
      in m3\<lparr>sm_pool := release_permit (sm_pool m3), monitors := remove1 i (monitors m3)\<rparr>)"

section \<open>The other operations\<close>

definition subscribe :: "nat \<Rightarrow> string \<Rightarrow> subagent_manager \<Rightarrow> subagent_manager \<times> (manager_error + nat)" where
  "subscribe c i m =
     (case hm_get (running m) i of
        None \<Rightarrow> (m, Inl (NotFound i))
      | Some sa \<Rightarrow> (m\<lparr>running := hm_insert i (sa\<lparr>event_txs := event_txs sa @ [c]\<rparr>) (running m),
                       chans := hm_insert c \<lparr> chan_closed = False, delivered = [] \<rparr> (chans m)\<rparr>, Inr c))"

text \<open>\<open>rx_alive\<close>: the writer task of the subprocess still receives on the channel.\<close>

definition send_input :: "(nat \<Rightarrow> bool) \<Rightarrow> string \<Rightarrow> subagent_manager \<Rightarrow> manager_error + bool" where
  "send_input rx_alive i m =
     (case pool_get i (sm_pool m) of
        None \<Rightarrow> Inl (NotFound i)
      | Some e \<Rightarrow> Inr (rx_alive (pe_stdin_tx e)))"

text \<open>\<^verbatim>\<open>cancel\<close>: the process ids that receive \<^verbatim>\<open>SIGTERM\<close>, the new state and the result.\<close>

definition cancel ::
  "sqlite \<Rightarrow> int \<Rightarrow> string \<Rightarrow> string \<Rightarrow> subagent_manager
    \<Rightarrow> nat list \<times> subagent_manager \<times> (manager_error + bool)" where
  "cancel q now i reason m =
     (case hm_get (running m) i of
        None \<Rightarrow> ([], m, Inr False)
      | Some sa \<Rightarrow>
          let kills = (case pid sa of None \<Rightarrow> [] | Some p \<Rightarrow> [p]);
              (db, r) = update_subagent_status q now i ''cancelled'' None (Some reason) (sm_db m)
          in (kills, m\<lparr>sm_db := db\<rparr>, (case r of Inl e \<Rightarrow> Inl (Database e) | Inr _ \<Rightarrow> Inr True)))"

definition revoke_auto_approve :: "string \<Rightarrow> subagent_manager \<Rightarrow> subagent_manager \<times> bool" where
  "revoke_auto_approve i m =
     (m\<lparr>running := hm_modify i (\<lambda>sa. sa\<lparr>rs_auto_approve := False\<rparr>) (running m)\<rparr>,
      hm_get (running m) i \<noteq> None)"

definition is_running :: "string \<Rightarrow> subagent_manager \<Rightarrow> bool" where
  "is_running i m \<longleftrightarrow> hm_get (running m) i \<noteq> None"

section \<open>Invariant of the manager\<close>

text \<open>
  Every live monitoring task holds one permit and its subagent is registered in the pool, in
  the map of running subagents and in the database.
\<close>

definition known_ids :: "subagent_db \<Rightarrow> string set" where
  "known_ids db = set (map sa_id (subagents db))"

definition mgr_inv :: "subagent_manager \<Rightarrow> bool" where
  "mgr_inv m \<longleftrightarrow>
     pool_ok (length (monitors m)) (sm_pool m) \<and> distinct (monitors m) \<and> hm_wf (running m) \<and>
     set (monitors m) \<subseteq> hm_keys (running m) \<and> set (monitors m) \<subseteq> hm_keys (entries (sm_pool m)) \<and>
     set (monitors m) \<subseteq> known_ids (sm_db m)"

lemma mgr_inv_new: "mgr_inv (new_manager (new_pool n) db)"
  by (simp add: mgr_inv_def new_manager_def pool_ok_new)

lemma known_update [simp]:
  "known_ids (fst (update_subagent_status q now i st ec rs db)) = known_ids db"
proof -
  have "map sa_id (subagents (fst (update_subagent_status q now i st ec rs db))) = map sa_id (subagents db)"
    unfolding update_subagent_status_def Let_def by (simp add: update_rows_map)
  then show ?thesis by (simp only: known_ids_def)
qed

lemma known_create:
  assumes "create_subagent q q' now i parent prompt mo mt aa tools wd db = (db', Inr r)"
  shows "i \<notin> known_ids db" and "known_ids db' = insert i (known_ids db)"
  using assms by (auto simp: create_subagent_def known_ids_def Let_def split: if_splits)

lemma known_create_mono:
  "known_ids db \<subseteq> known_ids (fst (create_subagent q q' now i parent prompt mo mt aa tools wd db))"
  by (auto simp: create_subagent_def known_ids_def Let_def)

lemma entries_acquire: "try_acquire p = Some q \<Longrightarrow> entries q = entries p"
  by (auto simp: try_acquire_def split: if_splits)

lemma acquire_release: "try_acquire p = Some q \<Longrightarrow> release_permit q = p"
  by (auto simp: try_acquire_def release_permit_def split: if_splits)

lemma entries_simps [simp]:
  "entries (release_permit p) = entries p"
  "hm_keys (entries (pool_register e p)) = insert (pe_subagent_id e) (hm_keys (entries p))"
  by (simp_all add: release_permit_def pool_register_def)

text \<open>The possible outcomes of \<^verbatim>\<open>spawn\<close>.\<close>

lemma spawn_cases:
  assumes "spawn env now cfg m = (m', r)"
  obtains (rejected) e where "r = Inl e" "m' = m"
  | (stored) p db e where "try_acquire (sm_pool m) = Some p" "r = Inl e"
      "m' = m\<lparr>sm_db := db\<rparr>" "known_ids (sm_db m) \<subseteq> known_ids db"
  | (leaked) p db e run_entry where "try_acquire (sm_pool m) = Some p" "r = Inl e"
      "known_ids (sm_db m) \<subseteq> known_ids db"
      "m' = m\<lparr>sm_pool := release_permit (pool_register \<lparr> pe_subagent_id = cfg_id cfg,
          pe_stdin_tx = se_chan env \<rparr> p), sm_db := db,
          running := hm_insert (cfg_id cfg) run_entry (running m)\<rparr>"
  | (started) p db run_entry where "try_acquire (sm_pool m) = Some p" "r = Inr (cfg_id cfg)"
      "cfg_id cfg \<notin> known_ids (sm_db m)" "known_ids db = insert (cfg_id cfg) (known_ids (sm_db m))"
      "m' = m\<lparr>sm_pool := pool_register \<lparr> pe_subagent_id = cfg_id cfg,
          pe_stdin_tx = se_chan env \<rparr> p, sm_db := db,
          running := hm_insert (cfg_id cfg) run_entry (running m),
          monitors := cfg_id cfg # monitors m\<rparr>"
proof (cases "cfg_prompt cfg = [] \<or> cfg_auto_approve cfg \<and> cfg_allowed_tools cfg = []
    \<or> try_acquire (sm_pool m) = None")
  case True
  then have "m' = m \<and> (\<exists>e. r = Inl e)"
    using assms by (auto simp: spawn_def split: if_splits)
  then show ?thesis using rejected by blast
next
  case False
  then obtain p where ok: "cfg_prompt cfg \<noteq> []" "\<not> (cfg_auto_approve cfg \<and> cfg_allowed_tools cfg = [])"
    and p: "try_acquire (sm_pool m) = Some p" by auto
  obtain db created where c: "create_subagent (se_insert env) (se_select env) now (cfg_id cfg)
      (cfg_parent_session_id cfg) (cfg_prompt cfg) (cfg_model cfg) (cfg_max_turns cfg)
      (cfg_auto_approve cfg) (se_tools_json env) (Some (cfg_working_directory cfg)) (sm_db m) = (db, created)"
    by fastforce
  have mono: "known_ids (sm_db m) \<subseteq> known_ids db"
    using known_create_mono by (metis c fst_conv)
  have rel: "m\<lparr>sm_pool := release_permit p, sm_db := db\<rparr> = m\<lparr>sm_db := db\<rparr>"
    using acquire_release [OF p] by simp
  show ?thesis
  proof (cases "(\<exists>e. created = Inl e) \<or> (\<exists>e. se_child env = Inl e) \<or> \<not> se_stdin env")
    case True
    then have "m' = m\<lparr>sm_db := db\<rparr> \<and> (\<exists>e. r = Inl e)"
      using assms ok by (auto simp: spawn_def p c Let_def rel split: sum.splits)
    then show ?thesis using stored [OF p] mono by blast
  next
    case False
    then obtain row child_pid where row: "created = Inr row" "se_child env = Inr child_pid" "se_stdin env"
      by (metis sum.exhaust)
    obtain db2 upd where u: "update_subagent_status (se_update env) now (cfg_id cfg)
        ''running'' None None db = (db2, upd)" by fastforce
    have ids: "known_ids db2 = known_ids db" using known_update by (metis u fst_conv)
    have new: "cfg_id cfg \<notin> known_ids (sm_db m)" "known_ids db = insert (cfg_id cfg) (known_ids (sm_db m))"
      using known_create [OF c [unfolded row(1)]] by auto
    let ?run = "\<lparr> event_txs = [], pid = child_pid, rs_auto_approve = cfg_auto_approve cfg \<rparr>"
    show ?thesis
    proof (cases upd)
      case (Inl e)
      then show ?thesis
        using assms ok row mono ids leaked [OF p, of "Database e" db2 ?run]
        by (simp add: spawn_def p c u Let_def)
    next
      case (Inr v)
      then show ?thesis
        using assms ok row new ids started [OF p, of db2 ?run]
        by (simp add: spawn_def p c u Let_def)
    qed
  qed
qed

lemma spawn_inv: "mgr_inv m \<Longrightarrow> mgr_inv (fst (spawn env now cfg m))"
proof -
  assume inv: "mgr_inv m"
  obtain m' r where s: "spawn env now cfg m = (m', r)" by fastforce
  have "mgr_inv m'"
    using s
  proof (cases rule: spawn_cases)
    case (leaked p db e run_entry)
    have "pool_ok (Suc (length (monitors m))) p" using inv leaked(1) pool_ok_acquire by (auto simp: mgr_inv_def)
    then have "pool_ok (length (monitors m)) (release_permit (pool_register \<lparr> pe_subagent_id = cfg_id cfg,
          pe_stdin_tx = se_chan env \<rparr> p))" by (intro pool_ok_release) simp
    then show ?thesis using inv leaked entries_acquire [OF leaked(1)] by (auto simp: mgr_inv_def)
  next
    case (started p db run_entry)
    have "pool_ok (Suc (length (monitors m))) p" using inv started(1) pool_ok_acquire by (auto simp: mgr_inv_def)
    moreover have "cfg_id cfg \<notin> set (monitors m)" using inv started(3) by (auto simp: mgr_inv_def)
    ultimately show ?thesis using inv started entries_acquire [OF started(1)] by (auto simp: mgr_inv_def)
  qed (use inv in \<open>auto simp: mgr_inv_def\<close>)
  with s show ?thesis by simp
qed

lemma broadcast_simps [simp]:
  "sm_pool (broadcast_event i ev m) = sm_pool m" "sm_db (broadcast_event i ev m) = sm_db m"
  "orch_map (broadcast_event i ev m) = orch_map m" "monitors (broadcast_event i ev m) = monitors m"
  "subagent_to_orchestration (broadcast_event i ev m) = subagent_to_orchestration m"
  by (simp_all add: broadcast_event_def Let_def split: option.splits)

lemma broadcast_running [simp]:
  "hm_keys (running (broadcast_event i ev m)) = hm_keys (running m)"
  "hm_wf (running m) \<Longrightarrow> hm_wf (running (broadcast_event i ev m))"
  using hm_key_iff [of i "running m"]
  by (auto simp: broadcast_event_def Let_def insert_absorb split: option.splits)

lemma broadcast_inv: "mgr_inv m \<Longrightarrow> mgr_inv (broadcast_event i ev m)"
  by (simp add: mgr_inv_def)

lemma notify_simps [simp]:
  "sm_pool (notify_one o1 m) = sm_pool m" "sm_db (notify_one o1 m) = sm_db m"
  "running (notify_one o1 m) = running m" "monitors (notify_one o1 m) = monitors m"
  "subagent_to_orchestration (notify_one o1 m) = subagent_to_orchestration m"
  by (simp_all add: notify_one_def)

text \<open>Effect of the end of a monitoring task.\<close>

lemma monitor_exit_effect:
  assumes "classify_exit r = (st, ec, rs)"
  shows "sm_db (monitor_exit q now i r m) = fst (update_subagent_status q now i st ec rs (sm_db m))"
    and "sm_pool (monitor_exit q now i r m) = release_permit (fst (pool_unregister i (sm_pool m)))"
    and "hm_keys (running (monitor_exit q now i r m)) = hm_keys (running m) - {i}"
    and "hm_wf (running m) \<Longrightarrow> hm_wf (running (monitor_exit q now i r m))"
    and "monitors (monitor_exit q now i r m) = remove1 i (monitors m)"
    and "orch_map (monitor_exit q now i r m) =
      (case hm_get (subagent_to_orchestration m) i of None \<Rightarrow> orch_map m
       | Some orch \<Rightarrow> hm_modify orch (\<lambda>st. st\<lparr>notify := True\<rparr>) (orch_map m))"
    and "subagent_to_orchestration (monitor_exit q now i r m) =
      (case hm_get (subagent_to_orchestration m) i of None \<Rightarrow> subagent_to_orchestration m
       | Some _ \<Rightarrow> hm_remove i (subagent_to_orchestration m))"
  using assms
  by (simp_all add: monitor_exit_def Let_def case_prod_beta notify_one_def split: option.splits)

lemma entries_unregister [simp]:
  "hm_keys (entries (fst (pool_unregister i p))) = hm_keys (entries p) - {i}"
  by (simp add: pool_unregister_def)

lemma monitor_exit_inv:
  assumes inv: "mgr_inv m" and i: "i \<in> set (monitors m)"
  shows "mgr_inv (monitor_exit q now i r m)"
proof -
  obtain st ec rs where c: "classify_exit r = (st, ec, rs)" by (metis prod_cases3)
  note eff = monitor_exit_effect [OF c]
  have len: "length (monitors m) = Suc (length (remove1 i (monitors m)))"
    using i length_pos_if_in_set [OF i] by (simp add: length_remove1)
  have "pool_ok (Suc (length (remove1 i (monitors m)))) (fst (pool_unregister i (sm_pool m)))"
    using inv len by (simp add: mgr_inv_def)
  then have "pool_ok (length (remove1 i (monitors m))) (release_permit (fst (pool_unregister i (sm_pool m))))"
    by (rule pool_ok_release)
  then show ?thesis using inv unfolding mgr_inv_def eff
    by (auto simp: eff set_remove1_eq)
qed

lemma cancel_state:
  "fst (snd (cancel q now i reason m)) = m \<or>
   fst (snd (cancel q now i reason m)) =
     m\<lparr>sm_db := fst (update_subagent_status q now i ''cancelled'' None (Some reason) (sm_db m))\<rparr>"
  by (simp add: cancel_def Let_def case_prod_beta split: option.splits)

lemma cancel_inv: "mgr_inv m \<Longrightarrow> mgr_inv (fst (snd (cancel q now i reason m)))"
  using cancel_state [of q now i reason m] by (auto simp: mgr_inv_def)

lemma subscribe_inv: "mgr_inv m \<Longrightarrow> mgr_inv (fst (subscribe c i m))"
  by (auto simp: mgr_inv_def subscribe_def split: option.splits)

lemma revoke_inv: "mgr_inv m \<Longrightarrow> mgr_inv (fst (revoke_auto_approve i m))"
  by (simp add: mgr_inv_def revoke_auto_approve_def)

lemma unwatch_inv: "mgr_inv m \<Longrightarrow> mgr_inv (m\<lparr>chans := cs\<rparr>)"
  by (simp add: mgr_inv_def)

inductive mgr_step :: "subagent_manager \<Rightarrow> subagent_manager \<Rightarrow> bool" where
  mgr_spawn: "mgr_step m (fst (spawn env now cfg m))"
| mgr_output: "i \<in> set (monitors m) \<Longrightarrow> mgr_step m (broadcast_event i ev m)"
| mgr_exit: "i \<in> set (monitors m) \<Longrightarrow> mgr_step m (monitor_exit q now i r m)"
| mgr_subscribe: "mgr_step m (fst (subscribe c i m))"
| mgr_cancel: "mgr_step m (fst (snd (cancel q now i reason m)))"
| mgr_revoke: "mgr_step m (fst (revoke_auto_approve i m))"
| mgr_unwatch: "mgr_step m (m\<lparr>chans := hm_modify c (\<lambda>ch. ch\<lparr>chan_closed := True\<rparr>) (chans m)\<rparr>)"

definition mgr_init :: "nat \<Rightarrow> subagent_manager \<Rightarrow> bool" where
  "mgr_init n m \<longleftrightarrow> (\<exists>db. m = new_manager (new_pool n) db)"

definition mgr_run_inv :: "nat \<Rightarrow> subagent_manager \<Rightarrow> bool" where
  "mgr_run_inv n m \<longleftrightarrow> mgr_inv m \<and> max_concurrency (sm_pool m) = max_concurrency (new_pool n)"

lemma max_concurrency_simps [simp]:
  "max_concurrency (release_permit p) = max_concurrency p"
  "max_concurrency (pool_register e p) = max_concurrency p"
  "max_concurrency (fst (pool_unregister i p)) = max_concurrency p"
  by (simp_all add: pool_defs)

lemma max_concurrency_acquire: "try_acquire p = Some q \<Longrightarrow> max_concurrency q = max_concurrency p"
  by (auto simp: try_acquire_def split: if_splits)

lemma mgr_step_max: "mgr_step m m' \<Longrightarrow> max_concurrency (sm_pool m') = max_concurrency (sm_pool m)"
proof (induction rule: mgr_step.induct)
  case (mgr_spawn m env now cfg)
  obtain m' r where s: "spawn env now cfg m = (m', r)" by fastforce
  then have "max_concurrency (sm_pool m') = max_concurrency (sm_pool m)"
    by (cases rule: spawn_cases) (auto dest: max_concurrency_acquire)
  with s show ?case by simp
next
  case (mgr_exit i m q now r)
  obtain st ec rs where "classify_exit r = (st, ec, rs)" by (metis prod_cases3)
  then show ?case by (simp add: monitor_exit_effect)
next
  case (mgr_cancel m q now i reason)
  then show ?case using cancel_state [of q now i reason m] by auto
qed (simp_all add: subscribe_def revoke_auto_approve_def split: option.splits)

interpretation mgr_run: step_system "mgr_init n" mgr_step "mgr_run_inv n" for n
proof unfold_locales
  fix m assume "mgr_init n m"
  then show "mgr_run_inv n m" by (auto simp: mgr_init_def mgr_run_inv_def mgr_inv_new) (simp add: new_manager_def)
next
  fix m m' assume inv: "mgr_run_inv n m" and step: "mgr_step m m'"
  from step have "mgr_inv m \<Longrightarrow> mgr_inv m'"
    by (induction rule: mgr_step.induct)
       (auto intro: spawn_inv broadcast_inv monitor_exit_inv subscribe_inv cancel_inv revoke_inv
         unwatch_inv)
  with inv mgr_step_max [OF step] show "mgr_run_inv n m'" by (simp add: mgr_run_inv_def)
qed

section \<open>Properties of the manager\<close>

definition demo_db :: subagent_db where
  "demo_db = \<lparr> session_ids = [''s''], subagents = [], orchestrations = [], orchestration_steps = [] \<rparr>"

definition demo_env :: spawn_env where
  "demo_env = \<lparr> se_insert = (True, []), se_select = (True, []), se_update = (True, []),
     se_child = Inr (Some 42), se_stdin = True, se_chan = 0, se_tools_json = ''[]'' \<rparr>"

definition demo_cfg :: "string \<Rightarrow> subagent_config" where
  "demo_cfg i = \<lparr> cfg_id = i, cfg_parent_session_id = ''s'', cfg_prompt = ''p'', cfg_model = None,
     cfg_working_directory = ''/w'', cfg_allowed_tools = [], cfg_max_turns = 0,
     cfg_auto_approve = False, cfg_timeout_secs = 0 \<rparr>"

definition demo_mgr :: subagent_manager where
  "demo_mgr = fst (spawn demo_env 1 (demo_cfg ''a'') (new_manager (new_pool 1) demo_db))"

lemma demo_reach: "reach (mgr_init 1) mgr_step demo_mgr"
proof -
  have "mgr_init 1 (new_manager (new_pool 1) demo_db)" by (auto simp: mgr_init_def)
  then have "reach (mgr_init 1) mgr_step (new_manager (new_pool 1) demo_db)" by (rule reach_init)
  then show ?thesis unfolding demo_mgr_def by (rule reach_step) (rule mgr_spawn)
qed

text \<open>
  A request with a prompt, and with tools when it asks for auto-approval, is refused with
  \<^verbatim>\<open>PoolFull\<close> exactly when as many subprocesses are live as the limit allows.
\<close>

theorem spawn_pool_full:
  assumes "reach (mgr_init n) mgr_step m" and "cfg_prompt cfg \<noteq> []"
    and "cfg_auto_approve cfg \<Longrightarrow> cfg_allowed_tools cfg \<noteq> []"
  shows "snd (spawn env now cfg m) = Inl PoolFull \<longleftrightarrow> length (monitors m) = (if n = 0 then 5 else n)"
proof -
  have inv: "mgr_run_inv n m" using mgr_run.reach_inv [OF assms(1)] .
  have "snd (spawn env now cfg m) = Inl PoolFull \<longleftrightarrow> try_acquire (sm_pool m) = None"
    using assms(2,3)
    by (auto simp: spawn_def Let_def case_prod_beta split: option.splits sum.splits if_splits)
  also have "\<dots> \<longleftrightarrow> length (monitors m) = max_concurrency (sm_pool m)"
    using inv by (intro pool_full_iff) (simp add: mgr_run_inv_def mgr_inv_def)
  finally show ?thesis using inv
    by (auto simp: mgr_run_inv_def new_pool_def DEFAULT_MAX_CONCURRENCY_def Let_def)
qed

theorem spawn_pool_full_witness:
  "snd (spawn demo_env 2 (demo_cfg ''b'') demo_mgr) = Inl PoolFull"
proof -
  have "length (monitors demo_mgr) = 1" by code_simp
  then show ?thesis
    using spawn_pool_full [OF demo_reach, of "demo_cfg ''b''" demo_env 2] by (simp add: demo_cfg_def)
qed

definition status_of :: "string \<Rightarrow> subagent_manager \<Rightarrow> string option" where
  "status_of i m = map_option sa_status (find (\<lambda>r. sa_id r = i) (subagents (sm_db m)))"

lemma status_update:
  assumes "i \<in> known_ids db" and "fst q" and "st \<in> {''running'', ''completed'', ''failed'', ''cancelled''}"
  shows "map_option sa_status (find (\<lambda>r. sa_id r = i)
      (subagents (fst (update_subagent_status q now i st ec rs db)))) = Some st"
proof -
  obtain r where "find (\<lambda>r. sa_id r = i) (subagents db) = Some r"
    using assms(1) find_id_iff [of sa_id i "subagents db"] by (auto simp: known_ids_def)
  with assms(2,3) show ?thesis
    by (auto simp: update_subagent_status_def Let_def find_update_rows)
qed

lemma classify_status:
  assumes "classify_exit r = (st, ec, rs)"
  shows "st = (if r = Exited (Some 0) then ''completed'' else ''failed'')"
  using assms by (auto simp: classify_exit_def split: exit_result.splits if_splits)

text \<open>
  When a subprocess ends and the database executes the update, its row is \<^verbatim>\<open>completed\<close> if the
  exit code was 0 and \<^verbatim>\<open>failed\<close> otherwise, it no longer counts as running, and its permit is back.
\<close>

theorem monitor_exit_outcome:
  assumes "reach (mgr_init n) mgr_step m" and "i \<in> set (monitors m)" and "fst q"
  shows "status_of i (monitor_exit q now i r m)
        = Some (if r = Exited (Some 0) then ''completed'' else ''failed'')
    \<and> \<not> is_running i (monitor_exit q now i r m)
    \<and> pool_get i (sm_pool (monitor_exit q now i r m)) = None
    \<and> available_permits (sm_pool (monitor_exit q now i r m)) = Suc (available_permits (sm_pool m))"
proof -
  obtain st ec rs where c: "classify_exit r = (st, ec, rs)" by (metis prod_cases3)
  note eff = monitor_exit_effect [OF c]
  have "i \<in> known_ids (sm_db m)"
    using mgr_run.reach_inv [OF assms(1)] assms(2) by (auto simp: mgr_run_inv_def mgr_inv_def)
  then have "status_of i (monitor_exit q now i r m) = Some st"
    unfolding status_of_def eff using assms(3) classify_status [OF c] by (intro status_update) auto
  moreover have "i \<notin> hm_keys (running (monitor_exit q now i r m))" unfolding eff by simp
  ultimately show ?thesis
    using classify_status [OF c]
    by (simp add: is_running_def map_of_eq_None_iff eff(2)) (simp add: pool_defs)
qed

theorem monitor_exit_outcome_witness:
  "status_of ''a'' (monitor_exit (True, []) 5 ''a'' (Exited (Some 0)) demo_mgr) = Some ''completed''"
proof -
  have "''a'' \<in> set (monitors demo_mgr)" by code_simp
  with monitor_exit_outcome [OF demo_reach, of "''a''" "(True, [])" 5 "Exited (Some 0)"]
  show ?thesis by simp
qed

text \<open>
  A cancelled subagent does not stay \<^verbatim>\<open>cancelled\<close>: the status that \<^verbatim>\<open>cancel\<close> writes is replaced
  when the monitoring task sees the subprocess end, and a subprocess ended by the \<^verbatim>\<open>SIGTERM\<close>
  is recorded as \<^verbatim>\<open>failed\<close>.
\<close>

theorem cancel_overwritten:
  assumes "reach (mgr_init n) mgr_step m" and "i \<in> set (monitors m)" and "fst q" and "fst q'"
    and "cancel q now i reason m = (kills, m', r)"
  shows "r = Inr True \<and> status_of i m' = Some ''cancelled''
    \<and> status_of i (monitor_exit q' now' i (Exited None) m') = Some ''failed''"
proof -
  have inv: "mgr_inv m" using mgr_run.reach_inv [OF assms(1)] by (simp add: mgr_run_inv_def)
  then have known: "i \<in> known_ids (sm_db m)" and run: "hm_get (running m) i \<noteq> None"
    using assms(2) hm_key_iff [of i "running m"] by (auto simp: mgr_inv_def)
  from run assms(3,5) have r: "r = Inr True"
    and m': "m' = m\<lparr>sm_db := fst (update_subagent_status q now i ''cancelled'' None (Some reason) (sm_db m))\<rparr>"
    by (auto simp: cancel_def Let_def update_subagent_status_def)
  have "status_of i m' = Some ''cancelled''"
    unfolding status_of_def m' using known assms(3) by (simp add: status_update)
  moreover obtain st ec rs where c: "classify_exit (Exited None) = (st, ec, rs)" by (metis prod_cases3)
  have "i \<in> known_ids (sm_db m')" unfolding m' using known by simp
  then have "status_of i (monitor_exit q' now' i (Exited None) m') = Some ''failed''"
    unfolding status_of_def monitor_exit_effect [OF c] using assms(4) classify_status [OF c]
    by (simp add: status_update)
  ultimately show ?thesis using r by simp
qed

theorem cancel_overwritten_witness:
  "status_of ''a'' (monitor_exit (True, []) 9 ''a'' (Exited None)
      (fst (snd (cancel (True, []) 8 ''a'' ''stop'' demo_mgr)))) = Some ''failed''"
proof -
  have "''a'' \<in> set (monitors demo_mgr)" by code_simp
  then show ?thesis
    using cancel_overwritten [OF demo_reach, of "''a''" "(True, [])" "(True, [])" 8 "''stop''"
      "fst (cancel (True, []) 8 ''a'' ''stop'' demo_mgr)"
      "fst (snd (cancel (True, []) 8 ''a'' ''stop'' demo_mgr))"
      "snd (snd (cancel (True, []) 8 ''a'' ''stop'' demo_mgr))" 9]
    by simp
qed

lemma find_snoc: "find p (xs @ [x]) = (case find p xs of None \<Rightarrow> if p x then Some x else None | Some y \<Rightarrow> Some y)"
  by (induction xs) auto

text \<open>
  When the statement that records the start of a subagent fails, \<^verbatim>\<open>spawn\<close> returns the error but
  leaves the subagent in the pool's entries and in the running map, where no monitoring task
  will remove it: it counts as running although it has no task and no permit.
\<close>

theorem spawn_error_leaks:
  assumes "reach (mgr_init n) mgr_step m" and "cfg_prompt cfg \<noteq> []" and "cfg_allowed_tools cfg \<noteq> []"
    and "length (monitors m) < (if n = 0 then 5 else n)"
    and "cfg_id cfg \<notin> known_ids (sm_db m)" and "cfg_parent_session_id cfg \<in> set (session_ids (sm_db m))"
    and "fst (se_insert env)" and "fst (se_select env)" and "se_child env = Inr p" and "se_stdin env"
    and "\<not> fst (se_update env)"
  shows "snd (spawn env now cfg m) = Inl (Database (Query (snd (se_update env))))
    \<and> is_running (cfg_id cfg) (fst (spawn env now cfg m))
    \<and> cfg_id cfg \<in> set (active_ids (sm_pool (fst (spawn env now cfg m))))
    \<and> cfg_id cfg \<notin> set (monitors (fst (spawn env now cfg m)))"
proof -
  have inv: "mgr_run_inv n m" using mgr_run.reach_inv [OF assms(1)] .
  then have "try_acquire (sm_pool m) \<noteq> None"
    using assms(4) pool_full_iff [of "length (monitors m)" "sm_pool m"]
    by (auto simp: mgr_run_inv_def mgr_inv_def new_pool_def DEFAULT_MAX_CONCURRENCY_def Let_def)
  then obtain pl where pl: "try_acquire (sm_pool m) = Some pl" by blast
  have "cfg_id cfg \<notin> set (monitors m)" using inv assms(5) by (auto simp: mgr_run_inv_def mgr_inv_def)
  moreover have "\<exists>db row. create_subagent (se_insert env) (se_select env) now (cfg_id cfg)
      (cfg_parent_session_id cfg) (cfg_prompt cfg) (cfg_model cfg) (cfg_max_turns cfg)
      (cfg_auto_approve cfg) (se_tools_json env) (Some (cfg_working_directory cfg)) (sm_db m) = (db, Inr row)"
    using assms(5-8) by (auto simp: create_subagent_def get_subagent_def Let_def known_ids_def
        find_snoc split: option.splits)
  ultimately show ?thesis
    using assms(2,3,9-11) pl
    by (auto simp: spawn_def Let_def update_subagent_status_def is_running_def active_ids_def
        release_permit_def pool_register_def simp flip: hm_key_iff)
qed

theorem spawn_error_leaks_witness:
  "\<exists>env cfg. snd (spawn env 1 cfg (new_manager (new_pool 1) demo_db)) = Inl (Database (Query ''locked''))
     \<and> is_running (cfg_id cfg) (fst (spawn env 1 cfg (new_manager (new_pool 1) demo_db)))"
proof -
  let ?m = "new_manager (new_pool 1) demo_db"
  let ?env = "demo_env\<lparr>se_update := (False, ''locked'')\<rparr>"
  let ?cfg = "(demo_cfg ''a'')\<lparr>cfg_allowed_tools := [''Bash'']\<rparr>"
  have "mgr_init 1 ?m" by (auto simp: mgr_init_def)
  then have r: "reach (mgr_init 1) mgr_step ?m" by (rule reach_init)
  show ?thesis
    using spawn_error_leaks [OF r, of ?cfg ?env "Some 42" 1]
    by (intro exI [of _ ?env] exI [of _ ?cfg])
       (simp add: demo_env_def demo_cfg_def new_manager_def demo_db_def known_ids_def)
qed

end
