(* ===== verification/Orchestration.thy ===== *)
theory Orchestration
  imports SchedulerRun Subagents
begin

text \<open>
  Orchestrations: the request handler \<^verbatim>\<open>create_orchestration\<close> of
  \<^verbatim>\<open>crates/betcode-daemon/src/server/subagent_svc.rs\<close> and \<^verbatim>\<open>run_orchestration\<close> of
  \<^verbatim>\<open>orchestration/manager.rs\<close> with its task. The task is a loop with two points where it waits
  for the \<^verbatim>\<open>Notify\<close> permit; \<open>loop_step\<close> is one transition between such points, \<open>None\<close> when the
  task waits or has ended. Subprocess exits and calls of other clients interleave with it as
  steps of the manager. The theory proves that the task drives the scheduler by the protocol
  of \<open>SchedulerRun\<close>, that its counters count, what the final status says, and that the task
  can wait forever after all its subagents have finished.
\<close>

section \<open>Requests\<close>

datatype strategy = StrategyUnspecified | Parallel | Sequential | Dag

record orchestration_step =
  os_id :: string
  os_name :: string
  os_prompt :: string
  os_model :: string
  os_depends_on :: "string list"
  os_working_directory :: string
  os_allowed_tools :: "string list"
  os_max_turns :: int
  os_auto_approve :: bool

text \<open>Steps without an id are numbered; a sequential strategy chains each step to the previous.\<close>

fun assign_ids :: "nat \<Rightarrow> orchestration_step list \<Rightarrow> orchestration_step list" where
  "assign_ids i [] = []"
| "assign_ids i (s # ss) =
     (if os_id s = [] then s\<lparr>os_id := ''step-'' @ show_nat i\<rparr> else s) # assign_ids (Suc i) ss"

fun chain_steps :: "orchestration_step list \<Rightarrow> orchestration_step list" where
  "chain_steps (s # t # ss) =
     s # chain_steps ((if os_id s \<in> set (os_depends_on t) then t
        else t\<lparr>os_depends_on := os_depends_on t @ [os_id s]\<rparr>) # ss)"
| "chain_steps ss = ss"

definition prepare_steps :: "strategy \<Rightarrow> orchestration_step list \<Rightarrow> orchestration_step list" where
  "prepare_steps strat ss =
     (let steps = assign_ids 0 ss in if strat = Sequential then chain_steps steps else steps)"

definition strategy_str :: "strategy \<Rightarrow> string" where
  "strategy_str s = (case s of Sequential \<Rightarrow> ''sequential'' | Dag \<Rightarrow> ''dag'' | _ \<Rightarrow> ''parallel'')"

section \<open>Error texts\<close>

definition show_manager_error :: "manager_error \<Rightarrow> string" where
  "show_manager_error e = (case e of
      PoolFull \<Rightarrow> ''Subprocess pool is full''
    | SpawnFailed s \<Rightarrow> ''Failed to spawn subprocess: '' @ s
    | NotFound s \<Rightarrow> ''Subagent not found: '' @ s
    | AlreadyCompleted s \<Rightarrow> ''Subagent already completed: '' @ s
    | OrchestrationNotFound s \<Rightarrow> ''Orchestration not found: '' @ s
    | Database d \<Rightarrow> ''Database error: '' @ show_database_error d
    | Validation s \<Rightarrow> ''Validation error: '' @ s)"

section \<open>Starting an orchestration\<close>

datatype orchestration_event =
    StepStarted string string string
  | StepCompleted string string nat nat
  | StepFailed string string "string list"
  | OrchestrationCompleted nat nat nat
  | OrchestrationFailed string nat nat

datatype loop_pc =
    AtTop
  | WaitTop
  | Spawning "string list"
  | WaitRunning
  | Checking "string list"
  | Finished string

record orch_loop =
  scheduler :: dag_scheduler
  completed_count :: nat
  failed_count :: nat
  step_results :: "(string, string) hmap"
  sent :: "orchestration_event list"
  pc :: loop_pc

text \<open>The variables that the task captures and never changes.\<close>

record orch_ctx =
  oc_id :: string
  oc_parent_session_id :: string
  oc_step_configs :: "(string, orchestration_step) hmap"
  oc_total :: nat

definition dep_map :: "orchestration_step list \<Rightarrow> (string, string list) hmap" where
  "dep_map ss = fold (\<lambda>s m. hm_insert (os_id s) (os_depends_on s) m) ss []"

fun create_step_rows ::
  "(string \<Rightarrow> sqlite) \<Rightarrow> (string list \<Rightarrow> string) \<Rightarrow> int \<Rightarrow> string \<Rightarrow> nat \<Rightarrow> orchestration_step list
    \<Rightarrow> subagent_db \<Rightarrow> subagent_db \<times> (database_error + unit)" where
  "create_step_rows q to_json now orch_id i [] db = (db, Inr ())"
| "create_step_rows q to_json now orch_id i (s # ss) db =
     (case create_orchestration_step (q (os_id s)) (q (os_id s)) now (os_id s) orch_id (int i)
             (os_prompt s) (to_json (os_depends_on s)) db of
        (db', Inl e) \<Rightarrow> (db', Inl e)
      | (db', Inr _) \<Rightarrow> create_step_rows q to_json now orch_id (Suc i) ss db')"

definition run_orchestration ::
  "sqlite \<Rightarrow> sqlite \<Rightarrow> (string \<Rightarrow> sqlite) \<Rightarrow> (string list \<Rightarrow> string) \<Rightarrow> int \<Rightarrow> string \<Rightarrow> string \<Rightarrow> strategy
    \<Rightarrow> orchestration_step list \<Rightarrow> subagent_manager
    \<Rightarrow> (subagent_manager \<times> (manager_error + orch_ctx \<times> orch_loop)) option" where
  "run_orchestration q1 q2 q3 to_json now orch_id parent strat ss m =
     map_option (\<lambda>r. case r of
         Inl e \<Rightarrow> (m, Inl e)
       | Inr sched \<Rightarrow>
           (case create_orchestration q1 q1 now orch_id parent (strategy_str strat) (sm_db m) of
              (db1, Inl e) \<Rightarrow> (m\<lparr>sm_db := db1\<rparr>, Inl (Database e))
            | (db1, Inr _) \<Rightarrow>
                (case update_orchestration_status q2 now orch_id ''running'' db1 of
                   (db2, Inl e) \<Rightarrow> (m\<lparr>sm_db := db2\<rparr>, Inl (Database e))
                 | (db2, Inr _) \<Rightarrow>
                     (case create_step_rows q3 to_json now orch_id 0 ss db2 of
                        (db3, Inl e) \<Rightarrow> (m\<lparr>sm_db := db3\<rparr>, Inl (Database e))
                      | (db3, Inr _) \<Rightarrow>
                          (m\<lparr>sm_db := db3, orch_map := hm_insert orch_id \<lparr> notify = False \<rparr> (orch_map m)\<rparr>,
                           Inr (\<lparr> oc_id = orch_id, oc_parent_session_id = parent,
                                  oc_step_configs = fold (\<lambda>s cs. hm_insert (os_id s) s cs) ss [],
                                  oc_total = length ss \<rparr>,
                                \<lparr> scheduler = sched, completed_count = 0, failed_count = 0,
                                  step_results = [], sent = [], pc = AtTop \<rparr>))))))
       (new_scheduler (map os_id ss) (dep_map ss))"

text \<open>The request handler, with the fresh id of the orchestration as an argument.\<close>

datatype svc_error = InvalidArgument string | FromManager manager_error

definition create_orchestration_rpc ::
  "sqlite \<Rightarrow> sqlite \<Rightarrow> (string \<Rightarrow> sqlite) \<Rightarrow> (string list \<Rightarrow> string) \<Rightarrow> int \<Rightarrow> string \<Rightarrow> string \<Rightarrow> strategy
    \<Rightarrow> orchestration_step list \<Rightarrow> subagent_manager
    \<Rightarrow> (subagent_manager \<times> (svc_error + orch_ctx \<times> orch_loop)) option" where
  "create_orchestration_rpc q1 q2 q3 to_json now uuid parent strat ss m =
     (if parent = [] then Some (m, Inl (InvalidArgument ''parent_session_id must not be empty''))
      else if ss = [] then Some (m, Inl (InvalidArgument ''steps must not be empty''))
      else map_option (\<lambda>(m', r). (m', case r of Inl e \<Rightarrow> Inl (FromManager e) | Inr x \<Rightarrow> Inr x))
        (run_orchestration q1 q2 q3 to_json now uuid parent strat (prepare_steps strat ss) m))"

definition subscribe_orchestration :: "string \<Rightarrow> subagent_manager \<Rightarrow> manager_error + unit" where
  "subscribe_orchestration i m =
     (case hm_get (orch_map m) i of None \<Rightarrow> Inl (OrchestrationNotFound i) | Some _ \<Rightarrow> Inr ())"

section \<open>The task\<close>

record loop_env =
  le_spawn :: spawn_env
  le_step_q :: "string \<Rightarrow> sqlite"
  le_get_q :: sqlite
  le_final_q :: sqlite
  le_now :: int
  le_cwd :: string

definition full_prompt :: "orchestration_step \<Rightarrow> (string, string) hmap \<Rightarrow> string" where
  "full_prompt cfg results =
     concat (map (\<lambda>dep. case hm_get results dep of
         None \<Rightarrow> []
       | Some result \<Rightarrow> ''[Context from step '' @ dep @ '']: '' @ result @ [CHR 0x0A, CHR 0x0A])
       (os_depends_on cfg)) @ os_prompt cfg"

definition subagent_id_of :: "orch_ctx \<Rightarrow> string \<Rightarrow> string" where
  "subagent_id_of c step_id = oc_id c @ ''-'' @ step_id"

definition step_config :: "loop_env \<Rightarrow> orch_ctx \<Rightarrow> string \<Rightarrow> orchestration_step \<Rightarrow> (string, string) hmap
    \<Rightarrow> subagent_config" where
  "step_config env c step_id cfg results =
     \<lparr> cfg_id = subagent_id_of c step_id, cfg_parent_session_id = oc_parent_session_id c,
       cfg_prompt = full_prompt cfg results,
       cfg_model = (if os_model cfg = [] then None else Some (os_model cfg)),
       cfg_working_directory = (if os_working_directory cfg = [] then le_cwd env else os_working_directory cfg),
       cfg_allowed_tools = os_allowed_tools cfg, cfg_max_turns = os_max_turns cfg,
       cfg_auto_approve = os_auto_approve cfg, cfg_timeout_secs = 0 \<rparr>"

definition set_step :: "loop_env \<Rightarrow> string \<Rightarrow> string \<Rightarrow> string option \<Rightarrow> subagent_manager \<Rightarrow> subagent_manager" where
  "set_step env step_id status sa m =
     m\<lparr>sm_db := fst (update_step_status (le_step_q env step_id) step_id status sa (sm_db m))\<rparr>"

text \<open>The common part of the two failure branches: cascade, rows of the blocked steps, counter, event.\<close>

definition fail_step :: "loop_env \<Rightarrow> string \<Rightarrow> string \<Rightarrow> subagent_manager \<times> orch_loop \<Rightarrow> subagent_manager \<times> orch_loop" where
  "fail_step env step_id msg ml =
     (let (m, l) = ml;
          (sched, blocked) = mark_failed step_id (scheduler l)
      in (fold (\<lambda>b. set_step env b ''blocked'' None) blocked m,
          l\<lparr>scheduler := sched, failed_count := Suc (failed_count l),
            sent := sent l @ [StepFailed step_id msg blocked]\<rparr>))"

text \<open>Body of \<^verbatim>\<open>for step_id in &ready\<close>.\<close>

definition spawn_step :: "loop_env \<Rightarrow> orch_ctx \<Rightarrow> string \<Rightarrow> subagent_manager \<times> orch_loop \<Rightarrow> subagent_manager \<times> orch_loop" where
  "spawn_step env c step_id ml =
     (let (m, l) = ml in
      case hm_get (oc_step_configs c) step_id of
        None \<Rightarrow> (m, l)
      | Some cfg \<Rightarrow>
          let sa = subagent_id_of c step_id;
              m1 = m\<lparr>subagent_to_orchestration := hm_insert sa (oc_id c) (subagent_to_orchestration m)\<rparr>;
              m2 = set_step env step_id ''running'' (Some sa) m1;
              (m3, r) = spawn (le_spawn env) (le_now env) (step_config env c step_id cfg (step_results l)) m2
          in case r of
            Inr _ \<Rightarrow> (m3, l\<lparr>sent := sent l @ [StepStarted step_id sa (os_name cfg)],
                           scheduler := mark_running step_id (scheduler l)\<rparr>)
          | Inl e \<Rightarrow>
              let m4 = set_step env step_id ''failed'' None m3;
                  m5 = m4\<lparr>subagent_to_orchestration := hm_remove sa (subagent_to_orchestration m4)\<rparr>
              in fail_step env step_id (show_manager_error e) (m5, l))"

text \<open>Body of \<^verbatim>\<open>for step_id in &running_ids\<close>.\<close>

definition check_step :: "loop_env \<Rightarrow> orch_ctx \<Rightarrow> string \<Rightarrow> subagent_manager \<times> orch_loop \<Rightarrow> subagent_manager \<times> orch_loop" where
  "check_step env c step_id ml =
     (let (m, l) = ml; sa = subagent_id_of c step_id in
      if is_running sa m then (m, l)
      else case get_subagent (le_get_q env) sa (sm_db m) of
        Inl _ \<Rightarrow> (m, l)
      | Inr row \<Rightarrow>
          if sa_status row = ''completed'' then
            let summary = unwrap_or [] (sa_result_summary row);
                m1 = set_step env step_id ''completed'' (Some sa) m;
                n = Suc (completed_count l)
            in (m1, l\<lparr>step_results := hm_insert step_id summary (step_results l),
                      scheduler := fst (mark_completed step_id (scheduler l)),
                      completed_count := n,
                      sent := sent l @ [StepCompleted step_id summary n (oc_total c)]\<rparr>)
          else if sa_status row = ''failed'' \<or> sa_status row = ''cancelled'' then
            let msg = unwrap_or ''Unknown failure'' (sa_result_summary row);
                m1 = set_step env step_id ''failed'' (Some sa) m
            in fail_step env step_id msg (m1, l)
          else (m, l))"

text \<open>After the loop: the final status, the final event, and the removal of the orchestration.\<close>

definition finish_loop :: "loop_env \<Rightarrow> orch_ctx \<Rightarrow> subagent_manager \<times> orch_loop \<Rightarrow> subagent_manager \<times> orch_loop" where
  "finish_loop env c ml =
     (let (m, l) = ml;
          status = (if 0 < failed_count l then ''failed'' else ''completed'');
          ev = (if 0 < failed_count l
                then OrchestrationFailed (show_nat (failed_count l) @ '' step(s) failed'')
                       (completed_count l) (failed_count l)
                else OrchestrationCompleted (oc_total c) (completed_count l) 0)
      in (m\<lparr>sm_db := fst (update_orchestration_status (le_final_q env) (le_now env) (oc_id c) status (sm_db m)),
            orch_map := hm_remove (oc_id c) (orch_map m)\<rparr>,
          l\<lparr>sent := sent l @ [ev], pc := Finished status\<rparr>))"

definition has_permit :: "orch_ctx \<Rightarrow> subagent_manager \<Rightarrow> bool" where
  "has_permit c m = (case hm_get (orch_map m) (oc_id c) of None \<Rightarrow> False | Some st \<Rightarrow> notify st)"

definition take_permit :: "orch_ctx \<Rightarrow> subagent_manager \<Rightarrow> subagent_manager" where
  "take_permit c m = m\<lparr>orch_map := hm_modify (oc_id c) (\<lambda>st. st\<lparr>notify := False\<rparr>) (orch_map m)\<rparr>"

definition set_pc :: "loop_pc \<Rightarrow> subagent_manager \<times> orch_loop \<Rightarrow> subagent_manager \<times> orch_loop" where
  "set_pc p ml = (fst ml, (snd ml)\<lparr>pc := p\<rparr>)"

definition loop_step :: "loop_env \<Rightarrow> orch_ctx \<Rightarrow> subagent_manager \<times> orch_loop
    \<Rightarrow> (subagent_manager \<times> orch_loop) option" where
  "loop_step env c ml =
     (let (m, l) = ml; s = scheduler l in
      case pc l of
        AtTop \<Rightarrow>
          if next_ready s = [] \<and> \<not> is_complete s \<and> failed_count l = 0 then Some (set_pc WaitTop ml)
          else if next_ready s = [] \<and> (is_complete s \<or> 0 < failed_count l) then Some (finish_loop env c ml)
          else Some (set_pc (Spawning (next_ready s)) ml)
      | WaitTop \<Rightarrow> if has_permit c m then Some (set_pc AtTop (take_permit c m, l)) else None
      | Spawning [] \<Rightarrow>
          if running_ids s \<noteq> [] then Some (set_pc WaitRunning ml) else Some (set_pc (Checking []) ml)
      | Spawning (x # xs) \<Rightarrow> Some (set_pc (Spawning xs) (spawn_step env c x ml))
      | WaitRunning \<Rightarrow>
          if has_permit c m then Some (set_pc (Checking (running_ids s)) (take_permit c m, l)) else None
      | Checking [] \<Rightarrow> Some (set_pc AtTop ml)
      | Checking (x # xs) \<Rightarrow> Some (set_pc (Checking xs) (check_step env c x ml))
      | Finished _ \<Rightarrow> None)"

section \<open>The task follows the scheduler's protocol\<close>

definition in_state :: "step_state \<Rightarrow> dag_scheduler \<Rightarrow> string set" where
  "in_state st s = {x. step_state_of s x = Some st}"

lemma in_state_steps: "sched_inv s \<Longrightarrow> in_state st s \<subseteq> set (steps s)"
  using state_in_steps by (auto simp: in_state_def step_state_of_def)

lemma finite_in_state: "sched_inv s \<Longrightarrow> finite (in_state st s)"
  using in_state_steps finite_subset by blast

lemma ready_in_state: "sched_inv s \<Longrightarrow> set (next_ready s) = in_state Ready s"
  using state_in_steps by (auto simp: next_ready_def in_state_def step_state_of_def)

lemma running_in_state: "sched_inv s \<Longrightarrow> set (running_ids s) = in_state Running s"
  using state_in_steps by (auto simp: running_ids_def in_state_def step_state_of_def)

lemma in_state_disjoint: "x \<in> in_state st s \<Longrightarrow> st \<noteq> st' \<Longrightarrow> x \<notin> in_state st' s"
  by (auto simp: in_state_def)

lemma mark_running_sets:
  assumes "x \<in> in_state Ready s"
  shows "in_state Completed (mark_running x s) = in_state Completed s"
    and "in_state Failed (mark_running x s) = in_state Failed s"
    and "in_state Ready (mark_running x s) = in_state Ready s - {x}"
  using assms by (auto simp: in_state_def step_state_of_def mark_running_def)

lemma mark_completed_sets:
  assumes inv: "sched_inv s" and x: "x \<in> in_state Running s"
  shows "in_state Completed (fst (mark_completed x s)) = insert x (in_state Completed s)"
    and "in_state Failed (fst (mark_completed x s)) = in_state Failed s"
    and "in_state Running (fst (mark_completed x s)) = in_state Running s - {x}"
proof -
  have x': "hm_get (states s) x = Some Running" using x by (simp add: in_state_def step_state_of_def)
  from mark_completed_effect [OF inv x'] obtain t new where t: "mark_completed x s = (t, new)"
    and st: "\<And>y. hm_get (states t) y =
        (if y \<in> set new then Some Ready else if y = x then Some Completed else hm_get (states s) y)"
    and new: "\<And>y. y \<in> set new \<Longrightarrow> hm_get (states s) y = Some Pending"
    by blast
  show "in_state Completed (fst (mark_completed x s)) = insert x (in_state Completed s)"
    "in_state Failed (fst (mark_completed x s)) = in_state Failed s"
    "in_state Running (fst (mark_completed x s)) = in_state Running s - {x}"
    using x' new by (auto simp: in_state_def step_state_of_def t st split: if_splits dest: new)
qed

lemma mark_failed_sets:
  assumes inv: "sched_inv s" and x: "x \<in> in_state Ready s \<union> in_state Running s"
  shows "in_state Completed (fst (mark_failed x s)) = in_state Completed s"
    and "in_state Failed (fst (mark_failed x s)) = insert x (in_state Failed s)"
    and "in_state Ready (fst (mark_failed x s)) = in_state Ready s - {x}"
    and "in_state Running (fst (mark_failed x s)) = in_state Running s - {x}"
proof -
  have x': "hm_get (states s) x \<in> {Some Ready, Some Running}"
    using x by (auto simp: in_state_def step_state_of_def)
  from mark_failed_effect [of x s] obtain t bl where t: "mark_failed x s = (t, bl)"
    and bl: "set bl = {y. (x, y) \<in> (succ_rel (dependents s))\<^sup>+ \<and> y \<noteq> x
        \<and> hm_get (states s) y \<in> {Some Pending, Some Ready}}"
    and st: "\<And>y. hm_get (states t) y = (if y \<in> set bl then Some Blocked
        else if y = x then map_option (\<lambda>_. Failed) (hm_get (states s) x) else hm_get (states s) y)"
    by blast
  have P: "hm_get (states s) y = Some Pending" if "y \<in> set bl" for y
    using downstream_waiting [OF inv, of x y] that x' by (auto simp: bl)
  have nx: "x \<notin> set bl" using x' P by fastforce
  have "hm_get (states t) y = Some st' \<longleftrightarrow> (if y = x then st' = Failed else hm_get (states s) y = Some st')"
    if "st' \<notin> {Pending, Blocked}" for y st'
    using P [of y] nx x' that by (auto simp: st)
  then show "in_state Completed (fst (mark_failed x s)) = in_state Completed s"
    "in_state Failed (fst (mark_failed x s)) = insert x (in_state Failed s)"
    "in_state Ready (fst (mark_failed x s)) = in_state Ready s - {x}"
    "in_state Running (fst (mark_failed x s)) = in_state Running s - {x}"
    using x' by (auto simp: in_state_def step_state_of_def t)
qed

text \<open>
  The invariant of the task: its scheduler is reached by the protocol, the steps it is about
  to spawn are ready, those it is about to check are running, and the counters agree with the
  scheduler.
\<close>

definition pc_ok :: "orch_loop \<Rightarrow> bool" where
  "pc_ok l = (case pc l of
      Spawning xs \<Rightarrow> distinct xs \<and> set xs \<subseteq> in_state Ready (scheduler l)
    | Checking xs \<Rightarrow> distinct xs \<and> set xs \<subseteq> in_state Running (scheduler l)
    | Finished st \<Rightarrow> (if 0 < failed_count l then st = ''failed''
        else st = ''completed'' \<and> is_complete (scheduler l))
    | WaitTop \<Rightarrow> next_ready (scheduler l) = [] \<and> \<not> is_complete (scheduler l) \<and> failed_count l = 0
    | _ \<Rightarrow> True)"

definition loop_inv :: "string list \<Rightarrow> (string, string list) hmap \<Rightarrow> orch_loop \<Rightarrow> bool" where
  "loop_inv ss deps l \<longleftrightarrow>
     reach (sched_init ss deps) sched_step (scheduler l) \<and> pc_ok l \<and>
     completed_count l = card (in_state Completed (scheduler l)) \<and>
     failed_count l = card (in_state Failed (scheduler l))"

lemma loop_inv_sched:
  "loop_inv ss deps l \<Longrightarrow> sched_inv (scheduler l) \<and> steps (scheduler l) = ss \<and> distinct ss"
  using sched_run.reach_inv by (auto simp: loop_inv_def run_inv_def)

lemma loop_inv_reach:
  "loop_inv ss deps l \<Longrightarrow> sched_step (scheduler l) t \<Longrightarrow> reach (sched_init ss deps) sched_step t"
  by (rule reach_step) (simp_all add: loop_inv_def)

text \<open>The three ways a step of the task changes the loop's variables.\<close>

lemma loop_inv_running:
  assumes "loop_inv ss deps l" and "x \<in> in_state Ready (scheduler l)"
    and "set xs \<subseteq> in_state Ready (scheduler l) - {x}" and "distinct xs"
    and "scheduler l' = mark_running x (scheduler l)" and "completed_count l' = completed_count l"
    and "failed_count l' = failed_count l" and "pc l' = Spawning xs"
  shows "loop_inv ss deps l'"
proof -
  have "x \<in> set (next_ready (scheduler l))" using assms(1,2) loop_inv_sched ready_in_state by blast
  then have "reach (sched_init ss deps) sched_step (mark_running x (scheduler l))"
    by (intro loop_inv_reach [OF assms(1)] step_run)
  then show ?thesis using assms mark_running_sets [OF assms(2)] by (auto simp: loop_inv_def pc_ok_def)
qed

lemma loop_inv_failed:
  assumes "loop_inv ss deps l" and "x \<in> in_state Ready (scheduler l) \<union> in_state Running (scheduler l)"
    and "scheduler l' = fst (mark_failed x (scheduler l))" and "completed_count l' = completed_count l"
    and "failed_count l' = Suc (failed_count l)"
    and "(\<exists>xs. pc l' = Spawning xs \<and> distinct xs \<and> set xs \<subseteq> in_state Ready (scheduler l) - {x}) \<or>
         (\<exists>xs. pc l' = Checking xs \<and> distinct xs \<and> set xs \<subseteq> in_state Running (scheduler l) - {x})"
  shows "loop_inv ss deps l'"
proof -
  have inv: "sched_inv (scheduler l)" using assms(1) loop_inv_sched by blast
  have "x \<in> set (next_ready (scheduler l) @ running_ids (scheduler l))"
    using assms(2) ready_in_state [OF inv] running_in_state [OF inv] by simp
  then have "reach (sched_init ss deps) sched_step (fst (mark_failed x (scheduler l)))"
    by (intro loop_inv_reach [OF assms(1)] step_fail)
  moreover have "x \<notin> in_state Failed (scheduler l)" using assms(2) in_state_disjoint by blast
  ultimately show ?thesis
    using assms mark_failed_sets [OF inv assms(2)] finite_in_state [OF inv]
    by (auto simp: loop_inv_def pc_ok_def)
qed

lemma loop_inv_completed:
  assumes "loop_inv ss deps l" and "x \<in> in_state Running (scheduler l)"
    and "set xs \<subseteq> in_state Running (scheduler l) - {x}" and "distinct xs"
    and "scheduler l' = fst (mark_completed x (scheduler l))"
    and "completed_count l' = Suc (completed_count l)" and "failed_count l' = failed_count l"
    and "pc l' = Checking xs"
  shows "loop_inv ss deps l'"
proof -
  have inv: "sched_inv (scheduler l)" using assms(1) loop_inv_sched by blast
  have "x \<in> set (running_ids (scheduler l))" using assms(2) running_in_state [OF inv] by simp
  then have "reach (sched_init ss deps) sched_step (fst (mark_completed x (scheduler l)))"
    by (intro loop_inv_reach [OF assms(1)] step_complete)
  moreover have "x \<notin> in_state Completed (scheduler l)" using assms(2) in_state_disjoint by blast
  ultimately show ?thesis
    using assms mark_completed_sets [OF inv assms(2)] finite_in_state [OF inv]
    by (auto simp: loop_inv_def pc_ok_def)
qed

lemma loop_inv_pc:
  assumes "loop_inv ss deps l" and "pc_ok (l\<lparr>pc := p\<rparr>)"
  shows "loop_inv ss deps (l\<lparr>pc := p\<rparr>)"
  using assms by (simp add: loop_inv_def)

lemma fail_step_loop:
  "snd (fail_step env x msg (m, l)) = l\<lparr>scheduler := fst (mark_failed x (scheduler l)),
     failed_count := Suc (failed_count l),
     sent := sent l @ [StepFailed x msg (snd (mark_failed x (scheduler l)))]\<rparr>"
  by (simp add: fail_step_def case_prod_beta Let_def)

lemma spawn_step_inv:
  assumes inv: "loop_inv ss deps l" and pc: "pc l = Spawning (x # xs)"
  shows "loop_inv ss deps (snd (set_pc (Spawning xs) (spawn_step env c x (m, l))))"
proof -
  have xs: "x \<in> in_state Ready (scheduler l)" "distinct xs" "set xs \<subseteq> in_state Ready (scheduler l) - {x}"
    using inv pc by (auto simp: loop_inv_def pc_ok_def)
  show ?thesis
  proof (cases "hm_get (oc_step_configs c) x")
    case None
    then show ?thesis using inv xs
      by (auto simp: spawn_step_def set_pc_def pc_ok_def intro!: loop_inv_pc)
  next
    case (Some cfg)
    let ?m2 = "set_step env x ''running'' (Some (subagent_id_of c x))
      (m\<lparr>subagent_to_orchestration := hm_insert (subagent_id_of c x) (oc_id c) (subagent_to_orchestration m)\<rparr>)"
    obtain m3 r where r: "spawn (le_spawn env) (le_now env) (step_config env c x cfg (step_results l)) ?m2 = (m3, r)"
      by fastforce
    show ?thesis
    proof (cases r)
      case (Inl e)
      then show ?thesis using xs
        by (intro loop_inv_failed [OF inv, of x])
           (auto simp: spawn_step_def Some r Let_def set_pc_def fail_step_loop)
    next
      case (Inr v)
      then show ?thesis using xs
        by (intro loop_inv_running [OF inv, of x xs])
           (auto simp: spawn_step_def Some r Let_def set_pc_def)
    qed
  qed
qed

lemma check_step_inv:
  assumes inv: "loop_inv ss deps l" and pc: "pc l = Checking (x # xs)"
  shows "loop_inv ss deps (snd (set_pc (Checking xs) (check_step env c x (m, l))))"
proof -
  have xs: "x \<in> in_state Running (scheduler l)" "distinct xs" "set xs \<subseteq> in_state Running (scheduler l) - {x}"
    using inv pc by (auto simp: loop_inv_def pc_ok_def)
  have skip: "loop_inv ss deps (l\<lparr>pc := Checking xs\<rparr>)"
    using inv xs by (intro loop_inv_pc) (auto simp: pc_ok_def)
  show ?thesis
  proof (cases "is_running (subagent_id_of c x) m")
    case True
    then show ?thesis using skip by (simp add: check_step_def set_pc_def)
  next
    case nr: False
    show ?thesis
    proof (cases "get_subagent (le_get_q env) (subagent_id_of c x) (sm_db m)")
      case (Inl e)
      then show ?thesis using skip nr by (simp add: check_step_def set_pc_def)
    next
      case (Inr row)
      consider "sa_status row = ''completed''"
        | "sa_status row \<noteq> ''completed''" "sa_status row = ''failed'' \<or> sa_status row = ''cancelled''"
        | "sa_status row \<noteq> ''completed''" "\<not> (sa_status row = ''failed'' \<or> sa_status row = ''cancelled'')"
        by blast
      then show ?thesis
      proof cases
        case 1
        then show ?thesis using xs
          by (intro loop_inv_completed [OF inv, of x xs])
             (simp_all add: check_step_def nr Inr Let_def set_pc_def)
      next
        case 2
        then show ?thesis using xs
          by (intro loop_inv_failed [OF inv, of x])
             (simp_all add: check_step_def nr Inr Let_def set_pc_def fail_step_loop)
      next
        case 3
        then show ?thesis using skip by (simp add: check_step_def nr Inr set_pc_def)
      qed
    qed
  qed
qed

lemma loop_step_inv:
  assumes inv: "loop_inv ss deps l" and step: "loop_step env c (m, l) = Some (m', l')"
  shows "loop_inv ss deps l'"
proof -
  have sinv: "sched_inv (scheduler l)" and dist: "distinct (steps (scheduler l))"
    using loop_inv_sched [OF inv] by auto
  have lists: "distinct (next_ready (scheduler l))" "distinct (running_ids (scheduler l))"
    using dist by (auto simp: next_ready_def running_ids_def)
  show ?thesis
  proof (cases "pc l")
    case AtTop
    let ?fin = "snd (finish_loop env c (m, l))"
    have fin: "loop_inv ss deps ?fin" if "is_complete (scheduler l) \<or> 0 < failed_count l"
      using inv that by (auto simp: loop_inv_def finish_loop_def Let_def pc_ok_def)
    have "(l' = l\<lparr>pc := WaitTop\<rparr> \<and> next_ready (scheduler l) = [] \<and> \<not> is_complete (scheduler l)
          \<and> failed_count l = 0) \<or> l' = l\<lparr>pc := Spawning (next_ready (scheduler l))\<rparr>
        \<or> (l' = ?fin \<and> (is_complete (scheduler l) \<or> 0 < failed_count l))"
      using step AtTop by (auto simp: loop_step_def Let_def set_pc_def split: if_splits)
    then show ?thesis
      using fin lists ready_in_state [OF sinv] loop_inv_pc [OF inv]
      by (auto simp: pc_ok_def)
  next
    case WaitTop
    then show ?thesis using step inv
      by (auto simp: loop_step_def set_pc_def pc_ok_def split: if_splits intro!: loop_inv_pc)
  next
    case (Spawning xs)
    show ?thesis
    proof (cases xs)
      case Nil
      then show ?thesis using step inv Spawning
        by (auto simp: loop_step_def Let_def set_pc_def pc_ok_def split: if_splits intro!: loop_inv_pc)
    next
      case (Cons x xs')
      then show ?thesis using step Spawning spawn_step_inv [OF inv, of x xs' env c m]
        by (auto simp: loop_step_def set_pc_def)
    qed
  next
    case WaitRunning
    then show ?thesis using step inv lists running_in_state [OF sinv]
      by (auto simp: loop_step_def Let_def set_pc_def pc_ok_def split: if_splits intro!: loop_inv_pc)
  next
    case (Checking xs)
    show ?thesis
    proof (cases xs)
      case Nil
      then show ?thesis using step inv Checking
        by (auto simp: loop_step_def set_pc_def pc_ok_def intro!: loop_inv_pc)
    next
      case (Cons x xs')
      then show ?thesis using step Checking check_step_inv [OF inv, of x xs' env c m]
        by (auto simp: loop_step_def set_pc_def)
    qed
  next
    case (Finished st)
    then show ?thesis using step by (simp add: loop_step_def)
  qed
qed

lemma dep_map_fold:
  "hm_wf m \<Longrightarrow> hm_wf (fold (\<lambda>s m. hm_insert (os_id s) (f s) m) ss m)
     \<and> hm_keys (fold (\<lambda>s m. hm_insert (os_id s) (f s) m) ss m) = hm_keys m \<union> os_id ` set ss"
  by (induction ss arbitrary: m) auto

lemma dep_map_wf: "hm_wf (dep_map ss)" "hm_keys (dep_map ss) = os_id ` set ss"
  using dep_map_fold [of "[]" os_depends_on ss] by (auto simp: dep_map_def)

lemma dep_map_other:
  "os_id s \<notin> os_id ` set ss \<Longrightarrow>
     hm_get (fold (\<lambda>s m. hm_insert (os_id s) (os_depends_on s) m) ss m) (os_id s) = hm_get m (os_id s)"
  by (induction ss arbitrary: m) auto

lemma dep_map_fold_get:
  "distinct (map os_id ss) \<Longrightarrow> s \<in> set ss \<Longrightarrow>
     hm_get (fold (\<lambda>s m. hm_insert (os_id s) (os_depends_on s) m) ss m) (os_id s) = Some (os_depends_on s)"
proof (induction ss arbitrary: m)
  case (Cons t ss)
  then show ?case by (cases "s = t") (simp_all add: dep_map_other)
qed simp

lemma dep_map_get:
  "distinct (map os_id ss) \<Longrightarrow> s \<in> set ss \<Longrightarrow> succs (dep_map ss) (os_id s) = os_depends_on s"
  by (simp add: dep_map_def succs_def dep_map_fold_get)

section \<open>Runs of an orchestration\<close>

definition orch_init :: "orch_ctx \<Rightarrow> orchestration_step list \<Rightarrow> subagent_manager \<times> orch_loop \<Rightarrow> bool" where
  "orch_init c ss ml \<longleftrightarrow>
     (\<exists>q1 q2 q3 to_json now oid parent strat m0.
        run_orchestration q1 q2 q3 to_json now oid parent strat ss m0 = Some (fst ml, Inr (c, snd ml)))"

inductive orch_step :: "orch_ctx \<Rightarrow> subagent_manager \<times> orch_loop \<Rightarrow> subagent_manager \<times> orch_loop \<Rightarrow> bool"
  for c :: orch_ctx where
  orch_task: "loop_step env c ml = Some ml' \<Longrightarrow> orch_step c ml ml'"
| orch_env: "mgr_step m m' \<Longrightarrow> orch_step c (m, l) (m', l)"

lemma run_orchestration_ok:
  assumes "run_orchestration q1 q2 q3 to_json now oid parent strat ss m0 = Some (m, Inr (c, l))"
  shows "new_scheduler (map os_id ss) (dep_map ss) = Some (Inr (scheduler l))"
    and "completed_count l = 0" and "failed_count l = 0" and "pc l = AtTop" and "oc_total c = length ss"
proof -
  obtain sched where sched: "new_scheduler (map os_id ss) (dep_map ss) = Some (Inr sched)"
  proof (cases "new_scheduler (map os_id ss) (dep_map ss)")
    case (Some r)
    with assms that show thesis by (cases r) (auto simp: run_orchestration_def)
  qed (use assms in \<open>simp add: run_orchestration_def\<close>)
  obtain db1 r1 where r1: "create_orchestration q1 q1 now oid parent (strategy_str strat) (sm_db m0) = (db1, r1)"
    by fastforce
  obtain db2 r2 where r2: "update_orchestration_status q2 now oid ''running'' db1 = (db2, r2)" by fastforce
  obtain db3 r3 where r3: "create_step_rows q3 to_json now oid 0 ss db2 = (db3, r3)" by fastforce
  show "new_scheduler (map os_id ss) (dep_map ss) = Some (Inr (scheduler l))"
    "completed_count l = 0" "failed_count l = 0" "pc l = AtTop" "oc_total c = length ss"
    using assms sched r1 r2 r3
    by (cases r1; cases r2; cases r3; auto simp: run_orchestration_def)+
qed

interpretation orch_run: step_system "orch_init c ss" "orch_step c"
  "\<lambda>ml. loop_inv (map os_id ss) (dep_map ss) (snd ml)" for c ss
proof unfold_locales
  fix ml assume "orch_init c ss ml"
  then obtain q1 q2 q3 to_json now oid parent strat m0 where
    "run_orchestration q1 q2 q3 to_json now oid parent strat ss m0 = Some (fst ml, Inr (c, snd ml))"
    by (auto simp: orch_init_def)
  note r = run_orchestration_ok [OF this]
  have init: "sched_init (map os_id ss) (dep_map ss) (scheduler (snd ml))"
    using r(1) dep_map_wf by (simp add: sched_init_def)
  have "in_state st (scheduler (snd ml)) = {}" if "st \<notin> {Ready, Pending}" for st
    using new_scheduler_fields(4) [OF init] that by (auto simp: in_state_def step_state_of_def)
  then show "loop_inv (map os_id ss) (dep_map ss) (snd ml)"
    using r(2-) reach_init [of "sched_init (map os_id ss) (dep_map ss)", OF init]
    by (simp add: loop_inv_def pc_ok_def)
next
  fix ml ml' assume inv: "loop_inv (map os_id ss) (dep_map ss) (snd ml)" and "orch_step c ml ml'"
  from this(2) show "loop_inv (map os_id ss) (dep_map ss) (snd ml')"
  proof cases
    case (orch_task env)
    then show ?thesis using loop_step_inv [OF inv, of env c "fst ml" "fst ml'" "snd ml'"] by simp
  next
    case (orch_env m m' l)
    then show ?thesis using inv by simp
  qed
qed

section \<open>Properties of orchestrations\<close>

text \<open>
  Whenever the task is about to spawn the subagent of a step, every step that this step
  depends on is completed.
\<close>

theorem orchestration_order:
  assumes "reach (orch_init c ss) (orch_step c) (m, l)" and "pc l = Spawning (os_id s # xs)"
    and "s \<in> set ss" and "d \<in> set (os_depends_on s)"
  shows "step_state_of (scheduler l) d = Some Completed"
proof -
  have inv: "loop_inv (map os_id ss) (dep_map ss) l" using orch_run.reach_inv [OF assms(1)] by simp
  then have r: "run_inv (map os_id ss) (dep_map ss) (scheduler l)"
    using sched_run.reach_inv by (auto simp: loop_inv_def)
  have "hm_get (states (scheduler l)) (os_id s) = Some Ready"
    using inv assms(2) by (auto simp: loop_inv_def pc_ok_def in_state_def step_state_of_def)
  moreover have "d \<in> set (succs (dep_map ss) (os_id s))"
    using r assms(3,4) by (simp add: run_inv_def dep_map_get)
  ultimately show ?thesis
    using r started_deps_completed [of "scheduler l" "os_id s" Ready d]
    by (auto simp: run_inv_def dep_rel_def step_state_of_def)
qed

text \<open>
  C31. A finished orchestration has status \<^verbatim>\<open>completed\<close> exactly when all its steps are completed;
  then the reported count of completed steps is the number of steps.
\<close>

theorem orchestration_outcome:
  assumes "reach (orch_init c ss) (orch_step c) (m, l)" and "pc l = Finished st"
  shows "(st = ''completed'' \<longleftrightarrow> (\<forall>x. x \<in> os_id ` set ss \<longrightarrow> step_state_of (scheduler l) x = Some Completed))
    \<and> (st = ''completed'' \<longrightarrow> completed_count l = length ss \<and> failed_count l = 0)
    \<and> completed_count l + failed_count l \<le> length ss"
proof -
  have inv: "loop_inv (map os_id ss) (dep_map ss) l" using orch_run.reach_inv [OF assms(1)] by simp
  let ?s = "scheduler l"
  have sinv: "sched_inv ?s" and steps: "steps ?s = map os_id ss" and dist: "distinct (map os_id ss)"
    using loop_inv_sched [OF inv] by auto
  have cnt: "completed_count l = card (in_state Completed ?s)" "failed_count l = card (in_state Failed ?s)"
    using inv by (auto simp: loop_inv_def)
  have fin: "finite (in_state Completed ?s)" "finite (in_state Failed ?s)"
    using finite_in_state [OF sinv] by auto
  have n: "card (set (steps ?s)) = length ss" using distinct_card [OF dist] unfolding steps by simp
  have sub: "in_state Completed ?s \<union> in_state Failed ?s \<subseteq> set (steps ?s)" using in_state_steps [OF sinv] by blast
  have "card (in_state Completed ?s \<union> in_state Failed ?s)
      = card (in_state Completed ?s) + card (in_state Failed ?s)"
    using fin by (intro card_Un_disjoint) (auto simp: in_state_def)
  then have le: "completed_count l + failed_count l \<le> length ss"
    using card_mono [OF _ sub] n cnt by simp
  have all: "st = ''completed'' \<Longrightarrow> set (steps ?s) \<subseteq> in_state Completed ?s"
  proof
    fix x assume st: "st = ''completed''" and x: "x \<in> set (steps ?s)"
    then have "is_complete ?s" and f0: "failed_count l = 0"
      using inv assms(2) by (auto simp: loop_inv_def pc_ok_def split: if_splits)
    then have "in_state Failed ?s = {}" using cnt fin by simp
    then have nof: "step_state_of ?s d \<noteq> Some Failed" for d by (auto simp: in_state_def)
    have "reach (sched_init (map os_id ss) (dep_map ss)) sched_step ?s" using inv by (simp add: loop_inv_def)
    from terminal_states [OF sinv \<open>is_complete ?s\<close> x] nof show "x \<in> in_state Completed ?s"
      by (auto simp: in_state_def)
  qed
  have some: "\<exists>x \<in> set (steps ?s). x \<notin> in_state Completed ?s" if "st \<noteq> ''completed''"
  proof -
    have "0 < failed_count l" using inv assms(2) that by (auto simp: loop_inv_def pc_ok_def split: if_splits)
    then obtain x where "x \<in> in_state Failed ?s" using cnt by (metis card.empty equals0I less_irrefl)
    then show ?thesis using sub in_state_disjoint by blast
  qed
  have len: "st = ''completed'' \<Longrightarrow> completed_count l = length ss"
    using all sub n cnt by (metis Un_subset_iff subset_antisym)
  show ?thesis
    using all some len le steps by (auto simp: in_state_def)
qed

text \<open>
  C7. The task never leaves the wait at the top of its loop. It waits there when no step is
  ready, the scheduler is not complete and no step failed; a notification makes it
  \<^verbatim>\<open>continue\<close> without looking at the running steps, so it finds the same situation and waits
  again. From then on no result of any subagent is recorded and the orchestration never ends,
  although every subagent may have finished.
\<close>

theorem wait_top_forever:
  assumes "reach (orch_init c ss) (orch_step c) (m, l)" and "pc l = WaitTop"
    and "(orch_step c)\<^sup>*\<^sup>* (m, l) (m', l')"
  shows "scheduler l' = scheduler l \<and> pc l' \<in> {WaitTop, AtTop} \<and> completed_count l' = completed_count l"
proof -
  have stuck: "next_ready (scheduler l) = []" "\<not> is_complete (scheduler l)" "failed_count l = 0"
    using orch_run.reach_inv [OF assms(1)] assms(2) by (auto simp: loop_inv_def pc_ok_def)
  have "scheduler (snd ml) = scheduler l \<and> pc (snd ml) \<in> {WaitTop, AtTop} \<and>
      completed_count (snd ml) = completed_count l \<and> failed_count (snd ml) = 0"
    if "(orch_step c)\<^sup>*\<^sup>* (m, l) ml" for ml
    using that
  proof (induction rule: rtranclp_induct)
    case base
    then show ?case using assms(2) stuck by simp
  next
    case (step ml ml')
    from step.hyps(2) show ?case
    proof cases
      case (orch_task env)
      then show ?thesis using step.IH stuck
        by (auto simp: loop_step_def Let_def set_pc_def case_prod_beta split: if_splits)
    next
      case (orch_env m1 m2 l1)
      then show ?thesis using step.IH by simp
    qed
  qed
  from this [OF assms(3)] show ?thesis by simp
qed

text \<open>Concrete runs, as sequences of task steps and subprocess exits.\<close>

datatype orch_action = Task loop_env | ExitOf string exit_result

fun orch_exec :: "orch_ctx \<Rightarrow> orch_action list \<Rightarrow> subagent_manager \<times> orch_loop
    \<Rightarrow> (subagent_manager \<times> orch_loop) option" where
  "orch_exec c [] ml = Some ml"
| "orch_exec c (Task env # as) ml =
     (case loop_step env c ml of None \<Rightarrow> None | Some ml' \<Rightarrow> orch_exec c as ml')"
| "orch_exec c (ExitOf i r # as) ml =
     (if i \<in> set (monitors (fst ml))
      then orch_exec c as (monitor_exit (True, []) 1 i r (fst ml), snd ml) else None)"

lemma orch_exec_reach:
  "orch_exec c as ml = Some ml' \<Longrightarrow> reach (orch_init c ss) (orch_step c) ml
     \<Longrightarrow> reach (orch_init c ss) (orch_step c) ml'"
proof (induction c as ml arbitrary: ml' rule: orch_exec.induct)
  case (2 c env as ml)
  then obtain ml1 where ml1: "loop_step env c ml = Some ml1" "orch_exec c as ml1 = Some ml'"
    by (auto split: option.splits)
  have "reach (orch_init c ss) (orch_step c) ml1"
    using "2.prems"(2) orch_task [OF ml1(1)] by (rule reach_step)
  then show ?case by (rule "2.IH" [OF ml1])
next
  case (3 c i r as ml)
  then have i: "i \<in> set (monitors (fst ml))"
    and e: "orch_exec c as (monitor_exit (True, []) 1 i r (fst ml), snd ml) = Some ml'"
    by (auto split: if_splits)
  have "orch_step c ml (monitor_exit (True, []) 1 i r (fst ml), snd ml)"
    using orch_env [OF mgr_exit [OF i], of c "snd ml"] by simp
  with "3.prems"(2) have "reach (orch_init c ss) (orch_step c) (monitor_exit (True, []) 1 i r (fst ml), snd ml)"
    by (rule reach_step)
  then show ?case by (rule "3.IH" [OF i e])
qed simp

definition demo_step :: "string \<Rightarrow> string list \<Rightarrow> orchestration_step" where
  "demo_step i deps = \<lparr> os_id = i, os_name = i, os_prompt = ''p'', os_model = [], os_depends_on = deps,
     os_working_directory = [], os_allowed_tools = [], os_max_turns = 0, os_auto_approve = False \<rparr>"

definition demo_loop_env :: loop_env where
  "demo_loop_env = \<lparr> le_spawn = demo_env, le_step_q = (\<lambda>_. (True, [])), le_get_q = (True, []),
     le_final_q = (True, []), le_now = 1, le_cwd = ''/'' \<rparr>"

definition demo_ctx :: "orchestration_step list \<Rightarrow> orch_ctx" where
  "demo_ctx ss = \<lparr> oc_id = ''o'', oc_parent_session_id = ''s'',
     oc_step_configs = fold (\<lambda>s cs. hm_insert (os_id s) s cs) ss [], oc_total = length ss \<rparr>"

definition demo_start :: "orchestration_step list \<Rightarrow> subagent_manager \<times> orch_loop" where
  "demo_start ss = (case run_orchestration (True, []) (True, []) (\<lambda>_. (True, [])) (\<lambda>_. []) 1 ''o'' ''s'' Dag ss
       (new_manager (new_pool 5) demo_db) of
     Some (m, Inr (c, l)) \<Rightarrow> (m, l))"

definition demo_ok :: "orchestration_step list \<Rightarrow> bool" where
  "demo_ok ss = (case run_orchestration (True, []) (True, []) (\<lambda>_. (True, [])) (\<lambda>_. []) 1 ''o'' ''s'' Dag ss
       (new_manager (new_pool 5) demo_db) of
     Some (m, Inr (c, l)) \<Rightarrow> c = demo_ctx ss | _ \<Rightarrow> False)"

lemma demo_start_reach:
  assumes ok: "demo_ok ss"
  shows "reach (orch_init (demo_ctx ss) ss) (orch_step (demo_ctx ss)) (demo_start ss)"
proof -
  obtain m l where r: "run_orchestration (True, []) (True, []) (\<lambda>_. (True, [])) (\<lambda>_. []) 1 ''o'' ''s'' Dag
     ss (new_manager (new_pool 5) demo_db) = Some (m, Inr (demo_ctx ss, l))"
  proof (cases "run_orchestration (True, []) (True, []) (\<lambda>_. (True, [])) (\<lambda>_. []) 1 ''o'' ''s'' Dag
     ss (new_manager (new_pool 5) demo_db)")
    case None
    then show thesis using ok by (simp add: demo_ok_def)
  next
    case (Some p)
    obtain m x where p: "p = (m, x)" by (cases p)
    show thesis
    proof (cases x)
      case (Inl e)
      then show thesis using ok Some p by (simp add: demo_ok_def)
    next
      case (Inr cl)
      obtain c l where "cl = (c, l)" by (cases cl)
      then show thesis using ok Some p Inr that by (simp add: demo_ok_def)
    qed
  qed
  then have "orch_init (demo_ctx ss) ss (demo_start ss)"
    unfolding orch_init_def demo_start_def by (simp only: option.case prod.case sum.case fst_conv snd_conv) blast
  then show ?thesis by (rule reach_init)
qed

definition demo_run :: "orchestration_step list \<Rightarrow> orch_action list \<Rightarrow> subagent_manager \<times> orch_loop" where
  "demo_run ss as = (case orch_exec (demo_ctx ss) as (demo_start ss) of Some ml \<Rightarrow> ml | None \<Rightarrow> demo_start ss)"

lemma demo_run_reach:
  "demo_ok ss \<Longrightarrow> reach (orch_init (demo_ctx ss) ss) (orch_step (demo_ctx ss)) (demo_run ss as)"
  using demo_start_reach orch_exec_reach by (auto simp: demo_run_def split: option.splits)

text \<open>Both subagents run, the first ends and is recorded, the second ends while the task waits.\<close>

definition par_steps :: "orchestration_step list" where
  "par_steps = [demo_step ''a'' [], demo_step ''b'' []]"

definition par_hang :: "orch_action list" where
  "par_hang = replicate 4 (Task demo_loop_env) @ [ExitOf ''o-a'' (Exited (Some 0))]
     @ replicate 5 (Task demo_loop_env) @ [ExitOf ''o-b'' (Exited (Some 0))]"

lemma par_hang_eval:
  "demo_ok par_steps"
  "pc (snd (demo_run par_steps par_hang)) = WaitTop"
  "monitors (fst (demo_run par_steps par_hang)) = []"
  "status_of ''o-b'' (fst (demo_run par_steps par_hang)) = Some ''completed''"
  "step_state_of (scheduler (snd (demo_run par_steps par_hang))) ''b'' = Some Running"
  by code_simp+

theorem wait_top_forever_witness:
  "monitors (fst (demo_run par_steps par_hang)) = []
   \<and> status_of ''o-b'' (fst (demo_run par_steps par_hang)) = Some ''completed''
   \<and> \<not> (\<exists>m l. (orch_step (demo_ctx par_steps))\<^sup>*\<^sup>* (demo_run par_steps par_hang) (m, l)
          \<and> step_state_of (scheduler l) ''b'' = Some Completed)"
proof -
  obtain m l where ml: "demo_run par_steps par_hang = (m, l)" by fastforce
  note ev = par_hang_eval [unfolded ml]
  have r: "reach (orch_init (demo_ctx par_steps) par_steps) (orch_step (demo_ctx par_steps)) (m, l)"
    using demo_run_reach [OF par_hang_eval(1)] by (simp flip: ml)
  show ?thesis
    using wait_top_forever [OF r] ev by (fastforce simp: ml)
qed

definition seq_steps :: "orchestration_step list" where
  "seq_steps = [demo_step ''a'' [], demo_step ''b'' [''a'']]"

definition seq_mid :: "orch_action list" where
  "seq_mid = replicate 3 (Task demo_loop_env) @ [ExitOf ''o-a'' (Exited (Some 0))]
     @ replicate 4 (Task demo_loop_env)"

definition seq_end :: "orch_action list" where
  "seq_end = seq_mid @ replicate 2 (Task demo_loop_env) @ [ExitOf ''o-b'' (Exited (Some 0))]
     @ replicate 4 (Task demo_loop_env)"

lemma seq_eval:
  "demo_ok seq_steps"
  "pc (snd (demo_run seq_steps seq_mid)) = Spawning [''b'']"
  "pc (snd (demo_run seq_steps seq_end)) = Finished ''completed''"
  by code_simp+

theorem orchestration_order_witness:
  "step_state_of (scheduler (snd (demo_run seq_steps seq_mid))) ''a'' = Some Completed"
proof -
  obtain m l where ml: "demo_run seq_steps seq_mid = (m, l)" by fastforce
  have r: "reach (orch_init (demo_ctx seq_steps) seq_steps) (orch_step (demo_ctx seq_steps)) (m, l)"
    using demo_run_reach [OF seq_eval(1)] by (simp flip: ml)
  have "pc l = Spawning [os_id (demo_step ''b'' [''a''])]" using seq_eval(2) by (simp add: ml demo_step_def)
  from orchestration_order [OF r this] show ?thesis unfolding ml by (simp add: seq_steps_def demo_step_def)
qed

theorem orchestration_outcome_witness:
  "completed_count (snd (demo_run seq_steps seq_end)) = 2
   \<and> step_state_of (scheduler (snd (demo_run seq_steps seq_end))) ''b'' = Some Completed"
proof -
  obtain m l where ml: "demo_run seq_steps seq_end = (m, l)" by fastforce
  have r: "reach (orch_init (demo_ctx seq_steps) seq_steps) (orch_step (demo_ctx seq_steps)) (m, l)"
    using demo_run_reach [OF seq_eval(1)] by (simp flip: ml)
  have "pc l = Finished ''completed''" using seq_eval(3) by (simp add: ml)
  from orchestration_outcome [OF r this] show ?thesis unfolding ml by (simp add: seq_steps_def demo_step_def)
qed

text \<open>
  Step ids are primary keys across all orchestrations. If the id of the first step is already
  in the table (as it is for every second orchestration with unnamed steps, which are all
  called \<^verbatim>\<open>step-0\<close>, \<^verbatim>\<open>step-1\<close>, ...), the orchestration is refused after its row was written with
  status \<^verbatim>\<open>running\<close>, and that row stays.
\<close>

theorem step_id_collision:
  assumes "new_scheduler (map os_id (s # ss)) (dep_map (s # ss)) = Some (Inr sched)"
    and "os_id s \<in> set (map st_id (orchestration_steps (sm_db m)))"
    and "oid \<notin> set (map or_id (orchestrations (sm_db m)))" and "parent \<in> set (session_ids (sm_db m))"
    and "fst q1" and "fst q2"
  shows "\<exists>m'. run_orchestration q1 q2 q3 to_json now oid parent strat (s # ss) m
        = Some (m', Inl (Database (Query (snd (q3 (os_id s))))))
      \<and> (\<exists>row. get_orchestration (True, []) oid (sm_db m') = Inr row \<and> or_status row = ''running'')"
proof -
  let ?row = "\<lparr> or_id = oid, or_parent_session_id = parent, or_strategy = strategy_str strat,
      or_status = ''pending'', or_created_at = now, or_completed_at = None \<rparr>"
  let ?db1 = "(sm_db m)\<lparr>orchestrations := orchestrations (sm_db m) @ [?row]\<rparr>"
  have none: "find (\<lambda>r. or_id r = oid) (orchestrations (sm_db m)) = None"
    using assms(3) find_id_iff [of or_id oid "orchestrations (sm_db m)"] by auto
  have "strategy_ok (strategy_str strat)" by (cases strat) (auto simp: strategy_ok_def strategy_str_def)
  then have c: "create_orchestration q1 q1 now oid parent (strategy_str strat) (sm_db m) = (?db1, Inr ?row)"
    using assms none by (auto simp: create_orchestration_def get_orchestration_def Let_def find_snoc)
  obtain db2 where u: "update_orchestration_status q2 now oid ''running'' ?db1 = (db2, Inr ())"
    and steps: "orchestration_steps db2 = orchestration_steps (sm_db m)"
    and row: "get_orchestration (True, []) oid db2 = Inr (?row\<lparr>or_status := ''running''\<rparr>)"
    using assms(6) none
    by (simp add: update_orchestration_status_def orchestration_status_ok_def Let_def
        get_orchestration_def find_update_rows find_snoc)
  have "create_step_rows q3 to_json now oid 0 (s # ss) db2 = (db2, Inl (Query (snd (q3 (os_id s)))))"
    using assms(2) steps by (simp add: create_orchestration_step_def)
  then show ?thesis using assms(1) c u row by (simp add: run_orchestration_def del: create_step_rows.simps)
qed

theorem step_id_collision_witness:
  "\<exists>m'. run_orchestration (True, []) (True, []) (\<lambda>_. (True, ''UNIQUE'')) (\<lambda>_. []) 2 ''o2'' ''s'' Parallel
      (prepare_steps Parallel [demo_step [] []])
      (fst (demo_start (prepare_steps Parallel [demo_step [] []])))
     = Some (m', Inl (Database (Query ''UNIQUE'')))"
proof -
  let ?m = "fst (demo_start (prepare_steps Parallel [demo_step [] []]))"
  let ?s = "(demo_step [] [])\<lparr>os_id := ''step-0''\<rparr>"
  have p: "prepare_steps Parallel [demo_step [] []] = [?s]" by code_simp
  have e: "map st_id (orchestration_steps (sm_db ?m)) = [''step-0'']"
    "map or_id (orchestrations (sm_db ?m)) = [''o'']" "session_ids (sm_db ?m) = [''s'']"
    by code_simp+
  have "case new_scheduler (map os_id [?s]) (dep_map [?s]) of Some (Inr _) \<Rightarrow> True | _ \<Rightarrow> False"
    by code_simp
  then obtain sched where "new_scheduler (map os_id [?s]) (dep_map [?s]) = Some (Inr sched)"
    by (simp split: option.splits sum.splits)
  from step_id_collision [OF this, of ?m "''o2''" "''s''" "(True, [])" "(True, [])" "\<lambda>_. (True, ''UNIQUE'')"
      "\<lambda>_. []" 2 Parallel] e
  show ?thesis unfolding p by auto
qed

lemma spawn_step_table:
  "orchestration_steps (sm_db (fst (spawn env now cfg m))) = orchestration_steps (sm_db m)"
proof -
  have c: "orchestration_steps (fst (create_subagent q q' now i parent prompt mo mt aa tools wd db))
      = orchestration_steps db" for q q' i parent prompt mo mt aa tools wd db
    by (simp add: create_subagent_def Let_def)
  have u: "orchestration_steps (fst (update_subagent_status q now i st ec rs db)) = orchestration_steps db"
    for q i st ec rs db
    by (simp add: update_subagent_status_def Let_def)
  show ?thesis
    by (simp add: spawn_def Let_def case_prod_beta c u split: option.split sum.split)
qed

text \<open>
  The task records that a step is running before the row of its subagent exists. The foreign
  key of \<^verbatim>\<open>subagent_id\<close> makes that statement fail, its error is ignored, and a step that was
  spawned successfully keeps the status it had.
\<close>

theorem step_running_not_recorded:
  assumes "hm_get (oc_step_configs c) x = Some cfg"
    and "x \<in> set (map st_id (orchestration_steps (sm_db m)))"
    and "subagent_id_of c x \<notin> known_ids (sm_db m)"
    and "failed_count (snd (spawn_step env c x (m, l))) = failed_count l"
  shows "orchestration_steps (sm_db (fst (spawn_step env c x (m, l)))) = orchestration_steps (sm_db m)"
proof -
  let ?m1 = "m\<lparr>subagent_to_orchestration := hm_insert (subagent_id_of c x) (oc_id c) (subagent_to_orchestration m)\<rparr>"
  have same: "set_step env x ''running'' (Some (subagent_id_of c x)) ?m1 = ?m1"
    using assms(2,3) by (simp add: set_step_def update_step_status_def Let_def known_ids_def)
  obtain m3 r where r: "spawn (le_spawn env) (le_now env) (step_config env c x cfg (step_results l)) ?m1 = (m3, r)"
    by fastforce
  then have "orchestration_steps (sm_db m3) = orchestration_steps (sm_db m)"
    using spawn_step_table [of "le_spawn env" "le_now env" "step_config env c x cfg (step_results l)" ?m1] by simp
  then show ?thesis using assms(1,4) r
    by (cases r) (simp_all add: spawn_step_def same Let_def fail_step_loop)
qed

theorem step_running_not_recorded_witness:
  "map st_status (orchestration_steps (sm_db (fst
     (spawn_step demo_loop_env (demo_ctx seq_steps) ''a'' (demo_start seq_steps))))) = [''pending'', ''pending'']"
proof -
  obtain m l where ml: "demo_start seq_steps = (m, l)" by fastforce
  have e: "map st_status (orchestration_steps (sm_db (fst (demo_start seq_steps)))) = [''pending'', ''pending'']"
    "''a'' \<in> set (map st_id (orchestration_steps (sm_db (fst (demo_start seq_steps)))))"
    "subagents (sm_db (fst (demo_start seq_steps))) = []"
    "failed_count (snd (spawn_step demo_loop_env (demo_ctx seq_steps) ''a'' (demo_start seq_steps)))
       = failed_count (snd (demo_start seq_steps))"
    "hm_get (oc_step_configs (demo_ctx seq_steps)) ''a'' = Some (demo_step ''a'' [])"
    by code_simp+
  from step_running_not_recorded [OF e(5), of m demo_loop_env l] e(1-4) show ?thesis
    by (simp add: ml known_ids_def)
qed

lemma chain_ids: "map os_id (chain_steps ss) = map os_id ss"
  by (induction ss rule: chain_steps.induct) auto

lemma chain_steps_hd: "\<exists>t'. chain_steps (t # ss) = t # t'"
  by (cases ss) auto

text \<open>
  With the sequential strategy every step of the prepared list depends on the step before it,
  and the steps keep their order and their names.
\<close>

theorem sequential_chained:
  assumes "Suc i < length ss"
  shows "os_id (prepare_steps Sequential ss ! i) \<in> set (os_depends_on (prepare_steps Sequential ss ! Suc i))
    \<and> map os_id (prepare_steps Sequential ss) = map os_id (assign_ids 0 ss)"
proof -
  have len: "length (assign_ids k ss) = length ss" for k by (induction ss arbitrary: k) auto
  have "os_id (chain_steps xs ! i) \<in> set (os_depends_on (chain_steps xs ! Suc i))"
    if "Suc i < length xs" for xs
    using that
  proof (induction xs arbitrary: i rule: chain_steps.induct)
    case (1 s t ss)
    let ?t = "if os_id s \<in> set (os_depends_on t) then t else t\<lparr>os_depends_on := os_depends_on t @ [os_id s]\<rparr>"
    show ?case
    proof (cases i)
      case 0
      then show ?thesis using chain_steps_hd [of ?t ss] by auto
    next
      case (Suc j)
      then show ?thesis using "1.IH" [of j] "1.prems" by simp
    qed
  qed auto
  then show ?thesis using assms len by (simp add: prepare_steps_def Let_def chain_ids)
qed

theorem sequential_chained_witness:
  "''step-0'' \<in> set (os_depends_on (prepare_steps Sequential [demo_step [] [], demo_step ''x'' []] ! Suc 0))"
proof -
  have "os_id (prepare_steps Sequential [demo_step [] [], demo_step ''x'' []] ! 0) = ''step-0''" by code_simp
  with sequential_chained [of 0 "[demo_step [] [], demo_step ''x'' []]"] show ?thesis by simp
qed

end
