(* ===== verification/SpawnRuns.thy ===== *)
theory SpawnRuns
  imports Subagents "HOL-Library.Multiset"
begin

text \<open>
  Calls of \<^verbatim>\<open>spawn\<close> and monitoring tasks of
  \<^verbatim>\<open>crates/betcode-daemon/src/orchestration/manager.rs\<close> in any interleaving. Both are cut at their
  awaits: between two awaits a task runs alone, at an await every other task may run. The stages
  run without interruption are the functions \<open>spawn\<close> and \<open>monitor_exit\<close> of the theory
  \<open>Subagents\<close>, which is proved here. The theory proves that the permits bound the supervised
  subprocesses in every interleaving, and that a call that ends after it has started its
  subprocess gives its permit back while the subprocess lives on.
\<close>

section \<open>The stages of a spawn call\<close>

text \<open>
  Where a call stands that holds a permit: the permit is taken; the row is created; the
  subprocess runs; it is registered in the pool; it is in the map of running subagents.
\<close>

datatype spawn_pc = Admitted | Recorded | Started "nat option" | Pooled "nat option" | Listed

text \<open>
  What one stage leads to. \<open>Returned orphan e\<close>: the call returns the error \<open>e\<close> and drops its permit;
  \<open>orphan\<close> tells that it has started a subprocess. Dropping the handle of a \<^verbatim>\<open>tokio\<close> child process
  does not kill the process: the command is built without \<^verbatim>\<open>kill_on_drop\<close>. \<open>Watched i\<close>: the permit
  has moved into the monitoring task of the subagent \<open>i\<close>.
\<close>

datatype spawn_outcome = At spawn_pc | Returned bool manager_error | Watched string

definition spawn_admit :: "subagent_config \<Rightarrow> subagent_manager \<Rightarrow> manager_error + subagent_manager" where
  "spawn_admit cfg m =
     (if cfg_prompt cfg = [] then Inl (Validation ''prompt must not be empty'')
      else if cfg_auto_approve cfg \<and> cfg_allowed_tools cfg = []
      then Inl (Validation ''auto_approve requires non-empty allowed_tools'')
      else case try_acquire (sm_pool m) of
        None \<Rightarrow> Inl PoolFull
      | Some p \<Rightarrow> Inr (m\<lparr>sm_pool := p\<rparr>))"

fun spawn_next :: "spawn_env \<Rightarrow> int \<Rightarrow> subagent_config \<Rightarrow> spawn_pc \<Rightarrow> subagent_manager
    \<Rightarrow> subagent_manager \<times> spawn_outcome" where
  "spawn_next env now cfg Admitted m =
     (let (db, created) = create_subagent (se_insert env) (se_select env) now (cfg_id cfg)
            (cfg_parent_session_id cfg) (cfg_prompt cfg) (cfg_model cfg) (cfg_max_turns cfg)
            (cfg_auto_approve cfg) (se_tools_json env) (Some (cfg_working_directory cfg)) (sm_db m)
      in (m\<lparr>sm_db := db\<rparr>, case created of Inl e \<Rightarrow> Returned False (Database e) | Inr _ \<Rightarrow> At Recorded))"
| "spawn_next env now cfg Recorded m =
     (m, case se_child env of
           Inl reason \<Rightarrow> Returned False (SpawnFailed reason)
         | Inr child_pid \<Rightarrow>
             if se_stdin env then At (Started child_pid)
             else Returned True (SpawnFailed ''Failed to capture stdin''))"
| "spawn_next env now cfg (Started child_pid) m =
     (m\<lparr>sm_pool := pool_register \<lparr> pe_subagent_id = cfg_id cfg, pe_stdin_tx = se_chan env \<rparr> (sm_pool m)\<rparr>,
      At (Pooled child_pid))"
| "spawn_next env now cfg (Pooled child_pid) m =
     (m\<lparr>running := hm_insert (cfg_id cfg) \<lparr> event_txs = [], pid = child_pid,
          rs_auto_approve = cfg_auto_approve cfg \<rparr> (running m)\<rparr>, At Listed)"
| "spawn_next env now cfg Listed m =
     (let (db, upd) = update_subagent_status (se_update env) now (cfg_id cfg) ''running'' None None (sm_db m)
      in case upd of
           Inl e \<Rightarrow> (m\<lparr>sm_db := db\<rparr>, Returned True (Database e))
         | Inr _ \<Rightarrow> (m\<lparr>sm_db := db, monitors := cfg_id cfg # monitors m\<rparr>, Watched (cfg_id cfg)))"

text \<open>The stages in a row, with nothing in between; five stages end the call.\<close>

fun spawn_stages :: "nat \<Rightarrow> spawn_env \<Rightarrow> int \<Rightarrow> subagent_config \<Rightarrow> spawn_pc \<Rightarrow> subagent_manager
    \<Rightarrow> (subagent_manager \<times> (manager_error + string)) option" where
  "spawn_stages 0 env now cfg pc m = None"
| "spawn_stages (Suc k) env now cfg pc m =
     (case spawn_next env now cfg pc m of
        (m', At pc') \<Rightarrow> spawn_stages k env now cfg pc' m'
      | (m', Returned _ e) \<Rightarrow> Some (m'\<lparr>sm_pool := release_permit (sm_pool m')\<rparr>, Inl e)
      | (m', Watched i) \<Rightarrow> Some (m', Inr i))"

lemma spawn_is_stages:
  "spawn env now cfg m =
     (case spawn_admit cfg m of
        Inl e \<Rightarrow> (m, Inl e)
      | Inr m' \<Rightarrow> the (spawn_stages 5 env now cfg Admitted m'))"
  by (simp add: spawn_def spawn_admit_def eval_nat_numeral Let_def case_prod_beta
      split: option.split sum.split)

section \<open>The stages of a monitoring task\<close>

text \<open>
  \<open>Waiting\<close>: the task waits for the exit of the subprocess. Afterwards it has, one lock or statement
  at a time: seen the exit, stored the status, broadcast the terminal event, unregistered the
  subagent from the pool, removed it from the running map, read its orchestration, notified it.
\<close>

datatype monitor_pc =
    Waiting | Ended exit_result | Stored exit_result | Told | Unpooled | Unlisted
  | Named "string option" | Notified | Finished

fun monitor_next :: "sqlite \<Rightarrow> int \<Rightarrow> string \<Rightarrow> monitor_pc \<Rightarrow> subagent_manager
    \<Rightarrow> subagent_manager \<times> monitor_pc" where
  "monitor_next q now i Waiting m = (m, Waiting)"
| "monitor_next q now i (Ended r) m =
     (let (status, exit_code, summary) = classify_exit r
      in (m\<lparr>sm_db := fst (update_subagent_status q now i status exit_code summary (sm_db m))\<rparr>, Stored r))"
| "monitor_next q now i (Stored r) m =
     (let (status, exit_code, summary) = classify_exit r
      in (broadcast_event i (terminal_event status exit_code summary) m, Told))"
| "monitor_next q now i Told m = (m\<lparr>sm_pool := fst (pool_unregister i (sm_pool m))\<rparr>, Unpooled)"
| "monitor_next q now i Unpooled m = (m\<lparr>running := hm_remove i (running m)\<rparr>, Unlisted)"
| "monitor_next q now i Unlisted m = (m, Named (hm_get (subagent_to_orchestration m) i))"
| "monitor_next q now i (Named None) m = (m, Finished)"
| "monitor_next q now i (Named (Some orch)) m = (notify_one orch m, Notified)"
| "monitor_next q now i Notified m =
     (m\<lparr>subagent_to_orchestration := hm_remove i (subagent_to_orchestration m)\<rparr>, Finished)"
| "monitor_next q now i Finished m = (m, Finished)"

text \<open>The end of the task drops the permit.\<close>

definition monitor_end :: "string \<Rightarrow> subagent_manager \<Rightarrow> subagent_manager" where
  "monitor_end i m = m\<lparr>sm_pool := release_permit (sm_pool m), monitors := remove1 i (monitors m)\<rparr>"

fun monitor_stages :: "nat \<Rightarrow> sqlite \<Rightarrow> int \<Rightarrow> string \<Rightarrow> monitor_pc \<Rightarrow> subagent_manager
    \<Rightarrow> subagent_manager option" where
  "monitor_stages 0 q now i pc m = None"
| "monitor_stages (Suc k) q now i pc m =
     (if pc = Finished then Some (monitor_end i m)
      else case monitor_next q now i pc m of (m', pc') \<Rightarrow> monitor_stages k q now i pc' m')"

lemma monitor_exit_is_stages:
  "monitor_stages 9 q now i (Ended r) m = Some (monitor_exit q now i r m)"
  by (simp add: monitor_exit_def monitor_end_def eval_nat_numeral Let_def case_prod_beta
      split: option.split)

section \<open>Interleavings\<close>

text \<open>
  The state shared by the tasks: the manager, the calls that hold a permit, the monitoring tasks,
  and the orphans, subprocesses that run although the call that started them has ended.
\<close>

record task_state =
  ts_mgr :: subagent_manager
  ts_calls :: "(subagent_config \<times> spawn_pc) list"
  ts_monitors :: "(string \<times> monitor_pc) list"
  ts_orphans :: "string list"

definition has_child :: "spawn_pc \<Rightarrow> bool" where
  "has_child pc \<longleftrightarrow> pc \<noteq> Admitted \<and> pc \<noteq> Recorded"

text \<open>
  The call \<open>(cfg, pc)\<close> between \<open>xs\<close> and \<open>ys\<close> has run one stage. \<open>call_over\<close>: it ends, its permit is dropped.
\<close>

definition call_over :: "bool \<Rightarrow> subagent_config \<Rightarrow> (subagent_config \<times> spawn_pc) list
    \<Rightarrow> subagent_manager \<Rightarrow> task_state \<Rightarrow> task_state" where
  "call_over orphan cfg rest m s = s\<lparr>ts_mgr := m\<lparr>sm_pool := release_permit (sm_pool m)\<rparr>,
     ts_calls := rest, ts_orphans := (if orphan then [cfg_id cfg] else []) @ ts_orphans s\<rparr>"

fun call_settled :: "(subagent_config \<times> spawn_pc) list \<Rightarrow> subagent_config
    \<Rightarrow> (subagent_config \<times> spawn_pc) list \<Rightarrow> subagent_manager \<times> spawn_outcome \<Rightarrow> task_state \<Rightarrow> task_state" where
  "call_settled xs cfg ys (m, At pc) s = s\<lparr>ts_mgr := m, ts_calls := xs @ (cfg, pc) # ys\<rparr>"
| "call_settled xs cfg ys (m, Returned orphan e) s = call_over orphan cfg (xs @ ys) m s"
| "call_settled xs cfg ys (m, Watched i) s =
     s\<lparr>ts_mgr := m, ts_calls := xs @ ys, ts_monitors := (i, Waiting) # ts_monitors s\<rparr>"

text \<open>
  One step of one task. A call may be dropped at any await: \<^verbatim>\<open>tonic\<close> drops the future of a request
  whose client is gone. The orchestration loops change the two maps of orchestrations only.
\<close>

inductive task_step :: "task_state \<Rightarrow> task_state \<Rightarrow> bool" where
  call_begin: "spawn_admit cfg (ts_mgr s) = Inr m \<Longrightarrow>
     task_step s (s\<lparr>ts_mgr := m, ts_calls := (cfg, Admitted) # ts_calls s\<rparr>)"
| call_stage: "ts_calls s = xs @ (cfg, pc) # ys \<Longrightarrow>
     task_step s (call_settled xs cfg ys (spawn_next env now cfg pc (ts_mgr s)) s)"
| call_dropped: "ts_calls s = xs @ (cfg, pc) # ys \<Longrightarrow>
     task_step s (call_over (has_child pc) cfg (xs @ ys) (ts_mgr s) s)"
| child_exit: "ts_monitors s = xs @ (i, Waiting) # ys \<Longrightarrow>
     task_step s (s\<lparr>ts_monitors := xs @ (i, Ended r) # ys\<rparr>)"
| monitor_stage: "ts_monitors s = xs @ (i, pc) # ys \<Longrightarrow> monitor_next q now i pc (ts_mgr s) = (m, pc') \<Longrightarrow>
     task_step s (s\<lparr>ts_mgr := m, ts_monitors := xs @ (i, pc') # ys\<rparr>)"
| monitor_done: "ts_monitors s = xs @ (i, Finished) # ys \<Longrightarrow>
     task_step s (s\<lparr>ts_mgr := monitor_end i (ts_mgr s), ts_monitors := xs @ ys\<rparr>)"
| orphan_exit: "ts_orphans s = xs @ i # ys \<Longrightarrow> task_step s (s\<lparr>ts_orphans := xs @ ys\<rparr>)"
| child_output: "task_step s (s\<lparr>ts_mgr := broadcast_event i ev (ts_mgr s)\<rparr>)"
| client_subscribe: "task_step s (s\<lparr>ts_mgr := fst (subscribe c i (ts_mgr s))\<rparr>)"
| client_cancel: "task_step s (s\<lparr>ts_mgr := fst (snd (cancel q now i reason (ts_mgr s)))\<rparr>)"
| client_revoke: "task_step s (s\<lparr>ts_mgr := fst (revoke_auto_approve i (ts_mgr s))\<rparr>)"
| client_unwatch: "task_step s (s\<lparr>ts_mgr := (ts_mgr s)\<lparr>chans := cs\<rparr>\<rparr>)"
| orchestration_maps: "task_step s (s\<lparr>ts_mgr := (ts_mgr s)\<lparr>orch_map := om,
     subagent_to_orchestration := so\<rparr>\<rparr>)"

definition task_start :: "nat \<Rightarrow> subagent_db \<Rightarrow> task_state" where
  "task_start n db = \<lparr> ts_mgr = new_manager (new_pool n) db, ts_calls = [], ts_monitors = [],
     ts_orphans = [] \<rparr>"

definition task_init :: "nat \<Rightarrow> task_state \<Rightarrow> bool" where
  "task_init n s \<longleftrightarrow> (\<exists>db. s = task_start n db)"

text \<open>The subprocesses that run: those of a call or of a waiting monitoring task, and the orphans.\<close>

definition supervised :: "task_state \<Rightarrow> string list" where
  "supervised s = map (cfg_id \<circ> fst) (filter (has_child \<circ> snd) (ts_calls s))
     @ map fst (filter (\<lambda>t. snd t = Waiting) (ts_monitors s))"

definition subprocesses :: "task_state \<Rightarrow> string list" where
  "subprocesses s = supervised s @ ts_orphans s"

section \<open>The permits in every interleaving\<close>

text \<open>\<open>permits_of m\<close>: the free permits, the limit and the monitoring tasks of the manager.\<close>

definition permits_of :: "subagent_manager \<Rightarrow> nat \<times> nat \<times> string list" where
  "permits_of m = (semaphore (sm_pool m), max_concurrency (sm_pool m), monitors m)"

lemma permits_of_pool_ops [simp]:
  "semaphore (release_permit p) = Suc (semaphore p)" "semaphore (pool_register e p) = semaphore p"
  "semaphore (fst (pool_unregister i p)) = semaphore p"
  by (simp_all add: pool_defs)

lemma permits_frame [simp]:
  "permits_of (m\<lparr>sm_db := db\<rparr>) = permits_of m" "permits_of (m\<lparr>running := rs\<rparr>) = permits_of m"
  "permits_of (m\<lparr>chans := cs\<rparr>) = permits_of m" "permits_of (m\<lparr>orch_map := om\<rparr>) = permits_of m"
  "permits_of (m\<lparr>subagent_to_orchestration := so\<rparr>) = permits_of m"
  "permits_of (broadcast_event i ev m) = permits_of m" "permits_of (notify_one orch m) = permits_of m"
  "permits_of (fst (subscribe c i m)) = permits_of m"
  "permits_of (fst (revoke_auto_approve i m)) = permits_of m"
  "permits_of (fst (snd (cancel q now i reason m))) = permits_of m"
  using cancel_state [of q now i reason m]
  by (auto simp: permits_of_def subscribe_def revoke_auto_approve_def split: option.splits)

lemma permits_monitor_next: "permits_of (fst (monitor_next q now i pc m)) = permits_of m"
proof (cases pc)
  case (Named o1)
  then show ?thesis by (cases o1) simp_all
qed (simp_all add: case_prod_beta Let_def, simp add: permits_of_def)

lemma permits_spawn_next:
  assumes "spawn_next env now cfg pc m = (m', out)"
  shows "permits_of m' = (semaphore (sm_pool m), max_concurrency (sm_pool m),
     (case out of Watched i \<Rightarrow> [i] | _ \<Rightarrow> []) @ monitors m)"
  using assms by (cases pc) (auto simp: permits_of_def Let_def case_prod_beta split: sum.splits if_splits)

definition task_inv :: "nat \<Rightarrow> task_state \<Rightarrow> bool" where
  "task_inv n s \<longleftrightarrow> (case permits_of (ts_mgr s) of (free, limit, ms) \<Rightarrow>
     limit = max_concurrency (new_pool n) \<and> free + length (ts_calls s) + length (ts_monitors s) = limit
     \<and> mset ms = mset (map fst (ts_monitors s)))"

lemma task_inv_frame:
  assumes "task_inv n s" and "permits_of m = permits_of (ts_mgr s)"
  shows "task_inv n (s\<lparr>ts_mgr := m\<rparr>)"
  using assms by (simp add: task_inv_def)

lemma call_stage_inv:
  assumes inv: "task_inv n s" and c: "ts_calls s = xs @ (cfg, pc) # ys"
  shows "task_inv n (call_settled xs cfg ys (spawn_next env now cfg pc (ts_mgr s)) s)"
proof -
  obtain m out where next': "spawn_next env now cfg pc (ts_mgr s) = (m, out)" by fastforce
  note p = permits_spawn_next [OF next']
  show ?thesis
    using inv c p unfolding next' by (cases out) (auto simp: task_inv_def permits_of_def call_over_def)
qed

lemma mset_remove_middle:
  "mset ms = mset (map fst (xs @ (i, pc) # ys)) \<Longrightarrow> mset (remove1 i ms) = mset (map fst (xs @ ys))"
  by simp

lemma task_step_inv: "task_step s t \<Longrightarrow> task_inv n s \<Longrightarrow> task_inv n t"
proof (induction rule: task_step.induct)
  case (call_begin cfg s m)
  then show ?case
    by (auto simp: task_inv_def permits_of_def spawn_admit_def try_acquire_def split: if_splits option.splits)
next
  case (call_stage s xs cfg pc ys env now)
  then show ?case by (intro call_stage_inv)
next
  case (call_dropped s xs cfg pc ys)
  then show ?case by (auto simp: task_inv_def permits_of_def call_over_def)
next
  case (child_exit s xs i ys r)
  then show ?case by (auto simp: task_inv_def)
next
  case (monitor_stage s xs i pc ys q now m pc')
  then show ?case using permits_monitor_next [of q now i pc "ts_mgr s"] by (auto simp: task_inv_def)
next
  case (monitor_done s xs i ys)
  then have "mset (remove1 i (monitors (ts_mgr s))) = mset (map fst (xs @ ys))"
    by (intro mset_remove_middle [where pc = Finished]) (simp add: task_inv_def permits_of_def)
  with monitor_done show ?case by (auto simp: task_inv_def permits_of_def monitor_end_def)
qed (simp_all add: task_inv_frame, simp_all add: task_inv_def)

interpretation task_run: step_system "task_init n" task_step "task_inv n" for n
proof unfold_locales
  fix s assume "task_init n s"
  then show "task_inv n s"
    by (auto simp: task_init_def task_start_def task_inv_def permits_of_def new_manager_def new_pool_def Let_def)
next
  fix s t assume "task_inv n s" "task_step s t"
  then show "task_inv n t" by (rule task_step_inv [rotated])
qed

lemma limit_of_pool: "max_concurrency (new_pool n) = (if n = 0 then 5 else n)"
  by (simp add: new_pool_def DEFAULT_MAX_CONCURRENCY_def Let_def)

text \<open>
  C32. In every interleaving of spawn calls, monitoring tasks, client requests and orchestration
  loops, the free permits, the calls under way and the monitoring tasks add up to the pool's limit
  (5 when 0 is configured). So the subprocesses that a call or a monitoring task looks after never
  exceed the limit less the free permits; what can exceed it are the orphans, the subprocesses of
  calls that ended after starting them.
\<close>

theorem supervised_subprocesses_bounded:
  assumes "reach (task_init n) task_step s"
  shows "available_permits (sm_pool (ts_mgr s)) + length (ts_calls s) + length (ts_monitors s)
      = (if n = 0 then 5 else n)
    \<and> length (supervised s) + available_permits (sm_pool (ts_mgr s)) \<le> (if n = 0 then 5 else n)
    \<and> length (subprocesses s) \<le> (if n = 0 then 5 else n) + length (ts_orphans s)"
proof -
  have inv: "available_permits (sm_pool (ts_mgr s)) + length (ts_calls s) + length (ts_monitors s)
      = (if n = 0 then 5 else n)"
    using task_run.reach_inv [OF assms]
    by (simp add: task_inv_def permits_of_def available_permits_def limit_of_pool split: prod.splits)
  moreover have "length (supervised s) \<le> length (ts_calls s) + length (ts_monitors s)"
    unfolding supervised_def by (simp add: add_mono)
  ultimately show ?thesis by (simp add: subprocesses_def del: if_split)
qed

section \<open>Orphans\<close>

text \<open>One call whose last statement, the status update, does not execute.\<close>

definition orphan_env :: spawn_env where
  "orphan_env = demo_env\<lparr>se_update := (False, ''disk I/O error'')\<rparr>"

lemma call_alone:
  assumes "reach (task_init n) task_step s" and "ts_calls s = [(cfg, pc)]"
    and "spawn_next env now cfg pc (ts_mgr s) = (m, out)"
  shows "reach (task_init n) task_step (call_settled [] cfg [] (m, out) s)"
proof -
  have "task_step s (call_settled [] cfg [] (spawn_next env now cfg pc (ts_mgr s)) s)"
    using assms(2) by (intro call_stage) simp
  then show ?thesis using assms(1,3) by (simp add: reach_step)
qed

lemma find_new_row:
  "i \<notin> sa_id ` set rows \<Longrightarrow> sa_id row = i \<Longrightarrow> find (\<lambda>r. sa_id r = i) (rows @ [row]) = Some row"
  by (induction rows) auto

lemma create_executes:
  assumes "i \<notin> known_ids db" and "parent \<in> set (session_ids db)" and "fst q" and "fst q'"
  shows "\<exists>row. create_subagent q q' now i parent prompt mo mt aa tools wd db
    = (db\<lparr>subagents := subagents db @ [row]\<rparr>, Inr row) \<and> sa_id row = i"
  using assms by (fastforce simp: create_subagent_def get_subagent_def known_ids_def Let_def find_new_row)

lemma orphan_call:
  assumes s: "reach (task_init n) task_step s" "ts_calls s = []" "ts_monitors s = []"
    and new: "i \<notin> known_ids (sm_db (ts_mgr s))" and parent: "''s'' \<in> set (session_ids (sm_db (ts_mgr s)))"
  obtains t where "reach (task_init n) task_step t" "ts_calls t = []" "ts_monitors t = []"
    "ts_orphans t = i # ts_orphans s" "''s'' \<in> set (session_ids (sm_db (ts_mgr t)))"
    "known_ids (sm_db (ts_mgr t)) = insert i (known_ids (sm_db (ts_mgr s)))"
proof -
  have "0 < semaphore (sm_pool (ts_mgr s))"
    using task_run.reach_inv [OF s(1)] s(2,3) by (simp add: task_inv_def permits_of_def limit_of_pool split: if_splits)
  then obtain p where p: "try_acquire (sm_pool (ts_mgr s)) = Some p" by (auto simp: try_acquire_def)
  define cfg m where "cfg = demo_cfg i" and "m = (ts_mgr s)\<lparr>sm_pool := p\<rparr>"
  define at where "at = (\<lambda>m pc. s\<lparr>ts_mgr := m, ts_calls := [(cfg, pc)]\<rparr>)"
  have "task_step s (s\<lparr>ts_mgr := m, ts_calls := (cfg, Admitted) # ts_calls s\<rparr>)"
    by (rule call_begin) (simp add: spawn_admit_def p m_def cfg_def demo_cfg_def)
  then have r1: "reach (task_init n) task_step (at m Admitted)"
    using s(1,2) by (auto simp: at_def intro: reach_step)
  have stage: "reach (task_init n) task_step (at m' pc')" if "reach (task_init n) task_step (at m pc)"
    "spawn_next orphan_env 0 cfg pc m = (m', At pc')" for m pc m' pc'
    using call_alone [OF that(1), of cfg pc orphan_env 0 m' "At pc'"] that(2) by (simp add: at_def)
  obtain row where row: "create_subagent (True, []) (True, []) 0 i ''s'' ''p'' None 0 False ''[]''
      (Some ''/w'') (sm_db m) = ((sm_db m)\<lparr>subagents := subagents (sm_db m) @ [row]\<rparr>, Inr row)"
    and id: "sa_id row = i"
    using create_executes [of i "sm_db m" "''s''" "(True, [])" "(True, [])" 0 "''p''" None 0 False
      "''[]''" "Some ''/w''"] new parent unfolding m_def by force
  note env = orphan_env_def demo_env_def cfg_def demo_cfg_def
  let ?m2 = "m\<lparr>sm_db := (sm_db m)\<lparr>subagents := subagents (sm_db m) @ [row]\<rparr>\<rparr>"
  have r2: "reach (task_init n) task_step (at ?m2 Recorded)" by (rule stage [OF r1]) (simp add: env row)
  have r3: "reach (task_init n) task_step (at ?m2 (Started (Some 42)))" by (rule stage [OF r2]) (simp add: env)
  obtain m4 where r4: "reach (task_init n) task_step (at m4 (Pooled (Some 42)))" and "sm_db m4 = sm_db ?m2"
    using stage [OF r3] by simp
  then obtain m5 where r5: "reach (task_init n) task_step (at m5 Listed)" and m5: "sm_db m5 = sm_db ?m2"
    using stage [OF r4] by simp
  have "reach (task_init n) task_step (call_over True cfg [] m5 (at m5 Listed))"
    using call_alone [OF r5, of cfg Listed orphan_env 0 m5 "Returned True (Database (Query ''disk I/O error''))"]
    by (simp add: at_def update_subagent_status_def orphan_env_def)
  then show thesis
    by (rule that) (use s parent m5 id in \<open>simp_all add: call_over_def at_def cfg_def demo_cfg_def m_def known_ids_def\<close>)
qed

lemma orphans_accumulate:
  "\<exists>s. reach (task_init n) task_step s \<and> ts_calls s = [] \<and> ts_monitors s = [] \<and> length (ts_orphans s) = k
     \<and> ''s'' \<in> set (session_ids (sm_db (ts_mgr s))) \<and> (\<forall>i \<in> known_ids (sm_db (ts_mgr s)). length i < k)"
proof (induction k)
  case 0
  have "reach (task_init n) task_step (task_start n demo_db)" by (rule reach_init) (auto simp: task_init_def)
  then show ?case
    by (intro exI [of _ "task_start n demo_db"]) (simp add: task_start_def new_manager_def demo_db_def known_ids_def)
next
  case (Suc k)
  then obtain s where s: "reach (task_init n) task_step s" "ts_calls s = []" "ts_monitors s = []"
    "''s'' \<in> set (session_ids (sm_db (ts_mgr s)))" and k: "length (ts_orphans s) = k"
    and ids: "\<forall>i \<in> known_ids (sm_db (ts_mgr s)). length i < k" by auto
  have "replicate k CHR ''a'' \<notin> known_ids (sm_db (ts_mgr s))" using ids by force
  from orphan_call [OF s(1-3) this s(4)] obtain t where "reach (task_init n) task_step t" "ts_calls t = []"
    "ts_monitors t = []" "ts_orphans t = replicate k CHR ''a'' # ts_orphans s"
    "''s'' \<in> set (session_ids (sm_db (ts_mgr t)))"
    "known_ids (sm_db (ts_mgr t)) = insert (replicate k CHR ''a'') (known_ids (sm_db (ts_mgr s)))" .
  then show ?case using k ids by (intro exI [of _ t]) (auto simp: less_Suc_eq)
qed

text \<open>
  C33. The limit does not hold for the subprocesses themselves. A call whose status update fails
  returns the error and gives back its permit, but the subprocess it has started is not killed and
  no task waits for it: for every limit and every number there is a run in which that many
  subprocesses are alive while every permit is free.
\<close>

theorem orphans_escape_limit:
  "\<exists>s. reach (task_init n) task_step s \<and> length (subprocesses s) = k
     \<and> available_permits (sm_pool (ts_mgr s)) = (if n = 0 then 5 else n)"
proof -
  obtain s where s: "reach (task_init n) task_step s" "ts_calls s = []" "ts_monitors s = []"
    "length (ts_orphans s) = k" using orphans_accumulate [of n k] by auto
  then have "task_inv n s" by (intro task_run.reach_inv)
  with s show ?thesis
    by (intro exI [of _ s])
       (simp add: subprocesses_def supervised_def task_inv_def permits_of_def available_permits_def limit_of_pool)
qed

text \<open>A pool of one permit: the subprocess of the first call takes it before the call has returned.\<close>

definition one_mgr :: subagent_manager where
  "one_mgr = projr (spawn_admit (demo_cfg ''a'') (new_manager (new_pool 1) demo_db))"

definition one_call :: "spawn_pc \<Rightarrow> subagent_manager \<Rightarrow> task_state" where
  "one_call pc m = (task_start 1 demo_db)\<lparr>ts_mgr := m, ts_calls := [(demo_cfg ''a'', pc)]\<rparr>"

definition recorded_mgr :: subagent_manager where
  "recorded_mgr = fst (spawn_next demo_env 0 (demo_cfg ''a'') Admitted one_mgr)"

lemma one_call_admitted: "reach (task_init 1) task_step (one_call Admitted one_mgr)"
proof -
  have "reach (task_init 1) task_step (task_start 1 demo_db)" by (rule reach_init) (auto simp: task_init_def)
  moreover have "spawn_admit (demo_cfg ''a'') (ts_mgr (task_start 1 demo_db)) = Inr one_mgr" by code_simp
  then have "task_step (task_start 1 demo_db) ((task_start 1 demo_db)\<lparr>ts_mgr := one_mgr,
      ts_calls := (demo_cfg ''a'', Admitted) # ts_calls (task_start 1 demo_db)\<rparr>)" by (rule call_begin)
  ultimately show ?thesis by (auto simp: one_call_def task_start_def intro: reach_step)
qed

lemma one_call_started: "reach (task_init 1) task_step (one_call (Started (Some 42)) recorded_mgr)"
proof -
  have calls: "ts_calls (one_call pc m) = [(demo_cfg ''a'', pc)]" "ts_mgr (one_call pc m) = m" for pc m
    by (simp_all add: one_call_def)
  have "spawn_next demo_env 0 (demo_cfg ''a'') Admitted one_mgr = (recorded_mgr, At Recorded)" by code_simp
  from call_alone [OF one_call_admitted, unfolded calls, OF refl this]
  have r: "reach (task_init 1) task_step (one_call Recorded recorded_mgr)" by (simp add: one_call_def)
  have "spawn_next demo_env 0 (demo_cfg ''a'') Recorded recorded_mgr = (recorded_mgr, At (Started (Some 42)))"
    by (simp add: demo_env_def)
  from call_alone [OF r, unfolded calls, OF refl this] show ?thesis by (simp add: one_call_def)
qed

theorem supervised_subprocesses_bounded_witness:
  "supervised (one_call (Started (Some 42)) recorded_mgr) = [''a'']
   \<and> available_permits (sm_pool (ts_mgr (one_call (Started (Some 42)) recorded_mgr))) = 0"
proof -
  have "supervised (one_call (Started (Some 42)) recorded_mgr) = [''a'']"
    by (simp add: supervised_def one_call_def task_start_def has_child_def demo_cfg_def)
  with supervised_subprocesses_bounded [OF one_call_started] show ?thesis by simp
qed

end
