(* ===== verification/Ndjson.thy ===== *)
theory Ndjson
  imports Json
begin

text \<open>
  The NDJSON protocol of the subprocess, \<^verbatim>\<open>crates/betcode-core/src/ndjson/\<close>: the message types of
  \<^verbatim>\<open>types.rs\<close> and the tolerant parser of \<^verbatim>\<open>parser.rs\<close>. What \<^verbatim>\<open>serde_json\<close> does (reading a line,
  the derived deserialisers of the tool list and the usage record, the conversion of a number
  to a double) is the argument \<open>serde\<close>. The theory proves which values are rejected and which
  message each accepted value becomes.
\<close>

section \<open>Messages\<close>

record tool_schema =
  ts_name :: string
  ts_description :: "string option"
  ts_input_schema :: "json option"

record system_init =
  si_session_id :: string
  si_model :: string
  si_cwd :: string
  si_tools :: "tool_schema list"
  si_api_version :: "string option"

datatype content_block = TextBlock string | ToolUseBlock string string json

datatype stop_reason = EndTurn | StopToolUse | MaxTokens | StopUnknown string

record usage =
  us_input_tokens :: "32 word"
  us_output_tokens :: "32 word"
  us_cache_read_input_tokens :: "32 word"
  us_cache_creation_input_tokens :: "32 word"

definition default_usage :: usage where
  "default_usage = \<lparr> us_input_tokens = 0, us_output_tokens = 0, us_cache_read_input_tokens = 0,
     us_cache_creation_input_tokens = 0 \<rparr>"

record assistant_message =
  am_content :: "content_block list"
  am_stop_reason :: stop_reason
  am_usage :: usage

record tool_result =
  tr_tool_use_id :: string
  tr_content :: string
  tr_is_error :: bool

datatype delta = TextPart string | InputJson string | DeltaUnknown json

datatype stream_event_type =
    ContentBlockStart "32 word" string
  | ContentBlockDelta "32 word" delta
  | ContentBlockStop "32 word"
  | MessageStart
  | MessageDelta "string option"
  | MessageStop
  | StreamUnknown json

datatype control_request_type = CanUseTool string json | RequestUnknown json

record control_request =
  cr_request_id :: string
  cr_request :: control_request_type

datatype result_subtype = Success | ErrorSubtype | SubtypeUnknown string

record session_result =
  sr_subtype :: result_subtype
  sr_session_id :: string
  sr_duration_ms :: "64 word"
  sr_cost_usd :: "f64 option"
  sr_usage :: usage
  sr_is_error :: bool
  sr_errors :: "string list"

datatype message =
    SystemInit system_init
  | Assistant assistant_message
  | User "tool_result list"
  | StreamEvent stream_event_type
  | ControlRequest control_request
  | Result session_result
  | MessageUnknown string json

datatype core_error = NdjsonParse string | JsonError string

section \<open>The parser\<close>

record serde =
  from_str :: "string \<Rightarrow> string + json"
  tools_from_value :: "json \<Rightarrow> tool_schema list option"
  usage_from_value :: "json \<Rightarrow> usage option"
  as_f64 :: "json_number \<Rightarrow> f64"

text \<open>\<^verbatim>\<open>v.get(key).and_then(|v| v.as_str()).unwrap_or("")\<close>\<close>

definition str_or_empty :: "json \<Rightarrow> string \<Rightarrow> string" where
  "str_or_empty v k = unwrap_or [] (get_str v k)"

definition get_bool :: "json \<Rightarrow> string \<Rightarrow> bool" where
  "get_bool v k = unwrap_or False (Option.bind (jget v k) as_bool)"

definition get_array :: "json \<Rightarrow> string \<Rightarrow> json list" where
  "get_array v k = unwrap_or [] (Option.bind (jget v k) as_array)"

definition get_or :: "json \<Rightarrow> json \<Rightarrow> string \<Rightarrow> json" where
  "get_or d v k = unwrap_or d (jget v k)"

definition parse_system :: "serde \<Rightarrow> json \<Rightarrow> message" where
  "parse_system sd raw = SystemInit \<lparr> si_session_id = str_or_empty raw ''session_id'',
     si_model = str_or_empty raw ''model'', si_cwd = str_or_empty raw ''cwd'',
     si_tools = unwrap_or [] (Option.bind (jget raw ''tools'') (tools_from_value sd)),
     si_api_version = get_str raw ''api_version'' \<rparr>"

text \<open>\<^verbatim>\<open>as u32\<close> keeps the low 32 bits.\<close>

definition event_index :: "json \<Rightarrow> 32 word" where
  "event_index event = ucast (unwrap_or 0 (Option.bind (jget event ''index'') as_u64))"

definition parse_content_block :: "json \<Rightarrow> content_block option" where
  "parse_content_block block = Option.bind (get_str block ''type'') (\<lambda>ty.
     if ty = ''text'' then map_option TextBlock (get_str block ''text'')
     else if ty = ''tool_use'' then
       Option.bind (get_str block ''id'') (\<lambda>i.
       Option.bind (get_str block ''name'') (\<lambda>n.
         Some (ToolUseBlock i n (get_or JNull block ''input''))))
     else None)"

definition parse_content_blocks :: "json option \<Rightarrow> content_block list" where
  "parse_content_blocks content =
     (case Option.bind content as_array of None \<Rightarrow> [] | Some arr \<Rightarrow> List.map_filter parse_content_block arr)"

definition parse_stop_reason :: "json option \<Rightarrow> stop_reason" where
  "parse_stop_reason v = (case Option.bind v as_str of
       None \<Rightarrow> EndTurn
     | Some s \<Rightarrow> if s = ''end_turn'' then EndTurn
               else if s = ''tool_use'' then StopToolUse
               else if s = ''max_tokens'' then MaxTokens
               else StopUnknown s)"

definition parse_usage :: "serde \<Rightarrow> json option \<Rightarrow> usage" where
  "parse_usage sd v = unwrap_or default_usage (Option.bind v (usage_from_value sd))"

definition parse_assistant :: "serde \<Rightarrow> json \<Rightarrow> message" where
  "parse_assistant sd raw = (let msg = get_or raw raw ''message'' in
     Assistant \<lparr> am_content = parse_content_blocks (jget msg ''content''),
       am_stop_reason = parse_stop_reason (jget msg ''stop_reason''),
       am_usage = parse_usage sd (jget msg ''usage'') \<rparr>)"

definition parse_tool_result :: "json \<Rightarrow> tool_result option" where
  "parse_tool_result block = Option.bind (get_str block ''type'') (\<lambda>ty.
     if ty \<noteq> ''tool_result'' then None
     else Option.bind (get_str block ''tool_use_id'') (\<lambda>i.
       Some \<lparr> tr_tool_use_id = i, tr_content = str_or_empty block ''content'',
         tr_is_error = get_bool block ''is_error'' \<rparr>))"

definition parse_user :: "json \<Rightarrow> message" where
  "parse_user raw = (let msg = get_or raw raw ''message'' in
     User (List.map_filter parse_tool_result (get_array msg ''content'')))"

definition parse_delta :: "json \<Rightarrow> delta" where
  "parse_delta d = (let ty = str_or_empty d ''type'' in
     if ty = ''text_delta'' then TextPart (str_or_empty d ''text'')
     else if ty = ''input_json_delta'' then InputJson (str_or_empty d ''partial_json'')
     else DeltaUnknown d)"

definition parse_stream_event :: "json \<Rightarrow> message" where
  "parse_stream_event raw = (let event = get_or raw raw ''event''; ty = str_or_empty event ''type'' in
     StreamEvent
       (if ty = ''content_block_start'' then
          ContentBlockStart (event_index event)
            (unwrap_or [] (Option.bind (jget event ''content_block'') (\<lambda>b. get_str b ''type'')))
        else if ty = ''content_block_delta'' then
          ContentBlockDelta (event_index event) (parse_delta (get_or JNull event ''delta''))
        else if ty = ''content_block_stop'' then ContentBlockStop (event_index event)
        else if ty = ''message_start'' then MessageStart
        else if ty = ''message_delta'' then
          MessageDelta (Option.bind (jget event ''delta'') (\<lambda>d. get_str d ''stop_reason''))
        else if ty = ''message_stop'' then MessageStop
        else StreamUnknown event))"

definition parse_control_request :: "json \<Rightarrow> core_error + message" where
  "parse_control_request raw =
     (case get_str raw ''request_id'' of
        None \<Rightarrow> Inl (NdjsonParse ''Missing request_id'')
      | Some rid \<Rightarrow>
          (let request = get_or JNull raw ''request'' in
           Inr (ControlRequest \<lparr> cr_request_id = rid,
             cr_request =
               (if str_or_empty request ''subtype'' = ''can_use_tool''
                then CanUseTool (str_or_empty request ''tool_name'') (get_or JNull request ''input'')
                else RequestUnknown request) \<rparr>)))"

definition parse_subtype :: "string option \<Rightarrow> result_subtype" where
  "parse_subtype v = (case v of
       None \<Rightarrow> Success
     | Some s \<Rightarrow> if s = ''success'' then Success else if s = ''error'' then ErrorSubtype
               else SubtypeUnknown s)"

definition parse_result :: "serde \<Rightarrow> json \<Rightarrow> message" where
  "parse_result sd raw = Result \<lparr> sr_subtype = parse_subtype (get_str raw ''subtype''),
     sr_session_id = str_or_empty raw ''session_id'',
     sr_duration_ms = unwrap_or 0 (Option.bind (jget raw ''duration_ms'') as_u64),
     sr_cost_usd = Option.bind (jget raw ''total_cost_usd'')
       (\<lambda>v. case v of JNumber n \<Rightarrow> Some (as_f64 sd n) | _ \<Rightarrow> None),
     sr_usage = parse_usage sd (jget raw ''usage''),
     sr_is_error = get_bool raw ''is_error'',
     sr_errors = List.map_filter as_str (get_array raw ''errors'') \<rparr>"

definition parse_value :: "serde \<Rightarrow> json \<Rightarrow> core_error + message" where
  "parse_value sd raw =
     (case get_str raw ''type'' of
        None \<Rightarrow> Inl (NdjsonParse (''Missing '' @ quote ''type'' @ '' field''))
      | Some ty \<Rightarrow>
          if ty = ''system'' then Inr (parse_system sd raw)
          else if ty = ''assistant'' then Inr (parse_assistant sd raw)
          else if ty = ''user'' then Inr (parse_user raw)
          else if ty = ''stream_event'' then Inr (parse_stream_event raw)
          else if ty = ''control_request'' then parse_control_request raw
          else if ty = ''result'' then Inr (parse_result sd raw)
          else Inr (MessageUnknown ty raw))"

definition parse_line :: "serde \<Rightarrow> string \<Rightarrow> core_error + message" where
  "parse_line sd line = (case from_str sd line of Inl e \<Rightarrow> Inl (JsonError e) | Inr raw \<Rightarrow> parse_value sd raw)"

section \<open>What is accepted\<close>

fun message_type :: "message \<Rightarrow> string option" where
  "message_type (SystemInit _) = Some ''system''"
| "message_type (Assistant _) = Some ''assistant''"
| "message_type (User _) = Some ''user''"
| "message_type (StreamEvent _) = Some ''stream_event''"
| "message_type (ControlRequest _) = Some ''control_request''"
| "message_type (Result _) = Some ''result''"
| "message_type (MessageUnknown ty _) = Some ty"

lemma message_type_parsers:
  "message_type (parse_system sd raw) = Some ''system''"
  "message_type (parse_assistant sd raw) = Some ''assistant''"
  "message_type (parse_user raw) = Some ''user''"
  "message_type (parse_stream_event raw) = Some ''stream_event''"
  "message_type (parse_result sd raw) = Some ''result''"
  by (simp_all add: parse_system_def parse_assistant_def parse_user_def parse_stream_event_def
        parse_result_def Let_def)

lemma parse_control_request_cases:
  "(\<exists>e. parse_control_request raw = Inl e) \<longleftrightarrow> get_str raw ''request_id'' = None"
  "parse_control_request raw = Inr m \<Longrightarrow>
     (\<exists>r. m = ControlRequest r \<and> get_str raw ''request_id'' = Some (cr_request_id r))"
  by (auto simp: parse_control_request_def Let_def split: option.splits)

text \<open>
  The tolerant reader rejects a line exactly when it is not JSON, when the value has no
  string member \<^verbatim>\<open>type\<close>, or when a \<^verbatim>\<open>control_request\<close> has no string member \<^verbatim>\<open>request_id\<close>. An
  accepted line becomes the message of its type, and a permission request keeps the id it
  has to be answered under, whatever other members the value has or lacks.
\<close>

theorem parse_line_accepts:
  "((\<exists>e. parse_line sd line = Inl e) \<longleftrightarrow>
      (case from_str sd line of Inl _ \<Rightarrow> True | Inr raw \<Rightarrow>
         get_str raw ''type'' = None
         \<or> (get_str raw ''type'' = Some ''control_request'' \<and> get_str raw ''request_id'' = None)))
   \<and> (\<forall>raw m. from_str sd line = Inr raw \<and> parse_line sd line = Inr m \<longrightarrow>
        message_type m = get_str raw ''type''
        \<and> (\<forall>r. m = ControlRequest r \<longrightarrow> get_str raw ''request_id'' = Some (cr_request_id r)))"
proof (cases "from_str sd line")
  case (Inl e)
  then show ?thesis by (simp add: parse_line_def)
next
  case (Inr raw)
  have "((\<exists>e. parse_value sd raw = Inl e) \<longleftrightarrow> get_str raw ''type'' = None
      \<or> (get_str raw ''type'' = Some ''control_request'' \<and> get_str raw ''request_id'' = None))
    \<and> (\<forall>m. parse_value sd raw = Inr m \<longrightarrow> message_type m = get_str raw ''type''
        \<and> (\<forall>r. m = ControlRequest r \<longrightarrow> get_str raw ''request_id'' = Some (cr_request_id r)))"
  proof (cases "get_str raw ''type''")
    case None
    then show ?thesis by (simp add: parse_value_def)
  next
    case (Some ty)
    show ?thesis
    proof (cases "ty = ''control_request''")
      case True
      then have v: "parse_value sd raw = parse_control_request raw" by (simp add: parse_value_def Some)
      show ?thesis unfolding v
        using parse_control_request_cases [of raw] by (auto simp: Some True)
    next
      case False
      define m where "m = (if ty = ''system'' then parse_system sd raw
        else if ty = ''assistant'' then parse_assistant sd raw else if ty = ''user'' then parse_user raw
        else if ty = ''stream_event'' then parse_stream_event raw
        else if ty = ''result'' then parse_result sd raw else MessageUnknown ty raw)"
      have "message_type m = Some ty" by (simp add: m_def message_type_parsers)
      moreover have "parse_value sd raw = Inr m" using False by (simp add: parse_value_def Some m_def)
      ultimately show ?thesis using Some False by auto
    qed
  qed
  with Inr show ?thesis by (simp add: parse_line_def)
qed

text \<open>A reader that knows one line.\<close>

definition demo_serde :: serde where
  "demo_serde = \<lparr> from_str = (\<lambda>l. if l = ''x'' then Inr (JObject [(''request'', JObject [(''input'',
       JObject [(''command'', JString ''ls'')]), (''subtype'', JString ''can_use_tool''),
       (''tool_name'', JString ''Bash'')]), (''request_id'', JString ''r1''),
       (''type'', JString ''control_request'')]) else Inl ''expected value''),
     tools_from_value = (\<lambda>_. Some []), usage_from_value = (\<lambda>_. None), as_f64 = (\<lambda>_. 0) \<rparr>"

theorem parse_line_accepts_witness:
  "\<exists>m. parse_line demo_serde ''x'' = Inr m \<and> message_type m = Some ''control_request''"
proof -
  obtain raw where raw: "from_str demo_serde ''x'' = Inr raw" "get_str raw ''type'' = Some ''control_request''"
      "get_str raw ''request_id'' = Some ''r1''"
    by (simp add: demo_serde_def get_str_def)
  then obtain m where "parse_line demo_serde ''x'' = Inr m"
    using parse_line_accepts [of demo_serde "''x''"] by (cases "parse_line demo_serde ''x''") auto
  with parse_line_accepts [of demo_serde "''x''"] raw show ?thesis by auto
qed

end
