(* ===== verification/Commands.thy ===== *)
theory Commands
  imports Ndjson
begin

text \<open>
  Commands: the entries of \<^verbatim>\<open>crates/betcode-core/src/commands/\<close> (\<^verbatim>\<open>mod.rs\<close>, \<^verbatim>\<open>builtin.rs\<close>, \<^verbatim>\<open>mcp.rs\<close>,
  \<^verbatim>\<open>matcher.rs\<close>) and the layered registry of \<^verbatim>\<open>crates/betcode-daemon/src/commands/mod.rs\<close>. Lower
  casing of Unicode text and the score of the fuzzy matcher are arguments. The theory proves
  what the layers of a session contain after every sequence of registry operations.
\<close>

section \<open>Entries\<close>

datatype command_category = Service | ClaudeCode | PluginCategory | Skill | Mcp

datatype execution_mode = Local | Passthrough | PluginMode

record command_entry =
  ce_name :: string
  ce_description :: string
  ce_category :: command_category
  ce_execution_mode :: execution_mode
  ce_source :: string
  ce_args_schema :: "string option"
  ce_group :: "string option"
  ce_display_name :: "string option"

definition new_entry :: "string \<Rightarrow> string \<Rightarrow> command_category \<Rightarrow> execution_mode \<Rightarrow> string \<Rightarrow> command_entry" where
  "new_entry name description category mode source =
     \<lparr> ce_name = name, ce_description = description, ce_category = category,
       ce_execution_mode = mode, ce_source = source, ce_args_schema = None, ce_group = None,
       ce_display_name = None \<rparr>"

definition with_group :: "string \<Rightarrow> command_entry \<Rightarrow> command_entry" where
  "with_group g e = e\<lparr>ce_group := Some g\<rparr>"

definition with_display_name :: "string \<Rightarrow> command_entry \<Rightarrow> command_entry" where
  "with_display_name d e = e\<lparr>ce_display_name := Some d\<rparr>"

definition builtin_commands :: "command_entry list" where
  "builtin_commands = map (\<lambda>(n, d). new_entry n d Service Local ''built-in'')
     [(''cd'', ''Change working directory''), (''pwd'', ''Print working directory''),
      (''exit'', ''Exit the betcode session''), (''exit-daemon'', ''Stop the betcode daemon''),
      (''reload-remote'', ''Reload commands, agents, and file index'')]"

text \<open>Tools named \<^verbatim>\<open>mcp__server__tool\<close> become commands named \<^verbatim>\<open>server:tool\<close>.\<close>

definition mcp_tool_to_entry :: "tool_schema \<Rightarrow> command_entry option" where
  "mcp_tool_to_entry tool =
     Option.bind (strip_prefix (ts_name tool) ''mcp__'') (\<lambda>rest.
     Option.bind (split_once rest ''__'') (\<lambda>(server, tool_name).
       if server = [] \<or> tool_name = [] then None
       else
         let display_name = server @ '':'' @ tool_name;
             description = unwrap_or (''MCP tool: '' @ tool_name) (ts_description tool)
         in Some (with_display_name display_name (with_group server
              (new_entry display_name description Mcp Passthrough ''mcp'')))))"

definition mcp_tools_to_entries :: "tool_schema list \<Rightarrow> command_entry list" where
  "mcp_tools_to_entries tools = List.map_filter mcp_tool_to_entry tools"

section \<open>Fuzzy matching\<close>

record match_result =
  mr_text :: string
  mr_score :: "32 word"
  mr_positions :: "nat list"

text \<open>\<open>indices\<close> is the matcher: the score and the positions of a match, or no match.\<close>

definition fuzzy_match ::
  "(string \<Rightarrow> string \<Rightarrow> (16 word \<times> 32 word list) option) \<Rightarrow> string \<Rightarrow> string list \<Rightarrow> nat \<Rightarrow> match_result list"
  where
  "fuzzy_match indices query items max_results =
     take max_results (rev (sort_key mr_score (rev (List.map_filter (\<lambda>item.
       map_option (\<lambda>(score, idx). \<lparr> mr_text = item, mr_score = ucast score,
         mr_positions = map unat idx \<rparr>) (indices query item)) items))))"

section \<open>The registry\<close>

record command_registry =
  base_entries :: "command_entry list"
  session_layers :: "(string, command_entry list) hmap"

definition new_registry :: command_registry where
  "new_registry = \<lparr> base_entries = builtin_commands, session_layers = [] \<rparr>"

definition add_entry :: "command_entry \<Rightarrow> command_registry \<Rightarrow> command_registry" where
  "add_entry e r = r\<lparr>base_entries := base_entries r @ [e]\<rparr>"

definition get_for_session :: "string \<Rightarrow> command_registry \<Rightarrow> command_entry list" where
  "get_for_session sid r = base_entries r @ unwrap_or [] (hm_get (session_layers r) sid)"

definition get_all :: "command_registry \<Rightarrow> command_entry list" where
  "get_all r = base_entries r"

definition search_for_session ::
  "(string \<Rightarrow> string) \<Rightarrow> string \<Rightarrow> string \<Rightarrow> nat \<Rightarrow> command_registry \<Rightarrow> command_entry list" where
  "search_for_session to_lowercase sid query max_results r =
     take max_results (filter (\<lambda>e. str_contains (to_lowercase (ce_name e)) (to_lowercase query))
       (base_entries r @ unwrap_or [] (hm_get (session_layers r) sid)))"

definition search_base :: "(string \<Rightarrow> string) \<Rightarrow> string \<Rightarrow> nat \<Rightarrow> command_registry \<Rightarrow> command_entry list" where
  "search_base to_lowercase query max_results r =
     take max_results (filter (\<lambda>e. str_contains (to_lowercase (ce_name e)) (to_lowercase query))
       (base_entries r))"

definition clear_source :: "string \<Rightarrow> command_registry \<Rightarrow> command_registry" where
  "clear_source source r = r\<lparr>base_entries := filter (\<lambda>e. ce_source e \<noteq> source) (base_entries r)\<rparr>"

definition set_session_entries :: "string \<Rightarrow> command_entry list \<Rightarrow> command_registry \<Rightarrow> command_registry" where
  "set_session_entries sid es r = r\<lparr>session_layers := hm_insert sid es (session_layers r)\<rparr>"

definition update_session_plugin_entries ::
  "string \<Rightarrow> command_entry list \<Rightarrow> command_registry \<Rightarrow> command_registry" where
  "update_session_plugin_entries sid plugin_entries r =
     (let combined = unwrap_or [] (map_option (filter (\<lambda>e. ce_category e = Mcp))
                       (hm_get (session_layers r) sid))
      in r\<lparr>session_layers := hm_insert sid (combined @ plugin_entries) (session_layers r)\<rparr>)"

definition remove_session :: "string \<Rightarrow> command_registry \<Rightarrow> command_registry" where
  "remove_session sid r = r\<lparr>session_layers := hm_remove sid (session_layers r)\<rparr>"

section \<open>Properties\<close>

text \<open>
  Operations on the registry, and what a session's own layer holds after a sequence of them:
  the entries of the last \<^verbatim>\<open>system_init\<close>, of which a reload replaces all but the MCP entries.
\<close>

datatype registry_op =
    OpAdd command_entry | OpClear string | OpSet string "command_entry list"
  | OpReload string "command_entry list" | OpRemove string

fun apply_op :: "registry_op \<Rightarrow> command_registry \<Rightarrow> command_registry" where
  "apply_op (OpAdd e) = add_entry e"
| "apply_op (OpClear s) = clear_source s"
| "apply_op (OpSet sid es) = set_session_entries sid es"
| "apply_op (OpReload sid es) = update_session_plugin_entries sid es"
| "apply_op (OpRemove sid) = remove_session sid"

fun layer_after :: "string \<Rightarrow> registry_op list \<Rightarrow> command_entry list" where
  "layer_after sid [] = []"
| "layer_after sid (OpSet sid' es # older) = (if sid' = sid then es else layer_after sid older)"
| "layer_after sid (OpReload sid' es # older) =
     (if sid' = sid then filter (\<lambda>e. ce_category e = Mcp) (layer_after sid older) @ es
      else layer_after sid older)"
| "layer_after sid (OpRemove sid' # older) = (if sid' = sid then [] else layer_after sid older)"
| "layer_after sid (op # older) = layer_after sid older"

fun base_after :: "registry_op list \<Rightarrow> command_entry list" where
  "base_after [] = builtin_commands"
| "base_after (OpAdd e # older) = base_after older @ [e]"
| "base_after (OpClear s # older) = filter (\<lambda>e. ce_source e \<noteq> s) (base_after older)"
| "base_after (op # older) = base_after older"

lemmas registry_op_defs = add_entry_def clear_source_def set_session_entries_def
  update_session_plugin_entries_def remove_session_def

lemma registry_run:
  "base_entries (foldr apply_op ops new_registry) = base_after ops \<and>
   unwrap_or [] (hm_get (session_layers (foldr apply_op ops new_registry)) sid) = layer_after sid ops"
proof (induction ops)
  case (Cons op ops)
  then show ?case
    by (cases op) (auto simp: registry_op_defs Let_def unwrap_or_def split: option.splits)
qed (simp add: new_registry_def)

text \<open>
  After any sequence of registry operations (most recent first), the commands visible to
  a session are the base layer followed by the session's own layer: base commands are added
  and cleared for all sessions, a \<^verbatim>\<open>system_init\<close> replaces the layer, a reload keeps its MCP
  entries and replaces the others, and no operation on another session shows.
\<close>

theorem registry_visible:
  "get_for_session sid (foldr apply_op ops new_registry) = base_after ops @ layer_after sid ops"
  using registry_run [of ops sid] by (simp add: get_for_session_def)

text \<open>An MCP command is named after the server and the tool of its schema.\<close>

lemma mcp_entry_iff:
  "mcp_tool_to_entry t = Some e \<Longrightarrow>
     \<exists>server tool. ts_name t = ''mcp__'' @ server @ ''__'' @ tool \<and> server \<noteq> [] \<and> tool \<noteq> []
       \<and> ce_name e = server @ '':'' @ tool \<and> ce_group e = Some server \<and> ce_category e = Mcp"
  by (auto simp: mcp_tool_to_entry_def Let_def with_display_name_def with_group_def new_entry_def
           bind_eq_Some_conv dest!: split_once_Some split: if_splits prod.splits)

end
