(* ===== verification/EventBridge.thy ===== *)
theory EventBridge
  imports Commands
begin

text \<open>
  The event bridge, \<^verbatim>\<open>crates/betcode-daemon/src/subprocess/bridge.rs\<close>: it turns the messages of the
  subprocess into numbered events for the clients and keeps the inputs of open permission
  requests and questions. The generated protocol types are modelled by the fields the bridge
  sets. The clock (read once per event), the conversion of numbers to doubles and the debug
  format of strings are arguments. The theory proves that the events are numbered without gaps,
  that each request's input is handed out unchanged and once, and that descriptions are
  bounded.
\<close>

section \<open>Events\<close>

datatype prost_value =
    NullValue
  | BoolValue bool
  | NumberValue f64
  | StringValue string
  | ListValue "prost_value list"
  | StructValue "(string \<times> prost_value) list"

record session_info =
  in_session_id :: string
  in_model :: string
  in_working_directory :: string
  in_worktree_id :: string
  in_message_count :: "32 word"
  in_is_resumed :: bool
  in_is_compacted :: bool
  in_context_usage_percent :: "32 word"

record question_option =
  qo_value :: string
  qo_label :: string
  qo_description :: string

record usage_report =
  ur_input_tokens :: "32 word"
  ur_output_tokens :: "32 word"
  ur_cache_read_tokens :: "32 word"
  ur_cache_creation_tokens :: "32 word"
  ur_model :: string
  ur_cost_usd :: f64
  ur_duration_ms :: "32 word"

datatype agent_status = Thinking | AgentIdle

datatype event =
    SessionInfoEv session_info
  | ToolCallStart string string "(string \<times> prost_value) list" string
  | ToolCallResult string string bool "32 word"
  | TurnComplete string
  | TextDelta string bool
  | StatusChange agent_status string
  | PermissionRequest string string string "(string \<times> prost_value) list"
  | UserQuestion string string "question_option list" bool
  | ErrorEv string string bool "(string \<times> string) list"
  | Usage usage_report
  | UserInput string
  | TodoUpdate string
  | PlanMode string
  | Encrypted "8 word list" "8 word list"

type_synonym timestamp = "int \<times> int"

record agent_event =
  ev_sequence :: "64 word"
  ev_timestamp :: "timestamp option"
  ev_parent_tool_use_id :: string
  ev_event :: "event option"

section \<open>Descriptions\<close>

text \<open>
  A byte of UTF-8 text starts a character unless it is a continuation byte. The cut is the last
  start at or below the limit.
\<close>

definition char_start :: "char \<Rightarrow> bool" where
  "char_start c \<longleftrightarrow> (of_char c :: nat) div 64 \<noteq> 2"

definition cut_point :: "string \<Rightarrow> nat \<Rightarrow> nat" where
  "cut_point s mx = (case rev (filter (\<lambda>i. char_start (s ! i)) [0..<min (Suc mx) (length s)]) of
     [] \<Rightarrow> 0 | i # _ \<Rightarrow> i)"

definition truncate_str :: "string \<Rightarrow> nat \<Rightarrow> string" where
  "truncate_str s mx = (if length s \<le> mx then s else take (cut_point s mx) s @ ''...'')"

fun first_str :: "json list \<Rightarrow> string option" where
  "first_str [] = None"
| "first_str (v # vs) = (case as_str v of Some s \<Rightarrow> Some s | None \<Rightarrow> first_str vs)"

definition tool_description :: "string \<Rightarrow> json \<Rightarrow> string" where
  "tool_description name input =
     (case as_object input of
        None \<Rightarrow> []
      | Some obj \<Rightarrow>
          if name = ''Bash'' then
            unwrap_or [] (map_option (\<lambda>c. truncate_str c 120) (get_str input ''command''))
          else if name \<in> {''Read'', ''Write'', ''Edit''} then str_or_empty input ''file_path''
          else if name = ''Grep'' then
            truncate_str (str_or_empty input ''pattern'') 60 @ '' in ''
              @ unwrap_or ''.'' (get_str input ''path'')
          else if name = ''Glob'' then str_or_empty input ''pattern''
          else if name \<in> {''WebFetch'', ''WebSearch''} then
            unwrap_or [] (map_option (\<lambda>s. truncate_str s 120)
              (Option.bind (case jget input ''url'' of Some v \<Rightarrow> Some v | None \<Rightarrow> jget input ''query'') as_str))
          else if name = ''ToolSearch'' then str_or_empty input ''query''
          else unwrap_or [] (map_option (\<lambda>s. truncate_str s 80) (first_str (map snd obj))))"

fun json_value_to_prost :: "(json_number \<Rightarrow> f64) \<Rightarrow> json \<Rightarrow> prost_value" where
  "json_value_to_prost f JNull = NullValue"
| "json_value_to_prost f (JBool b) = BoolValue b"
| "json_value_to_prost f (JNumber n) = NumberValue (f n)"
| "json_value_to_prost f (JString s) = StringValue s"
| "json_value_to_prost f (JArray xs) = ListValue (map (json_value_to_prost f) xs)"
| "json_value_to_prost f (JObject m) = StructValue (map (\<lambda>(k, v). (k, json_value_to_prost f v)) m)"

definition json_to_struct :: "(json_number \<Rightarrow> f64) \<Rightarrow> json \<Rightarrow> (string \<times> prost_value) list" where
  "json_to_struct f v = (case v of JObject m \<Rightarrow> map (\<lambda>(k, v). (k, json_value_to_prost f v)) m | _ \<Rightarrow> [])"

section \<open>The bridge\<close>

record event_bridge =
  sequence :: "64 word"
  pending_tools :: "(string, string) hmap"
  eb_session_info :: "session_info option"
  pending_question_inputs :: "(string, json) hmap"
  pending_permission_inputs :: "(string, json) hmap"
  mcp_entries :: "command_entry list"

definition with_start_sequence :: "64 word \<Rightarrow> event_bridge" where
  "with_start_sequence s = \<lparr> sequence = s, pending_tools = [], eb_session_info = None,
     pending_question_inputs = [], pending_permission_inputs = [], mcp_entries = [] \<rparr>"

text \<open>\<open>be_clock n\<close> is the time at which event \<open>n\<close> is made.\<close>

record bridge_env =
  be_clock :: "64 word \<Rightarrow> timestamp"
  be_as_f64 :: "json_number \<Rightarrow> f64"
  be_debug_str :: "string \<Rightarrow> string"

definition next_event :: "bridge_env \<Rightarrow> event \<Rightarrow> event_bridge \<Rightarrow> event_bridge \<times> agent_event" where
  "next_event env e b = (let n = sequence b + 1 in
     (b\<lparr>sequence := n\<rparr>, \<lparr> ev_sequence = n, ev_timestamp = Some (be_clock env n),
        ev_parent_tool_use_id = [], ev_event = Some e \<rparr>))"

text \<open>Several events, one after the other.\<close>

fun next_events :: "bridge_env \<Rightarrow> event list \<Rightarrow> event_bridge \<Rightarrow> event_bridge \<times> agent_event list" where
  "next_events env [] b = (b, [])"
| "next_events env (e # es) b =
     (let (b1, ev) = next_event env e b; (b2, evs) = next_events env es b1 in (b2, ev # evs))"

definition handle_system_init ::
  "bridge_env \<Rightarrow> system_init \<Rightarrow> event_bridge \<Rightarrow> event_bridge \<times> agent_event list" where
  "handle_system_init env init b =
     (let info = \<lparr> in_session_id = si_session_id init, in_model = si_model init,
            in_working_directory = si_cwd init, in_worktree_id = [], in_message_count = 0,
            in_is_resumed = False, in_is_compacted = False, in_context_usage_percent = 0 \<rparr>
      in next_events env [SessionInfoEv info]
           (b\<lparr>eb_session_info := Some info, mcp_entries := mcp_tools_to_entries (si_tools init)\<rparr>))"

fun assistant_blocks ::
  "bridge_env \<Rightarrow> content_block list \<Rightarrow> event_bridge \<Rightarrow> event_bridge \<times> agent_event list" where
  "assistant_blocks env [] b = (b, [])"
| "assistant_blocks env (TextBlock t # bs) b = assistant_blocks env bs b"
| "assistant_blocks env (ToolUseBlock i name input # bs) b =
     (let (b1, ev) = next_event env (ToolCallStart i name (json_to_struct (be_as_f64 env) input)
                        (tool_description name input))
                      (b\<lparr>pending_tools := hm_insert i name (pending_tools b)\<rparr>);
          (b2, evs) = assistant_blocks env bs b1
      in (b2, ev # evs))"

definition handle_assistant ::
  "bridge_env \<Rightarrow> assistant_message \<Rightarrow> event_bridge \<Rightarrow> event_bridge \<times> agent_event list" where
  "handle_assistant env msg b =
     (let (b1, evs) = assistant_blocks env (am_content msg) b;
          (b2, evs') = next_events env
            (if am_stop_reason msg = EndTurn then [TurnComplete ''end_turn''] else []) b1
      in (b2, evs @ evs'))"

definition handle_stream_event ::
  "bridge_env \<Rightarrow> stream_event_type \<Rightarrow> event_bridge \<Rightarrow> event_bridge \<times> agent_event list" where
  "handle_stream_event env st b =
     (case st of
        ContentBlockDelta _ d \<Rightarrow>
          (case d of
             TextPart t \<Rightarrow> next_events env (if t \<noteq> [] then [TextDelta t False] else []) b
           | _ \<Rightarrow> (b, []))
      | MessageStart \<Rightarrow> next_events env [StatusChange Thinking []] b
      | MessageStop \<Rightarrow> next_events env [StatusChange AgentIdle []] b
      | _ \<Rightarrow> (b, []))"

definition question_option_of :: "json \<Rightarrow> question_option" where
  "question_option_of opt = \<lparr> qo_value = str_or_empty opt ''label'', qo_label = str_or_empty opt ''label'',
     qo_description = str_or_empty opt ''description'' \<rparr>"

definition handle_ask_user_question ::
  "bridge_env \<Rightarrow> string \<Rightarrow> json \<Rightarrow> event_bridge \<Rightarrow> event_bridge \<times> agent_event list" where
  "handle_ask_user_question env request_id input b =
     (let first = (case get_array input ''questions'' of [] \<Rightarrow> JNull | q # _ \<Rightarrow> q);
          multi_select = unwrap_or False (Option.bind
            (case jget first ''multi_select'' of Some v \<Rightarrow> Some v | None \<Rightarrow> jget first ''multiSelect'') as_bool);
          opts = map question_option_of (get_array first ''options'')
      in next_events env [UserQuestion request_id (str_or_empty first ''question'') opts multi_select]
           (b\<lparr>pending_question_inputs := hm_insert request_id input (pending_question_inputs b)\<rparr>))"

definition handle_control_request ::
  "bridge_env \<Rightarrow> control_request \<Rightarrow> event_bridge \<Rightarrow> event_bridge \<times> agent_event list" where
  "handle_control_request env req b =
     (case cr_request req of
        CanUseTool tool_name input \<Rightarrow>
          if tool_name = ''AskUserQuestion'' then handle_ask_user_question env (cr_request_id req) input b
          else next_events env [PermissionRequest (cr_request_id req) tool_name
                   (tool_description tool_name input) (json_to_struct (be_as_f64 env) input)]
                 (b\<lparr>pending_permission_inputs :=
                      hm_insert (cr_request_id req) input (pending_permission_inputs b)\<rparr>)
      | RequestUnknown _ \<Rightarrow> (b, []))"

definition take_question_input :: "string \<Rightarrow> event_bridge \<Rightarrow> event_bridge \<times> json option" where
  "take_question_input rid b =
     (b\<lparr>pending_question_inputs := hm_remove rid (pending_question_inputs b)\<rparr>,
      hm_get (pending_question_inputs b) rid)"

definition take_permission_input :: "string \<Rightarrow> event_bridge \<Rightarrow> event_bridge \<times> json option" where
  "take_permission_input rid b =
     (b\<lparr>pending_permission_inputs := hm_remove rid (pending_permission_inputs b)\<rparr>,
      hm_get (pending_permission_inputs b) rid)"

definition handle_user ::
  "bridge_env \<Rightarrow> tool_result list \<Rightarrow> event_bridge \<Rightarrow> event_bridge \<times> agent_event list" where
  "handle_user env results b =
     next_events env (map (\<lambda>r. ToolCallResult (tr_tool_use_id r) (tr_content r) (tr_is_error r) 0) results) b"

definition debug_subtype :: "bridge_env \<Rightarrow> result_subtype \<Rightarrow> string" where
  "debug_subtype env st = (case st of Success \<Rightarrow> ''Success'' | ErrorSubtype \<Rightarrow> ''Error''
     | SubtypeUnknown s \<Rightarrow> ''Unknown('' @ be_debug_str env s @ '')'')"

fun join :: "string \<Rightarrow> string list \<Rightarrow> string" where
  "join sep [] = []"
| "join sep [s] = s"
| "join sep (s # ss) = s @ sep @ join sep ss"

definition handle_result ::
  "bridge_env \<Rightarrow> session_result \<Rightarrow> event_bridge \<Rightarrow> event_bridge \<times> agent_event list" where
  "handle_result env result b =
     (let has_real_error = sr_is_error result \<and> (sr_subtype result \<noteq> Success \<or> sr_errors result \<noteq> []);
          error_message =
            (if sr_errors result = []
             then ''Claude exited with error (subtype: '' @ debug_subtype env (sr_subtype result) @ '')''
             else join ''; '' (sr_errors result));
          report = \<lparr> ur_input_tokens = us_input_tokens (sr_usage result),
            ur_output_tokens = us_output_tokens (sr_usage result),
            ur_cache_read_tokens = us_cache_read_input_tokens (sr_usage result),
            ur_cache_creation_tokens = us_cache_creation_input_tokens (sr_usage result),
            ur_model = [], ur_cost_usd = unwrap_or 0 (sr_cost_usd result),
            ur_duration_ms = ucast (sr_duration_ms result) \<rparr>
      in next_events env
           ((if has_real_error then [ErrorEv ''session_error'' error_message True []] else [])
            @ [Usage report, StatusChange AgentIdle []]) b)"

definition convert :: "bridge_env \<Rightarrow> event_bridge \<Rightarrow> message \<Rightarrow> event_bridge \<times> agent_event list" where
  "convert env b msg =
     (case msg of
        SystemInit init \<Rightarrow> handle_system_init env init b
      | Assistant a \<Rightarrow> handle_assistant env a b
      | StreamEvent st \<Rightarrow> handle_stream_event env st b
      | ControlRequest req \<Rightarrow> handle_control_request env req b
      | Result r \<Rightarrow> handle_result env r b
      | User u \<Rightarrow> handle_user env u b
      | MessageUnknown _ _ \<Rightarrow> (b, []))"

section \<open>Numbering\<close>

text \<open>What holds of every list of events the bridge emits: numbers in sequence, counter moved by as many.\<close>

definition numbered :: "event_bridge \<Rightarrow> event_bridge \<times> agent_event list \<Rightarrow> bool" where
  "numbered b r \<longleftrightarrow> consecutive (sequence b) (map ev_sequence (snd r))
     \<and> sequence (fst r) = sequence b + of_nat (length (snd r))"

named_theorems numbered_intros \<open>operations that number their events\<close>

lemma numbered_nil [numbered_intros]: "numbered b (b, [])"
  by (simp add: numbered_def)

lemma numbered_upd: "sequence b = sequence b0 \<Longrightarrow> numbered b r \<Longrightarrow> numbered b0 r"
  by (simp add: numbered_def)

lemma next_event_numbered: "next_event env e b = (b1, ev) \<Longrightarrow> numbered b1 (b2, evs) \<Longrightarrow> numbered b (b2, ev # evs)"
  by (auto simp: numbered_def next_event_def Let_def)

lemma next_events_numbered [numbered_intros]: "numbered b (next_events env es b)"
proof (induction es arbitrary: b)
  case (Cons e es)
  obtain b1 ev where 1: "next_event env e b = (b1, ev)" by fastforce
  obtain b2 evs where 2: "next_events env es b1 = (b2, evs)" by fastforce
  from Cons [of b1] show ?case by (simp add: 1 2 next_event_numbered [OF 1])
qed (simp add: numbered_nil)

lemma assistant_blocks_numbered [numbered_intros]: "numbered b (assistant_blocks env bs b)"
proof (induction env bs b rule: assistant_blocks.induct)
  case (3 env i name input bs b)
  let ?b = "b\<lparr>pending_tools := hm_insert i name (pending_tools b)\<rparr>"
  let ?e = "ToolCallStart i name (json_to_struct (be_as_f64 env) input) (tool_description name input)"
  obtain b1 ev where 1: "next_event env ?e ?b = (b1, ev)" by fastforce
  obtain b2 evs where 2: "assistant_blocks env bs b1 = (b2, evs)" by fastforce
  have "numbered b1 (b2, evs)" using 3 [OF 1 [symmetric] refl] 2 by simp
  then have "numbered ?b (b2, ev # evs)" by (rule next_event_numbered [OF 1])
  then have "numbered b (b2, ev # evs)" by (rule numbered_upd [rotated]) simp
  then show ?case by (simp add: 1 2 del: hm_get_insert)
qed (simp_all add: numbered_nil)

lemma numbered_append:
  "numbered b (b1, es1) \<Longrightarrow> numbered b1 (b2, es2) \<Longrightarrow> numbered b (b2, es1 @ es2)"
  by (simp add: numbered_def consecutive_append ac_simps)

lemma convert_numbered: "numbered b (convert env b msg)"
proof (cases msg)
  case (Assistant a)
  obtain b1 evs where 1: "assistant_blocks env (am_content a) b = (b1, evs)" by fastforce
  obtain b2 evs' where 2: "next_events env
      (if am_stop_reason a = EndTurn then [TurnComplete ''end_turn''] else []) b1 = (b2, evs')" by fastforce
  have "numbered b (b1, evs)" "numbered b1 (b2, evs')"
    using assistant_blocks_numbered [of b env "am_content a"] next_events_numbered 1 2 by metis+
  then show ?thesis
    by (simp add: Assistant convert_def handle_assistant_def 1 2 numbered_append)
next
  case (SystemInit init)
  show ?thesis
    by (simp only: SystemInit convert_def handle_system_init_def Let_def message.case)
       (rule numbered_upd [rotated], rule next_events_numbered, simp)
next
  case (ControlRequest req)
  show ?thesis
  proof (cases "cr_request req")
    case (CanUseTool t input)
    show ?thesis
      unfolding convert_def ControlRequest message.case handle_control_request_def CanUseTool
        control_request_type.case handle_ask_user_question_def Let_def
      by (auto simp del: next_events.simps intro: numbered_upd [OF _ next_events_numbered])
  qed (simp add: ControlRequest convert_def handle_control_request_def numbered_nil)
qed (auto simp: convert_def handle_stream_event_def handle_user_def handle_result_def Let_def
          simp del: next_events.simps intro!: numbered_intros
          split: stream_event_type.splits delta.splits)

interpretation bridge_events: event_source "convert env" sequence ev_sequence for env
  using convert_numbered by unfold_locales (auto simp: numbered_def)

text \<open>
  Whatever messages the subprocess sends, the events of the bridge carry the numbers that
  follow its start number, one by one and without gaps, as long as the 64-bit counter does not
  wrap around.
\<close>

theorem bridge_numbering:
  assumes "emit_all (convert env) (with_start_sequence start) msgs = (b, evs)"
    and "unat start + length evs < 2 ^ 64"
  shows "map (unat \<circ> ev_sequence) evs = [Suc (unat start) ..< Suc (unat start + length evs)]
    \<and> unat (sequence b) = unat start + length evs"
proof -
  let ?b = "with_start_sequence start"
  have start: "sequence ?b = start" by (simp add: with_start_sequence_def)
  note seq = bridge_events.emit_all_seq [where env = env and s = ?b and ms = msgs, unfolded start assms(1) snd_conv fst_conv]
  have "map unat (map ev_sequence evs) = [Suc (unat start) ..< Suc (unat start + length evs)]"
    using consecutive_unat [OF conjunct1 [OF seq]] assms(2) by simp
  moreover have "unat (sequence b) = unat start + length evs"
    using seq assms(2) by (simp add: unat_word_ariths unat_of_nat)
  ultimately show ?thesis by (simp del: upt_Suc)
qed

definition demo_env :: bridge_env where
  "demo_env = \<lparr> be_clock = (\<lambda>_. (0, 0)), be_as_f64 = (\<lambda>_. 0), be_debug_str = (\<lambda>s. s) \<rparr>"

definition demo_request :: control_request where
  "demo_request = \<lparr> cr_request_id = ''r1'',
     cr_request = CanUseTool ''Bash'' (JObject [(''command'', JString ''ls'')]) \<rparr>"

theorem bridge_numbering_witness:
  "map (unat \<circ> ev_sequence) (snd (emit_all (convert demo_env) (with_start_sequence 41)
     [ControlRequest demo_request, StreamEvent MessageStart])) = [42, 43]"
proof -
  obtain b evs where e: "emit_all (convert demo_env) (with_start_sequence 41)
     [ControlRequest demo_request, StreamEvent MessageStart] = (b, evs)" by fastforce
  moreover have "length (snd (emit_all (convert demo_env) (with_start_sequence 41)
     [ControlRequest demo_request, StreamEvent MessageStart])) = 2"
    by (simp add: demo_request_def convert_def handle_control_request_def handle_stream_event_def
          next_event_def Let_def)
  ultimately show ?thesis using bridge_numbering [OF e] by (simp add: upt_rec)
qed

declare next_events.simps [simp del]

section \<open>Parked inputs\<close>

definition park_permission_input :: "string \<Rightarrow> json \<Rightarrow> event_bridge \<Rightarrow> event_bridge" where
  "park_permission_input rid input b =
     b\<lparr>pending_permission_inputs := hm_insert rid input (pending_permission_inputs b)\<rparr>"

definition park_question_input :: "string \<Rightarrow> json \<Rightarrow> event_bridge \<Rightarrow> event_bridge" where
  "park_question_input rid input b =
     b\<lparr>pending_question_inputs := hm_insert rid input (pending_question_inputs b)\<rparr>"

interpretation parked_permissions: pending_store park_permission_input take_permission_input
  "\<lambda>b. hm_get (pending_permission_inputs b)"
  by unfold_locales (simp_all add: park_permission_input_def take_permission_input_def)

interpretation parked_questions: pending_store park_question_input take_question_input
  "\<lambda>b. hm_get (pending_question_inputs b)"
  by unfold_locales (simp_all add: park_question_input_def take_question_input_def)

lemma next_event_pending [simp]:
  "pending_permission_inputs (fst (next_event env e b)) = pending_permission_inputs b"
  "pending_question_inputs (fst (next_event env e b)) = pending_question_inputs b"
  by (simp_all add: next_event_def Let_def)

lemma next_events_pending [simp]:
  "pending_permission_inputs (fst (next_events env es b)) = pending_permission_inputs b \<and>
   pending_question_inputs (fst (next_events env es b)) = pending_question_inputs b"
proof (induction es arbitrary: b)
  case (Cons e es)
  show ?case using Cons [of "fst (next_event env e b)"] next_event_pending [of env e b]
    by (simp add: next_events.simps case_prod_beta Let_def)
qed (simp add: next_events.simps)

lemma assistant_blocks_pending [simp]:
  "pending_permission_inputs (fst (assistant_blocks env bs b)) = pending_permission_inputs b \<and>
   pending_question_inputs (fst (assistant_blocks env bs b)) = pending_question_inputs b"
proof (induction env bs b rule: assistant_blocks.induct)
  case (3 env i name input bs b)
  show ?case using 3 [OF refl surjective_pairing [symmetric]] by (simp add: case_prod_beta Let_def)
qed simp_all

text \<open>A message parks an input under the id of its control request and touches no other.\<close>

lemma convert_pending:
  "pending_permission_inputs (fst (convert env b msg)) =
     (case msg of
        ControlRequest r \<Rightarrow>
          (case cr_request r of
             CanUseTool t input \<Rightarrow>
               if t = ''AskUserQuestion'' then pending_permission_inputs b
               else hm_insert (cr_request_id r) input (pending_permission_inputs b)
           | RequestUnknown _ \<Rightarrow> pending_permission_inputs b)
      | _ \<Rightarrow> pending_permission_inputs b)"
  by (simp add: convert_def handle_system_init_def handle_assistant_def handle_stream_event_def
        handle_control_request_def handle_ask_user_question_def handle_user_def handle_result_def
        Let_def case_prod_beta
      split: message.split control_request_type.split stream_event_type.split delta.split)

lemma emit_all_pending_other:
  assumes "\<And>r. ControlRequest r \<in> set msgs \<Longrightarrow> cr_request_id r \<noteq> rid"
  shows "hm_get (pending_permission_inputs (fst (emit_all (convert env) b msgs))) rid =
     hm_get (pending_permission_inputs b) rid"
  using assms
proof (induction msgs arbitrary: b)
  case (Cons m ms)
  have "hm_get (pending_permission_inputs (fst (convert env b m))) rid =
      hm_get (pending_permission_inputs b) rid"
    using Cons.prems by (cases m) (auto simp: convert_pending split: control_request_type.split)
  with Cons.IH [of "fst (convert env b m)"] Cons.prems show ?case by (simp add: case_prod_beta Let_def)
qed simp

text \<open>
  C36. The input of a permission request is parked under the request's id, stays there while
  messages without that id are processed, and is handed out unchanged exactly once. The
  request itself becomes one event that carries its id and tool name.
\<close>

theorem permission_input_once:
  assumes "cr_request req = CanUseTool t input" and "t \<noteq> ''AskUserQuestion''"
    and "convert env b (ControlRequest req) = (b1, evs)"
    and "\<And>r. ControlRequest r \<in> set msgs \<Longrightarrow> cr_request_id r \<noteq> cr_request_id req"
    and "emit_all (convert env) b1 msgs = (b2, evs2)"
    and "take_permission_input (cr_request_id req) b2 = (b3, got)"
  shows "got = Some input \<and> snd (take_permission_input (cr_request_id req) b3) = None
    \<and> (\<exists>d s. map ev_event evs = [Some (PermissionRequest (cr_request_id req) t d s)])"
proof -
  have "hm_get (pending_permission_inputs b1) (cr_request_id req) = Some input"
    using assms(1-3) convert_pending [of env b "ControlRequest req"] by simp
  then have "hm_get (pending_permission_inputs b2) (cr_request_id req) = Some input"
    using emit_all_pending_other [of msgs, OF assms(4), where env = env and b = b1] assms(5) by simp
  then have "got = Some input"
    using parked_permissions.grab_val [of "cr_request_id req" b2] assms(6) by simp
  moreover have "snd (take_permission_input (cr_request_id req) b3) = None"
    using parked_permissions.grab_twice [of "cr_request_id req" b2] assms(6) by simp
  moreover have "\<exists>d s. map ev_event evs = [Some (PermissionRequest (cr_request_id req) t d s)]"
    using assms(1-3)
    by (auto simp: convert_def handle_control_request_def next_events.simps next_event_def Let_def)
  ultimately show ?thesis by blast
qed

theorem permission_input_once_witness:
  "snd (take_permission_input ''r1'' (fst (emit_all (convert demo_env)
     (fst (convert demo_env (with_start_sequence 0) (ControlRequest demo_request)))
     [StreamEvent MessageStart]))) = Some (JObject [(''command'', JString ''ls'')])"
proof -
  obtain b1 evs where 1: "convert demo_env (with_start_sequence 0) (ControlRequest demo_request) = (b1, evs)"
    by fastforce
  obtain b2 evs2 where 2: "emit_all (convert demo_env) b1 [StreamEvent MessageStart] = (b2, evs2)" by fastforce
  obtain b3 got where 3: "take_permission_input (cr_request_id demo_request) b2 = (b3, got)" by fastforce
  have "cr_request demo_request = CanUseTool ''Bash'' (JObject [(''command'', JString ''ls'')])"
    and "cr_request_id demo_request = ''r1''" by (simp_all add: demo_request_def)
  with permission_input_once [OF this(1) _ 1 _ 2 3] 1 2 3 show ?thesis by simp
qed

section \<open>Bounded descriptions\<close>

lemma last_filter_upt:
  assumes "rev (filter P [0..<n]) = k # rest"
  shows "k < n \<and> P k \<and> (\<forall>j. k < j \<and> j < n \<longrightarrow> \<not> P j)"
proof -
  from assms have "filter P [0..<n] = rev rest @ [k]" by (metis rev.simps(2) rev_rev_ident)
  moreover have "sorted_wrt (<) (filter P [0..<n])" by (simp add: sorted_wrt_filter)
  ultimately have lt: "\<forall>x \<in> set (filter P [0..<n]). x \<le> k" and k: "k \<in> set (filter P [0..<n])"
    by (auto simp: sorted_wrt_append less_imp_le)
  from k have "k < n" "P k" by simp_all
  moreover have "\<not> P j" if "k < j" "j < n" for j using lt that by fastforce
  ultimately show ?thesis by blast
qed

text \<open>
  A text within the limit is shown whole. A longer one is cut at the last character
  boundary at or below the limit, so no character is split, and never shows more than the limit
  and the three dots.
\<close>

theorem truncate_str_bounded:
  "length (truncate_str s mx) \<le> mx + 3 \<and>
   (if length s \<le> mx then truncate_str s mx = s
    else \<exists>k \<le> mx. truncate_str s mx = take k s @ ''...'' \<and> (char_start (s ! k) \<or> k = 0)
           \<and> (\<forall>j. k < j \<and> j \<le> mx \<longrightarrow> \<not> char_start (s ! j)))"
proof (cases "length s \<le> mx")
  case False
  let ?k = "cut_point s mx"
  have n: "min (Suc mx) (length s) = Suc mx" using False by simp
  have "?k \<le> mx \<and> (char_start (s ! ?k) \<or> ?k = 0) \<and> (\<forall>j. ?k < j \<and> j \<le> mx \<longrightarrow> \<not> char_start (s ! j))"
  proof (cases "rev (filter (\<lambda>i. char_start (s ! i)) [0..<Suc mx])")
    case Nil
    then have "\<not> char_start (s ! j)" if "j \<le> mx" for j
      using that by (auto simp: filter_empty_conv simp del: upt_Suc)
    with Nil show ?thesis by (simp add: cut_point_def n del: upt_Suc)
  next
    case (Cons k rest)
    with last_filter_upt [OF Cons] show ?thesis by (simp add: cut_point_def n less_Suc_eq_le del: upt_Suc)
  qed
  with False show ?thesis unfolding truncate_str_def by auto
qed (simp add: truncate_str_def)

theorem truncate_str_bounded_witness:
  "\<exists>k \<le> 2. truncate_str [CHR ''a'', CHR 0xC3, CHR 0xA9, CHR 0xC3, CHR 0xA9] 2
     = take k [CHR ''a'', CHR 0xC3, CHR 0xA9, CHR 0xC3, CHR 0xA9] @ ''...''"
proof -
  have "\<not> length [CHR ''a'', CHR 0xC3, CHR 0xA9, CHR 0xC3, CHR 0xA9] \<le> 2" by simp
  then show ?thesis
    using truncate_str_bounded [of "[CHR ''a'', CHR 0xC3, CHR 0xA9, CHR 0xC3, CHR 0xA9]" 2] by metis
qed

end
