(* ===== verification/Subprocess.thy ===== *)
theory Subprocess
  imports Prelude
begin

text \<open>
  The manager of the conversation subprocesses, \<^verbatim>\<open>crates/betcode-daemon/src/subprocess/manager.rs\<close>.
  What the operating system answers (whether a directory exists, whether the process starts and
  its pipes are captured) and the fresh identifiers are arguments. \<^verbatim>\<open>spawn\<close> checks the capacity
  under a read lock, releases it, and stores the process later under a write lock, so it is
  modelled as these two steps and as their uninterrupted composition. The theory proves that
  uninterrupted spawns respect the capacity, that overlapping ones need not, and that a process
  that has exited keeps its place until it is terminated.
\<close>

section \<open>Types\<close>

datatype permission_strategy = PromptToolStdio | AllowedTools "string list" | SkipPermissions

record spawn_config =
  sc_working_directory :: string
  sc_prompt :: "string option"
  sc_resume_session :: "string option"
  sc_model :: "string option"
  sc_permission_strategy :: permission_strategy

definition default_spawn_config :: "string \<Rightarrow> spawn_config" where
  "default_spawn_config current_dir = \<lparr> sc_working_directory = current_dir, sc_prompt = None,
     sc_resume_session = None, sc_model = None, sc_permission_strategy = PromptToolStdio \<rparr>"

text \<open>\<open>ps_exited\<close> is the state of the child, which the operating system changes.\<close>

record process_state =
  ps_exited :: bool
  ps_session_id :: "string option"
  ps_stdin_tx :: nat
  ps_working_directory :: string

record process_handle =
  ph_id :: string
  ph_session_id :: "string option"
  ph_stdin_tx :: nat
  ph_working_directory :: string

record subprocess_manager =
  processes :: "(string, process_state) hmap"
  max_processes :: nat

datatype subprocess_error =
    PoolExhausted nat nat
  | SpawnFailed string
  | ProcessNotFound string
  | ProcessExited string

definition new_subprocess_manager :: "nat \<Rightarrow> subprocess_manager" where
  "new_subprocess_manager mx = \<lparr> processes = [], max_processes = mx \<rparr>"

section \<open>Spawning\<close>

definition spawn_dir :: "(string \<Rightarrow> bool) \<Rightarrow> string option \<Rightarrow> string \<Rightarrow> spawn_config \<Rightarrow> string" where
  "spawn_dir path_exists home_dir temp_dir cfg =
     (if sc_working_directory cfg = [] \<or> \<not> path_exists (sc_working_directory cfg)
      then (case home_dir of Some h \<Rightarrow> h | None \<Rightarrow> temp_dir)
      else sc_working_directory cfg)"

definition strategy_args :: "permission_strategy \<Rightarrow> string list" where
  "strategy_args st = (case st of
       PromptToolStdio \<Rightarrow> [''--permission-prompt-tool'', ''stdio'']
     | AllowedTools tools \<Rightarrow> if tools = [] then [] else ''--allowedTools'' # tools
     | SkipPermissions \<Rightarrow> [''--dangerously-skip-permissions''])"

definition spawn_args :: "spawn_config \<Rightarrow> string list" where
  "spawn_args cfg =
     [''--output-format'', ''stream-json'', ''--input-format'', ''stream-json'', ''--verbose'']
     @ strategy_args (sc_permission_strategy cfg)
     @ (case sc_prompt cfg of None \<Rightarrow> [] | Some p \<Rightarrow> [''-p'', p, ''--include-partial-messages''])
     @ (case sc_resume_session cfg of None \<Rightarrow> [] | Some s \<Rightarrow> [''--resume'', s])
     @ (case sc_model cfg of None \<Rightarrow> [] | Some m \<Rightarrow> [''--model'', m])"

text \<open>What one call of \<^verbatim>\<open>spawn\<close> meets: the result of starting the command in a directory with
  arguments, whether the pipes were captured, and the new identifiers.\<close>

record launch_env =
  le_path_exists :: "string \<Rightarrow> bool"
  le_home_dir :: "string option"
  le_temp_dir :: string
  le_start :: "string \<Rightarrow> string list \<Rightarrow> string option"
  le_stdin :: bool
  le_stdout :: bool
  le_process_id :: string
  le_chan :: nat

text \<open>The capacity check under the read lock.\<close>

definition spawn_check :: "subprocess_manager \<Rightarrow> subprocess_error option" where
  "spawn_check m = (if max_processes m \<le> length (processes m)
     then Some (PoolExhausted (length (processes m)) (max_processes m)) else None)"

text \<open>Starting the process and storing it under the write lock.\<close>

definition spawn_store ::
  "launch_env \<Rightarrow> spawn_config \<Rightarrow> subprocess_manager \<Rightarrow> subprocess_manager \<times> (subprocess_error + process_handle)"
  where
  "spawn_store env cfg m =
     (case le_start env (spawn_dir (le_path_exists env) (le_home_dir env) (le_temp_dir env) cfg)
             (spawn_args cfg) of
        Some reason \<Rightarrow> (m, Inl (SpawnFailed reason))
      | None \<Rightarrow>
          if \<not> le_stdin env then (m, Inl (SpawnFailed ''Failed to capture stdin''))
          else if \<not> le_stdout env then (m, Inl (SpawnFailed ''Failed to capture stdout''))
          else (m\<lparr>processes := hm_insert (le_process_id env) \<lparr> ps_exited = False,
                    ps_session_id = None, ps_stdin_tx = le_chan env,
                    ps_working_directory = sc_working_directory cfg \<rparr> (processes m)\<rparr>,
                Inr \<lparr> ph_id = le_process_id env, ph_session_id = None, ph_stdin_tx = le_chan env,
                      ph_working_directory = sc_working_directory cfg \<rparr>))"

definition spawn_process ::
  "launch_env \<Rightarrow> spawn_config \<Rightarrow> subprocess_manager \<Rightarrow> subprocess_manager \<times> (subprocess_error + process_handle)"
  where
  "spawn_process env cfg m =
     (case spawn_check m of Some e \<Rightarrow> (m, Inl e) | None \<Rightarrow> spawn_store env cfg m)"

section \<open>Other operations\<close>

text \<open>\<open>open\<close> tells whether the writer task of the input channel is still running.\<close>

definition send_stdin :: "bool \<Rightarrow> string \<Rightarrow> subprocess_manager \<Rightarrow> subprocess_error + nat" where
  "send_stdin open_chan process_id m =
     (case hm_get (processes m) process_id of
        None \<Rightarrow> Inl (ProcessNotFound process_id)
      | Some st \<Rightarrow> if open_chan then Inr (ps_stdin_tx st) else Inl (ProcessExited process_id))"

text \<open>
  The signal, the wait with its timeout and the kill happen after the removal, under the same
  write lock; the result is \<^verbatim>\<open>Ok\<close> in all three cases.
\<close>

definition terminate_process :: "string \<Rightarrow> subprocess_manager \<Rightarrow> subprocess_manager \<times> (subprocess_error + unit)" where
  "terminate_process process_id m =
     (case hm_get (processes m) process_id of
        None \<Rightarrow> (m, Inl (ProcessNotFound process_id))
      | Some _ \<Rightarrow> (m\<lparr>processes := hm_remove process_id (processes m)\<rparr>, Inr ()))"

definition active_count :: "subprocess_manager \<Rightarrow> nat" where
  "active_count m = length (processes m)"

definition capacity :: "subprocess_manager \<Rightarrow> nat" where
  "capacity m = max_processes m"

definition set_session_id ::
  "string \<Rightarrow> string \<Rightarrow> subprocess_manager \<Rightarrow> subprocess_manager \<times> (subprocess_error + unit)" where
  "set_session_id process_id session_id m =
     (case hm_get (processes m) process_id of
        None \<Rightarrow> (m, Inl (ProcessNotFound process_id))
      | Some st \<Rightarrow> (m\<lparr>processes := hm_insert process_id (st\<lparr>ps_session_id := Some session_id\<rparr>) (processes m)\<rparr>,
                    Inr ()))"

text \<open>The child ends by itself: no code of the manager runs.\<close>

definition child_exits :: "string \<Rightarrow> subprocess_manager \<Rightarrow> subprocess_manager" where
  "child_exits process_id m = m\<lparr>processes := hm_modify process_id (\<lambda>st. st\<lparr>ps_exited := True\<rparr>) (processes m)\<rparr>"

section \<open>Interleavings\<close>

text \<open>
  A state of the running manager: the manager, and how many calls of \<^verbatim>\<open>spawn\<close> have passed the
  check and not stored their process yet.
\<close>

inductive proc_step :: "subprocess_manager \<times> nat \<Rightarrow> subprocess_manager \<times> nat \<Rightarrow> bool" where
  admit: "spawn_check m = None \<Longrightarrow> proc_step (m, n) (m, Suc n)"
| store: "proc_step (m, Suc n) (fst (spawn_store env cfg m), n)"
| ends: "proc_step (m, n) (fst (terminate_process pid m), n)"
| set_id: "proc_step (m, n) (fst (set_session_id pid sid m), n)"
| exits: "proc_step (m, n) (child_exits pid m, n)"

abbreviation proc_init :: "nat \<Rightarrow> subprocess_manager \<times> nat \<Rightarrow> bool" where
  "proc_init mx s \<equiv> s = (new_subprocess_manager mx, 0)"

lemma spawn_store_len:
  "length (processes (fst (spawn_store env cfg m))) \<le> Suc (length (processes m))"
  by (auto simp: spawn_store_def hm_len_insert split: option.splits)

lemma spawn_store_max [simp]: "max_processes (fst (spawn_store env cfg m)) = max_processes m"
  by (auto simp: spawn_store_def split: option.splits)

lemma terminate_len: "length (processes (fst (terminate_process pid m))) \<le> length (processes m)"
  using length_delete_le [of pid "processes m"] by (auto simp: terminate_process_def split: option.splits)

lemma set_session_id_len [simp]: "length (processes (fst (set_session_id pid sid m))) = length (processes m)"
proof (cases "hm_get (processes m) pid")
  case (Some st)
  then have "pid \<in> hm_keys (processes m)" by (auto simp: hm_key_iff)
  with Some show ?thesis by (simp add: set_session_id_def hm_len_insert)
qed (simp add: set_session_id_def)

lemma max_processes_ops [simp]:
  "max_processes (fst (terminate_process pid m)) = max_processes m"
  "max_processes (fst (set_session_id pid sid m)) = max_processes m"
  "max_processes (child_exits pid m) = max_processes m"
  "length (processes (child_exits pid m)) = length (processes m)"
  by (auto simp: terminate_process_def set_session_id_def child_exits_def split: option.splits)

text \<open>Sequential use of the manager: every call of \<^verbatim>\<open>spawn\<close> runs to its end.\<close>

inductive seq_step :: "subprocess_manager \<Rightarrow> subprocess_manager \<Rightarrow> bool" where
  "seq_step m (fst (spawn_process env cfg m))"
| "seq_step m (fst (terminate_process pid m))"
| "seq_step m (fst (set_session_id pid sid m))"
| "seq_step m (child_exits pid m)"

lemma seq_step_cap:
  assumes "length (processes m) \<le> mx \<and> max_processes m = mx" and "seq_step m m'"
  shows "length (processes m') \<le> mx \<and> max_processes m' = mx"
  using assms(2)
proof cases
  case (1 env cfg)
  then show ?thesis
    using assms(1) spawn_store_len [of env cfg m]
    by (auto simp: spawn_process_def spawn_check_def split: if_splits)
next
  case (2 pid)
  then show ?thesis using assms(1) terminate_len [of pid m] by simp
qed (use assms(1) in simp_all)

interpretation seq_run: step_system "\<lambda>m. m = new_subprocess_manager mx" seq_step
  "\<lambda>m. length (processes m) \<le> mx \<and> max_processes m = mx" for mx
  by unfold_locales (simp add: new_subprocess_manager_def, rule seq_step_cap)

section \<open>Properties\<close>

text \<open>A launch that succeeds.\<close>

definition ok_launch :: "string \<Rightarrow> launch_env" where
  "ok_launch pid = \<lparr> le_path_exists = (\<lambda>_. True), le_home_dir = None, le_temp_dir = ''/tmp'',
     le_start = (\<lambda>_ _. None), le_stdin = True, le_stdout = True, le_process_id = pid, le_chan = 0 \<rparr>"

lemma ok_launch_store:
  "processes (fst (spawn_store (ok_launch pid) cfg m)) = hm_insert pid \<lparr> ps_exited = False,
     ps_session_id = None, ps_stdin_tx = 0, ps_working_directory = sc_working_directory cfg \<rparr> (processes m)"
  by (simp add: spawn_store_def ok_launch_def)

text \<open>
  As long as every call of \<^verbatim>\<open>spawn\<close> runs to its end before the next one begins, the number
  of stored processes never exceeds the configured maximum, and at the maximum a further spawn
  changes nothing and reports the pool as exhausted.
\<close>

theorem spawn_respects_capacity:
  assumes "reach (\<lambda>m. m = new_subprocess_manager mx) seq_step m"
  shows "active_count m \<le> mx \<and> capacity m = mx
    \<and> (active_count m = mx \<longrightarrow> spawn_process env cfg m = (m, Inl (PoolExhausted mx mx)))"
  using seq_run.reach_inv [OF assms]
  by (auto simp: active_count_def capacity_def spawn_process_def spawn_check_def)

definition demo_spawn :: "string \<Rightarrow> subprocess_manager \<Rightarrow> subprocess_manager" where
  "demo_spawn pid m = fst (spawn_process (ok_launch pid) (default_spawn_config ''/'') m)"

lemma demo_spawn_reach:
  "reach (\<lambda>m. m = new_subprocess_manager mx) seq_step m \<Longrightarrow>
     reach (\<lambda>m. m = new_subprocess_manager mx) seq_step (demo_spawn pid m)"
  unfolding demo_spawn_def by (rule reach_step) (auto intro: seq_step.intros)

theorem spawn_respects_capacity_witness:
  "spawn_process (ok_launch ''q'') (default_spawn_config ''/'') (demo_spawn ''p'' (new_subprocess_manager 1))
     = (demo_spawn ''p'' (new_subprocess_manager 1), Inl (PoolExhausted 1 1))"
proof -
  have r: "reach (\<lambda>m. m = new_subprocess_manager 1) seq_step (demo_spawn ''p'' (new_subprocess_manager 1))"
    by (rule demo_spawn_reach) (auto intro: reach_init)
  have "active_count (demo_spawn ''p'' (new_subprocess_manager 1)) = 1"
    by (simp add: active_count_def demo_spawn_def new_subprocess_manager_def spawn_process_def
          spawn_check_def spawn_store_def ok_launch_def)
  with spawn_respects_capacity [OF r] show ?thesis by blast
qed

text \<open>
  The capacity is checked under a read lock that is released before the process is
  stored: two overlapping calls of \<^verbatim>\<open>spawn\<close> both pass the check, and a manager with room for one
  process stores two.
\<close>

theorem spawn_capacity_race:
  "\<exists>m. reach (proc_init 1) proc_step (m, 0) \<and> capacity m = 1 \<and> active_count m = 2"
proof -
  let ?R = "reach (proc_init 1) proc_step"
  let ?c = "default_spawn_config ''/''"
  let ?m0 = "new_subprocess_manager 1"
  let ?m1 = "fst (spawn_store (ok_launch ''p'') ?c ?m0)"
  let ?m2 = "fst (spawn_store (ok_launch ''q'') ?c ?m1)"
  have free: "spawn_check ?m0 = None" by (simp add: spawn_check_def new_subprocess_manager_def)
  have "?R (?m0, 0)" by (rule reach_init) simp
  then have "?R (?m0, Suc 0)" by (rule reach_step) (rule admit [OF free])
  then have "?R (?m0, Suc (Suc 0))" by (rule reach_step) (rule admit [OF free])
  then have "?R (?m1, Suc 0)" by (rule reach_step) (rule store)
  then have "?R (?m2, 0)" by (rule reach_step) (rule store)
  moreover have "active_count ?m2 = 2"
    by (simp add: active_count_def ok_launch_store new_subprocess_manager_def)
  moreover have "capacity ?m2 = 1" by (simp add: capacity_def new_subprocess_manager_def)
  ultimately show ?thesis by blast
qed

text \<open>\<open>n\<close> processes, each of which exits by itself.\<close>

fun demo_exited :: "nat \<Rightarrow> nat \<Rightarrow> subprocess_manager" where
  "demo_exited mx 0 = new_subprocess_manager mx"
| "demo_exited mx (Suc n) = child_exits (replicate n CHR ''p'') (demo_spawn (replicate n CHR ''p'') (demo_exited mx n))"

lemma demo_exited_state:
  "n \<le> mx \<Longrightarrow> reach (\<lambda>m. m = new_subprocess_manager mx) seq_step (demo_exited mx n)
     \<and> max_processes (demo_exited mx n) = mx \<and> length (processes (demo_exited mx n)) = n
     \<and> hm_keys (processes (demo_exited mx n)) = (\<lambda>k. replicate k CHR ''p'') ` {..<n}
     \<and> hm_wf (processes (demo_exited mx n))
     \<and> (\<forall>p st. hm_get (processes (demo_exited mx n)) p = Some st \<longrightarrow> ps_exited st)"
proof (induction n)
  case 0
  show ?case by (auto simp: new_subprocess_manager_def intro: reach_init)
next
  case (Suc n)
  let ?p = "replicate n CHR ''p''"
  let ?m = "demo_exited mx n"
  have ih: "reach (\<lambda>m. m = new_subprocess_manager mx) seq_step ?m" "max_processes ?m = mx"
      "length (processes ?m) = n" "hm_keys (processes ?m) = (\<lambda>k. replicate k CHR ''p'') ` {..<n}"
      "hm_wf (processes ?m)" "\<And>p st. hm_get (processes ?m) p = Some st \<Longrightarrow> ps_exited st"
    using Suc by auto
  have check: "spawn_check ?m = None" using Suc.prems ih(2,3) by (simp add: spawn_check_def)
  have new: "?p \<notin> hm_keys (processes ?m)" unfolding ih(4) by auto
  let ?ps = "processes (demo_spawn ?p ?m)"
  have ps: "?ps = hm_insert ?p \<lparr> ps_exited = False, ps_session_id = None, ps_stdin_tx = 0,
      ps_working_directory = ''/'' \<rparr> (processes ?m)"
    by (simp add: demo_spawn_def spawn_process_def check ok_launch_store default_spawn_config_def)
  have mx: "max_processes (demo_spawn ?p ?m) = mx" by (simp add: demo_spawn_def spawn_process_def check ih(2))
  have "reach (\<lambda>m. m = new_subprocess_manager mx) seq_step (demo_spawn ?p ?m)"
    by (rule demo_spawn_reach) (rule ih(1))
  then have "reach (\<lambda>m. m = new_subprocess_manager mx) seq_step (demo_exited mx (Suc n))"
    unfolding demo_exited.simps by (rule reach_step) (rule seq_step.intros)
  moreover have "hm_keys (processes (demo_exited mx (Suc n))) = (\<lambda>k. replicate k CHR ''p'') ` {..<Suc n}"
    by (simp add: child_exits_def ps ih(4) lessThan_Suc)
  moreover have "length (processes (demo_exited mx (Suc n))) = Suc n"
    using new ih(3) by (simp add: child_exits_def ps hm_len_insert)
  moreover have "hm_wf (processes (demo_exited mx (Suc n)))" using ih(5) by (simp add: child_exits_def ps)
  moreover have "ps_exited st" if "hm_get (processes (demo_exited mx (Suc n))) p = Some st" for p st
    using that ih(6) [of p st] by (auto simp: child_exits_def ps split: if_splits)
  ultimately show ?case by (simp add: mx)
qed

text \<open>
  A process that exits by itself stays in the table until \<^verbatim>\<open>terminate\<close> is called for it:
  for every capacity there is a run, without overlapping calls, that ends with no live process
  and a pool that refuses every further spawn.
\<close>

theorem exited_processes_exhaust:
  "\<exists>m. reach (\<lambda>m. m = new_subprocess_manager mx) seq_step m
     \<and> list_all (\<lambda>(_, st). ps_exited st) (processes m)
     \<and> (\<forall>env cfg. spawn_process env cfg m = (m, Inl (PoolExhausted mx mx)))"
proof -
  let ?m = "demo_exited mx mx"
  note st = demo_exited_state [of mx mx, simplified]
  have "list_all (\<lambda>(_, st). ps_exited st) (processes ?m)"
    using st by (auto simp: list_all_iff map_of_eq_Some_iff)
  with st show ?thesis by (intro exI [of _ ?m]) (simp add: spawn_process_def spawn_check_def)
qed

end
