(* ===== verification/SessionStore.thy ===== *)
theory SessionStore
  imports SubagentStore
begin

text \<open>
  The session tables of the daemon's database and the queries on them:
  \<^verbatim>\<open>crates/betcode-daemon/src/storage/queries.rs\<close> (sessions, messages, permission grants,
  worktrees, compaction, input lock, clients) and \<^verbatim>\<open>repo_queries.rs\<close> (git repositories), with the
  row types of \<^verbatim>\<open>models.rs\<close> and the constraints of the migrations. The conventions are those of
  \<open>SubagentStore\<close>: a table is the list of its rows in insertion order, rows with equal sort keys
  come in insertion order, and a transaction is one statement that executes as a whole or not at
  all. The subagent tables are part of the same database, because deleting a session cascades
  to them.

  The theory proves that every statement keeps the constraints of the schema, including the
  cascades, and what deletion leaves behind.
\<close>

section \<open>Rows and tables\<close>

text \<open>A \<^verbatim>\<open>REAL\<close> column holds the 64 bits of a double; adding doubles is an argument.\<close>

type_synonym f64 = "64 word"

record session_row =
  ss_id :: string
  ss_claude_session_id :: "string option"
  ss_worktree_id :: "string option"
  ss_status :: string
  ss_model :: string
  ss_working_directory :: string
  ss_input_lock_client :: "string option"
  ss_created_at :: int
  ss_updated_at :: int
  ss_total_input_tokens :: int
  ss_total_output_tokens :: int
  ss_total_cost_usd :: f64
  ss_last_message_preview :: "string option"
  ss_compaction_sequence :: int
  ss_name :: string

record message_row =
  ms_id :: int
  ms_session_id :: string
  ms_sequence :: int
  ms_message_type :: string
  ms_payload :: string
  ms_created_at :: int

record worktree_row =
  wt_id :: string
  wt_name :: string
  wt_path :: string
  wt_branch :: string
  wt_repo_id :: string
  wt_setup_script :: "string option"
  wt_created_at :: int
  wt_last_active :: int

record git_repo_row =
  gr_id :: string
  gr_name :: string
  gr_repo_path :: string
  gr_worktree_mode :: string
  gr_local_subfolder :: string
  gr_custom_path :: "string option"
  gr_setup_script :: "string option"
  gr_auto_gitignore :: int
  gr_created_at :: int
  gr_last_active :: int

record permission_grant_row =
  pg_id :: int
  pg_session_id :: string
  pg_tool_name :: string
  pg_pattern :: "string option"
  pg_action :: string
  pg_created_at :: int

record connected_client_row =
  cc_client_id :: string
  cc_session_id :: "string option"
  cc_client_type :: string
  cc_has_input_lock :: int
  cc_connected_at :: int
  cc_last_heartbeat :: int

text \<open>
  The tables. \<open>last_message_id\<close> and \<open>last_grant_id\<close> are the \<^verbatim>\<open>AUTOINCREMENT\<close> counters, which
  deletions do not reset. \<open>sub_db\<close> holds the subagent tables; its list of session ids is the
  id column of \<open>sessions\<close>, which the foreign keys there refer to.
\<close>

record daemon_db =
  sessions :: "session_row list"
  messages :: "message_row list"
  last_message_id :: int
  permission_grants :: "permission_grant_row list"
  last_grant_id :: int
  git_repos :: "git_repo_row list"
  worktrees :: "worktree_row list"
  connected_clients :: "connected_client_row list"
  sub_db :: subagent_db

datatype session_status = Idle | Active | Completed | Error

fun status_as_str :: "session_status \<Rightarrow> string" where
  "status_as_str Idle = ''idle''"
| "status_as_str Active = ''active''"
| "status_as_str Completed = ''completed''"
| "status_as_str Error = ''error''"

definition session_status_ok :: "string \<Rightarrow> bool" where
  "session_status_ok s \<longleftrightarrow> s \<in> {''idle'', ''active'', ''completed'', ''error''}"

definition message_type_ok :: "string \<Rightarrow> bool" where
  "message_type_ok s \<longleftrightarrow> s \<in> {''system'', ''assistant'', ''user'', ''result'', ''stream_event'',
     ''control_request'', ''control_response''}"

definition worktree_mode_ok :: "string \<Rightarrow> bool" where
  "worktree_mode_ok s \<longleftrightarrow> s \<in> {''global'', ''local'', ''custom''}"

definition client_type_ok :: "string \<Rightarrow> bool" where
  "client_type_ok s \<longleftrightarrow> s \<in> {''cli'', ''flutter'', ''headless''}"

abbreviation sids :: "daemon_db \<Rightarrow> string set" where
  "sids db \<equiv> set (map ss_id (sessions db))"

definition update_session :: "string \<Rightarrow> (session_row \<Rightarrow> session_row) \<Rightarrow> daemon_db \<Rightarrow> daemon_db" where
  "update_session i f db = db\<lparr>sessions := update_rows (\<lambda>r. ss_id r = i) f (sessions db)\<rparr>"

section \<open>Sessions\<close>

definition get_session :: "sqlite \<Rightarrow> string \<Rightarrow> daemon_db \<Rightarrow> database_error + session_row" where
  "get_session q i db =
     (if \<not> fst q then Inl (Query (snd q))
      else case find (\<lambda>r. ss_id r = i) (sessions db) of
        None \<Rightarrow> Inl (DbNotFound (''Session '' @ i))
      | Some r \<Rightarrow> Inr r)"

definition create_session ::
  "sqlite \<Rightarrow> sqlite \<Rightarrow> int \<Rightarrow> string \<Rightarrow> string \<Rightarrow> string \<Rightarrow> daemon_db
    \<Rightarrow> daemon_db \<times> (database_error + session_row)" where
  "create_session q q' now i model working_directory db =
     (if \<not> fst q \<or> i \<in> sids db then (db, Inl (Query (snd q)))
      else
        let db' = db\<lparr>sessions := sessions db @ [\<lparr> ss_id = i, ss_claude_session_id = None,
              ss_worktree_id = None, ss_status = ''idle'', ss_model = model,
              ss_working_directory = working_directory, ss_input_lock_client = None,
              ss_created_at = now, ss_updated_at = now, ss_total_input_tokens = 0,
              ss_total_output_tokens = 0, ss_total_cost_usd = 0, ss_last_message_preview = None,
              ss_compaction_sequence = 0, ss_name = [] \<rparr>],
              sub_db := (sub_db db)\<lparr>session_ids := session_ids (sub_db db) @ [i]\<rparr>\<rparr>
        in (db', get_session q' i db'))"

definition update_session_status ::
  "sqlite \<Rightarrow> int \<Rightarrow> string \<Rightarrow> session_status \<Rightarrow> daemon_db \<Rightarrow> daemon_db \<times> (database_error + unit)" where
  "update_session_status q now i status db =
     (if \<not> fst q then (db, Inl (Query (snd q)))
      else (update_session i (\<lambda>r. r\<lparr>ss_status := status_as_str status, ss_updated_at := now\<rparr>) db,
            Inr ()))"

definition update_claude_session_id ::
  "sqlite \<Rightarrow> int \<Rightarrow> string \<Rightarrow> string \<Rightarrow> daemon_db \<Rightarrow> daemon_db \<times> (database_error + unit)" where
  "update_claude_session_id q now i claude_session_id db =
     (if \<not> fst q then (db, Inl (Query (snd q)))
      else (update_session i
              (\<lambda>r. r\<lparr>ss_claude_session_id := Some claude_session_id, ss_updated_at := now\<rparr>) db,
            Inr ()))"

definition update_session_usage ::
  "sqlite \<Rightarrow> (f64 \<Rightarrow> f64 \<Rightarrow> f64) \<Rightarrow> int \<Rightarrow> string \<Rightarrow> int \<Rightarrow> int \<Rightarrow> f64 \<Rightarrow> daemon_db
    \<Rightarrow> daemon_db \<times> (database_error + unit)" where
  "update_session_usage q add now i input_tokens output_tokens cost_usd db =
     (if \<not> fst q then (db, Inl (Query (snd q)))
      else (update_session i
              (\<lambda>r. r\<lparr>ss_total_input_tokens := ss_total_input_tokens r + input_tokens,
                    ss_total_output_tokens := ss_total_output_tokens r + output_tokens,
                    ss_total_cost_usd := add (ss_total_cost_usd r) cost_usd,
                    ss_updated_at := now\<rparr>) db,
            Inr ()))"

definition update_session_name ::
  "sqlite \<Rightarrow> int \<Rightarrow> string \<Rightarrow> string \<Rightarrow> daemon_db \<Rightarrow> daemon_db \<times> (database_error + unit)" where
  "update_session_name q now i name db =
     (if \<not> fst q then (db, Inl (Query (snd q)))
      else if i \<notin> sids db then (db, Inl (DbNotFound (''Session '' @ i @ '' not found'')))
      else (update_session i (\<lambda>r. r\<lparr>ss_name := name, ss_updated_at := now\<rparr>) db, Inr ()))"

text \<open>
  The \<^verbatim>\<open>ON DELETE\<close> actions of the subagent tables: subagents and orchestrations of the session
  are deleted, steps of a deleted orchestration are deleted, and a step whose subagent is
  deleted loses its reference.
\<close>

definition cascade_subagents :: "string \<Rightarrow> subagent_db \<Rightarrow> subagent_db" where
  "cascade_subagents i sd =
     (let subs = filter (\<lambda>r. sa_parent_session_id r \<noteq> i) (subagents sd);
          orchs = filter (\<lambda>r. or_parent_session_id r \<noteq> i) (orchestrations sd);
          steps = filter (\<lambda>r. st_orchestration_id r \<in> set (map or_id orchs)) (orchestration_steps sd)
      in \<lparr> session_ids = filter (\<lambda>s. s \<noteq> i) (session_ids sd), subagents = subs,
           orchestrations = orchs,
           orchestration_steps = update_rows
             (\<lambda>r. case st_subagent_id r of None \<Rightarrow> False | Some s \<Rightarrow> s \<notin> set (map sa_id subs))
             (\<lambda>r. r\<lparr>st_subagent_id := None\<rparr>) steps \<rparr>)"

definition delete_session ::
  "sqlite \<Rightarrow> string \<Rightarrow> daemon_db \<Rightarrow> daemon_db \<times> (database_error + bool)" where
  "delete_session q i db =
     (if \<not> fst q then (db, Inl (Query (snd q)))
      else if i \<notin> sids db then (db, Inr False)
      else (db\<lparr>sessions := filter (\<lambda>r. ss_id r \<noteq> i) (sessions db),
              messages := filter (\<lambda>r. ms_session_id r \<noteq> i) (messages db),
              permission_grants := filter (\<lambda>r. pg_session_id r \<noteq> i) (permission_grants db),
              connected_clients := update_rows (\<lambda>r. cc_session_id r = Some i)
                (\<lambda>r. r\<lparr>cc_session_id := None\<rparr>) (connected_clients db),
              sub_db := cascade_subagents i (sub_db db)\<rparr>, Inr True))"

definition list_sessions ::
  "sqlite \<Rightarrow> string option \<Rightarrow> 32 word \<Rightarrow> 32 word \<Rightarrow> daemon_db \<Rightarrow> database_error + session_row list" where
  "list_sessions q working_directory limit off db =
     (if \<not> fst q then Inl (Query (snd q))
      else Inr (take (unat limit) (drop (unat off) (sort_key (\<lambda>r. - ss_updated_at r)
        (filter (\<lambda>r. case working_directory of None \<Rightarrow> True | Some wd \<Rightarrow> ss_working_directory r = wd)
          (sessions db))))))"

section \<open>Messages\<close>

definition insert_message ::
  "sqlite \<Rightarrow> int \<Rightarrow> string \<Rightarrow> int \<Rightarrow> string \<Rightarrow> string \<Rightarrow> daemon_db
    \<Rightarrow> daemon_db \<times> (database_error + int)" where
  "insert_message q now session_id sequence message_type payload db =
     (if \<not> fst q \<or> session_id \<notin> sids db \<or> \<not> message_type_ok message_type
        \<or> (session_id, sequence) \<in> set (map (\<lambda>r. (ms_session_id r, ms_sequence r)) (messages db))
      then (db, Inl (Query (snd q)))
      else
        let i = last_message_id db + 1
        in (db\<lparr>messages := messages db @ [\<lparr> ms_id = i, ms_session_id = session_id,
                ms_sequence = sequence, ms_message_type = message_type, ms_payload = payload,
                ms_created_at = now \<rparr>],
               last_message_id := i\<rparr>, Inr i))"

definition get_messages_from_sequence ::
  "sqlite \<Rightarrow> string \<Rightarrow> int \<Rightarrow> daemon_db \<Rightarrow> database_error + message_row list" where
  "get_messages_from_sequence q session_id from_sequence db =
     (if \<not> fst q then Inl (Query (snd q))
      else Inr (sort_key ms_sequence
        (filter (\<lambda>r. ms_session_id r = session_id \<and> ms_sequence r > from_sequence) (messages db))))"

section \<open>Permission grants\<close>

definition insert_permission_grant ::
  "sqlite \<Rightarrow> int \<Rightarrow> string \<Rightarrow> string \<Rightarrow> string option \<Rightarrow> string \<Rightarrow> daemon_db
    \<Rightarrow> daemon_db \<times> (database_error + int)" where
  "insert_permission_grant q now session_id tool_name pattern action db =
     (if \<not> fst q \<or> session_id \<notin> sids db \<or> action \<notin> {''allow'', ''deny''}
      then (db, Inl (Query (snd q)))
      else
        let i = last_grant_id db + 1
        in (db\<lparr>permission_grants := permission_grants db @ [\<lparr> pg_id = i, pg_session_id = session_id,
                pg_tool_name = tool_name, pg_pattern = pattern, pg_action = action,
                pg_created_at = now \<rparr>],
               last_grant_id := i\<rparr>, Inr i))"

text \<open>
  \<^verbatim>\<open>ORDER BY created_at DESC LIMIT 1\<close>: one of the rows of the latest second. Which one is left to
  SQLite, the argument \<open>pick\<close>.
\<close>

definition get_permission_grant ::
  "sqlite \<Rightarrow> (permission_grant_row list \<Rightarrow> permission_grant_row) \<Rightarrow> string \<Rightarrow> string \<Rightarrow> daemon_db
    \<Rightarrow> database_error + permission_grant_row option" where
  "get_permission_grant q pick session_id tool_name db =
     (if \<not> fst q then Inl (Query (snd q))
      else
        let rows = filter (\<lambda>r. pg_session_id r = session_id \<and> pg_tool_name r = tool_name)
                     (permission_grants db)
        in if rows = [] then Inr None
           else let latest = Max (set (map pg_created_at rows))
                in Inr (Some (pick (filter (\<lambda>r. pg_created_at r = latest) rows))))"

section \<open>Worktrees\<close>

definition get_worktree :: "sqlite \<Rightarrow> string \<Rightarrow> daemon_db \<Rightarrow> database_error + worktree_row" where
  "get_worktree q i db =
     (if \<not> fst q then Inl (Query (snd q))
      else case find (\<lambda>r. wt_id r = i) (worktrees db) of
        None \<Rightarrow> Inl (DbNotFound (''Worktree '' @ i))
      | Some r \<Rightarrow> Inr r)"

definition create_worktree ::
  "sqlite \<Rightarrow> sqlite \<Rightarrow> int \<Rightarrow> string \<Rightarrow> string \<Rightarrow> string \<Rightarrow> string \<Rightarrow> string \<Rightarrow> string option
    \<Rightarrow> daemon_db \<Rightarrow> daemon_db \<times> (database_error + worktree_row)" where
  "create_worktree q q' now i name path branch repo_id setup_script db =
     (if \<not> fst q \<or> i \<in> set (map wt_id (worktrees db)) \<or> path \<in> set (map wt_path (worktrees db))
        \<or> repo_id \<notin> set (map gr_id (git_repos db))
      then (db, Inl (Query (snd q)))
      else
        let db' = db\<lparr>worktrees := worktrees db @ [\<lparr> wt_id = i, wt_name = name, wt_path = path,
              wt_branch = branch, wt_repo_id = repo_id, wt_setup_script = setup_script,
              wt_created_at = now, wt_last_active = now \<rparr>]\<rparr>
        in (db', get_worktree q' i db'))"

definition list_worktrees ::
  "sqlite \<Rightarrow> string option \<Rightarrow> daemon_db \<Rightarrow> database_error + worktree_row list" where
  "list_worktrees q repo_id db =
     (if \<not> fst q then Inl (Query (snd q))
      else Inr (sort_key (\<lambda>r. - wt_last_active r)
        (filter (\<lambda>r. case repo_id of None \<Rightarrow> True | Some rid \<Rightarrow> wt_repo_id r = rid) (worktrees db))))"

definition remove_worktree ::
  "sqlite \<Rightarrow> string \<Rightarrow> daemon_db \<Rightarrow> daemon_db \<times> (database_error + bool)" where
  "remove_worktree q i db =
     (if \<not> fst q then (db, Inl (Query (snd q)))
      else (db\<lparr>sessions := update_rows (\<lambda>r. ss_worktree_id r = Some i)
                (\<lambda>r. r\<lparr>ss_worktree_id := None\<rparr>) (sessions db),
              worktrees := filter (\<lambda>r. wt_id r \<noteq> i) (worktrees db)\<rparr>,
            Inr (i \<in> set (map wt_id (worktrees db)))))"

definition touch_worktree ::
  "sqlite \<Rightarrow> int \<Rightarrow> string \<Rightarrow> daemon_db \<Rightarrow> daemon_db \<times> (database_error + unit)" where
  "touch_worktree q now i db =
     (if \<not> fst q then (db, Inl (Query (snd q)))
      else (db\<lparr>worktrees := update_rows (\<lambda>r. wt_id r = i) (\<lambda>r. r\<lparr>wt_last_active := now\<rparr>)
              (worktrees db)\<rparr>, Inr ()))"

text \<open>\<^verbatim>\<open>sessions.worktree_id\<close> is not a foreign key: the worktree need not exist.\<close>

definition bind_session_to_worktree ::
  "sqlite \<Rightarrow> int \<Rightarrow> string \<Rightarrow> string \<Rightarrow> daemon_db \<Rightarrow> daemon_db \<times> (database_error + unit)" where
  "bind_session_to_worktree q now session_id worktree_id db =
     (if \<not> fst q then (db, Inl (Query (snd q)))
      else (update_session session_id
              (\<lambda>r. r\<lparr>ss_worktree_id := Some worktree_id, ss_updated_at := now\<rparr>) db, Inr ()))"

definition get_worktree_sessions ::
  "sqlite \<Rightarrow> string \<Rightarrow> daemon_db \<Rightarrow> database_error + session_row list" where
  "get_worktree_sessions q worktree_id db =
     (if \<not> fst q then Inl (Query (snd q))
      else Inr (sort_key (\<lambda>r. - ss_updated_at r)
        (filter (\<lambda>r. ss_worktree_id r = Some worktree_id) (sessions db))))"

section \<open>Compaction\<close>

definition count_messages :: "sqlite \<Rightarrow> string \<Rightarrow> daemon_db \<Rightarrow> database_error + int" where
  "count_messages q session_id db =
     (if \<not> fst q then Inl (Query (snd q))
      else Inr (int (length (filter (\<lambda>r. ms_session_id r = session_id) (messages db)))))"

definition delete_messages_before_sequence ::
  "sqlite \<Rightarrow> string \<Rightarrow> int \<Rightarrow> daemon_db \<Rightarrow> daemon_db \<times> (database_error + 64 word)" where
  "delete_messages_before_sequence q session_id sequence db =
     (if \<not> fst q then (db, Inl (Query (snd q)))
      else
        let gone = (\<lambda>r. ms_session_id r = session_id \<and> ms_sequence r \<le> sequence)
        in (db\<lparr>messages := filter (\<lambda>r. \<not> gone r) (messages db)\<rparr>,
            Inr (of_nat (length (filter gone (messages db))))))"

definition update_compaction_sequence ::
  "sqlite \<Rightarrow> int \<Rightarrow> string \<Rightarrow> int \<Rightarrow> daemon_db \<Rightarrow> daemon_db \<times> (database_error + unit)" where
  "update_compaction_sequence q now session_id sequence db =
     (if \<not> fst q then (db, Inl (Query (snd q)))
      else (update_session session_id
              (\<lambda>r. r\<lparr>ss_compaction_sequence := sequence, ss_updated_at := now\<rparr>) db, Inr ()))"

definition max_message_sequence :: "sqlite \<Rightarrow> string \<Rightarrow> daemon_db \<Rightarrow> database_error + int" where
  "max_message_sequence q session_id db =
     (if \<not> fst q then Inl (Query (snd q))
      else
        let rows = filter (\<lambda>r. ms_session_id r = session_id) (messages db)
        in Inr (if rows = [] then 0 else Max (set (map ms_sequence rows))))"

section \<open>Input lock\<close>

definition set_client_lock :: "string \<Rightarrow> int \<Rightarrow> daemon_db \<Rightarrow> daemon_db" where
  "set_client_lock client_id v db = db\<lparr>connected_clients :=
     update_rows (\<lambda>r. cc_client_id r = client_id) (\<lambda>r. r\<lparr>cc_has_input_lock := v\<rparr>)
       (connected_clients db)\<rparr>"

definition acquire_input_lock ::
  "sqlite \<Rightarrow> int \<Rightarrow> string \<Rightarrow> string \<Rightarrow> daemon_db \<Rightarrow> daemon_db \<times> (database_error + string option)" where
  "acquire_input_lock q now session_id client_id db =
     (if \<not> fst q then (db, Inl (Query (snd q)))
      else
        let previous = (case find (\<lambda>r. ss_id r = session_id) (sessions db) of
                          None \<Rightarrow> None | Some r \<Rightarrow> ss_input_lock_client r);
            db1 = update_session session_id
                    (\<lambda>r. r\<lparr>ss_input_lock_client := Some client_id, ss_updated_at := now\<rparr>) db;
            db2 = (case previous of None \<Rightarrow> db1 | Some prev \<Rightarrow> set_client_lock prev 0 db1)
        in (set_client_lock client_id 1 db2, Inr previous))"

definition release_input_lock ::
  "sqlite \<Rightarrow> sqlite \<Rightarrow> sqlite \<Rightarrow> int \<Rightarrow> string \<Rightarrow> daemon_db \<Rightarrow> daemon_db \<times> (database_error + unit)"
  where
  "release_input_lock q q' q'' now session_id db =
     (case get_session q session_id db of
        Inl e \<Rightarrow> (db, Inl e)
      | Inr session \<Rightarrow>
          (let clear = (\<lambda>db. if \<not> fst q'' then (db, Inl (Query (snd q'')))
                 else (update_session session_id
                         (\<lambda>r. r\<lparr>ss_input_lock_client := None, ss_updated_at := now\<rparr>) db, Inr ()))
           in case ss_input_lock_client session of
                None \<Rightarrow> clear db
              | Some holder \<Rightarrow>
                  if \<not> fst q' then (db, Inl (Query (snd q')))
                  else clear (set_client_lock holder 0 db)))"

section \<open>Clients\<close>

text \<open>\<^verbatim>\<open>INSERT OR REPLACE\<close>: a row with the same key is deleted first.\<close>

definition register_client ::
  "sqlite \<Rightarrow> int \<Rightarrow> string \<Rightarrow> string \<Rightarrow> daemon_db \<Rightarrow> daemon_db \<times> (database_error + unit)" where
  "register_client q now client_id client_type db =
     (if \<not> fst q \<or> \<not> client_type_ok client_type then (db, Inl (Query (snd q)))
      else (db\<lparr>connected_clients :=
              filter (\<lambda>r. cc_client_id r \<noteq> client_id) (connected_clients db)
              @ [\<lparr> cc_client_id = client_id, cc_session_id = None, cc_client_type = client_type,
                   cc_has_input_lock = 0, cc_connected_at = now, cc_last_heartbeat = now \<rparr>]\<rparr>,
            Inr ()))"

definition update_client_heartbeat ::
  "sqlite \<Rightarrow> int \<Rightarrow> string \<Rightarrow> daemon_db \<Rightarrow> daemon_db \<times> (database_error + unit)" where
  "update_client_heartbeat q now client_id db =
     (if \<not> fst q then (db, Inl (Query (snd q)))
      else (db\<lparr>connected_clients := update_rows (\<lambda>r. cc_client_id r = client_id)
              (\<lambda>r. r\<lparr>cc_last_heartbeat := now\<rparr>) (connected_clients db)\<rparr>, Inr ()))"

definition remove_stale_clients ::
  "sqlite \<Rightarrow> int \<Rightarrow> int \<Rightarrow> daemon_db \<Rightarrow> daemon_db \<times> (database_error + 64 word)" where
  "remove_stale_clients q now max_age_secs db =
     (if \<not> fst q then (db, Inl (Query (snd q)))
      else
        let cutoff = now - max_age_secs;
            gone = (\<lambda>r. cc_last_heartbeat r < cutoff)
        in (db\<lparr>connected_clients := filter (\<lambda>r. \<not> gone r) (connected_clients db)\<rparr>,
            Inr (of_nat (length (filter gone (connected_clients db))))))"

definition unregister_client ::
  "sqlite \<Rightarrow> string \<Rightarrow> daemon_db \<Rightarrow> daemon_db \<times> (database_error + unit)" where
  "unregister_client q client_id db =
     (if \<not> fst q then (db, Inl (Query (snd q)))
      else (db\<lparr>connected_clients := filter (\<lambda>r. cc_client_id r \<noteq> client_id) (connected_clients db)\<rparr>,
            Inr ()))"

section \<open>Git repositories\<close>

record git_repo_params =
  rp_name :: string
  rp_worktree_mode :: string
  rp_local_subfolder :: string
  rp_custom_path :: "string option"
  rp_setup_script :: "string option"
  rp_auto_gitignore :: bool

definition get_git_repo :: "sqlite \<Rightarrow> string \<Rightarrow> daemon_db \<Rightarrow> database_error + git_repo_row" where
  "get_git_repo q i db =
     (if \<not> fst q then Inl (Query (snd q))
      else case find (\<lambda>r. gr_id r = i) (git_repos db) of
        None \<Rightarrow> Inl (DbNotFound (''GitRepo '' @ i))
      | Some r \<Rightarrow> Inr r)"

definition create_git_repo ::
  "sqlite \<Rightarrow> sqlite \<Rightarrow> int \<Rightarrow> string \<Rightarrow> string \<Rightarrow> git_repo_params \<Rightarrow> daemon_db
    \<Rightarrow> daemon_db \<times> (database_error + git_repo_row)" where
  "create_git_repo q q' now i repo_path params db =
     (if \<not> fst q \<or> i \<in> set (map gr_id (git_repos db)) \<or> repo_path \<in> set (map gr_repo_path (git_repos db))
        \<or> \<not> worktree_mode_ok (rp_worktree_mode params)
      then (db, Inl (Query (snd q)))
      else
        let db' = db\<lparr>git_repos := git_repos db @ [\<lparr> gr_id = i, gr_name = rp_name params,
              gr_repo_path = repo_path, gr_worktree_mode = rp_worktree_mode params,
              gr_local_subfolder = rp_local_subfolder params,
              gr_custom_path = rp_custom_path params, gr_setup_script = rp_setup_script params,
              gr_auto_gitignore = (if rp_auto_gitignore params then 1 else 0),
              gr_created_at = now, gr_last_active = now \<rparr>]\<rparr>
        in (db', get_git_repo q' i db'))"

definition get_git_repo_by_path ::
  "sqlite \<Rightarrow> string \<Rightarrow> daemon_db \<Rightarrow> database_error + git_repo_row" where
  "get_git_repo_by_path q repo_path db =
     (if \<not> fst q then Inl (Query (snd q))
      else case find (\<lambda>r. gr_repo_path r = repo_path) (git_repos db) of
        None \<Rightarrow> Inl (DbNotFound (''GitRepo at '' @ repo_path))
      | Some r \<Rightarrow> Inr r)"

definition list_git_repos :: "sqlite \<Rightarrow> daemon_db \<Rightarrow> database_error + git_repo_row list" where
  "list_git_repos q db =
     (if \<not> fst q then Inl (Query (snd q))
      else Inr (sort_key (\<lambda>r. - gr_last_active r) (git_repos db)))"

definition list_git_repos_paginated ::
  "sqlite \<Rightarrow> 32 word \<Rightarrow> 32 word \<Rightarrow> daemon_db \<Rightarrow> database_error + git_repo_row list" where
  "list_git_repos_paginated q limit off db =
     (if \<not> fst q then Inl (Query (snd q))
      else
        let rows = drop (unat off) (sort_key (\<lambda>r. - gr_last_active r) (git_repos db))
        in Inr (if limit = 0 then rows else take (unat limit) rows))"

definition set_repo_params :: "git_repo_params \<Rightarrow> int \<Rightarrow> git_repo_row \<Rightarrow> git_repo_row" where
  "set_repo_params params now r = r\<lparr>gr_name := rp_name params,
     gr_worktree_mode := rp_worktree_mode params, gr_local_subfolder := rp_local_subfolder params,
     gr_custom_path := rp_custom_path params, gr_setup_script := rp_setup_script params,
     gr_auto_gitignore := (if rp_auto_gitignore params then 1 else 0), gr_last_active := now\<rparr>"

definition update_git_repo ::
  "sqlite \<Rightarrow> sqlite \<Rightarrow> int \<Rightarrow> string \<Rightarrow> git_repo_params \<Rightarrow> daemon_db
    \<Rightarrow> daemon_db \<times> (database_error + git_repo_row)" where
  "update_git_repo q q' now i params db =
     (if \<not> fst q \<or> (i \<in> set (map gr_id (git_repos db)) \<and> \<not> worktree_mode_ok (rp_worktree_mode params))
      then (db, Inl (Query (snd q)))
      else
        let db' = db\<lparr>git_repos := update_rows (\<lambda>r. gr_id r = i) (set_repo_params params now)
                       (git_repos db)\<rparr>
        in (db', get_git_repo q' i db'))"

definition update_git_repo_partial ::
  "sqlite \<Rightarrow> int \<Rightarrow> string \<Rightarrow> string option \<Rightarrow> string option \<Rightarrow> string option
    \<Rightarrow> string option option \<Rightarrow> string option option \<Rightarrow> bool option \<Rightarrow> daemon_db
    \<Rightarrow> daemon_db \<times> (database_error + git_repo_row)" where
  "update_git_repo_partial q now i name worktree_mode local_subfolder custom_path setup_script
      auto_gitignore db =
     (if \<not> fst q then (db, Inl (Query (snd q)))
      else case find (\<lambda>r. gr_id r = i) (git_repos db) of
        None \<Rightarrow> (db, Inl (DbNotFound (''GitRepo '' @ i)))
      | Some existing \<Rightarrow>
          (let merged = \<lparr> rp_name = (case name of None \<Rightarrow> gr_name existing | Some v \<Rightarrow> v),
                 rp_worktree_mode =
                   (case worktree_mode of None \<Rightarrow> gr_worktree_mode existing | Some v \<Rightarrow> v),
                 rp_local_subfolder =
                   (case local_subfolder of None \<Rightarrow> gr_local_subfolder existing | Some v \<Rightarrow> v),
                 rp_custom_path = (case custom_path of None \<Rightarrow> gr_custom_path existing | Some v \<Rightarrow> v),
                 rp_setup_script =
                   (case setup_script of None \<Rightarrow> gr_setup_script existing | Some v \<Rightarrow> v),
                 rp_auto_gitignore =
                   (case auto_gitignore of None \<Rightarrow> gr_auto_gitignore existing \<noteq> 0 | Some v \<Rightarrow> v) \<rparr>
           in if \<not> worktree_mode_ok (rp_worktree_mode merged) then (db, Inl (Query (snd q)))
              else (db\<lparr>git_repos := update_rows (\<lambda>r. gr_id r = i) (set_repo_params merged now)
                      (git_repos db)\<rparr>, Inr (set_repo_params merged now existing))))"

definition remove_git_repo ::
  "sqlite \<Rightarrow> string \<Rightarrow> daemon_db \<Rightarrow> daemon_db \<times> (database_error + bool)" where
  "remove_git_repo q i db =
     (if \<not> fst q then (db, Inl (Query (snd q)))
      else
        let own = map wt_id (filter (\<lambda>w. wt_repo_id w = i) (worktrees db))
        in (db\<lparr>sessions := update_rows
                (\<lambda>r. case ss_worktree_id r of None \<Rightarrow> False | Some w \<Rightarrow> w \<in> set own)
                (\<lambda>r. r\<lparr>ss_worktree_id := None\<rparr>) (sessions db),
              worktrees := filter (\<lambda>w. wt_repo_id w \<noteq> i) (worktrees db),
              git_repos := filter (\<lambda>r. gr_id r \<noteq> i) (git_repos db)\<rparr>,
            Inr (i \<in> set (map gr_id (git_repos db)))))"

definition count_worktrees_for_repo :: "sqlite \<Rightarrow> string \<Rightarrow> daemon_db \<Rightarrow> database_error + 32 word" where
  "count_worktrees_for_repo q repo_id db =
     (if \<not> fst q then Inl (Query (snd q))
      else Inr (of_nat (length (filter (\<lambda>w. wt_repo_id w = repo_id) (worktrees db)))))"

definition count_worktrees_by_repo ::
  "sqlite \<Rightarrow> daemon_db \<Rightarrow> database_error + (string, 32 word) hmap" where
  "count_worktrees_by_repo q db =
     (if \<not> fst q then Inl (Query (snd q))
      else Inr (map (\<lambda>i. (i, of_nat (length (filter (\<lambda>w. wt_repo_id w = i) (worktrees db)))))
        (remdups (map wt_repo_id (worktrees db)))))"

definition count_git_repos :: "sqlite \<Rightarrow> daemon_db \<Rightarrow> database_error + 32 word" where
  "count_git_repos q db =
     (if \<not> fst q then Inl (Query (snd q)) else Inr (of_nat (length (git_repos db))))"

definition touch_git_repo ::
  "sqlite \<Rightarrow> int \<Rightarrow> string \<Rightarrow> daemon_db \<Rightarrow> daemon_db \<times> (database_error + unit)" where
  "touch_git_repo q now i db =
     (if \<not> fst q then (db, Inl (Query (snd q)))
      else (db\<lparr>git_repos := update_rows (\<lambda>r. gr_id r = i) (\<lambda>r. r\<lparr>gr_last_active := now\<rparr>)
              (git_repos db)\<rparr>, Inr ()))"

section \<open>Integrity of the schema\<close>

definition sessions_wf :: "daemon_db \<Rightarrow> bool" where
  "sessions_wf db \<longleftrightarrow> distinct (map ss_id (sessions db))
     \<and> list_all (\<lambda>r. session_status_ok (ss_status r)) (sessions db)"

definition messages_wf :: "daemon_db \<Rightarrow> bool" where
  "messages_wf db \<longleftrightarrow> distinct (map ms_id (messages db))
     \<and> distinct (map (\<lambda>r. (ms_session_id r, ms_sequence r)) (messages db))
     \<and> list_all (\<lambda>r. ms_id r \<le> last_message_id db \<and> ms_session_id r \<in> sids db
           \<and> message_type_ok (ms_message_type r)) (messages db)"

definition grants_wf :: "daemon_db \<Rightarrow> bool" where
  "grants_wf db \<longleftrightarrow> distinct (map pg_id (permission_grants db))
     \<and> list_all (\<lambda>r. pg_id r \<le> last_grant_id db \<and> pg_session_id r \<in> sids db
           \<and> pg_action r \<in> {''allow'', ''deny''}) (permission_grants db)"

definition repos_wf :: "daemon_db \<Rightarrow> bool" where
  "repos_wf db \<longleftrightarrow> distinct (map gr_id (git_repos db)) \<and> distinct (map gr_repo_path (git_repos db))
     \<and> list_all (\<lambda>r. worktree_mode_ok (gr_worktree_mode r) \<and> gr_auto_gitignore r \<in> {0, 1}) (git_repos db)"

definition worktrees_wf :: "daemon_db \<Rightarrow> bool" where
  "worktrees_wf db \<longleftrightarrow> distinct (map wt_id (worktrees db)) \<and> distinct (map wt_path (worktrees db))
     \<and> list_all (\<lambda>r. wt_repo_id r \<in> set (map gr_id (git_repos db))) (worktrees db)"

definition clients_wf :: "daemon_db \<Rightarrow> bool" where
  "clients_wf db \<longleftrightarrow> distinct (map cc_client_id (connected_clients db))
     \<and> list_all (\<lambda>r. client_type_ok (cc_client_type r) \<and> cc_has_input_lock r \<in> {0, 1}
           \<and> (case cc_session_id r of None \<Rightarrow> True | Some s \<Rightarrow> s \<in> sids db)) (connected_clients db)"

definition subagents_wf :: "daemon_db \<Rightarrow> bool" where
  "subagents_wf db \<longleftrightarrow> store_wf (sub_db db) \<and> session_ids (sub_db db) = map ss_id (sessions db)"

definition db_wf :: "daemon_db \<Rightarrow> bool" where
  "db_wf db \<longleftrightarrow> sessions_wf db \<and> messages_wf db \<and> grants_wf db \<and> repos_wf db \<and> worktrees_wf db
     \<and> clients_wf db \<and> subagents_wf db"

lemmas table_wf_defs = sessions_wf_def messages_wf_def grants_wf_def repos_wf_def worktrees_wf_def
  clients_wf_def subagents_wf_def

text \<open>The state after the migrations: every table is empty.\<close>

definition empty_db :: daemon_db where
  "empty_db = \<lparr> sessions = [], messages = [], last_message_id = 0, permission_grants = [],
     last_grant_id = 0, git_repos = [], worktrees = [], connected_clients = [],
     sub_db = \<lparr> session_ids = [], subagents = [], orchestrations = [], orchestration_steps = [] \<rparr> \<rparr>"

lemma distinct_map_filter_neq [intro]: "distinct (map g xs) \<Longrightarrow> distinct (map g (filter p xs))"
  by (rule distinct_map_filter)

lemma list_all_filterI [intro]: "list_all P xs \<Longrightarrow> list_all P (filter p xs)"
  by (auto simp: list_all_iff)

lemma list_all_weaken: "list_all P xs \<Longrightarrow> (\<And>x. x \<in> set xs \<Longrightarrow> P x \<Longrightarrow> Q x) \<Longrightarrow> list_all Q xs"
  by (auto simp: list_all_iff)

subsection \<open>Statements on one table\<close>

lemma map_ids_image: "map g xs = map g ys \<Longrightarrow> g ` set xs = g ` set ys"
  by (metis set_map)

lemma update_session_wf:
  assumes wf: "db_wf db" and f: "\<And>r. ss_id (f r) = ss_id r"
    and ok: "\<And>r. session_status_ok (ss_status r) \<Longrightarrow> session_status_ok (ss_status (f r))"
  shows "db_wf (db\<lparr>sessions := update_rows p f (sessions db)\<rparr>)"
proof -
  have ids: "map ss_id (update_rows p f (sessions db)) = map ss_id (sessions db)"
    by (rule update_rows_map) (rule f)
  show ?thesis using wf update_rows_all [where P = "\<lambda>r. session_status_ok (ss_status r)", OF _ ok]
    by (simp add: db_wf_def table_wf_defs ids map_ids_image [OF ids] cong: option.case_cong)
qed

lemma update_clients_wf:
  assumes wf: "db_wf db" and f: "\<And>r. cc_client_id (f r) = cc_client_id r"
    and ty: "\<And>r. cc_client_type (f r) = cc_client_type r"
    and ok: "\<And>r. cc_has_input_lock r \<in> {0, 1} \<Longrightarrow> cc_has_input_lock (f r) \<in> {0, 1}"
    and s: "\<And>r. cc_session_id (f r) = cc_session_id r"
  shows "db_wf (db\<lparr>connected_clients := update_rows p f (connected_clients db)\<rparr>)"
proof -
  have ids: "map cc_client_id (update_rows p f (connected_clients db)) = map cc_client_id (connected_clients db)"
    by (rule update_rows_map) (rule f)
  have "list_all (\<lambda>r. client_type_ok (cc_client_type r) \<and> cc_has_input_lock r \<in> {0, 1}
      \<and> (case cc_session_id r of None \<Rightarrow> True | Some s \<Rightarrow> s \<in> sids db)) (update_rows p f (connected_clients db))"
    using wf ok by (intro update_rows_all) (auto simp: db_wf_def clients_wf_def ty s)
  with wf show ?thesis by (simp add: db_wf_def table_wf_defs ids cong: option.case_cong)
qed

lemma set_client_lock_wf: "db_wf db \<Longrightarrow> v \<in> {0, 1} \<Longrightarrow> db_wf (set_client_lock c v db)"
  unfolding set_client_lock_def by (rule update_clients_wf) auto

lemma filter_clients_wf:
  "db_wf db \<Longrightarrow> db_wf (db\<lparr>connected_clients := filter p (connected_clients db)\<rparr>)"
  by (auto simp: db_wf_def table_wf_defs cong: option.case_cong)

lemma create_session_wf:
  assumes "db_wf db"
  shows "db_wf (fst (create_session q q' now i m wd db))"
proof (cases "\<not> fst q \<or> i \<in> sids db")
  case False
  show ?thesis
    using False assms
    by (auto simp: db_wf_def table_wf_defs create_session_def Let_def session_status_ok_def list_all_iff
          store_wf_def split: option.splits)
qed (use assms in \<open>auto simp: create_session_def\<close>)

lemma update_session_status_wf: "db_wf db \<Longrightarrow> db_wf (fst (update_session_status q now i st db))"
  by (cases st) (auto simp: update_session_status_def update_session_def session_status_ok_def
                      intro!: update_session_wf)

lemma update_claude_session_id_wf: "db_wf db \<Longrightarrow> db_wf (fst (update_claude_session_id q now i c db))"
  by (auto simp: update_claude_session_id_def update_session_def intro!: update_session_wf)

lemma update_session_usage_wf: "db_wf db \<Longrightarrow> db_wf (fst (update_session_usage q add now i a b c db))"
  by (auto simp: update_session_usage_def update_session_def intro!: update_session_wf)

lemma update_session_name_wf: "db_wf db \<Longrightarrow> db_wf (fst (update_session_name q now i n db))"
  by (auto simp: update_session_name_def update_session_def intro!: update_session_wf)

lemma bind_session_wf: "db_wf db \<Longrightarrow> db_wf (fst (bind_session_to_worktree q now i w db))"
  by (auto simp: bind_session_to_worktree_def update_session_def intro!: update_session_wf)

lemma update_compaction_sequence_wf: "db_wf db \<Longrightarrow> db_wf (fst (update_compaction_sequence q now i n db))"
  by (auto simp: update_compaction_sequence_def update_session_def intro!: update_session_wf)

lemma insert_message_wf: "db_wf db \<Longrightarrow> db_wf (fst (insert_message q now s n ty p db))"
  by (auto simp: db_wf_def table_wf_defs insert_message_def Let_def list_all_iff cong: option.case_cong)

lemma delete_messages_wf: "db_wf db \<Longrightarrow> db_wf (fst (delete_messages_before_sequence q s n db))"
  by (auto simp: db_wf_def table_wf_defs delete_messages_before_sequence_def Let_def cong: option.case_cong)

lemma insert_permission_grant_wf: "db_wf db \<Longrightarrow> db_wf (fst (insert_permission_grant q now s t p a db))"
  by (auto simp: db_wf_def table_wf_defs insert_permission_grant_def Let_def list_all_iff cong: option.case_cong)

lemma create_worktree_wf: "db_wf db \<Longrightarrow> db_wf (fst (create_worktree q q' now i n p b r s db))"
  by (auto simp: db_wf_def table_wf_defs create_worktree_def Let_def list_all_iff cong: option.case_cong)

lemma touch_worktree_wf:
  assumes "db_wf db"
  shows "db_wf (fst (touch_worktree q now i db))"
proof -
  let ?u = "update_rows (\<lambda>r. wt_id r = i) (\<lambda>r. r\<lparr>wt_last_active := now\<rparr>) (worktrees db)"
  have "map wt_id ?u = map wt_id (worktrees db)" "map wt_path ?u = map wt_path (worktrees db)"
    by (simp_all add: update_rows_map)
  with assms show ?thesis
    by (auto simp: db_wf_def table_wf_defs touch_worktree_def cong: option.case_cong intro!: update_rows_all)
qed

lemma remove_worktree_wf:
  assumes "db_wf db"
  shows "db_wf (fst (remove_worktree q i db))"
proof -
  have "db_wf (db\<lparr>sessions := update_rows (\<lambda>r. ss_worktree_id r = Some i)
                (\<lambda>r. r\<lparr>ss_worktree_id := None\<rparr>) (sessions db)\<rparr>)" (is "db_wf ?db")
    using assms by (rule update_session_wf) simp_all
  then have "db_wf (?db\<lparr>worktrees := filter (\<lambda>r. wt_id r \<noteq> i) (worktrees ?db)\<rparr>)"
    by (auto simp: db_wf_def table_wf_defs cong: option.case_cong)
  with assms show ?thesis by (simp add: remove_worktree_def)
qed

lemma create_git_repo_wf: "db_wf db \<Longrightarrow> db_wf (fst (create_git_repo q q' now i p ps db))"
  by (auto simp: db_wf_def table_wf_defs create_git_repo_def Let_def list_all_iff cong: option.case_cong)

lemma update_repos_wf:
  assumes wf: "db_wf db" and f: "\<And>r. gr_id (f r) = gr_id r" and pa: "\<And>r. gr_repo_path (f r) = gr_repo_path r"
    and ok: "\<And>r. worktree_mode_ok (gr_worktree_mode r) \<Longrightarrow> gr_auto_gitignore r \<in> {0, 1} \<Longrightarrow>
      worktree_mode_ok (gr_worktree_mode (f r)) \<and> gr_auto_gitignore (f r) \<in> {0, 1}"
  shows "db_wf (db\<lparr>git_repos := update_rows p f (git_repos db)\<rparr>)"
proof -
  have ids: "map gr_id (update_rows p f (git_repos db)) = map gr_id (git_repos db)"
    and "map gr_repo_path (update_rows p f (git_repos db)) = map gr_repo_path (git_repos db)"
    by (rule update_rows_map, rule f, rule update_rows_map, rule pa)
  moreover have "list_all (\<lambda>r. worktree_mode_ok (gr_worktree_mode r) \<and> gr_auto_gitignore r \<in> {0, 1})
      (update_rows p f (git_repos db))"
    using wf ok by (intro update_rows_all) (simp_all add: db_wf_def repos_wf_def)
  ultimately show ?thesis using wf
    by (simp add: db_wf_def table_wf_defs map_ids_image [OF ids] cong: option.case_cong)
qed

lemma set_repo_params_wf:
  "db_wf db \<Longrightarrow> worktree_mode_ok (rp_worktree_mode ps) \<Longrightarrow>
     db_wf (db\<lparr>git_repos := update_rows p (set_repo_params ps now) (git_repos db)\<rparr>)"
  by (rule update_repos_wf) (simp_all add: set_repo_params_def)

lemma update_git_repo_wf:
  assumes "db_wf db"
  shows "db_wf (fst (update_git_repo q q' now i ps db))"
proof (cases "worktree_mode_ok (rp_worktree_mode ps) \<or> i \<in> set (map gr_id (git_repos db))")
  case False
  then have "update_rows (\<lambda>r. gr_id r = i) (set_repo_params ps now) (git_repos db) = git_repos db"
    by (intro update_rows_none) auto
  with assms show ?thesis by (simp add: update_git_repo_def Let_def)
qed (use assms in \<open>auto simp: update_git_repo_def Let_def intro: set_repo_params_wf\<close>)

lemma update_git_repo_partial_wf:
  "db_wf db \<Longrightarrow> db_wf (fst (update_git_repo_partial q now i n wm ls cp sc ag db))"
  unfolding update_git_repo_partial_def Let_def
  by (auto intro!: set_repo_params_wf split: option.split)

lemma touch_git_repo_wf: "db_wf db \<Longrightarrow> db_wf (fst (touch_git_repo q now i db))"
  by (auto simp: touch_git_repo_def intro!: update_repos_wf)

lemma remove_git_repo_wf:
  assumes "db_wf db"
  shows "db_wf (fst (remove_git_repo q i db))"
proof -
  have "db_wf (db\<lparr>sessions := update_rows
      (\<lambda>r. case ss_worktree_id r of None \<Rightarrow> False
           | Some w \<Rightarrow> w \<in> set (map wt_id (filter (\<lambda>w. wt_repo_id w = i) (worktrees db))))
      (\<lambda>r. r\<lparr>ss_worktree_id := None\<rparr>) (sessions db)\<rparr>)" (is "db_wf ?db")
    using assms by (rule update_session_wf) simp_all
  then have "db_wf (?db\<lparr>worktrees := filter (\<lambda>w. wt_repo_id w \<noteq> i) (worktrees ?db),
                        git_repos := filter (\<lambda>r. gr_id r \<noteq> i) (git_repos ?db)\<rparr>)"
    by (auto simp: db_wf_def table_wf_defs list_all_iff cong: option.case_cong)
  with assms show ?thesis by (simp add: remove_git_repo_def Let_def cong: option.case_cong)
qed

lemma acquire_input_lock_wf: "db_wf db \<Longrightarrow> db_wf (fst (acquire_input_lock q now s c db))"
  by (auto simp: acquire_input_lock_def Let_def update_session_def
           intro!: set_client_lock_wf update_session_wf split: option.splits)

lemma release_input_lock_wf: "db_wf db \<Longrightarrow> db_wf (fst (release_input_lock q q' q'' now s db))"
  by (auto simp: release_input_lock_def Let_def update_session_def
           intro!: set_client_lock_wf update_session_wf split: option.splits sum.splits)

lemma register_client_wf:
  assumes "db_wf db"
  shows "db_wf (fst (register_client q now c ty db))"
  using filter_clients_wf [OF assms, of "\<lambda>r. cc_client_id r \<noteq> c"] assms
  by (auto simp: register_client_def db_wf_def table_wf_defs cong: option.case_cong)

lemma update_client_heartbeat_wf: "db_wf db \<Longrightarrow> db_wf (fst (update_client_heartbeat q now c db))"
  by (auto simp: update_client_heartbeat_def intro!: update_clients_wf)

lemma remove_stale_clients_wf: "db_wf db \<Longrightarrow> db_wf (fst (remove_stale_clients q now a db))"
  by (auto simp: remove_stale_clients_def Let_def intro!: filter_clients_wf)

lemma unregister_client_wf: "db_wf db \<Longrightarrow> db_wf (fst (unregister_client q c db))"
  by (auto simp: unregister_client_def intro!: filter_clients_wf)

subsection \<open>Deleting a session\<close>

lemma cascade_subagents_wf:
  assumes "store_wf sd"
  shows "store_wf (cascade_subagents i sd)"
proof -
  let ?subs = "filter (\<lambda>r. sa_parent_session_id r \<noteq> i) (subagents sd)"
  let ?orchs = "filter (\<lambda>r. or_parent_session_id r \<noteq> i) (orchestrations sd)"
  let ?steps = "filter (\<lambda>r. st_orchestration_id r \<in> set (map or_id ?orchs)) (orchestration_steps sd)"
  let ?upd = "update_rows
      (\<lambda>r. case st_subagent_id r of None \<Rightarrow> False | Some s \<Rightarrow> s \<notin> set (map sa_id ?subs))
      (\<lambda>r. r\<lparr>st_subagent_id := None\<rparr>) ?steps"
  have "map st_id ?upd = map st_id ?steps" by (simp add: update_rows_map)
  then have "distinct (map st_id ?upd)" using assms by (auto simp: store_wf_def)
  moreover have "list_all (\<lambda>r. st_orchestration_id r \<in> set (map or_id ?orchs) \<and> step_status_ok (st_status r)
      \<and> (case st_subagent_id r of None \<Rightarrow> True | Some s \<Rightarrow> s \<in> set (map sa_id ?subs))) ?upd"
  proof -
    define S O' where "S = set (map sa_id ?subs)" and "O' = set (map or_id ?orchs)"
    have "step_status_ok (st_status r)" if "r \<in> set (orchestration_steps sd)" for r
      using assms that by (simp add: store_wf_def list_all_iff)
    then show ?thesis
      unfolding update_rows_def list_all_iff S_def [symmetric] O'_def [symmetric]
      by (auto split: option.splits)
  qed
  moreover have "list_all (\<lambda>r. sa_parent_session_id r \<in> set (filter (\<lambda>s. s \<noteq> i) (session_ids sd))
      \<and> subagent_status_ok (sa_status r) \<and> sa_auto_approve r \<in> {0, 1}) ?subs"
    using assms by (auto simp: store_wf_def list_all_iff)
  moreover have "list_all (\<lambda>r. or_parent_session_id r \<in> set (filter (\<lambda>s. s \<noteq> i) (session_ids sd))
      \<and> strategy_ok (or_strategy r) \<and> orchestration_status_ok (or_status r)) ?orchs"
    using assms by (auto simp: store_wf_def list_all_iff)
  moreover have "distinct (map sa_id ?subs)" "distinct (map or_id ?orchs)"
    using assms by (auto simp: store_wf_def)
  ultimately show ?thesis
    unfolding cascade_subagents_def Let_def store_wf_def by (simp only: subagent_db.select_convs)
qed

lemma delete_session_wf:
  assumes "db_wf db"
  shows "db_wf (fst (delete_session q i db))"
proof (cases "fst q \<and> i \<in> sids db")
  case True
  let ?db = "fst (delete_session q i db)"
  let ?cl = "update_rows (\<lambda>r. cc_session_id r = Some i) (\<lambda>r. r\<lparr>cc_session_id := None\<rparr>) (connected_clients db)"
  have ids: "map cc_client_id ?cl = map cc_client_id (connected_clients db)" by (simp add: update_rows_map)
  have rest: "s \<in> ss_id ` {x \<in> set (sessions db). ss_id x \<noteq> i}" if "s \<in> ss_id ` set (sessions db)" "s \<noteq> i" for s
    using that by auto
  have "list_all (\<lambda>r. client_type_ok (cc_client_type r) \<and> cc_has_input_lock r \<in> {0, 1}
      \<and> (case cc_session_id r of None \<Rightarrow> True | Some s \<Rightarrow> s \<in> ss_id ` {x \<in> set (sessions db). ss_id x \<noteq> i})) ?cl"
    using assms unfolding db_wf_def clients_wf_def update_rows_def list_all_iff
    by (auto intro!: rest split: option.splits)
  then have "clients_wf ?db"
    using assms True ids by (simp add: delete_session_def db_wf_def clients_wf_def cong: option.case_cong)
  moreover have "subagents_wf ?db"
    using assms True cascade_subagents_wf [of "sub_db db" i]
    by (auto simp: delete_session_def db_wf_def subagents_wf_def cascade_subagents_def Let_def filter_map o_def)
  moreover have "sessions_wf ?db" "messages_wf ?db" "grants_wf ?db" "repos_wf ?db" "worktrees_wf ?db"
    using assms True
    by (auto simp: delete_session_def db_wf_def table_wf_defs list_all_iff)
  ultimately show ?thesis by (simp add: db_wf_def)
qed (use assms in \<open>auto simp: delete_session_def\<close>)

section \<open>All statements\<close>

text \<open>One step of the database: any writing statement of the daemon, with any outcome.\<close>

inductive db_step :: "daemon_db \<Rightarrow> daemon_db \<Rightarrow> bool" where
  step_create_session: "db_step db (fst (create_session q q' now i m wd db))"
| step_session_status: "db_step db (fst (update_session_status q now i st db))"
| step_claude_id: "db_step db (fst (update_claude_session_id q now i c db))"
| step_usage: "db_step db (fst (update_session_usage q add now i a b u db))"
| step_name: "db_step db (fst (update_session_name q now i n db))"
| step_delete_session: "db_step db (fst (delete_session q i db))"
| step_message: "db_step db (fst (insert_message q now i n ty p db))"
| step_grant: "db_step db (fst (insert_permission_grant q now i t pat act db))"
| step_create_worktree: "db_step db (fst (create_worktree q q' now w n pth b r sc db))"
| step_remove_worktree: "db_step db (fst (remove_worktree q w db))"
| step_touch_worktree: "db_step db (fst (touch_worktree q now w db))"
| step_bind: "db_step db (fst (bind_session_to_worktree q now i w db))"
| step_delete_messages: "db_step db (fst (delete_messages_before_sequence q i n db))"
| step_compaction: "db_step db (fst (update_compaction_sequence q now i n db))"
| step_acquire: "db_step db (fst (acquire_input_lock q now i c db))"
| step_release: "db_step db (fst (release_input_lock q q' q'' now i db))"
| step_register: "db_step db (fst (register_client q now c ty db))"
| step_heartbeat: "db_step db (fst (update_client_heartbeat q now c db))"
| step_stale: "db_step db (fst (remove_stale_clients q now age db))"
| step_unregister: "db_step db (fst (unregister_client q c db))"
| step_create_repo: "db_step db (fst (create_git_repo q q' now r pth ps db))"
| step_update_repo: "db_step db (fst (update_git_repo q q' now r ps db))"
| step_update_partial: "db_step db (fst (update_git_repo_partial q now r n wm ls cp sc ag db))"
| step_remove_repo: "db_step db (fst (remove_git_repo q r db))"
| step_touch_repo: "db_step db (fst (touch_git_repo q now r db))"
| step_subagent: "db_step db (db\<lparr>sub_db := fst (create_subagent q q' now i p pr mo mt aa tls wd (sub_db db))\<rparr>)"
| step_subagent_status: "db_step db (db\<lparr>sub_db := fst (update_subagent_status q now i st ec rs (sub_db db))\<rparr>)"
| step_orchestration: "db_step db (db\<lparr>sub_db := fst (create_orchestration q q' now i p st (sub_db db))\<rparr>)"
| step_orchestration_status: "db_step db (db\<lparr>sub_db := fst (update_orchestration_status q now i st (sub_db db))\<rparr>)"
| step_orch_step: "db_step db (db\<lparr>sub_db := fst (create_orchestration_step q q' now i oi ix p d (sub_db db))\<rparr>)"
| step_orch_step_status: "db_step db (db\<lparr>sub_db := fst (update_step_status q i st sub (sub_db db))\<rparr>)"

lemmas statement_wf = create_session_wf update_session_status_wf update_claude_session_id_wf
  update_session_usage_wf update_session_name_wf delete_session_wf insert_message_wf
  insert_permission_grant_wf create_worktree_wf remove_worktree_wf touch_worktree_wf bind_session_wf
  delete_messages_wf update_compaction_sequence_wf acquire_input_lock_wf release_input_lock_wf
  register_client_wf update_client_heartbeat_wf remove_stale_clients_wf unregister_client_wf
  create_git_repo_wf update_git_repo_wf update_git_repo_partial_wf remove_git_repo_wf touch_git_repo_wf

text \<open>The subagent statements read the session ids and do not change them.\<close>

lemma sub_session_ids:
  "session_ids (fst (create_subagent q q' now i p pr mo mt aa tls wd sd)) = session_ids sd"
  "session_ids (fst (update_subagent_status q now i st ec rs sd)) = session_ids sd"
  "session_ids (fst (create_orchestration q q' now i p st sd)) = session_ids sd"
  "session_ids (fst (update_orchestration_status q now i st sd)) = session_ids sd"
  "session_ids (fst (create_orchestration_step q q' now i oi ix p d sd)) = session_ids sd"
  "session_ids (fst (update_step_status q i st sub sd)) = session_ids sd"
  by (simp_all add: create_subagent_def update_subagent_status_def create_orchestration_def
        update_orchestration_status_def create_orchestration_step_def update_step_status_def Let_def)

lemma sub_statement_wf:
  "db_wf db \<Longrightarrow> store_wf sd \<Longrightarrow> session_ids sd = session_ids (sub_db db) \<Longrightarrow> db_wf (db\<lparr>sub_db := sd\<rparr>)"
  by (simp add: db_wf_def table_wf_defs cong: option.case_cong)

lemma db_step_wf:
  assumes "db_wf db" and "db_step db db'"
  shows "db_wf db'"
proof -
  have sd: "store_wf (sub_db db)" using assms(1) by (simp add: db_wf_def subagents_wf_def)
  show ?thesis
    using assms(2)
    by (cases rule: db_step.cases)
       (use assms(1) sd in \<open>simp_all only: statement_wf create_subagent_wf update_subagent_status_wf
          create_orchestration_wf update_orchestration_status_wf create_orchestration_step_wf
          update_step_status_wf sub_session_ids sub_statement_wf\<close>)
qed

lemma empty_db_wf: "db_wf empty_db"
  by (simp add: db_wf_def table_wf_defs empty_db_def store_wf_def)

interpretation db_run: step_system "\<lambda>db. db = empty_db" db_step db_wf
  by unfold_locales (auto simp: empty_db_wf intro: db_step_wf)

section \<open>Properties\<close>

text \<open>The rows that belong to a session.\<close>

definition session_view ::
  "string \<Rightarrow> daemon_db \<Rightarrow> session_row option \<times> message_row list \<times> permission_grant_row list
     \<times> subagent_row list \<times> orchestration_row list" where
  "session_view s db = (find (\<lambda>r. ss_id r = s) (sessions db),
     filter (\<lambda>r. ms_session_id r = s) (messages db),
     filter (\<lambda>r. pg_session_id r = s) (permission_grants db),
     filter (\<lambda>r. sa_parent_session_id r = s) (subagents (sub_db db)),
     filter (\<lambda>r. or_parent_session_id r = s) (orchestrations (sub_db db)))"

lemma find_filter_other: "(\<And>x. p x \<Longrightarrow> g x) \<Longrightarrow> find p (filter g xs) = find p xs"
  by (induction xs) auto

lemma view_other:
  "s \<noteq> i \<Longrightarrow> session_view s (fst (delete_session q i db)) = session_view s db"
  unfolding session_view_def delete_session_def
  by (auto simp: cascade_subagents_def Let_def find_filter_other intro!: filter_cong)

lemma view_deleted:
  assumes "db_wf db" and "fst q"
  shows "session_view i (fst (delete_session q i db)) = (None, [], [], [], [])"
proof (cases "i \<in> sids db")
  case False
  then have "ss_id r \<noteq> i" if "r \<in> set (sessions db)" for r using that by auto
  moreover have "ms_session_id r \<noteq> i" if "r \<in> set (messages db)" for r
    using assms(1) False that by (auto simp: db_wf_def messages_wf_def list_all_iff)
  moreover have "pg_session_id r \<noteq> i" if "r \<in> set (permission_grants db)" for r
    using assms(1) False that by (auto simp: db_wf_def grants_wf_def list_all_iff)
  moreover have "sa_parent_session_id r \<noteq> i" if "r \<in> set (subagents (sub_db db))" for r
    using assms(1) False that by (auto simp: db_wf_def subagents_wf_def store_wf_def list_all_iff)
  moreover have "or_parent_session_id r \<noteq> i" if "r \<in> set (orchestrations (sub_db db))" for r
    using assms(1) False that by (auto simp: db_wf_def subagents_wf_def store_wf_def list_all_iff)
  ultimately show ?thesis
    using False assms(2)
    by (simp add: session_view_def delete_session_def find_None_iff filter_empty_conv del: set_map)
qed (use assms(2) in \<open>auto simp: session_view_def delete_session_def cascade_subagents_def Let_def
       find_None_iff filter_empty_conv\<close>)

text \<open>A database with two sessions, a message and a grant of each, and a bound worktree.\<close>

definition ok_sql :: sqlite where
  "ok_sql = (True, [])"

definition demo_repo :: git_repo_params where
  "demo_repo = \<lparr> rp_name = ''r'', rp_worktree_mode = ''global'', rp_local_subfolder = ''.worktree'',
     rp_custom_path = None, rp_setup_script = None, rp_auto_gitignore = True \<rparr>"

definition demo_db :: daemon_db where
  "demo_db =
     fst (bind_session_to_worktree ok_sql 5 ''a'' ''w''
     (fst (create_worktree ok_sql ok_sql 4 ''w'' ''feat'' ''/w'' ''feat'' ''r1'' None
     (fst (create_git_repo ok_sql ok_sql 3 ''r1'' ''/repo'' demo_repo
     (fst (insert_permission_grant ok_sql 3 ''b'' ''Bash'' None ''allow''
     (fst (insert_message ok_sql 2 ''b'' 1 ''user'' ''cA==''
     (fst (insert_message ok_sql 2 ''a'' 1 ''user'' ''cA==''
     (fst (create_session ok_sql ok_sql 1 ''b'' ''m'' ''/y''
     (fst (create_session ok_sql ok_sql 1 ''a'' ''m'' ''/x'' empty_db)))))))))))))))"

lemmas db_reach_step = reach_step [of "\<lambda>db. db = empty_db" db_step, rotated]

lemma demo_db_reach: "reach (\<lambda>db. db = empty_db) db_step demo_db"
  unfolding demo_db_def
  by (rule db_reach_step, rule step_bind, rule db_reach_step, rule step_create_worktree,
      rule db_reach_step, rule step_create_repo, rule db_reach_step, rule step_grant,
      rule db_reach_step, rule step_message, rule db_reach_step, rule step_message,
      rule db_reach_step, rule step_create_session, rule db_reach_step, rule step_create_session,
      rule reach_init, rule refl)

text \<open>
  Starting from the migrated, empty database, every sequence of statements of the daemon,
  each with any outcome, keeps the constraints of the schema: unique keys, existing foreign
  keys in every table (the subagent tables included), and legal values in the columns with a
  \<^verbatim>\<open>CHECK\<close> clause.
\<close>

theorem schema_integrity:
  assumes "reach (\<lambda>db. db = empty_db) db_step db"
  shows "db_wf db"
  using assms by (rule db_run.reach_inv)

theorem schema_integrity_witness: "db_wf demo_db \<and> length (messages demo_db) = 2"
  using schema_integrity [OF demo_db_reach] by code_simp

text \<open>
  Deleting a session reports whether it existed. It leaves no row of the session in any
  table, keeps every row of every other session, removes exactly the steps of the session's
  orchestrations, and keeps the constraints of the schema.
\<close>

theorem delete_session_exact:
  assumes "db_wf db" and "fst q" and "delete_session q i db = (db', r)"
  shows "r = Inr (i \<in> sids db)
    \<and> session_view i db' = (None, [], [], [], [])
    \<and> (\<forall>s. s \<noteq> i \<longrightarrow> session_view s db' = session_view s db)
    \<and> map st_id (orchestration_steps (sub_db db')) =
        map st_id (filter (\<lambda>r. st_orchestration_id r \<in> set (map or_id (orchestrations (sub_db db'))))
          (orchestration_steps (sub_db db)))
    \<and> db_wf db'"
proof -
  have db': "db' = fst (delete_session q i db)" and r: "r = snd (delete_session q i db)"
    using assms(3) by simp_all
  have "map st_id (orchestration_steps (sub_db db')) =
      map st_id (filter (\<lambda>r. st_orchestration_id r \<in> set (map or_id (orchestrations (sub_db db'))))
        (orchestration_steps (sub_db db)))"
  proof (cases "i \<in> sids db")
    case True
    then show ?thesis using assms(2)
      by (simp add: db' delete_session_def cascade_subagents_def Let_def update_rows_map)
  next
    case False
    have "st_orchestration_id r \<in> set (map or_id (orchestrations (sub_db db)))"
      if "r \<in> set (orchestration_steps (sub_db db))" for r
      using that assms(1) unfolding db_wf_def subagents_wf_def store_wf_def list_all_iff by blast
    then have "filter (\<lambda>r. st_orchestration_id r \<in> set (map or_id (orchestrations (sub_db db))))
        (orchestration_steps (sub_db db)) = orchestration_steps (sub_db db)" by (intro filter_True ballI)
    with False assms(2) show ?thesis by (simp add: db' delete_session_def del: set_map)
  qed
  moreover have "r = Inr (i \<in> sids db)" using assms(2) by (simp add: r delete_session_def)
  ultimately show ?thesis
    using view_deleted [OF assms(1,2)] view_other delete_session_wf [OF assms(1)] by (simp add: db')
qed

theorem delete_session_exact_witness:
  "session_view ''a'' (fst (delete_session ok_sql ''a'' demo_db)) = (None, [], [], [], []) \<and>
   session_view ''b'' (fst (delete_session ok_sql ''a'' demo_db)) = session_view ''b'' demo_db \<and>
   fst (snd (session_view ''a'' demo_db)) \<noteq> []"
proof -
  have wf: "db_wf demo_db" by code_simp
  have q: "fst ok_sql" by (simp add: ok_sql_def)
  obtain db' r where d: "delete_session ok_sql ''a'' demo_db = (db', r)" by fastforce
  have "fst (snd (session_view ''a'' demo_db)) \<noteq> []" by code_simp
  then show ?thesis using delete_session_exact [OF wf q d] by (simp add: d)
qed

text \<open>Sessions refer to existing worktrees only.\<close>

definition worktree_refs_ok :: "daemon_db \<Rightarrow> bool" where
  "worktree_refs_ok db \<longleftrightarrow> list_all (\<lambda>r. case ss_worktree_id r of None \<Rightarrow> True
     | Some w \<Rightarrow> w \<in> set (map wt_id (worktrees db))) (sessions db)"

lemma worktree_repo_unique:
  assumes "db_wf db" and "w \<in> set (worktrees db)" and "w' \<in> set (worktrees db)" and "wt_id w = wt_id w'"
  shows "w = w'"
  using assms by (auto simp: db_wf_def worktrees_wf_def distinct_map inj_on_def)

text \<open>
  C35. Removing a git repository reports whether it existed, removes exactly the repository and
  its worktrees, and unbinds exactly the sessions that were bound to one of them: if sessions
  referred to existing worktrees only before, they still do, although the column is not a
  foreign key of the schema.
\<close>

theorem remove_git_repo_refs:
  assumes "db_wf db" and "worktree_refs_ok db" and "fst q" and "remove_git_repo q i db = (db', r)"
  shows "r = Inr (i \<in> set (map gr_id (git_repos db))) \<and> worktree_refs_ok db'
    \<and> set (git_repos db') = {g \<in> set (git_repos db). gr_id g \<noteq> i}
    \<and> set (worktrees db') = {w \<in> set (worktrees db). wt_repo_id w \<noteq> i}
    \<and> map ss_id (sessions db') = map ss_id (sessions db)
    \<and> (\<forall>s w. (\<exists>t \<in> set (sessions db'). ss_id t = s \<and> ss_worktree_id t = Some w) \<longleftrightarrow>
        (\<exists>t \<in> set (sessions db). ss_id t = s \<and> ss_worktree_id t = Some w)
          \<and> w \<in> wt_id ` set (worktrees db'))"
proof -
  let ?own = "set (map wt_id (filter (\<lambda>w. wt_repo_id w = i) (worktrees db)))"
  have wts: "worktrees db' = filter (\<lambda>w. wt_repo_id w \<noteq> i) (worktrees db)"
    and ss: "sessions db' = update_rows
      (\<lambda>r. case ss_worktree_id r of None \<Rightarrow> False | Some w \<Rightarrow> w \<in> ?own)
      (\<lambda>r. r\<lparr>ss_worktree_id := None\<rparr>) (sessions db)"
    and grs: "git_repos db' = filter (\<lambda>r. gr_id r \<noteq> i) (git_repos db)"
    and r: "r = Inr (i \<in> set (map gr_id (git_repos db)))"
    using assms(3,4) by (auto simp: remove_git_repo_def Let_def)
  have refs: "\<exists>w \<in> set (worktrees db). wt_id w = v" if "t \<in> set (sessions db)" "ss_worktree_id t = Some v" for t v
    using assms(2) that by (auto simp: worktree_refs_ok_def list_all_iff dest!: bspec)
  have other: "v \<in> ?own \<longleftrightarrow> v \<notin> wt_id ` set (worktrees db')" if "v \<in> wt_id ` set (worktrees db)" for v
    using that worktree_repo_unique [OF assms(1)] by (auto simp: wts)
  define g :: "session_row \<Rightarrow> session_row" where
    "g t = (if (case ss_worktree_id t of None \<Rightarrow> False | Some w \<Rightarrow> w \<in> ?own)
            then t\<lparr>ss_worktree_id := None\<rparr> else t)" for t
  have g_id: "ss_id (g t) = ss_id t" for t by (simp add: g_def)
  have g_wt: "ss_worktree_id (g t) = Some w \<longleftrightarrow> ss_worktree_id t = Some w \<and> w \<in> wt_id ` set (worktrees db')"
    if "t \<in> set (sessions db)" for t w
    using refs [OF that] other [of w] by (cases "ss_worktree_id t") (auto simp: g_def simp del: set_map)
  have "set (sessions db') = g ` set (sessions db)" by (simp add: ss update_rows_def g_def)
  then have mem: "(\<exists>t \<in> set (sessions db'). ss_id t = s \<and> ss_worktree_id t = Some w) \<longleftrightarrow>
        (\<exists>t \<in> set (sessions db). ss_id t = s \<and> ss_worktree_id t = Some w)
          \<and> w \<in> wt_id ` set (worktrees db')" for s w
    using g_wt by (auto simp: g_id)
  have "w \<in> wt_id ` set (worktrees db')" if "t \<in> set (sessions db')" "ss_worktree_id t = Some w" for t w
    using mem [of "ss_id t" w] that by blast
  then have "worktree_refs_ok db'" by (auto simp: worktree_refs_ok_def list_all_iff split: option.split)
  with mem show ?thesis by (auto simp: r wts grs ss update_rows_map)
qed

theorem remove_git_repo_refs_witness:
  "worktree_refs_ok (fst (remove_git_repo ok_sql ''r1'' demo_db)) \<and>
   worktrees (fst (remove_git_repo ok_sql ''r1'' demo_db)) = [] \<and>
   list_ex (\<lambda>t. ss_worktree_id t = Some ''w'') (sessions demo_db)"
proof -
  have wf: "db_wf demo_db" and refs: "worktree_refs_ok demo_db" by code_simp+
  have q: "fst ok_sql" by (simp add: ok_sql_def)
  obtain db' r where d: "remove_git_repo ok_sql ''r1'' demo_db = (db', r)" by fastforce
  note refs' = remove_git_repo_refs [OF wf refs q d]
  have "list_all (\<lambda>w. wt_repo_id w = ''r1'') (worktrees demo_db)"
    and bound: "list_ex (\<lambda>t. ss_worktree_id t = Some ''w'') (sessions demo_db)" by code_simp+
  then have "set (worktrees db') = {}" using refs' by (auto simp: list_all_iff)
  with refs' bound show ?thesis by (simp add: d)
qed

end
