(* ===== verification/Multiplexer.thy ===== *)
theory Multiplexer
  imports Prelude
begin

text \<open>
  The session multiplexer, \<^verbatim>\<open>crates/betcode-daemon/src/session/\<close> (\<^verbatim>\<open>types.rs\<close>, \<^verbatim>\<open>state.rs\<close>,
  \<^verbatim>\<open>multiplexer.rs\<close>). Every operation holds the write lock of the session map for its whole
  body, so it is one step. The broadcast channel of a session is the list of the events sent
  on it; the type of their payload is a parameter. Instants are natural numbers. The theory
  proves that at most one client holds the input lock of a session, that sessions stay
  within the client limit, that events are numbered consecutively, and that the cleanup
  removes exactly the stale clients.
\<close>

section \<open>Types\<close>

record multiplexer_config =
  max_clients :: nat
  broadcast_capacity :: nat
  heartbeat_timeout :: nat

definition default_config :: multiplexer_config where
  "default_config = \<lparr> max_clients = 5, broadcast_capacity = 256, heartbeat_timeout = 30 \<rparr>"

record client_state =
  client_id :: string
  client_type :: string
  last_heartbeat :: nat
  has_input_lock :: bool

record client_handle =
  ch_client_id :: string
  ch_session_id :: string
  ch_event_rx :: nat
  ch_has_input_lock :: bool

record input_lock_result =
  granted :: bool
  previous_holder :: "string option"

datatype multiplexer_error =
    SessionNotFound string
  | TooManyClients string nat
  | ClientAlreadyConnected string
  | ClientNotConnected string

section \<open>Session state\<close>

record 'e session_state =
  session_id :: string
  event_tx :: "(64 word \<times> 'e) list"
  clients :: "(string, client_state) hmap"
  input_lock_holder :: "string option"
  sequence :: "64 word"

definition new_session :: "string \<Rightarrow> 'e session_state" where
  "new_session sid = \<lparr> session_id = sid, event_tx = [], clients = [], input_lock_holder = None, sequence = 0 \<rparr>"

definition next_sequence :: "'e session_state \<Rightarrow> 'e session_state \<times> 64 word" where
  "next_sequence s = (let q = sequence s + 1 in (s\<lparr>sequence := q\<rparr>, q))"

definition add_client :: "nat \<Rightarrow> string \<Rightarrow> string \<Rightarrow> 'e session_state \<Rightarrow> 'e session_state" where
  "add_client now cid ctype s =
     s\<lparr>clients := hm_insert cid \<lparr> client_id = cid, client_type = ctype, last_heartbeat = now,
        has_input_lock = False \<rparr> (clients s)\<rparr>"

definition remove_client :: "string \<Rightarrow> 'e session_state \<Rightarrow> 'e session_state \<times> bool" where
  "remove_client cid s =
     (if hm_get (clients s) cid = None then (s, False)
      else (s\<lparr>clients := hm_remove cid (clients s),
              input_lock_holder := (if input_lock_holder s = Some cid then None else input_lock_holder s)\<rparr>,
            True))"

definition session_empty :: "'e session_state \<Rightarrow> bool" where
  "session_empty s \<longleftrightarrow> clients s = []"

definition client_count :: "'e session_state \<Rightarrow> nat" where
  "client_count s = length (clients s)"

section \<open>The multiplexer\<close>

type_synonym 'e sessions = "(string, 'e session_state) hmap"

definition get_or_create_session :: "string \<Rightarrow> 'e sessions \<Rightarrow> 'e sessions" where
  "get_or_create_session sid m =
     (case hm_get m sid of Some _ \<Rightarrow> m | None \<Rightarrow> hm_insert sid (new_session sid) m)"

definition subscribe ::
  "multiplexer_config \<Rightarrow> nat \<Rightarrow> string \<Rightarrow> string \<Rightarrow> string \<Rightarrow> 'e sessions
    \<Rightarrow> 'e sessions \<times> (multiplexer_error + client_handle)" where
  "subscribe cfg now sid cid ctype m =
     (let m = get_or_create_session sid m;
          s = (case hm_get m sid of Some s \<Rightarrow> s | None \<Rightarrow> new_session sid)
      in if max_clients cfg \<le> client_count s then (m, Inl (TooManyClients sid (max_clients cfg)))
      else if hm_get (clients s) cid \<noteq> None then (m, Inl (ClientAlreadyConnected cid))
      else (hm_insert sid (add_client now cid ctype s) m,
            Inr \<lparr> ch_client_id = cid, ch_session_id = sid, ch_event_rx = length (event_tx s),
                  ch_has_input_lock = False \<rparr>))"

definition unsubscribe :: "string \<Rightarrow> string \<Rightarrow> 'e sessions \<Rightarrow> 'e sessions" where
  "unsubscribe sid cid m =
     (case hm_get m sid of
        None \<Rightarrow> m
      | Some s \<Rightarrow>
          let (s', removed) = remove_client cid s; m' = hm_insert sid s' m
          in if removed \<and> session_empty s' then hm_remove sid m' else m')"

definition request_input_lock ::
  "string \<Rightarrow> string \<Rightarrow> 'e sessions \<Rightarrow> 'e sessions \<times> (multiplexer_error + input_lock_result)" where
  "request_input_lock sid cid m =
     (case hm_get m sid of
        None \<Rightarrow> (m, Inl (SessionNotFound sid))
      | Some s \<Rightarrow>
          if hm_get (clients s) cid = None then (m, Inl (ClientNotConnected cid))
          else case input_lock_holder s of
            Some holder \<Rightarrow>
              if holder = cid then (m, Inr \<lparr> granted = True, previous_holder = None \<rparr>)
              else (m, Inr \<lparr> granted = False, previous_holder = Some holder \<rparr>)
          | None \<Rightarrow>
              (hm_insert sid (s\<lparr>input_lock_holder := Some cid,
                  clients := hm_modify cid (\<lambda>c. c\<lparr>has_input_lock := True\<rparr>) (clients s)\<rparr>) m,
               Inr \<lparr> granted = True, previous_holder = None \<rparr>))"

definition release_input_lock :: "string \<Rightarrow> string \<Rightarrow> 'e sessions \<Rightarrow> 'e sessions" where
  "release_input_lock sid cid m =
     (case hm_get m sid of
        None \<Rightarrow> m
      | Some s \<Rightarrow>
          if input_lock_holder s = Some cid
          then hm_insert sid (s\<lparr>input_lock_holder := None,
                 clients := hm_modify cid (\<lambda>c. c\<lparr>has_input_lock := False\<rparr>) (clients s)\<rparr>) m
          else m)"

text \<open>Numbering and sending one event, shared by \<^verbatim>\<open>broadcast\<close> and the forwarder task.\<close>

definition send_event :: "'e session_state \<Rightarrow> 'e \<Rightarrow> 'e session_state \<times> (64 word \<times> 'e) list" where
  "send_event s e = (let (s', q) = next_sequence s in (s'\<lparr>event_tx := event_tx s' @ [(q, e)]\<rparr>, [(q, e)]))"

definition broadcast :: "string \<Rightarrow> 'e \<Rightarrow> 'e sessions \<Rightarrow> 'e sessions" where
  "broadcast sid e m = (case hm_get m sid of None \<Rightarrow> m | Some s \<Rightarrow> hm_insert sid (fst (send_event s e)) m)"

text \<open>The body of the task of \<^verbatim>\<open>create_event_forwarder\<close>, for one received event.\<close>

definition forward_event :: "string \<Rightarrow> 'e \<Rightarrow> 'e sessions \<Rightarrow> 'e sessions" where
  "forward_event sid e m = (case hm_get m sid of None \<Rightarrow> m | Some s \<Rightarrow> hm_insert sid (fst (send_event s e)) m)"

definition heartbeat :: "nat \<Rightarrow> string \<Rightarrow> string \<Rightarrow> 'e sessions \<Rightarrow> 'e sessions" where
  "heartbeat now sid cid m =
     hm_modify sid (\<lambda>s. s\<lparr>clients := hm_modify cid (\<lambda>c. c\<lparr>last_heartbeat := now\<rparr>) (clients s)\<rparr>) m"

definition stale :: "multiplexer_config \<Rightarrow> nat \<Rightarrow> client_state \<Rightarrow> bool" where
  "stale cfg now c \<longleftrightarrow> heartbeat_timeout cfg < now - last_heartbeat c"

definition stale_ids :: "multiplexer_config \<Rightarrow> nat \<Rightarrow> 'e session_state \<Rightarrow> string list" where
  "stale_ids cfg now s = map (\<lambda>(_, c). client_id c) (filter (\<lambda>(_, c). stale cfg now c) (clients s))"

definition cleanup_stale_clients ::
  "multiplexer_config \<Rightarrow> nat \<Rightarrow> 'e sessions \<Rightarrow> 'e sessions \<times> (string \<times> string) list" where
  "cleanup_stale_clients cfg now m =
     (hm_retain (\<lambda>_ s. \<not> session_empty s)
        (map (\<lambda>(sid, s). (sid, fold (\<lambda>cid s. fst (remove_client cid s)) (stale_ids cfg now s) s)) m),
      concat (map (\<lambda>(sid, s). map (\<lambda>cid. (sid, cid)) (stale_ids cfg now s)) m))"

definition mux_stats :: "'e sessions \<Rightarrow> nat \<times> nat" where
  "mux_stats m = (length m, sum_list (map client_count (hm_values m)))"

definition holds_input_lock :: "string \<Rightarrow> string \<Rightarrow> 'e sessions \<Rightarrow> bool" where
  "holds_input_lock sid cid m =
     (case hm_get m sid of None \<Rightarrow> False | Some s \<Rightarrow> input_lock_holder s = Some cid)"

section \<open>Invariant\<close>

text \<open>
  A session is consistent if its client map is keyed by client id, the client flags agree
  with the holder, the holder is connected, the client limit is kept, and the events sent so
  far carry the numbers 1, 2, ... up to the counter.
\<close>

definition session_ok :: "multiplexer_config \<Rightarrow> 'e session_state \<Rightarrow> bool" where
  "session_ok cfg s \<longleftrightarrow>
     hm_wf (clients s) \<and>
     (\<forall>k c. hm_get (clients s) k = Some c \<longrightarrow>
        client_id c = k \<and> (has_input_lock c \<longleftrightarrow> input_lock_holder s = Some k)) \<and>
     (\<forall>k. input_lock_holder s = Some k \<longrightarrow> hm_get (clients s) k \<noteq> None) \<and>
     length (clients s) \<le> max_clients cfg \<and>
     consecutive 0 (map fst (event_tx s)) \<and> sequence s = of_nat (length (event_tx s))"

definition mux_inv :: "multiplexer_config \<Rightarrow> 'e sessions \<Rightarrow> bool" where
  "mux_inv cfg m \<longleftrightarrow> hm_wf m \<and> (\<forall>sid s. hm_get m sid = Some s \<longrightarrow> session_ok cfg s)"

lemma session_ok_new [simp]: "session_ok cfg (new_session sid)"
  by (simp add: session_ok_def new_session_def)

lemma session_ok_add:
  "session_ok cfg s \<Longrightarrow> client_count s < max_clients cfg \<Longrightarrow> hm_get (clients s) cid = None
     \<Longrightarrow> session_ok cfg (add_client now cid ctype s)"
  by (auto simp: session_ok_def add_client_def client_count_def hm_len_insert)

lemma session_ok_remove: "session_ok cfg s \<Longrightarrow> session_ok cfg (fst (remove_client cid s))"
  using length_delete_le [of cid "clients s"]
  by (auto simp: session_ok_def remove_client_def split: if_splits)

lemma session_ok_send: "session_ok cfg s \<Longrightarrow> session_ok cfg (fst (send_event s e))"
  by (auto simp: session_ok_def send_event_def next_sequence_def Let_def consecutive_append ac_simps)

lemma session_ok_grant:
  "session_ok cfg s \<Longrightarrow> input_lock_holder s = None \<Longrightarrow> hm_get (clients s) cid \<noteq> None \<Longrightarrow>
     session_ok cfg (s\<lparr>input_lock_holder := Some cid,
        clients := hm_modify cid (\<lambda>c. c\<lparr>has_input_lock := True\<rparr>) (clients s)\<rparr>)"
  by (auto simp: session_ok_def split: if_splits)

lemma session_ok_release:
  "session_ok cfg s \<Longrightarrow> input_lock_holder s = Some cid \<Longrightarrow>
     session_ok cfg (s\<lparr>input_lock_holder := None,
        clients := hm_modify cid (\<lambda>c. c\<lparr>has_input_lock := False\<rparr>) (clients s)\<rparr>)"
  by (auto simp: session_ok_def split: if_splits)

lemma session_ok_heartbeat:
  "session_ok cfg s \<Longrightarrow> session_ok cfg
     (s\<lparr>clients := hm_modify cid (\<lambda>c. c\<lparr>last_heartbeat := now\<rparr>) (clients s)\<rparr>)"
  by (auto simp: session_ok_def split: if_splits)

lemma session_ok_remove_all:
  "session_ok cfg s \<Longrightarrow> session_ok cfg (fold (\<lambda>cid s. fst (remove_client cid s)) cids s)"
  by (induction cids arbitrary: s) (auto intro: session_ok_remove)

lemma mux_inv_insert: "mux_inv cfg m \<Longrightarrow> session_ok cfg s \<Longrightarrow> mux_inv cfg (hm_insert sid s m)"
  by (auto simp: mux_inv_def split: if_splits)

lemma mux_inv_get: "mux_inv cfg m \<Longrightarrow> hm_get m sid = Some s \<Longrightarrow> session_ok cfg s"
  by (simp add: mux_inv_def)

lemma get_or_create_inv: "mux_inv cfg m \<Longrightarrow> mux_inv cfg (get_or_create_session sid m)"
  by (auto simp: get_or_create_session_def split: option.splits intro: mux_inv_insert)

lemma mux_subscribe_inv:
  assumes "mux_inv cfg m"
  shows "mux_inv cfg (fst (subscribe cfg now sid cid ctype m))"
proof -
  let ?m = "get_or_create_session sid m"
  have inv: "mux_inv cfg ?m" using assms by (rule get_or_create_inv)
  obtain s where s: "hm_get ?m sid = Some s"
    by (cases "hm_get m sid") (auto simp: get_or_create_session_def)
  show ?thesis using inv s mux_inv_get [OF inv s]
    by (auto simp: subscribe_def Let_def not_le intro!: mux_inv_insert session_ok_add)
qed

lemma unsubscribe_inv: "mux_inv cfg m \<Longrightarrow> mux_inv cfg (unsubscribe sid cid m)"
proof -
  assume inv: "mux_inv cfg m"
  show ?thesis
  proof (cases "hm_get m sid")
    case (Some s)
    have "mux_inv cfg (hm_insert sid (fst (remove_client cid s)) m)"
      using inv mux_inv_get [OF inv Some] by (intro mux_inv_insert session_ok_remove)
    then show ?thesis using Some
      by (auto simp: unsubscribe_def case_prod_beta Let_def mux_inv_def split: if_splits)
  qed (use inv in \<open>simp add: unsubscribe_def\<close>)
qed

lemma request_inv: "mux_inv cfg m \<Longrightarrow> mux_inv cfg (fst (request_input_lock sid cid m))"
  by (auto simp: request_input_lock_def split: option.splits intro!: mux_inv_insert session_ok_grant
      dest: mux_inv_get)

lemma release_inv: "mux_inv cfg m \<Longrightarrow> mux_inv cfg (release_input_lock sid cid m)"
  by (auto simp: release_input_lock_def split: option.splits intro!: mux_inv_insert session_ok_release
      dest: mux_inv_get)

lemma mux_broadcast_inv: "mux_inv cfg m \<Longrightarrow> mux_inv cfg (broadcast sid e m)"
  by (auto simp: broadcast_def split: option.splits intro!: mux_inv_insert session_ok_send dest: mux_inv_get)

lemma forward_inv: "mux_inv cfg m \<Longrightarrow> mux_inv cfg (forward_event sid e m)"
  by (auto simp: forward_event_def split: option.splits intro!: mux_inv_insert session_ok_send dest: mux_inv_get)

lemma heartbeat_inv: "mux_inv cfg m \<Longrightarrow> mux_inv cfg (heartbeat now sid cid m)"
  by (auto simp: heartbeat_def mux_inv_def split: if_splits intro: session_ok_heartbeat)

section \<open>The cleanup\<close>

lemma remove_client_get:
  "hm_get (clients (fst (remove_client cid s))) k = (if k = cid then None else hm_get (clients s) k)"
  by (auto simp: remove_client_def)

lemma remove_clients_get:
  "hm_get (clients (fold (\<lambda>cid s. fst (remove_client cid s)) cids s)) k =
     (if k \<in> set cids then None else hm_get (clients s) k)"
  by (induction cids arbitrary: s) (auto simp: remove_client_get)

lemma stale_ids_set:
  assumes "session_ok cfg s"
  shows "k \<in> set (stale_ids cfg now s) \<longleftrightarrow> (\<exists>c. hm_get (clients s) k = Some c \<and> stale cfg now c)"
proof -
  have wf: "hm_wf (clients s)" and ids: "\<And>k c. hm_get (clients s) k = Some c \<Longrightarrow> client_id c = k"
    using assms by (auto simp: session_ok_def)
  have "(k', c) \<in> set (clients s) \<longleftrightarrow> hm_get (clients s) k' = Some c" for k' c
    using wf by (simp add: map_of_eq_Some_iff)
  then show ?thesis using ids by (force simp: stale_ids_def image_iff)
qed

definition purge :: "multiplexer_config \<Rightarrow> nat \<Rightarrow> 'e session_state \<Rightarrow> 'e session_state" where
  "purge cfg now s = fold (\<lambda>cid s. fst (remove_client cid s)) (stale_ids cfg now s) s"

lemma purge_ok: "session_ok cfg s \<Longrightarrow> session_ok cfg (purge cfg now s)"
  by (simp add: purge_def session_ok_remove_all)

lemma purge_get:
  "session_ok cfg s \<Longrightarrow> hm_get (clients (purge cfg now s)) k =
     (case hm_get (clients s) k of None \<Rightarrow> None | Some c \<Rightarrow> if stale cfg now c then None else Some c)"
  by (auto simp: purge_def remove_clients_get stale_ids_set split: option.splits)

lemma cleanup_get:
  assumes "hm_wf m"
  shows "hm_get (fst (cleanup_stale_clients cfg now m)) sid =
    (case hm_get m sid of None \<Rightarrow> None
     | Some s \<Rightarrow> if session_empty (purge cfg now s) then None else Some (purge cfg now s))"
proof -
  let ?m = "map (\<lambda>(sid, s). (sid, purge cfg now s)) m"
  have keys: "map fst ?m = map fst m" by (simp add: case_prod_beta)
  have "hm_wf ?m" unfolding keys by (rule assms)
  moreover have "hm_get ?m sid = map_option (purge cfg now) (hm_get m sid)" by (simp add: map_of_map)
  ultimately show ?thesis
    by (simp add: cleanup_stale_clients_def purge_def hm_get_retain split: option.splits)
qed

lemma cleanup_wf:
  assumes "hm_wf m"
  shows "hm_wf (fst (cleanup_stale_clients cfg now m))"
proof -
  let ?m = "map (\<lambda>(sid, s). (sid, fold (\<lambda>cid s. fst (remove_client cid s)) (stale_ids cfg now s) s)) m"
  have keys: "map fst ?m = map fst m" by (simp add: case_prod_beta)
  have "hm_wf ?m" unfolding keys by (rule assms)
  then show ?thesis by (simp only: cleanup_stale_clients_def fst_conv hm_wf_retain)
qed

lemma cleanup_inv: "mux_inv cfg m \<Longrightarrow> mux_inv cfg (fst (cleanup_stale_clients cfg now m))"
  by (auto simp: mux_inv_def cleanup_wf cleanup_get purge_ok split: option.splits if_splits)

section \<open>Runs\<close>

inductive mux_step :: "multiplexer_config \<Rightarrow> 'e sessions \<Rightarrow> 'e sessions \<Rightarrow> bool"
  for cfg :: multiplexer_config where
  mux_create: "mux_step cfg m (get_or_create_session sid m)"
| mux_subscribe: "mux_step cfg m (fst (subscribe cfg now sid cid ctype m))"
| mux_unsubscribe: "mux_step cfg m (unsubscribe sid cid m)"
| mux_request: "mux_step cfg m (fst (request_input_lock sid cid m))"
| mux_release: "mux_step cfg m (release_input_lock sid cid m)"
| mux_broadcast: "mux_step cfg m (broadcast sid e m)"
| mux_forward: "mux_step cfg m (forward_event sid e m)"
| mux_heartbeat: "mux_step cfg m (heartbeat now sid cid m)"
| mux_cleanup: "mux_step cfg m (fst (cleanup_stale_clients cfg now m))"

lemmas mux_op_inv = get_or_create_inv mux_subscribe_inv unsubscribe_inv request_inv release_inv
  mux_broadcast_inv forward_inv heartbeat_inv cleanup_inv

interpretation mux_run: step_system "\<lambda>m. m = []" "mux_step cfg" "mux_inv cfg" for cfg
proof unfold_locales
  show "mux_inv cfg m" if "m = []" for m using that by (simp add: mux_inv_def)
  show "mux_inv cfg m'" if "mux_inv cfg m" "mux_step cfg m m'" for m m'
    using that(2,1) by (induction rule: mux_step.induct) (auto intro: mux_op_inv)
qed

interpretation session_events: event_source send_event sequence fst
  by unfold_locales (simp_all add: send_event_def next_sequence_def Let_def)

lemma reach_session_ok:
  "reach (\<lambda>m. m = []) (mux_step cfg) m \<Longrightarrow> hm_get m sid = Some s \<Longrightarrow> session_ok cfg s"
  using mux_run.reach_inv mux_inv_get by blast

section \<open>Properties\<close>

text \<open>
  C34. In every run, a client's lock flag is set exactly when the multiplexer reports it as the
  lock holder of its session, the holder is a connected client, and no two clients of a
  session have the flag set.
\<close>

theorem input_lock_exclusive:
  assumes "reach (\<lambda>m. m = []) (mux_step cfg) m" and "hm_get m sid = Some s"
    and "hm_get (clients s) k1 = Some c1" and "hm_get (clients s) k2 = Some c2"
  shows "(has_input_lock c1 \<longleftrightarrow> holds_input_lock sid k1 m)
    \<and> (has_input_lock c1 \<longrightarrow> has_input_lock c2 \<longrightarrow> k1 = k2)
    \<and> (holds_input_lock sid h m \<longrightarrow> hm_get (clients s) h \<noteq> None)"
  using reach_session_ok [OF assms(1,2)] assms(2-)
  by (auto simp: session_ok_def holds_input_lock_def)

definition mux_demo_cfg :: multiplexer_config where
  "mux_demo_cfg = default_config\<lparr>max_clients := 2\<rparr>"

text \<open>Two clients join a session, the first takes the lock, and two events are sent.\<close>

definition demo_mux :: "nat sessions" where
  "demo_mux = broadcast ''s'' 8 (broadcast ''s'' 7 (fst (request_input_lock ''s'' ''a''
     (fst (subscribe mux_demo_cfg 5 ''s'' ''b'' ''app'' (fst (subscribe mux_demo_cfg 0 ''s'' ''a'' ''cli'' [])))))))"

lemma mux_demo_reach: "reach (\<lambda>m. m = []) (mux_step mux_demo_cfg) demo_mux"
  unfolding demo_mux_def
  by (rule reach_step [of "\<lambda>m. m = []" "mux_step mux_demo_cfg"], rule reach_step, rule reach_step, rule reach_step,
      rule reach_step, rule reach_init, rule refl)
     (rule mux_step.intros)+

definition demo_session :: "nat session_state" where
  "demo_session = \<lparr> session_id = ''s'', event_tx = [(1, 7), (2, 8)],
     clients = [(''a'', \<lparr> client_id = ''a'', client_type = ''cli'', last_heartbeat = 0, has_input_lock = True \<rparr>),
                (''b'', \<lparr> client_id = ''b'', client_type = ''app'', last_heartbeat = 5, has_input_lock = False \<rparr>)],
     input_lock_holder = Some ''a'', sequence = 2 \<rparr>"

lemma mux_demo_eval: "hm_get demo_mux ''s'' = Some demo_session"
  by code_simp

theorem input_lock_exclusive_witness:
  "holds_input_lock ''s'' ''a'' demo_mux \<and> hm_get (clients demo_session) ''b'' \<noteq> None"
proof -
  obtain c1 c2 where c: "hm_get (clients demo_session) ''a'' = Some c1" "has_input_lock c1"
    "hm_get (clients demo_session) ''b'' = Some c2"
    by (simp add: demo_session_def)
  from input_lock_exclusive [OF mux_demo_reach mux_demo_eval c(1,3)] c show ?thesis by simp
qed

text \<open>
  A connected client's request for the input lock is granted exactly when no other client holds
  it; a granted client holds it afterwards, and a refusal names the holder and changes nothing.
\<close>

theorem request_input_lock_result:
  assumes "hm_get m sid = Some s" and "hm_get (clients s) cid \<noteq> None"
    and "request_input_lock sid cid m = (m', Inr r)"
  shows "(granted r \<longleftrightarrow> input_lock_holder s \<in> {None, Some cid})
    \<and> (granted r \<longrightarrow> holds_input_lock sid cid m' \<and> previous_holder r = None)
    \<and> (\<not> granted r \<longrightarrow> m' = m \<and> previous_holder r = input_lock_holder s)"
  using assms by (auto simp: request_input_lock_def holds_input_lock_def split: option.splits if_splits)

theorem request_input_lock_result_witness:
  "granted (\<lparr> granted = False, previous_holder = Some ''a'' \<rparr>) \<longleftrightarrow>
     input_lock_holder demo_session \<in> {None, Some ''b''}"
proof -
  have "request_input_lock ''s'' ''b'' demo_mux = (demo_mux, Inr \<lparr> granted = False, previous_holder = Some ''a'' \<rparr>)"
    by code_simp
  moreover have "hm_get (clients demo_session) ''b'' \<noteq> None" by (simp add: demo_session_def)
  ultimately show ?thesis using request_input_lock_result [OF mux_demo_eval, of "''b''"] by blast
qed

text \<open>
  In every run no session has more clients than the configured maximum, and the events sent on a
  session carry the sequence numbers 1, 2, 3, ... in order, as long as fewer than \<open>2 ^ 64\<close> were sent.
\<close>

theorem session_limits_and_numbering:
  assumes "reach (\<lambda>m. m = []) (mux_step cfg) m" and "hm_get m sid = Some s"
    and "length (event_tx s) < 2 ^ 64"
  shows "client_count s \<le> max_clients cfg
    \<and> map (unat \<circ> fst) (event_tx s) = [1 ..< Suc (length (event_tx s))]"
proof -
  have ok: "session_ok cfg s" by (rule reach_session_ok [OF assms(1,2)])
  then have "map unat (map fst (event_tx s)) = [Suc (unat (0 :: 64 word)) ..< Suc (unat (0 :: 64 word) + length (map fst (event_tx s)))]"
    using assms(3) by (intro consecutive_unat) (auto simp: session_ok_def)
  with ok show ?thesis by (simp add: session_ok_def client_count_def del: upt_Suc)
qed

theorem session_limits_and_numbering_witness:
  "client_count demo_session \<le> 2 \<and> map (unat \<circ> fst) (event_tx demo_session) = [1, 2]"
  using session_limits_and_numbering [OF mux_demo_reach mux_demo_eval]
  by (simp add: demo_session_def mux_demo_cfg_def upt_rec)

text \<open>
  The cleanup keeps of each session exactly the clients whose last heartbeat is within the timeout,
  drops the sessions left without clients, and reports exactly the removed clients.
\<close>

theorem cleanup_exact:
  assumes "reach (\<lambda>m. m = []) (mux_step cfg) m"
    and "cleanup_stale_clients cfg now m = (m', removed)"
  shows "((\<exists>s'. hm_get m' sid = Some s' \<and> hm_get (clients s') k = Some c) \<longleftrightarrow>
        (\<exists>s. hm_get m sid = Some s \<and> hm_get (clients s) k = Some c \<and> \<not> stale cfg now c))
    \<and> ((sid, k) \<in> set removed \<longleftrightarrow>
        (\<exists>s c. hm_get m sid = Some s \<and> hm_get (clients s) k = Some c \<and> stale cfg now c))
    \<and> (\<forall>s'. hm_get m' sid = Some s' \<longrightarrow> \<not> session_empty s')"
proof (intro conjI)
  have inv: "mux_inv cfg m" using mux_run.reach_inv [OF assms(1)] .
  then have wf: "hm_wf m" and ok: "\<And>sid s. hm_get m sid = Some s \<Longrightarrow> session_ok cfg s"
    by (auto simp: mux_inv_def)
  have m': "hm_get m' sid = (case hm_get m sid of None \<Rightarrow> None
      | Some s \<Rightarrow> if session_empty (purge cfg now s) then None else Some (purge cfg now s))"
    using cleanup_get [OF wf, of cfg now sid] assms(2) by simp
  show "(\<exists>s'. hm_get m' sid = Some s' \<and> hm_get (clients s') k = Some c) \<longleftrightarrow>
        (\<exists>s. hm_get m sid = Some s \<and> hm_get (clients s) k = Some c \<and> \<not> stale cfg now c)"
  proof (cases "hm_get m sid")
    case (Some s)
    have "hm_get (clients (purge cfg now s)) k = Some c \<Longrightarrow> \<not> session_empty (purge cfg now s)"
      by (auto simp: session_empty_def)
    with Some show ?thesis
      by (auto simp: m' purge_get [OF ok [OF Some]] split: option.splits if_splits)
  qed (simp add: m')
  show "\<forall>s'. hm_get m' sid = Some s' \<longrightarrow> \<not> session_empty s'"
    by (auto simp: m' split: option.splits if_splits)
  have "removed = concat (map (\<lambda>(sid, s). map (\<lambda>cid. (sid, cid)) (stale_ids cfg now s)) m)"
    using assms(2) by (simp add: cleanup_stale_clients_def)
  moreover have "(sid, s) \<in> set m \<longleftrightarrow> hm_get m sid = Some s" for s
    using wf by (simp add: map_of_eq_Some_iff)
  ultimately have "(sid, k) \<in> set removed \<longleftrightarrow> (\<exists>s. hm_get m sid = Some s \<and> k \<in> set (stale_ids cfg now s))"
    by (auto simp: image_iff)
  then show "(sid, k) \<in> set removed \<longleftrightarrow>
        (\<exists>s c. hm_get m sid = Some s \<and> hm_get (clients s) k = Some c \<and> stale cfg now c)"
    using stale_ids_set [OF ok] by blast
qed

theorem cleanup_exact_witness:
  "(''s'', ''a'') \<in> set (snd (cleanup_stale_clients mux_demo_cfg 33 demo_mux)) \<and>
   (''s'', ''b'') \<notin> set (snd (cleanup_stale_clients mux_demo_cfg 33 demo_mux))"
proof -
  obtain m' removed where c: "cleanup_stale_clients mux_demo_cfg 33 demo_mux = (m', removed)" by fastforce
  note ex = cleanup_exact [OF mux_demo_reach c, of "''s''"]
  from ex [of "''a''"] ex [of "''b''"] show ?thesis
    by (simp add: c mux_demo_eval) (simp add: demo_session_def stale_def mux_demo_cfg_def default_config_def)
qed

end
