(* ===== verification/SessionRelay.thy ===== *)
theory SessionRelay
  imports EventBridge Subprocess SessionStore Multiplexer
begin

text \<open>
  The session relay, \<^verbatim>\<open>crates/betcode-daemon/src/relay/\<close> (\<^verbatim>\<open>types.rs\<close>, \<^verbatim>\<open>pipeline.rs\<close>): it starts a
  subprocess for a session, turns the lines of its output into stored and broadcast events, and
  writes user messages and permission answers to its input. The \<^verbatim>\<open>Arc\<close>s that a handle shares with
  its pipeline task are cells behind an address, so a later handle of the same session has cells
  of its own. One line of output is processed in steps (taking it, each event, the end), between
  which other operations may run. Serialisation of JSON and protobuf, plugin discovery, and what
  the database and the channels answer are arguments.
\<close>

section \<open>Types\<close>

record relay_session_config =
  rs_session_id :: string
  rs_working_directory :: string
  rs_model :: "string option"
  rs_resume_session :: "string option"
  rs_worktree_id :: string

record pending_permission =
  pp_input :: json
  pp_tool_name :: string

record relay_cells =
  rc_counter :: "64 word"
  rc_questions :: "(string, json) hmap"
  rc_permissions :: "(string, pending_permission) hmap"
  rc_grants :: "(string, bool) hmap"

record relay_handle =
  rh_process_id :: string
  rh_session_id :: string
  rh_stdin_tx :: nat
  rh_cells :: nat

datatype relay_error =
    SubprocessError subprocess_error
  | RelaySessionNotFound string
  | Serialization string
  | StdinClosed string
  | StorageError string

datatype permission_decision =
    Unspecified | AllowOnce | AllowSession | Deny | AllowWithEdit | DenyNoInterrupt | DenyWithInterrupt

fun is_granted :: "permission_decision \<Rightarrow> bool" where
  "is_granted AllowOnce = True"
| "is_granted AllowSession = True"
| "is_granted AllowWithEdit = True"
| "is_granted Deny = False"
| "is_granted DenyNoInterrupt = False"
| "is_granted DenyWithInterrupt = False"
| "is_granted Unspecified = False"

section \<open>Handle operations\<close>

definition process_permission_response ::
  "string \<Rightarrow> permission_decision \<Rightarrow> relay_cells \<Rightarrow> relay_cells \<times> bool \<times> json" where
  "process_permission_response rid decision c =
     (let pending = hm_get (rc_permissions c) rid;
          c1 = c\<lparr>rc_permissions := hm_remove rid (rc_permissions c)\<rparr>
      in case pending of
           None \<Rightarrow> (c1, is_granted decision, JObject [])
         | Some p \<Rightarrow>
             ((if decision = AllowSession
               then c1\<lparr>rc_grants := hm_insert (pp_tool_name p) True (rc_grants c1)\<rparr> else c1),
              is_granted decision, pp_input p))"

definition list_grants :: "relay_cells \<Rightarrow> (string \<times> bool) list" where
  "list_grants c = rc_grants c"

definition clear_grants :: "string \<Rightarrow> relay_cells \<Rightarrow> relay_cells" where
  "clear_grants tool c =
     (if tool = [] then c\<lparr>rc_grants := []\<rparr> else c\<lparr>rc_grants := hm_remove tool (rc_grants c)\<rparr>)"

definition set_grant :: "string \<Rightarrow> bool \<Rightarrow> relay_cells \<Rightarrow> relay_cells" where
  "set_grant tool v c = c\<lparr>rc_grants := hm_insert tool v (rc_grants c)\<rparr>"

section \<open>JSON lines for the subprocess\<close>

text \<open>Insertion into an object, whose members are ordered by key.\<close>

fun str_less :: "string \<Rightarrow> string \<Rightarrow> bool" where
  "str_less s [] = False"
| "str_less [] (b # bs) = True"
| "str_less (a # as) (b # bs) = ((of_char a :: nat) < of_char b \<or> (a = b \<and> str_less as bs))"

fun jinsert :: "string \<Rightarrow> json \<Rightarrow> (string \<times> json) list \<Rightarrow> (string \<times> json) list" where
  "jinsert k v [] = [(k, v)]"
| "jinsert k v ((k', v') # m) =
     (if k = k' then (k, v) # m
      else if str_less k k' then (k, v) # (k', v') # m
      else (k', v') # jinsert k v m)"

definition control_response :: "string \<Rightarrow> json \<Rightarrow> json" where
  "control_response request_id response = JObject
     [(''response'', JObject [(''request_id'', JString request_id), (''response'', response),
        (''subtype'', JString ''success'')]),
      (''type'', JString ''control_response'')]"

definition build_permission_response_json :: "string \<Rightarrow> bool \<Rightarrow> json \<Rightarrow> json" where
  "build_permission_response_json request_id allow original_input = control_response request_id
     (if allow then JObject [(''behavior'', JString ''allow''), (''updatedInput'', original_input)]
      else JObject [(''behavior'', JString ''deny''), (''interrupt'', JBool True),
             (''message'', JString ''User denied permission'')])"

definition build_question_response_json :: "string \<Rightarrow> (string, string) hmap \<Rightarrow> json \<Rightarrow> json" where
  "build_question_response_json request_id answers original_input =
     (let updated_input = (case original_input of
            JObject m \<Rightarrow> JObject (jinsert ''answers''
              (JObject (foldr (\<lambda>(k, v). jinsert k (JString v)) answers [])) m)
          | v \<Rightarrow> v)
      in control_response request_id
           (JObject [(''behavior'', JString ''allow''), (''updatedInput'', updated_input)]))"

definition user_message_json :: "string \<Rightarrow> string option \<Rightarrow> json" where
  "user_message_json content agent_id = JObject
     ((case agent_id of None \<Rightarrow> [] | Some aid \<Rightarrow> if aid = [] then [] else [(''agent_id'', JString aid)])
      @ [(''message'', JObject [(''content'', JString content), (''role'', JString ''user'')]),
         (''parent_tool_use_id'', JNull), (''session_id'', JString ''default''),
         (''type'', JString ''user'')])"

section \<open>Storing events\<close>

definition event_message_type :: "agent_event \<Rightarrow> string" where
  "event_message_type ev = (case ev_event ev of
       None \<Rightarrow> ''stream_event''
     | Some e \<Rightarrow> (case e of
           ToolCallResult _ _ _ _ \<Rightarrow> ''result'' | Usage _ \<Rightarrow> ''result'' | TurnComplete _ \<Rightarrow> ''result''
         | PermissionRequest _ _ _ _ \<Rightarrow> ''control_request'' | UserQuestion _ _ _ _ \<Rightarrow> ''control_request''
         | SessionInfoEv _ \<Rightarrow> ''system''
         | UserInput _ \<Rightarrow> ''user''
         | _ \<Rightarrow> ''stream_event''))"

text \<open>
  The arguments that stand for code outside the repository: \<^verbatim>\<open>serde_json\<close>, \<^verbatim>\<open>prost\<close>, the addition
  of doubles, and the plugin entries found under a directory.
\<close>

record relay_env =
  re_serde :: serde
  re_bridge :: bridge_env
  re_print :: "json \<Rightarrow> string"
  re_encode :: "agent_event \<Rightarrow> byte list"
  re_add :: "f64 \<Rightarrow> f64 \<Rightarrow> f64"
  re_discover :: "string \<Rightarrow> command_entry list"

definition store_event ::
  "relay_env \<Rightarrow> sqlite \<Rightarrow> int \<Rightarrow> string \<Rightarrow> agent_event \<Rightarrow> daemon_db \<Rightarrow> daemon_db \<times> (database_error + unit)" where
  "store_event env q now sid ev db =
     (case insert_message q now sid (sint (ev_sequence ev)) (event_message_type ev)
             (base64_encode (re_encode env ev)) db of
        (db', Inl e) \<Rightarrow> (db', Inl e)
      | (db', Inr _) \<Rightarrow> (db', Inr ()))"

section \<open>The relay\<close>

text \<open>
  A pipeline task: its cells, its bridge, and the events of the line it is processing, each with
  whether it was answered from a grant. \<open>pl_busy\<close> holds while a line is in progress.
\<close>

record pipeline =
  pl_session_id :: string
  pl_bridge :: event_bridge
  pl_event_count :: "64 word"
  pl_had_session_error :: bool
  pl_stdin_tx :: nat
  pl_working_directory :: string
  pl_busy :: bool
  pl_out :: "(agent_event \<times> bool) list"

record session_relay =
  rl_sessions :: "(string, relay_handle) hmap"
  rl_cells :: "(nat, relay_cells) hmap"
  rl_pipes :: "(nat, pipeline) hmap"
  rl_db :: daemon_db
  rl_mux :: "agent_event Multiplexer.sessions"
  rl_procs :: subprocess_manager
  rl_registry :: command_registry
  rl_stdin :: "(nat \<times> string) list"

definition new_relay ::
  "subprocess_manager \<Rightarrow> agent_event Multiplexer.sessions \<Rightarrow> daemon_db \<Rightarrow> command_registry \<Rightarrow> session_relay" where
  "new_relay procs mux db reg = \<lparr> rl_sessions = [], rl_cells = [], rl_pipes = [], rl_db = db,
     rl_mux = mux, rl_procs = procs, rl_registry = reg, rl_stdin = [] \<rparr>"

definition get_handle :: "string \<Rightarrow> session_relay \<Rightarrow> relay_handle option" where
  "get_handle sid r = hm_get (rl_sessions r) sid"

definition is_active :: "string \<Rightarrow> session_relay \<Rightarrow> bool" where
  "is_active sid r \<longleftrightarrow> hm_get (rl_sessions r) sid \<noteq> None"

definition get_active_handle :: "string \<Rightarrow> session_relay \<Rightarrow> relay_error + relay_handle" where
  "get_active_handle sid r =
     (case hm_get (rl_sessions r) sid of None \<Rightarrow> Inl (RelaySessionNotFound sid) | Some h \<Rightarrow> Inr h)"

text \<open>Sending a line to the input channel; \<open>open\<close> tells whether its receiver still exists.\<close>

definition send_line :: "bool \<Rightarrow> nat \<Rightarrow> string \<Rightarrow> session_relay \<Rightarrow> session_relay" where
  "send_line open_chan ch line r =
     (if open_chan then r\<lparr>rl_stdin := rl_stdin r @ [(ch, line)]\<rparr> else r)"

definition stdin_result :: "bool \<Rightarrow> string \<Rightarrow> relay_error + unit" where
  "stdin_result open_chan sid = (if open_chan then Inr () else Inl (StdinClosed sid))"

text \<open>\<^verbatim>\<open>start_session\<close>; \<open>a\<close> is the address of the new cells.\<close>

definition start_session ::
  "launch_env \<Rightarrow> sqlite \<Rightarrow> nat \<Rightarrow> relay_session_config \<Rightarrow> string option \<Rightarrow> session_relay
    \<Rightarrow> session_relay \<times> (relay_error + relay_handle)" where
  "start_session le q a config initial_prompt r =
     (let sid = rs_session_id config in
      case hm_get (rl_sessions r) sid of
        Some h \<Rightarrow> (r, Inr h)
      | None \<Rightarrow>
          (let spawn_cfg = \<lparr> sc_working_directory = rs_working_directory config,
                 sc_prompt = initial_prompt, sc_resume_session = rs_resume_session config,
                 sc_model = rs_model config, sc_permission_strategy = PromptToolStdio \<rparr>
           in case spawn_process le spawn_cfg (rl_procs r) of
                (procs, Inl e) \<Rightarrow> (r\<lparr>rl_procs := procs\<rparr>, Inl (SubprocessError e))
              | (procs, Inr ph) \<Rightarrow>
                  (let start_seq = (case max_message_sequence q sid (rl_db r) of
                                      Inl _ \<Rightarrow> 0 | Inr n \<Rightarrow> word_of_int n);
                       h = \<lparr> rh_process_id = ph_id ph, rh_session_id = sid,
                             rh_stdin_tx = ph_stdin_tx ph, rh_cells = a \<rparr>
                   in (r\<lparr>rl_procs := procs,
                         rl_cells := hm_insert a \<lparr> rc_counter = start_seq, rc_questions = [],
                           rc_permissions = [], rc_grants = [] \<rparr> (rl_cells r),
                         rl_pipes := hm_insert a \<lparr> pl_session_id = sid,
                           pl_bridge = with_start_sequence start_seq, pl_event_count = 0,
                           pl_had_session_error = False, pl_stdin_tx = ph_stdin_tx ph,
                           pl_working_directory = rs_working_directory config, pl_busy = False,
                           pl_out = [] \<rparr> (rl_pipes r),
                         rl_sessions := hm_insert sid h (rl_sessions r)\<rparr>, Inr h))))"

definition the_cells :: "nat \<Rightarrow> session_relay \<Rightarrow> relay_cells" where
  "the_cells a r = (case hm_get (rl_cells r) a of Some c \<Rightarrow> c
     | None \<Rightarrow> \<lparr> rc_counter = 0, rc_questions = [], rc_permissions = [], rc_grants = [] \<rparr>)"

definition send_user_message ::
  "relay_env \<Rightarrow> sqlite \<Rightarrow> int \<Rightarrow> timestamp \<Rightarrow> bool \<Rightarrow> string \<Rightarrow> string \<Rightarrow> string option \<Rightarrow> session_relay
    \<Rightarrow> session_relay \<times> (relay_error + unit)" where
  "send_user_message env q now ts open_chan sid content agent_id r =
     (case get_active_handle sid r of
        Inl e \<Rightarrow> (r, Inl e)
      | Inr h \<Rightarrow>
          (let c = the_cells (rh_cells h) r;
               seq = rc_counter c + 1;
               ev = \<lparr> ev_sequence = seq, ev_timestamp = Some ts, ev_parent_tool_use_id = [],
                      ev_event = Some (UserInput content) \<rparr>;
               r1 = r\<lparr>rl_cells := hm_insert (rh_cells h) (c\<lparr>rc_counter := seq\<rparr>) (rl_cells r),
                      rl_db := fst (store_event env q now sid ev (rl_db r))\<rparr>
           in (send_line open_chan (rh_stdin_tx h) (re_print env (user_message_json content agent_id)) r1,
               stdin_result open_chan sid)))"

definition send_permission_response ::
  "relay_env \<Rightarrow> bool \<Rightarrow> string \<Rightarrow> string \<Rightarrow> bool \<Rightarrow> json \<Rightarrow> session_relay \<Rightarrow> session_relay \<times> (relay_error + unit)"
  where
  "send_permission_response env open_chan sid request_id allow original_input r =
     (case get_active_handle sid r of
        Inl e \<Rightarrow> (r, Inl e)
      | Inr h \<Rightarrow> (send_line open_chan (rh_stdin_tx h)
                    (re_print env (build_permission_response_json request_id allow original_input)) r,
                  stdin_result open_chan sid))"

definition send_question_response ::
  "relay_env \<Rightarrow> bool \<Rightarrow> string \<Rightarrow> string \<Rightarrow> (string, string) hmap \<Rightarrow> json \<Rightarrow> session_relay
    \<Rightarrow> session_relay \<times> (relay_error + unit)" where
  "send_question_response env open_chan sid request_id answers original_input r =
     (case get_active_handle sid r of
        Inl e \<Rightarrow> (r, Inl e)
      | Inr h \<Rightarrow> (send_line open_chan (rh_stdin_tx h)
                    (re_print env (build_question_response_json request_id answers original_input)) r,
                  stdin_result open_chan sid))"

definition send_raw_stdin ::
  "bool \<Rightarrow> string \<Rightarrow> string \<Rightarrow> session_relay \<Rightarrow> session_relay \<times> (relay_error + unit)" where
  "send_raw_stdin open_chan sid line r =
     (case get_active_handle sid r of
        Inl e \<Rightarrow> (r, Inl e)
      | Inr h \<Rightarrow> (send_line open_chan (rh_stdin_tx h) line r, stdin_result open_chan sid))"

definition cancel_session ::
  "sqlite \<Rightarrow> int \<Rightarrow> string \<Rightarrow> session_relay \<Rightarrow> session_relay \<times> (relay_error + bool)" where
  "cancel_session q now sid r =
     (case hm_get (rl_sessions r) sid of
        None \<Rightarrow> (r, Inr False)
      | Some h \<Rightarrow>
          (case terminate_process (rh_process_id h) (rl_procs r) of
             (procs, Inl e) \<Rightarrow> (r\<lparr>rl_procs := procs\<rparr>, Inl (SubprocessError e))
           | (procs, Inr _) \<Rightarrow>
               (r\<lparr>rl_procs := procs, rl_registry := remove_session sid (rl_registry r),
                  rl_sessions := hm_remove sid (rl_sessions r),
                  rl_db := fst (update_session_status q now sid Idle (rl_db r))\<rparr>, Inr True)))"

section \<open>The output pipeline\<close>

text \<open>\<^verbatim>\<open>send_user_message\<close> may have advanced the counter: then a fresh bridge continues from there.\<close>

definition resync :: "64 word \<Rightarrow> event_bridge \<Rightarrow> event_bridge" where
  "resync latest b = (if event_bridge.sequence b < latest then with_start_sequence latest else b)"

definition inject_cwd :: "string \<Rightarrow> agent_event \<Rightarrow> agent_event" where
  "inject_cwd wd ev = (case ev_event ev of
       Some (SessionInfoEv info) \<Rightarrow>
         if in_working_directory info = []
         then ev\<lparr>ev_event := Some (SessionInfoEv (info\<lparr>in_working_directory := wd\<rparr>))\<rparr> else ev
     | _ \<Rightarrow> ev)"

text \<open>The session layer of the registry after a \<^verbatim>\<open>system_init\<close>; \<open>slash_claude\<close> is the joined path.\<close>

definition session_entries :: "relay_env \<Rightarrow> string \<Rightarrow> event_bridge \<Rightarrow> command_entry list" where
  "session_entries env wd b =
     (let dir = (case eb_session_info b of
                   Some i \<Rightarrow> if in_working_directory i \<noteq> [] then in_working_directory i else wd
                 | None \<Rightarrow> wd)
      in mcp_entries b @ re_discover env dir)"

text \<open>
  The transfer of one event: the input of a question or of a permission request moves from the
  bridge to the shared cells, and a permission request with a grant is answered at once. The
  last component collects the ids answered from a grant.
\<close>

definition transfer ::
  "relay_env \<Rightarrow> bool \<Rightarrow> nat \<Rightarrow> agent_event
    \<Rightarrow> event_bridge \<times> relay_cells \<times> (nat \<times> string) list \<times> string list
    \<Rightarrow> event_bridge \<times> relay_cells \<times> (nat \<times> string) list \<times> string list" where
  "transfer env open_chan ch ev st =
     (let (b, c, out, auto) = st in
      case ev_event ev of
        Some (UserQuestion qid _ _ _) \<Rightarrow>
          (case take_question_input qid b of
             (b', Some input) \<Rightarrow> (b', c\<lparr>rc_questions := hm_insert qid input (rc_questions c)\<rparr>, out, auto)
           | (b', None) \<Rightarrow> (b', c, out, auto))
      | Some (PermissionRequest rid tool _ _) \<Rightarrow>
          (case take_permission_input rid b of
             (b', None) \<Rightarrow> (b', c, out, auto)
           | (b', Some input) \<Rightarrow>
               (case hm_get (rc_grants c) tool of
                  Some allow \<Rightarrow>
                    (b', c,
                     (if open_chan
                      then out @ [(ch, re_print env (build_permission_response_json rid allow input))]
                      else out),
                     rid # auto)
                | None \<Rightarrow>
                    (b', c\<lparr>rc_permissions := hm_insert rid \<lparr> pp_input = input, pp_tool_name = tool \<rparr>
                        (rc_permissions c)\<rparr>, out, auto)))
      | _ \<Rightarrow> (b, c, out, auto))"

definition answered :: "string list \<Rightarrow> agent_event \<Rightarrow> bool" where
  "answered auto ev = (case ev_event ev of
       Some (PermissionRequest rid _ _ _) \<Rightarrow> rid \<in> set auto | _ \<Rightarrow> False)"

text \<open>The events of a message: the bridge first catches up with the counter, and a
  \<^verbatim>\<open>system_init\<close> without directory gets the one the subprocess was started in.\<close>

definition is_system_init :: "message \<Rightarrow> bool" where
  "is_system_init msg = (case msg of SystemInit _ \<Rightarrow> True | _ \<Rightarrow> False)"

definition line_convert ::
  "relay_env \<Rightarrow> pipeline \<Rightarrow> 64 word \<Rightarrow> message \<Rightarrow> event_bridge \<times> agent_event list" where
  "line_convert env p latest msg =
     (let (b, evs) = convert (re_bridge env) (resync latest (pl_bridge p)) msg
      in (b, if is_system_init msg then map (inject_cwd (pl_working_directory p)) evs else evs))"

text \<open>Taking a line from the output channel: parsing, conversion, and the transfers.\<close>

definition line_begin :: "relay_env \<Rightarrow> bool \<Rightarrow> nat \<Rightarrow> string \<Rightarrow> session_relay \<Rightarrow> session_relay" where
  "line_begin env open_chan a line r =
     (case hm_get (rl_pipes r) a of
        None \<Rightarrow> r
      | Some p \<Rightarrow>
          if pl_busy p then r
          else case parse_line (re_serde env) line of
            Inl _ \<Rightarrow> r
          | Inr msg \<Rightarrow>
              (let c = the_cells a r;
                   (b, evs) = line_convert env p (rc_counter c) msg;
                   entries = (if is_system_init msg then session_entries env (pl_working_directory p) b else []);
                   reg = (if entries = [] then rl_registry r
                          else set_session_entries (pl_session_id p) entries (rl_registry r));
                   (b', c', out, auto) = fold (transfer env open_chan (pl_stdin_tx p)) evs (b, c, [], [])
               in r\<lparr>rl_registry := reg,
                    rl_cells := hm_insert a c' (rl_cells r),
                    rl_stdin := rl_stdin r @ out,
                    rl_pipes := hm_insert a (p\<lparr>pl_bridge := b', pl_busy := True,
                      pl_out := map (\<lambda>ev. (ev, answered auto ev)) evs\<rparr>) (rl_pipes r)\<rparr>))"

definition is_session_error :: "agent_event \<Rightarrow> bool" where
  "is_session_error ev = (case ev_event ev of
       Some (ErrorEv code _ _ _) \<Rightarrow> code = ''session_error'' | _ \<Rightarrow> False)"

definition usage_update ::
  "relay_env \<Rightarrow> sqlite \<Rightarrow> int \<Rightarrow> string \<Rightarrow> agent_event \<Rightarrow> daemon_db \<Rightarrow> daemon_db" where
  "usage_update env q now sid ev db = (case ev_event ev of
       Some (Usage u) \<Rightarrow> fst (update_session_usage q (re_add env) now sid (uint (ur_input_tokens u))
         (uint (ur_output_tokens u)) (ur_cost_usd u) db)
     | _ \<Rightarrow> db)"

text \<open>One event of the line: stored, and broadcast unless it was answered from a grant. When the
  forwarder is gone the task returns.\<close>

definition line_event ::
  "relay_env \<Rightarrow> sqlite \<Rightarrow> sqlite \<Rightarrow> int \<Rightarrow> bool \<Rightarrow> nat \<Rightarrow> session_relay \<Rightarrow> session_relay" where
  "line_event env q q' now fwd_open a r =
     (case hm_get (rl_pipes r) a of
        None \<Rightarrow> r
      | Some p \<Rightarrow>
          (case pl_out p of
             [] \<Rightarrow> r
           | (ev, auto) # rest \<Rightarrow>
               (let sid = pl_session_id p in
                if auto then
                  r\<lparr>rl_db := fst (store_event env q now sid ev (rl_db r)),
                    rl_pipes := hm_insert a (p\<lparr>pl_out := rest\<rparr>) (rl_pipes r)\<rparr>
                else
                  (let db1 = usage_update env q' now sid ev (rl_db r);
                       db2 = fst (store_event env q now sid ev db1)
                   in if fwd_open then
                        r\<lparr>rl_db := db2, rl_mux := forward_event sid ev (rl_mux r),
                          rl_pipes := hm_insert a (p\<lparr>pl_out := rest,
                            pl_event_count := pl_event_count p + 1,
                            pl_had_session_error := pl_had_session_error p \<or> is_session_error ev\<rparr>)
                            (rl_pipes r)\<rparr>
                      else r\<lparr>rl_db := db2, rl_pipes := hm_remove a (rl_pipes r)\<rparr>))))"

text \<open>The end of the line: the counter is published and the subprocess's session id recorded.\<close>

definition line_end :: "sqlite \<Rightarrow> int \<Rightarrow> nat \<Rightarrow> session_relay \<Rightarrow> session_relay" where
  "line_end q now a r =
     (case hm_get (rl_pipes r) a of
        None \<Rightarrow> r
      | Some p \<Rightarrow>
          if \<not> pl_busy p \<or> pl_out p \<noteq> [] then r
          else
            (let sid = pl_session_id p; c = the_cells a r;
                 r1 = r\<lparr>rl_cells := hm_insert a (c\<lparr>rc_counter := event_bridge.sequence (pl_bridge p)\<rparr>) (rl_cells r),
                        rl_pipes := hm_insert a (p\<lparr>pl_busy := False\<rparr>) (rl_pipes r)\<rparr>
             in case eb_session_info (pl_bridge p) of
                  None \<Rightarrow> r1
                | Some info \<Rightarrow>
                    if pl_had_session_error p
                    then r1\<lparr>rl_db := fst (update_claude_session_id q now sid [] (rl_db r1))\<rparr>
                    else r1\<lparr>rl_procs := (case hm_get (rl_sessions r) sid of
                                None \<Rightarrow> rl_procs r
                              | Some h \<Rightarrow> fst (set_session_id (rh_process_id h) (in_session_id info) (rl_procs r))),
                            rl_db := fst (update_claude_session_id q now sid (in_session_id info) (rl_db r1))\<rparr>))"

definition zero_events_error :: "timestamp \<Rightarrow> agent_event" where
  "zero_events_error ts = \<lparr> ev_sequence = 0, ev_timestamp = Some ts, ev_parent_tool_use_id = [],
     ev_event = Some (ErrorEv ''subprocess_failed''
       ''Claude subprocess exited without producing output. Check daemon logs for stderr details.'' True []) \<rparr>"

text \<open>The end of the task, after the output channel was closed.\<close>

definition pipe_finish :: "sqlite \<Rightarrow> int \<Rightarrow> timestamp \<Rightarrow> nat \<Rightarrow> session_relay \<Rightarrow> session_relay" where
  "pipe_finish q now ts a r =
     (case hm_get (rl_pipes r) a of
        None \<Rightarrow> r
      | Some p \<Rightarrow>
          if pl_busy p then r
          else
            (let sid = pl_session_id p; was_active = is_active sid r in
             r\<lparr>rl_mux := (if pl_event_count p = 0 then forward_event sid (zero_events_error ts) (rl_mux r)
                          else rl_mux r),
               rl_registry := remove_session sid (rl_registry r),
               rl_sessions := hm_remove sid (rl_sessions r),
               rl_db := (if was_active then fst (update_session_status q now sid Idle (rl_db r)) else rl_db r),
               rl_pipes := hm_remove a (rl_pipes r)\<rparr>))"

section \<open>Stored history\<close>

text \<open>The stored messages of a session, and what a row keeps of an event.\<close>

definition stored :: "string \<Rightarrow> daemon_db \<Rightarrow> message_row list" where
  "stored sid db = filter (\<lambda>m. ms_session_id m = sid) (messages db)"

definition stores :: "relay_env \<Rightarrow> message_row \<Rightarrow> agent_event \<Rightarrow> bool" where
  "stores env row ev \<longleftrightarrow> ms_sequence row = sint (ev_sequence ev)
     \<and> ms_message_type row = event_message_type ev
     \<and> ms_payload row = base64_encode (re_encode env ev)"

lemma event_message_type_ok: "message_type_ok (event_message_type ev)"
  by (simp add: event_message_type_def message_type_ok_def split: option.split event.split)

lemma store_event_ok:
  assumes "fst q" and "sid \<in> sids db" and "sint (ev_sequence ev) \<notin> ms_sequence ` set (stored sid db)"
  shows "\<exists>row. stored sid (fst (store_event env q now sid ev db)) = stored sid db @ [row] \<and> stores env row ev"
    and "sessions (fst (store_event env q now sid ev db)) = sessions db"
proof -
  have new: "(sid, sint (ev_sequence ev)) \<notin> set (map (\<lambda>r. (ms_session_id r, ms_sequence r)) (messages db))"
    using assms(3) by (auto simp: stored_def)
  show "\<exists>row. stored sid (fst (store_event env q now sid ev db)) = stored sid db @ [row] \<and> stores env row ev"
    using assms(1,2) new event_message_type_ok [of ev]
    by (simp add: store_event_def insert_message_def Let_def stored_def stores_def)
  show "sessions (fst (store_event env q now sid ev db)) = sessions db"
    by (simp add: store_event_def insert_message_def Let_def)
qed

lemma usage_update_stored [simp]:
  "stored sid (usage_update env q now sid' ev db) = stored sid db"
  "sids (usage_update env q now sid' ev db) = sids db"
proof -
  have "map ss_id (update_rows p f (sessions db)) = map ss_id (sessions db)"
    if "\<And>r. ss_id (f r) = ss_id r" for p f using that by (rule update_rows_map)
  then show "stored sid (usage_update env q now sid' ev db) = stored sid db"
    and "sids (usage_update env q now sid' ev db) = sids db"
    unfolding usage_update_def update_session_usage_def update_session_def stored_def
    by (simp_all split: option.split event.split del: set_map)
qed

subsection \<open>One line without interruption\<close>

definition drain :: "relay_env \<Rightarrow> sqlite \<Rightarrow> sqlite \<Rightarrow> int \<Rightarrow> nat \<Rightarrow> nat \<Rightarrow> session_relay \<Rightarrow> session_relay" where
  "drain env q q' now a n r = (line_event env q q' now True a ^^ n) r"

definition process_line ::
  "relay_env \<Rightarrow> sqlite \<Rightarrow> sqlite \<Rightarrow> int \<Rightarrow> bool \<Rightarrow> nat \<Rightarrow> string \<Rightarrow> session_relay \<Rightarrow> session_relay" where
  "process_line env q q' now open_chan a line r =
     (let r1 = line_begin env open_chan a line r;
          n = (case hm_get (rl_pipes r1) a of None \<Rightarrow> 0 | Some p \<Rightarrow> length (pl_out p))
      in line_end q' now a (drain env q q' now a n r1))"

definition line_events :: "relay_env \<Rightarrow> nat \<Rightarrow> string \<Rightarrow> session_relay \<Rightarrow> agent_event list" where
  "line_events env a line r =
     (case hm_get (rl_pipes r) a of
        None \<Rightarrow> []
      | Some p \<Rightarrow> (case parse_line (re_serde env) line of
            Inl _ \<Rightarrow> [] | Inr msg \<Rightarrow> snd (line_convert env p (rc_counter (the_cells a r)) msg)))"

text \<open>All rows of the session are numbered at most \<open>n\<close>.\<close>

definition numbered_to :: "string \<Rightarrow> daemon_db \<Rightarrow> nat \<Rightarrow> bool" where
  "numbered_to sid db n \<longleftrightarrow> list_all (\<lambda>m. ms_sequence m \<le> int n) (stored sid db)"

lemma numbered_toI:
  "numbered_to sid db n \<Longrightarrow> stored sid db' = stored sid db @ rows \<Longrightarrow>
     list_all (\<lambda>m. ms_sequence m \<le> int n') rows \<Longrightarrow> n \<le> n' \<Longrightarrow> numbered_to sid db' n'"
  by (auto simp: numbered_to_def list_all_iff)

text \<open>What a pipeline task keeps while it works through the events of a line.\<close>

definition same_task :: "pipeline \<Rightarrow> pipeline \<Rightarrow> bool" where
  "same_task p p' \<longleftrightarrow> pl_session_id p' = pl_session_id p \<and> pl_bridge p' = pl_bridge p
     \<and> pl_busy p' = pl_busy p \<and> pl_stdin_tx p' = pl_stdin_tx p
     \<and> pl_working_directory p' = pl_working_directory p"

lemma line_event_stores:
  assumes "hm_get (rl_pipes r) a = Some p" and "pl_out p = (ev, auto) # rest" and "fst q"
    and "pl_session_id p \<in> sids (rl_db r)"
    and "sint (ev_sequence ev) \<notin> ms_sequence ` set (stored (pl_session_id p) (rl_db r))"
  shows "\<exists>p' row. hm_get (rl_pipes (line_event env q q' now True a r)) a = Some p'
      \<and> pl_out p' = rest \<and> same_task p p'
      \<and> stored (pl_session_id p) (rl_db (line_event env q q' now True a r))
          = stored (pl_session_id p) (rl_db r) @ [row] \<and> stores env row ev"
    and "sids (rl_db (line_event env q q' now True a r)) = sids (rl_db r)"
    and "rl_cells (line_event env q q' now True a r) = rl_cells r"
    and "rl_sessions (line_event env q q' now True a r) = rl_sessions r"
proof -
  let ?sid = "pl_session_id p"
  let ?db = "if auto then rl_db r else usage_update env q' now ?sid ev (rl_db r)"
  have db: "rl_db (line_event env q q' now True a r) = fst (store_event env q now ?sid ev ?db)"
    and cells: "rl_cells (line_event env q q' now True a r) = rl_cells r"
    and ss: "rl_sessions (line_event env q q' now True a r) = rl_sessions r"
    by (simp_all add: line_event_def assms(1,2) Let_def)
  have "?sid \<in> sids ?db" "sint (ev_sequence ev) \<notin> ms_sequence ` set (stored ?sid ?db)"
    and st: "stored ?sid ?db = stored ?sid (rl_db r)" and si: "sids ?db = sids (rl_db r)"
    using assms(4,5) by (simp_all del: set_map)
  note ok = store_event_ok [OF assms(3) this(1,2), where env = env and now = now]
  from ok(1) st have "\<exists>row. stored ?sid (rl_db (line_event env q q' now True a r)) =
      stored ?sid (rl_db r) @ [row] \<and> stores env row ev" by (simp add: db)
  moreover have "\<exists>p'. hm_get (rl_pipes (line_event env q q' now True a r)) a = Some p'
      \<and> pl_out p' = rest \<and> same_task p p'"
    by (simp add: line_event_def assms(1,2) Let_def same_task_def)
  ultimately show "\<exists>p' row. hm_get (rl_pipes (line_event env q q' now True a r)) a = Some p'
      \<and> pl_out p' = rest \<and> same_task p p'
      \<and> stored ?sid (rl_db (line_event env q q' now True a r)) = stored ?sid (rl_db r) @ [row]
      \<and> stores env row ev" by blast
  show "sids (rl_db (line_event env q q' now True a r)) = sids (rl_db r)"
    using ok(2) si by (simp add: db del: set_map)
  show "rl_cells (line_event env q q' now True a r) = rl_cells r"
    and "rl_sessions (line_event env q q' now True a r) = rl_sessions r" by (fact cells, fact ss)
qed

lemma same_task_trans: "same_task p p' \<Longrightarrow> same_task p' p'' \<Longrightarrow> same_task p p''"
  by (simp add: same_task_def)

lemma drain_stores:
  assumes "hm_get (rl_pipes r) a = Some p" and "fst q" and "pl_session_id p \<in> sids (rl_db r)"
    and "consecutive s (map (ev_sequence \<circ> fst) (pl_out p))"
    and "numbered_to (pl_session_id p) (rl_db r) (unat s)"
    and "unat s + length (pl_out p) < 2 ^ 63"
  shows "\<exists>p' rows. hm_get (rl_pipes (drain env q q' now a (length (pl_out p)) r)) a = Some p'
      \<and> pl_out p' = [] \<and> same_task p p'
      \<and> stored (pl_session_id p) (rl_db (drain env q q' now a (length (pl_out p)) r))
          = stored (pl_session_id p) (rl_db r) @ rows
      \<and> list_all2 (stores env) rows (map fst (pl_out p))
      \<and> sids (rl_db (drain env q q' now a (length (pl_out p)) r)) = sids (rl_db r)
      \<and> rl_cells (drain env q q' now a (length (pl_out p)) r) = rl_cells r
      \<and> rl_sessions (drain env q q' now a (length (pl_out p)) r) = rl_sessions r
      \<and> numbered_to (pl_session_id p) (rl_db (drain env q q' now a (length (pl_out p)) r))
          (unat s + length (pl_out p))"
  using assms
proof (induction "pl_out p" arbitrary: p r s)
  case Nil
  then show ?case by (simp add: drain_def same_task_def)
next
  case (Cons x rest)
  obtain ev auto where x: "x = (ev, auto)" by fastforce
  have out: "pl_out p = (ev, auto) # rest" using Cons.hyps(2) x by simp
  let ?r = "line_event env q q' now True a r"
  let ?sid = "pl_session_id p"
  have seq: "ev_sequence ev = s + 1" "consecutive (s + 1) (map (ev_sequence \<circ> fst) rest)"
    using Cons.prems(4) by (simp_all add: out)
  have us: "unat (s + 1) = Suc (unat s)"
    using Cons.prems(6) by (simp add: out unat_word_ariths)
  then have sq: "sint (ev_sequence ev) = int (Suc (unat s))"
    using Cons.prems(6) sint_small [of "s + 1"] by (simp add: seq(1) out)
  have "sint (ev_sequence ev) \<notin> ms_sequence ` set (stored ?sid (rl_db r))"
    using Cons.prems(5) by (auto simp: numbered_to_def list_all_iff sq)
  note step = line_event_stores [OF Cons.prems(1) out Cons.prems(2,3) this,
      where env = env and q' = q' and now = now]
  from step(1) obtain p1 row where p1: "hm_get (rl_pipes ?r) a = Some p1" "pl_out p1 = rest" "same_task p p1"
    "stored ?sid (rl_db ?r) = stored ?sid (rl_db r) @ [row]" "stores env row ev" by blast
  have sid1: "pl_session_id p1 = ?sid" using p1(3) by (simp add: same_task_def)
  have "numbered_to ?sid (rl_db ?r) (unat (s + 1))"
    using Cons.prems(5) p1(4,5) sq us
    by (intro numbered_toI [OF Cons.prems(5) p1(4)]) (simp_all add: stores_def)
  then have n1: "numbered_to (pl_session_id p1) (rl_db ?r) (unat (s + 1))" by (simp add: sid1)
  have dr: "drain env q q' now a (length (pl_out p)) r = drain env q q' now a (length (pl_out p1)) ?r"
    by (simp add: drain_def out p1(2) funpow_swap1)
  have "pl_session_id p1 \<in> sids (rl_db ?r)" "consecutive (s + 1) (map (ev_sequence \<circ> fst) (pl_out p1))"
    "unat (s + 1) + length (pl_out p1) < 2 ^ 63"
    using Cons.prems(3,6) step(2) seq(2) p1(2) us out by (simp_all add: sid1 del: set_map)
  from Cons.hyps(1) [OF p1(2) [symmetric] p1(1) Cons.prems(2) this(1,2) n1 this(3)]
  obtain p2 rows where p2: "hm_get (rl_pipes (drain env q q' now a (length (pl_out p)) r)) a = Some p2"
    "pl_out p2 = []" "same_task p1 p2"
    "stored ?sid (rl_db (drain env q q' now a (length (pl_out p)) r)) = stored ?sid (rl_db ?r) @ rows"
    "list_all2 (stores env) rows (map fst rest)"
    "sids (rl_db (drain env q q' now a (length (pl_out p)) r)) = sids (rl_db r)"
    "rl_cells (drain env q q' now a (length (pl_out p)) r) = rl_cells r"
    "rl_sessions (drain env q q' now a (length (pl_out p)) r) = rl_sessions r"
    "numbered_to ?sid (rl_db (drain env q q' now a (length (pl_out p)) r)) (unat s + length (pl_out p))"
    unfolding dr sid1 step(2-4) by (auto simp: p1(2) us out simp del: set_map)
  show ?case
    using p2 p1(4,5) same_task_trans [OF p1(3) p2(3)]
    by (intro exI [of _ p2] exI [of _ "row # rows"]) (simp add: out del: set_map)
qed

text \<open>Between two lines: the task waits, and neither its bridge nor a stored row is ahead of the
  shared counter, which stands at \<open>n\<close>.\<close>

definition waiting :: "string \<Rightarrow> nat \<Rightarrow> nat \<Rightarrow> session_relay \<Rightarrow> bool" where
  "waiting sid a n r \<longleftrightarrow>
     (\<exists>p. hm_get (rl_pipes r) a = Some p \<and> pl_session_id p = sid \<and> \<not> pl_busy p \<and> pl_out p = []
        \<and> event_bridge.sequence (pl_bridge p) \<le> rc_counter (the_cells a r))
     \<and> unat (rc_counter (the_cells a r)) = n \<and> numbered_to sid (rl_db r) n \<and> sid \<in> sids (rl_db r)"

lemma transfer_keeps:
  assumes "transfer env oc ch ev (b, c, o', au) = (b', c', o'', au')"
  shows "event_bridge.sequence b' = event_bridge.sequence b \<and> rc_counter c' = rc_counter c
     \<and> eb_session_info b' = eb_session_info b"
  using assms unfolding transfer_def Let_def
  by (auto simp: take_question_input_def take_permission_input_def
           split: option.splits event.splits if_splits)

lemma transfers_keep:
  assumes "fold (transfer env oc ch) evs (b, c, o', au) = (b', c', o'', au')"
  shows "event_bridge.sequence b' = event_bridge.sequence b \<and> rc_counter c' = rc_counter c"
  using assms
proof (induction evs arbitrary: b c o' au)
  case (Cons ev evs)
  obtain b1 c1 o1 au1 where t: "transfer env oc ch ev (b, c, o', au) = (b1, c1, o1, au1)"
    using prod_cases4 by blast
  from Cons.IH [of b1 c1 o1 au1] Cons.prems transfer_keeps [OF t] show ?case by (simp add: t)
qed simp

lemma inject_cwd_sequence [simp]: "ev_sequence (inject_cwd wd ev) = ev_sequence ev"
  by (simp add: inject_cwd_def split: option.split event.split)

lemma line_convert_numbered:
  assumes "event_bridge.sequence (pl_bridge p) \<le> latest" and "line_convert env p latest msg = (b, evs)"
  shows "consecutive latest (map ev_sequence evs) \<and> event_bridge.sequence b = latest + of_nat (length evs)"
proof -
  let ?b = "resync latest (pl_bridge p)"
  have start: "event_bridge.sequence ?b = latest"
    using assms(1) by (auto simp: resync_def with_start_sequence_def)
  obtain b0 evs0 where c: "convert (re_bridge env) ?b msg = (b0, evs0)" by fastforce
  have "consecutive latest (map ev_sequence evs0) \<and> event_bridge.sequence b0 = latest + of_nat (length evs0)"
    using convert_numbered [of ?b "re_bridge env" msg] by (simp add: c numbered_def start)
  then show ?thesis using assms(2) by (auto simp: line_convert_def c o_def split: if_splits)
qed

lemma the_cells_insert [simp]:
  "hm_get (rl_cells r) a = Some c \<Longrightarrow> the_cells a r = c"
  by (simp add: the_cells_def)

lemma line_begin_effect:
  assumes "hm_get (rl_pipes r) a = Some p" and "\<not> pl_busy p" and "parse_line (re_serde env) line = Inr msg"
    and "line_convert env p (rc_counter (the_cells a r)) msg = (b, evs)"
  shows "\<exists>p' c'. hm_get (rl_pipes (line_begin env oc a line r)) a = Some p'
      \<and> map fst (pl_out p') = evs \<and> pl_busy p' \<and> pl_session_id p' = pl_session_id p
      \<and> event_bridge.sequence (pl_bridge p') = event_bridge.sequence b
      \<and> hm_get (rl_cells (line_begin env oc a line r)) a = Some c'
      \<and> rc_counter c' = rc_counter (the_cells a r)"
    and "rl_db (line_begin env oc a line r) = rl_db r"
    and "rl_sessions (line_begin env oc a line r) = rl_sessions r"
proof -
  obtain b' c' o' au where f: "fold (transfer env oc (pl_stdin_tx p)) evs (b, the_cells a r, [], []) = (b', c', o', au)"
    using prod_cases4 by blast
  note keep = transfers_keep [OF f]
  show "\<exists>p' c'. hm_get (rl_pipes (line_begin env oc a line r)) a = Some p'
      \<and> map fst (pl_out p') = evs \<and> pl_busy p' \<and> pl_session_id p' = pl_session_id p
      \<and> event_bridge.sequence (pl_bridge p') = event_bridge.sequence b
      \<and> hm_get (rl_cells (line_begin env oc a line r)) a = Some c'
      \<and> rc_counter c' = rc_counter (the_cells a r)"
    using keep by (simp add: line_begin_def assms Let_def f o_def)
  show "rl_db (line_begin env oc a line r) = rl_db r"
    and "rl_sessions (line_begin env oc a line r) = rl_sessions r"
    by (simp_all add: line_begin_def assms Let_def f)
qed

lemma claude_id_stored [simp]:
  "stored sid (fst (update_claude_session_id q now sid' c db)) = stored sid db"
  "sids (fst (update_claude_session_id q now sid' c db)) = sids db"
proof -
  have "map ss_id (update_rows p f (sessions db)) = map ss_id (sessions db)"
    if "\<And>r. ss_id (f r) = ss_id r" for p f using that by (rule update_rows_map)
  then show "stored sid (fst (update_claude_session_id q now sid' c db)) = stored sid db"
    and "sids (fst (update_claude_session_id q now sid' c db)) = sids db"
    unfolding update_claude_session_id_def update_session_def stored_def by (simp_all del: set_map)
qed

lemma line_end_effect:
  assumes "hm_get (rl_pipes r) a = Some p" and "pl_busy p" and "pl_out p = []"
  shows "\<exists>p'. hm_get (rl_pipes (line_end q now a r)) a = Some p' \<and> pl_out p' = [] \<and> \<not> pl_busy p'
      \<and> pl_session_id p' = pl_session_id p \<and> pl_bridge p' = pl_bridge p
      \<and> rc_counter (the_cells a (line_end q now a r)) = event_bridge.sequence (pl_bridge p)"
    and "stored sid (rl_db (line_end q now a r)) = stored sid (rl_db r)"
    and "sids (rl_db (line_end q now a r)) = sids (rl_db r)"
    and "rl_sessions (line_end q now a r) = rl_sessions r"
  using assms by (simp_all add: line_end_def Let_def the_cells_def del: set_map split: option.split)

lemma process_line_stores:
  assumes w: "waiting sid a n r" and q: "fst q"
    and evs: "evs = line_events env a line r" and small: "n + length evs < 2 ^ 63"
  shows "waiting sid a (n + length evs) (process_line env q q' now oc a line r)"
    and "\<exists>rows. stored sid (rl_db (process_line env q q' now oc a line r)) = stored sid (rl_db r) @ rows
        \<and> list_all2 (stores env) rows evs"
    and "consecutive (rc_counter (the_cells a r)) (map ev_sequence evs)"
    and "rl_sessions (process_line env q q' now oc a line r) = rl_sessions r"
proof -
  let ?r' = "process_line env q q' now oc a line r"
  from w obtain p where p: "hm_get (rl_pipes r) a = Some p" "pl_session_id p = sid" "\<not> pl_busy p" "pl_out p = []"
      "event_bridge.sequence (pl_bridge p) \<le> rc_counter (the_cells a r)"
    and n: "unat (rc_counter (the_cells a r)) = n" and to: "numbered_to sid (rl_db r) n"
    and sid: "sid \<in> sids (rl_db r)" unfolding waiting_def by blast
  have "waiting sid a (n + length evs) ?r' \<and>
    (\<exists>rows. stored sid (rl_db ?r') = stored sid (rl_db r) @ rows \<and> list_all2 (stores env) rows evs) \<and>
    consecutive (rc_counter (the_cells a r)) (map ev_sequence evs) \<and> rl_sessions ?r' = rl_sessions r"
  proof (cases "parse_line (re_serde env) line")
    case (Inl e)
    have "evs = []" by (simp add: evs line_events_def p Inl)
    moreover have "?r' = r"
      by (simp add: process_line_def line_begin_def p Inl Let_def drain_def line_end_def)
    ultimately show ?thesis using w by simp
  next
    case (Inr msg)
    obtain b evs' where c: "line_convert env p (rc_counter (the_cells a r)) msg = (b, evs')" by fastforce
    have e: "evs' = evs" by (simp add: evs line_events_def p(1) Inr c)
    note num = line_convert_numbered [OF p(5) c, unfolded e]
    let ?r1 = "line_begin env oc a line r"
    note lb = line_begin_effect [OF p(1,3) Inr c, where oc = oc, unfolded e]
    from lb(1) obtain p1 c1 where p1: "hm_get (rl_pipes ?r1) a = Some p1" "map fst (pl_out p1) = evs"
      "pl_busy p1" "pl_session_id p1 = sid" "event_bridge.sequence (pl_bridge p1) = event_bridge.sequence b"
      "hm_get (rl_cells ?r1) a = Some c1" "rc_counter c1 = rc_counter (the_cells a r)"
      using p(2) by blast
    have len: "length (pl_out p1) = length evs" using arg_cong [OF p1(2), of length] by simp
    have co: "consecutive (rc_counter (the_cells a r)) (map (ev_sequence \<circ> fst) (pl_out p1))"
      using num p1(2) by (metis map_map)
    let ?r2 = "drain env q q' now a (length (pl_out p1)) ?r1"
    from drain_stores [OF p1(1) q _ co, unfolded p1(4) lb(2), OF sid, unfolded n, OF to, unfolded len,
        OF small, where env = env and q' = q' and now = now]
    obtain p2 rows where p2: "hm_get (rl_pipes ?r2) a = Some p2" "pl_out p2 = []" "same_task p1 p2"
      "stored sid (rl_db ?r2) = stored sid (rl_db r) @ rows" "list_all2 (stores env) rows evs"
      "sids (rl_db ?r2) = sids (rl_db r)" "rl_sessions ?r2 = rl_sessions r"
      "numbered_to sid (rl_db ?r2) (n + length evs)"
      unfolding len p1(2) lb(3) by blast
    have busy2: "pl_busy p2" using p2(3) p1(3) by (simp add: same_task_def)
    have r': "?r' = line_end q' now a ?r2" by (simp add: process_line_def p1(1) Let_def)
    note le = line_end_effect [OF p2(1) busy2 p2(2), where q = q' and now = now, folded r']
    have seq2: "event_bridge.sequence (pl_bridge p2) = rc_counter (the_cells a r) + of_nat (length evs)"
      using p2(3) p1(5) num by (simp add: same_task_def)
    then have "unat (event_bridge.sequence (pl_bridge p2)) = n + length evs"
      using small n by (simp add: unat_word_ariths unat_of_nat)
    moreover have "numbered_to sid (rl_db ?r') (n + length evs)"
      using p2(8) by (simp add: numbered_to_def le(2))
    ultimately have "waiting sid a (n + length evs) ?r'"
      using le(1) p2(3) p1(4) sid unfolding waiting_def le(3) p2(6) by (auto simp: same_task_def simp del: set_map)
    with p2(4,5,7) num le(2,4) show ?thesis by auto
  qed
  then show "waiting sid a (n + length evs) ?r'"
    and "\<exists>rows. stored sid (rl_db ?r') = stored sid (rl_db r) @ rows \<and> list_all2 (stores env) rows evs"
    and "consecutive (rc_counter (the_cells a r)) (map ev_sequence evs)"
    and "rl_sessions ?r' = rl_sessions r" by blast+
qed

subsection \<open>A user message\<close>

definition user_event :: "timestamp \<Rightarrow> 64 word \<Rightarrow> string \<Rightarrow> agent_event" where
  "user_event ts seq content = \<lparr> ev_sequence = seq, ev_timestamp = Some ts, ev_parent_tool_use_id = [],
     ev_event = Some (UserInput content) \<rparr>"

lemma send_line_simps [simp]:
  "rl_db (send_line oc ch l r) = rl_db r" "rl_pipes (send_line oc ch l r) = rl_pipes r"
  "rl_cells (send_line oc ch l r) = rl_cells r" "rl_sessions (send_line oc ch l r) = rl_sessions r"
  by (simp_all add: send_line_def)

lemma user_message_stores:
  assumes w: "waiting sid a n r" and q: "fst q" and small: "n + 1 < 2 ^ 63"
    and h: "get_handle sid r = Some h" "rh_cells h = a"
    and ev_def: "ev = user_event ts (rc_counter (the_cells a r) + 1) content"
    and r'_def: "r' = fst (send_user_message env q now ts oc sid content aid r)"
  shows "waiting sid a (n + 1) r'"
    and "\<exists>row. stored sid (rl_db r') = stored sid (rl_db r) @ [row] \<and> stores env row ev"
    and "rl_sessions r' = rl_sessions r"
proof -
  let ?c = "the_cells a r"
  from w obtain p where p: "hm_get (rl_pipes r) a = Some p" "pl_session_id p = sid" "\<not> pl_busy p" "pl_out p = []"
      "event_bridge.sequence (pl_bridge p) \<le> rc_counter ?c"
    and n: "unat (rc_counter ?c) = n" and to: "numbered_to sid (rl_db r) n"
    and sid: "sid \<in> sids (rl_db r)" unfolding waiting_def by blast
  have db: "rl_db r' = fst (store_event env q now sid ev (rl_db r))"
    and pipes: "rl_pipes r' = rl_pipes r" and ss: "rl_sessions r' = rl_sessions r"
    and cells: "hm_get (rl_cells r') a = Some (?c\<lparr>rc_counter := rc_counter ?c + 1\<rparr>)"
    using h by (simp_all add: r'_def ev_def send_user_message_def get_active_handle_def get_handle_def
        Let_def user_event_def)
  have n1: "unat (rc_counter ?c + 1) = n + 1" using small n by (simp add: unat_word_ariths)
  then have sq: "sint (ev_sequence ev) = int (n + 1)"
    using small sint_small [of "rc_counter ?c + 1"] by (simp add: ev_def user_event_def)
  then have "sint (ev_sequence ev) \<notin> ms_sequence ` set (stored sid (rl_db r))"
    using to by (auto simp: numbered_to_def list_all_iff)
  note ok = store_event_ok [OF q sid this, where env = env and now = now, folded db]
  from ok(1) obtain row where row: "stored sid (rl_db r') = stored sid (rl_db r) @ [row]" "stores env row ev" by blast
  then show "\<exists>row. stored sid (rl_db r') = stored sid (rl_db r) @ [row] \<and> stores env row ev" by blast
  have "numbered_to sid (rl_db r') (n + 1)"
    using row sq by (intro numbered_toI [OF to row(1)]) (simp_all add: stores_def)
  moreover have "event_bridge.sequence (pl_bridge p) \<le> rc_counter (the_cells a r')"
    using p(5) n n1 by (simp add: cells word_le_nat_alt)
  ultimately show "waiting sid a (n + 1) r'"
    using p(1-4) n1 sid ok(2) by (auto simp: waiting_def pipes cells)
  show "rl_sessions r' = rl_sessions r" by (fact ss)
qed

subsection \<open>Runs without overlap\<close>

text \<open>What every other operation of the daemon leaves alone: the task, its counter, and the
  session's rows.\<close>

definition untouched :: "string \<Rightarrow> nat \<Rightarrow> session_relay \<Rightarrow> session_relay \<Rightarrow> bool" where
  "untouched sid a r r' \<longleftrightarrow> hm_get (rl_pipes r') a = hm_get (rl_pipes r) a
     \<and> rc_counter (the_cells a r') = rc_counter (the_cells a r)
     \<and> stored sid (rl_db r') = stored sid (rl_db r)
     \<and> (sid \<in> sids (rl_db r) \<longrightarrow> sid \<in> sids (rl_db r'))"

text \<open>
  A run of a session in which user messages arrive between two lines of output and every
  insertion executes; the list holds the events of the run.
\<close>

inductive quiet_run ::
  "relay_env \<Rightarrow> string \<Rightarrow> nat \<Rightarrow> session_relay \<Rightarrow> agent_event list \<Rightarrow> session_relay \<Rightarrow> bool"
  for env sid a r0 where
  quiet_start: "quiet_run env sid a r0 [] r0"
| quiet_line: "quiet_run env sid a r0 evs r \<Longrightarrow> fst q \<Longrightarrow>
    quiet_run env sid a r0 (evs @ line_events env a line r) (process_line env q q' now oc a line r)"
| quiet_user: "quiet_run env sid a r0 evs r \<Longrightarrow> get_handle sid r = Some h \<Longrightarrow> rh_cells h = a \<Longrightarrow> fst q \<Longrightarrow>
    quiet_run env sid a r0 (evs @ [user_event ts (rc_counter (the_cells a r) + 1) content])
      (fst (send_user_message env q now ts oc sid content aid r))"
| quiet_other: "quiet_run env sid a r0 evs r \<Longrightarrow> untouched sid a r r' \<Longrightarrow> quiet_run env sid a r0 evs r'"

lemma waiting_untouched: "waiting sid a n r \<Longrightarrow> untouched sid a r r' \<Longrightarrow> waiting sid a n r'"
  by (auto simp: waiting_def untouched_def numbered_to_def simp del: set_map)

lemma waiting_counter: "waiting sid a n r \<Longrightarrow> unat (rc_counter (the_cells a r)) = n"
  by (simp add: waiting_def)

lemma counter_after:
  assumes "waiting sid a n r0" and "waiting sid a (n + k) r" and "n + k < 2 ^ 63"
  shows "rc_counter (the_cells a r) = rc_counter (the_cells a r0) + of_nat k"
  unfolding word_unat_eq_iff
  using waiting_counter [OF assms(1)] waiting_counter [OF assms(2)] assms(3)
  by (simp add: unat_word_ariths unat_of_nat)

lemma quiet_run_stores:
  assumes "quiet_run env sid a r0 evs r" and "waiting sid a n r0" and "n + length evs < 2 ^ 63"
  shows "waiting sid a (n + length evs) r
    \<and> (\<exists>rows. stored sid (rl_db r) = stored sid (rl_db r0) @ rows \<and> list_all2 (stores env) rows evs)
    \<and> consecutive (rc_counter (the_cells a r0)) (map ev_sequence evs)"
  using assms
proof (induction rule: quiet_run.induct)
  case quiet_start
  then show ?case by simp
next
  case (quiet_line evs r q line q' now oc)
  let ?new = "line_events env a line r"
  have ih: "waiting sid a (n + length evs) r"
    "\<exists>rows. stored sid (rl_db r) = stored sid (rl_db r0) @ rows \<and> list_all2 (stores env) rows evs"
    "consecutive (rc_counter (the_cells a r0)) (map ev_sequence evs)"
    using quiet_line.IH quiet_line.prems by simp_all
  note pl = process_line_stores(1,2) [OF ih(1) quiet_line.hyps(2) refl, where env = env and line = line
      and q' = q' and now = now and oc = oc]
  have small: "n + length evs + length ?new < 2 ^ 63" using quiet_line.prems(2) by simp
  have "rc_counter (the_cells a r) = rc_counter (the_cells a r0) + of_nat (length evs)"
    using quiet_line.prems by (intro counter_after [OF _ ih(1)]) simp_all
  then have "consecutive (rc_counter (the_cells a r0)) (map ev_sequence (evs @ ?new))"
    using ih(3) process_line_stores(3) [OF ih(1) quiet_line.hyps(2) refl small] by (simp add: consecutive_append)
  with pl(1,2) [OF small] ih(2) show ?case
    by (auto simp: add.assoc intro: list_all2_appendI)
next
  case (quiet_user evs r h q ts content now oc aid)
  have ih: "waiting sid a (n + length evs) r"
    "\<exists>rows. stored sid (rl_db r) = stored sid (rl_db r0) @ rows \<and> list_all2 (stores env) rows evs"
    "consecutive (rc_counter (the_cells a r0)) (map ev_sequence evs)"
    using quiet_user.IH quiet_user.prems by simp_all
  have small: "n + length evs + 1 < 2 ^ 63" using quiet_user.prems(2) by simp
  note um = user_message_stores [OF ih(1) quiet_user.hyps(4) small quiet_user.hyps(2,3) refl refl,
      where ts = ts and content = content and env = env and now = now and oc = oc and aid = aid]
  have "rc_counter (the_cells a r) = rc_counter (the_cells a r0) + of_nat (length evs)"
    using quiet_user.prems by (intro counter_after [OF _ ih(1)]) simp_all
  then have "consecutive (rc_counter (the_cells a r0))
      (map ev_sequence (evs @ [user_event ts (rc_counter (the_cells a r) + 1) content]))"
    using ih(3) by (simp add: consecutive_append user_event_def)
  moreover obtain rows row where "stored sid (rl_db (fst (send_user_message env q now ts oc sid content aid r)))
      = stored sid (rl_db r0) @ rows @ [row]" "list_all2 (stores env) rows evs"
      "stores env row (user_event ts (rc_counter (the_cells a r) + 1) content)"
    using ih(2) um(2) by auto
  ultimately show ?case using um(1) by (auto intro!: list_all2_appendI)
next
  case (quiet_other evs r r')
  then show ?case using waiting_untouched [of sid a "n + length evs" r r'] by (auto simp: untouched_def)
qed

lemma stores_numbered:
  assumes "list_all2 (stores env) rows evs" and "consecutive s (map ev_sequence evs)"
    and "unat s + length evs < 2 ^ 63"
  shows "map ms_sequence rows = map int [Suc (unat s) ..< Suc (unat s + length evs)]"
proof -
  have nums: "map unat (map ev_sequence evs) = [Suc (unat s) ..< Suc (unat s + length evs)]"
    using consecutive_unat [OF assms(2)] assms(3) by simp
  have "map ms_sequence rows = map (sint \<circ> ev_sequence) evs"
    using assms(1) by (induction rule: list_all2_induct) (simp_all add: stores_def)
  also have "\<dots> = map (int \<circ> unat \<circ> ev_sequence) evs"
  proof (rule map_cong [OF refl])
    fix ev assume "ev \<in> set evs"
    then have "unat (ev_sequence ev) \<in> set (map unat (map ev_sequence evs))" by simp
    then have "unat (ev_sequence ev) < 2 ^ 63" unfolding nums set_upt using assms(3) by simp
    then show "(sint \<circ> ev_sequence) ev = (int \<circ> unat \<circ> ev_sequence) ev" by (simp add: sint_small)
  qed
  also have "\<dots> = map int (map unat (map ev_sequence evs))" by simp
  finally show ?thesis unfolding nums .
qed

lemma quiet_run_rows:
  assumes "quiet_run env sid a r0 evs r" and "waiting sid a n r0" and "n + length evs < 2 ^ 63"
  obtains rows where "stored sid (rl_db r) = stored sid (rl_db r0) @ rows" and "list_all2 (stores env) rows evs"
    and "map ms_sequence rows = map int [Suc n ..< Suc (n + length evs)]"
  using quiet_run_stores [OF assms] stores_numbered [of env _ evs "rc_counter (the_cells a r0)"] assms(3)
    waiting_counter [OF assms(2)] by metis

text \<open>
  C8. In a run in which user messages arrive between lines of output and every insertion
  executes, nothing is lost: the stored history of the session is the history before the run
  followed by exactly one row for each user message and each event of each line, in the order in
  which they happened, numbered consecutively from the session's counter.
\<close>

theorem relay_history_complete:
  assumes "quiet_run env sid a r0 evs r" and "waiting sid a n r0" and "n + length evs < 2 ^ 63"
  shows "\<exists>rows. stored sid (rl_db r) = stored sid (rl_db r0) @ rows \<and> list_all2 (stores env) rows evs
    \<and> map ms_sequence rows = map int [Suc n ..< Suc (n + length evs)]"
  using quiet_run_rows [OF assms] by metis

text \<open>Starting a session puts its task between two lines, with the counter at the last stored number.\<close>

lemma start_session_waiting:
  assumes "get_handle (rs_session_id config) r = None" and "fst q"
    and "start_session le q a config prompt r = (r', Inr h)"
    and "rs_session_id config \<in> sids (rl_db r)"
    and "max_message_sequence q (rs_session_id config) (rl_db r) = Inr (int n)" and "n < 2 ^ 63"
  shows "waiting (rs_session_id config) a n r' \<and> get_handle (rs_session_id config) r' = Some h \<and> rh_cells h = a
    \<and> rl_db r' = rl_db r"
proof -
  let ?sid = "rs_session_id config"
  have eff: "rl_db r' = rl_db r \<and> get_handle ?sid r' = Some h \<and> rh_cells h = a
    \<and> rc_counter (the_cells a r') = of_nat n
    \<and> (\<exists>p. hm_get (rl_pipes r') a = Some p \<and> pl_session_id p = ?sid \<and> \<not> pl_busy p \<and> pl_out p = []
         \<and> event_bridge.sequence (pl_bridge p) = of_nat n)"
    using assms(1,3,5)
    by (auto simp: start_session_def get_handle_def Let_def with_start_sequence_def the_cells_def
             split: prod.splits sum.splits)
  have n: "unat (of_nat n :: 64 word) = n" using assms(6) by (simp add: unat_of_nat)
  have "ms_sequence m \<le> int n" if "m \<in> set (stored ?sid (rl_db r))" for m
  proof -
    have "filter (\<lambda>r. ms_session_id r = ?sid) (messages (rl_db r)) \<noteq> []"
      using that unfolding stored_def by (cases "filter (\<lambda>r. ms_session_id r = ?sid) (messages (rl_db r))") auto
    then have "int n = Max (ms_sequence ` set (stored ?sid (rl_db r)))"
      using assms(2,5) by (simp add: max_message_sequence_def Let_def stored_def split: if_splits)
    then show ?thesis using that by simp
  qed
  then have "numbered_to ?sid (rl_db r') n" using eff by (simp add: numbered_to_def list_all_iff)
  with eff n assms(4) show ?thesis by (auto simp: waiting_def)
qed

section \<open>A small daemon\<close>

definition demo_relay_env :: relay_env where
  "demo_relay_env = \<lparr> re_serde = demo_serde, re_bridge = EventBridge.demo_env, re_print = (\<lambda>_. ''json''),
     re_encode = (\<lambda>ev. [ucast (ev_sequence ev)]), re_add = (+), re_discover = (\<lambda>_. []) \<rparr>"

definition demo_config :: relay_session_config where
  "demo_config = \<lparr> rs_session_id = ''s'', rs_working_directory = ''/w'', rs_model = None,
     rs_resume_session = None, rs_worktree_id = [] \<rparr>"

text \<open>A relay with one stored session and one connected client, and the same after the start.\<close>

definition demo_relay0 :: session_relay where
  "demo_relay0 = new_relay (new_subprocess_manager 2)
     (fst (Multiplexer.subscribe default_config 0 ''s'' ''c'' ''grpc'' []))
     (fst (create_session ok_sql ok_sql 0 ''s'' ''m'' ''/w'' empty_db)) new_registry"

definition demo_start :: "session_relay \<times> (relay_error + relay_handle)" where
  "demo_start = start_session (ok_launch ''p'') ok_sql 0 demo_config (Some ''hi'') demo_relay0"

definition demo_relay :: session_relay where
  "demo_relay = fst demo_start"

definition demo_user :: "session_relay \<Rightarrow> session_relay" where
  "demo_user r = fst (send_user_message demo_relay_env ok_sql 1 (1, 0) True ''s'' ''next'' None r)"

definition demo_line :: "session_relay \<Rightarrow> session_relay" where
  "demo_line r = process_line demo_relay_env ok_sql ok_sql 2 True 0 ''x'' r"

lemma demo_relay_waiting: "waiting ''s'' 0 0 demo_relay \<and>
    get_handle ''s'' demo_relay = Some \<lparr> rh_process_id = ''p'', rh_session_id = ''s'', rh_stdin_tx = 0, rh_cells = 0 \<rparr>"
proof -
  let ?h = "\<lparr> rh_process_id = ''p'', rh_session_id = ''s'', rh_stdin_tx = 0, rh_cells = 0 \<rparr>"
  have 1: "get_handle (rs_session_id demo_config) demo_relay0 = None" by code_simp
  have 2: "fst ok_sql" by (simp add: ok_sql_def)
  have "snd demo_start = Inr ?h" by code_simp
  then have 3: "start_session (ok_launch ''p'') ok_sql 0 demo_config (Some ''hi'') demo_relay0 = (demo_relay, Inr ?h)"
    unfolding demo_relay_def demo_start_def by (metis prod.collapse)
  have 4: "rs_session_id demo_config \<in> sids (rl_db demo_relay0)" by code_simp
  have 5: "max_message_sequence ok_sql (rs_session_id demo_config) (rl_db demo_relay0) = Inr (int 0)" by code_simp
  have "rs_session_id demo_config = ''s''" by (simp add: demo_config_def)
  with start_session_waiting [OF 1 2 3 4 5] show ?thesis by simp
qed

definition demo_events :: "agent_event list" where
  "demo_events = user_event (1, 0) (rc_counter (the_cells 0 demo_relay) + 1) ''next''
     # line_events demo_relay_env 0 ''x'' (demo_user demo_relay)"

lemma demo_run:
  "quiet_run demo_relay_env ''s'' 0 demo_relay demo_events (demo_line (demo_user demo_relay))"
proof -
  let ?e = demo_relay_env
  have q: "fst ok_sql" by (simp add: ok_sql_def)
  have h: "get_handle ''s'' demo_relay = Some
      \<lparr> rh_process_id = ''p'', rh_session_id = ''s'', rh_stdin_tx = 0, rh_cells = 0 \<rparr>"
    using demo_relay_waiting by simp
  let ?u = "user_event (1, 0) (rc_counter (the_cells 0 demo_relay) + 1) ''next''"
  have "quiet_run ?e ''s'' 0 demo_relay [] demo_relay" by (rule quiet_start)
  then have "quiet_run ?e ''s'' 0 demo_relay ([] @ [?u]) (demo_user demo_relay)"
    unfolding demo_user_def by (rule quiet_user [OF _ h _ q]) simp
  then have "quiet_run ?e ''s'' 0 demo_relay (([] @ [?u]) @ line_events ?e 0 ''x'' (demo_user demo_relay))
      (demo_line (demo_user demo_relay))"
    unfolding demo_line_def by (rule quiet_line [OF _ q])
  then show ?thesis by (simp add: demo_events_def)
qed

lemma demo_events_length: "length demo_events = 2"
  by code_simp

theorem relay_history_complete_witness:
  "map ms_sequence (stored ''s'' (rl_db (demo_line (demo_user demo_relay)))) = [1, 2]"
proof -
  have "\<exists>rows. stored ''s'' (rl_db (demo_line (demo_user demo_relay))) = stored ''s'' (rl_db demo_relay) @ rows
      \<and> map ms_sequence rows = map int [Suc 0 ..< Suc (0 + 2)]"
    using relay_history_complete [OF demo_run, of 0] demo_relay_waiting demo_events_length by auto
  moreover have "stored ''s'' (rl_db demo_relay) = []" by code_simp
  ultimately show ?thesis by (auto simp: upt_rec)
qed

section \<open>Overlapping operations\<close>

text \<open>A user message that arrives while the task works on a line.\<close>

definition demo_overlap :: session_relay where
  "demo_overlap = line_end ok_sql 2 0 (line_event demo_relay_env ok_sql ok_sql 2 True 0
     (demo_user (line_begin demo_relay_env True 0 ''x'' demo_relay)))"

text \<open>
  A user message that arrives while a line of output is being processed gets the number
  that the line's event already has. The event is broadcast to the clients, but its row
  violates the uniqueness of the number and is dropped: the permission request is missing from
  the stored history.
\<close>

theorem overlapping_message_drops_event:
  "map (\<lambda>m. (ms_sequence m, ms_message_type m)) (stored ''s'' (rl_db demo_overlap)) = [(1, ''user'')]
   \<and> map_option (\<lambda>s. map (\<lambda>e. ev_sequence (snd e)) (event_tx s)) (hm_get (rl_mux demo_overlap) ''s'') = Some [1]
   \<and> rc_counter (the_cells 0 demo_overlap) = 1"
  by code_simp

text \<open>The session is cancelled and started again before the first task has seen the end of its output.\<close>

definition demo_restart :: session_relay where
  "demo_restart = pipe_finish ok_sql 5 (5, 0) 0
     (fst (start_session (ok_launch ''q'') ok_sql 1 demo_config (Some ''again'')
       (fst (cancel_session ok_sql 4 ''s'' demo_relay))))"

text \<open>
  When a cancelled session is started again before the task of the first subprocess has
  ended, the end of that task removes the handle of the second one: the second subprocess runs,
  but the session is reported as not active and takes no further messages.
\<close>

theorem restarted_session_lost:
  "hm_get (processes (rl_procs demo_restart)) ''q'' \<noteq> None \<and> \<not> is_active ''s'' demo_restart
   \<and> snd (send_user_message demo_relay_env ok_sql 6 (6, 0) True ''s'' ''hello'' None demo_restart)
       = Inl (RelaySessionNotFound ''s'')"
  by code_simp

text \<open>
  Clients see other numbers than the history: the number a client receives counts the
  broadcast events of the session since its first subscriber, the stored number also counts
  user messages. After one user message, the event stored as number 2 is delivered as number 1,
  so a client that resumes after the last number it saw is sent that event again.
\<close>

theorem live_number_differs:
  "map_option (\<lambda>s. map fst (event_tx s)) (hm_get (rl_mux (demo_line (demo_user demo_relay))) ''s'') = Some [1]
   \<and> map ms_sequence (stored ''s'' (rl_db (demo_line (demo_user demo_relay)))) = [1, 2]"
  by code_simp

section \<open>Permission requests\<close>

text \<open>
  A line with a permission request is handled by the session's grants. With a grant for
  the tool, the subprocess is answered at once with that decision and its original input, and
  the event is marked as answered, so it is not shown to clients. Without one, nothing is
  written; the request waits under its id, and the first answer to it carries the original
  input, removes it, and for an answer \<^verbatim>\<open>AllowSession\<close> leaves a grant for the tool.
\<close>

theorem permission_request_line:
  assumes "hm_get (rl_pipes r) a = Some p" and "\<not> pl_busy p"
    and "parse_line (re_serde env) line = Inr (ControlRequest req)"
    and "cr_request req = CanUseTool tool input" and "tool \<noteq> ''AskUserQuestion''"
    and "line_begin env True a line r = r'"
  shows "\<exists>p' ev. hm_get (rl_pipes r') a = Some p' \<and> ev_event ev = Some (PermissionRequest (cr_request_id req) tool
          (tool_description tool input) (json_to_struct (be_as_f64 (re_bridge env)) input))
     \<and> (case hm_get (rc_grants (the_cells a r)) tool of
          Some g \<Rightarrow> pl_out p' = [(ev, True)] \<and> the_cells a r' = the_cells a r
            \<and> rl_stdin r' = rl_stdin r @ [(pl_stdin_tx p,
                re_print env (build_permission_response_json (cr_request_id req) g input))]
        | None \<Rightarrow> pl_out p' = [(ev, False)] \<and> rl_stdin r' = rl_stdin r
            \<and> (\<forall>d. let (c, g, inp) = process_permission_response (cr_request_id req) d (the_cells a r')
                   in g = is_granted d \<and> inp = input \<and> hm_get (rc_permissions c) (cr_request_id req) = None
                      \<and> hm_get (rc_grants c) tool = (if d = AllowSession then Some True else None)))"
proof -
  define c where "c = the_cells a r"
  define rid where "rid = cr_request_id req"
  obtain b1 ev where conv: "line_convert env p (rc_counter c) (ControlRequest req) = (b1, [ev])"
    and ev: "ev_event ev = Some (PermissionRequest rid tool
          (tool_description tool input) (json_to_struct (be_as_f64 (re_bridge env)) input))"
    and b1: "hm_get (pending_permission_inputs b1) rid = Some input"
    using assms(4,5)
    by (simp add: line_convert_def is_system_init_def convert_def handle_control_request_def rid_def
          next_events.simps next_event_def Let_def)
  obtain b2 where tk: "take_permission_input rid b1 = (b2, Some input)"
    using b1 by (simp add: take_permission_input_def)
  note defs = line_begin_def assms(1-3) c_def [symmetric] conv Let_def transfer_def ev tk answered_def
    is_system_init_def
  show ?thesis
  proof (cases "hm_get (rc_grants c) tool")
    case (Some g)
    have "\<exists>p'. hm_get (rl_pipes r') a = Some p' \<and> pl_out p' = [(ev, True)]"
      and "hm_get (rl_cells r') a = Some c"
      and "rl_stdin r' = rl_stdin r @ [(pl_stdin_tx p, re_print env (build_permission_response_json rid g input))]"
      unfolding assms(6) [symmetric] by (simp_all add: defs Some)
    with Some ev show ?thesis unfolding c_def [symmetric] rid_def [symmetric] by auto
  next
    case None
    let ?c1 = "c\<lparr>rc_permissions := hm_insert rid \<lparr> pp_input = input, pp_tool_name = tool \<rparr> (rc_permissions c)\<rparr>"
    have "\<exists>p'. hm_get (rl_pipes r') a = Some p' \<and> pl_out p' = [(ev, False)]"
      and cells: "hm_get (rl_cells r') a = Some ?c1" and "rl_stdin r' = rl_stdin r"
      unfolding assms(6) [symmetric] by (simp_all add: defs None)
    moreover have "let (c, g, inp) = process_permission_response rid d (the_cells a r')
        in g = is_granted d \<and> inp = input \<and> hm_get (rc_permissions c) rid = None
           \<and> hm_get (rc_grants c) tool = (if d = AllowSession then Some True else None)" for d
      by (simp add: the_cells_def cells process_permission_response_def None)
    ultimately show ?thesis using None ev unfolding c_def [symmetric] rid_def [symmetric] by auto
  qed
qed

definition demo_permission :: session_relay where
  "demo_permission = line_begin demo_relay_env True 0 ''x'' demo_relay"

theorem permission_request_line_witness:
  "snd (snd (process_permission_response ''r1'' AllowOnce (the_cells 0 demo_permission)))
     = JObject [(''command'', JString ''ls'')]"
proof -
  have "map_option pl_busy (hm_get (rl_pipes demo_relay) 0) = Some False" by code_simp
  then obtain p where p: "hm_get (rl_pipes demo_relay) 0 = Some p" "\<not> pl_busy p" by auto
  let ?input = "JObject [(''command'', JString ''ls'')]"
  let ?req = "\<lparr> cr_request_id = ''r1'', cr_request = CanUseTool ''Bash'' ?input \<rparr>"
  have l: "parse_line (re_serde demo_relay_env) ''x'' = Inr (ControlRequest ?req)" by code_simp
  have g: "hm_get (rc_grants (the_cells 0 demo_relay)) ''Bash'' = None" by code_simp
  have "cr_request ?req = CanUseTool ''Bash'' ?input" "''Bash'' \<noteq> ''AskUserQuestion''" by simp_all
  from permission_request_line [OF p l this demo_permission_def [symmetric]] g
  show ?thesis by (auto simp: case_prod_beta Let_def)
qed

end
