(* ===== verification/Grpc.thy ===== *)
theory Grpc
  imports Prelude
begin

text \<open>
  What the services share: the gRPC status codes with which they refuse a call, each with its
  message, and the operator \<^verbatim>\<open>?\<close> after \<^verbatim>\<open>map_err\<close> on a step that also changes the state.
\<close>

datatype status =
    Internal string
  | NotFound string
  | InvalidArgument string
  | Unimplemented string
  | Unauthenticated string
  | PermissionDenied string
  | AlreadyExists string
  | Unavailable string
  | DeadlineExceeded string

definition attempt :: "('e \<Rightarrow> 'f) \<Rightarrow> 's \<times> ('e + 'a) \<Rightarrow> ('a \<Rightarrow> 's \<Rightarrow> 's \<times> ('f + 'b)) \<Rightarrow> 's \<times> ('f + 'b)" where
  "attempt f x k = (case x of (s, Inl e) \<Rightarrow> (s, Inl (f e)) | (s, Inr a) \<Rightarrow> k a s)"

text \<open>What holds after the first step and is kept by the rest holds at the end, on every path.\<close>

lemma attempt_inv:
  assumes "P (fst x)" and "\<And>a s. x = (s, Inr a) \<Longrightarrow> P s \<Longrightarrow> P (fst (k a s))"
  shows "P (fst (attempt f x k))"
  using assms by (auto simp: attempt_def split: prod.split sum.split)

lemma attempt_Inr: "attempt f x k = (s', Inr b) \<longleftrightarrow> (\<exists>a s. x = (s, Inr a) \<and> k a s = (s', Inr b))"
  by (auto simp: attempt_def split: prod.split sum.split)

lemma attempt_ok [simp]: "attempt f (s, Inr a) k = k a s"
  by (simp add: attempt_def)

lemma attempt_error [simp]: "attempt f (s, Inl e) k = (s, Inl (f e))"
  by (simp add: attempt_def)

lemma attempt_last [simp]: "fst (attempt f x (\<lambda>a s. (s, r a))) = fst x"
  by (auto simp: attempt_def split: prod.split sum.split)

end
