(* ===== verification/AgentService.thy ===== *)
theory AgentService
  imports SessionRelay Grpc
begin

text \<open>
  The agent service of the daemon, \<^verbatim>\<open>crates/betcode-daemon/src/server/agent.rs\<close>, and the handler of a
  conversation stream, \<^verbatim>\<open>server/handler.rs\<close>. The service composes the relay, the multiplexer and
  the database: the state is the relay, which holds the other two. The numbering of the generated
  enumerations, the protobuf decoder and new identifiers are arguments. The theory proves that a
  resumed session replays what happened in it, and what compaction keeps.
\<close>

section \<open>Errors\<close>

definition show_subprocess_error :: "subprocess_error \<Rightarrow> string" where
  "show_subprocess_error e = (case e of
      PoolExhausted c m \<Rightarrow> ''Subprocess pool exhausted ('' @ show_nat c @ ''/'' @ show_nat m @ '')''
    | SpawnFailed s \<Rightarrow> ''Failed to spawn subprocess: '' @ s
    | ProcessNotFound i \<Rightarrow> ''Process not found: '' @ i
    | ProcessExited i \<Rightarrow> ''Process already exited: '' @ i)"

definition show_relay_error :: "relay_error \<Rightarrow> string" where
  "show_relay_error e = (case e of
      SubprocessError s \<Rightarrow> ''Subprocess error: '' @ show_subprocess_error s
    | RelaySessionNotFound i \<Rightarrow> ''Session not found: '' @ i
    | Serialization s \<Rightarrow> ''Failed to serialize message: '' @ s
    | StdinClosed i \<Rightarrow> ''Subprocess stdin closed for session: '' @ i
    | StorageError s \<Rightarrow> ''Storage error: '' @ s)"

section \<open>Session operations\<close>

record compact_session_response =
  messages_before :: "32 word"
  messages_after :: "32 word"
  tokens_saved :: "32 word"

text \<open>\<open>q1\<close> to \<open>q4\<close> are the four statements. The 32-bit arithmetic is that of a release build, which
  wraps around.\<close>

definition compact_session ::
  "sqlite \<Rightarrow> sqlite \<Rightarrow> sqlite \<Rightarrow> sqlite \<Rightarrow> int \<Rightarrow> string \<Rightarrow> daemon_db
    \<Rightarrow> daemon_db \<times> (status + compact_session_response)" where
  "compact_session q1 q2 q3 q4 now sid db =
     (case count_messages q1 sid db of
        Inl e \<Rightarrow> (db, Inl (Internal (show_database_error e)))
      | Inr count \<Rightarrow>
          (let before = (word_of_int count :: 32 word) in
           if before = 0 then (db, Inr \<lparr> messages_before = 0, messages_after = 0, tokens_saved = 0 \<rparr>)
           else case max_message_sequence q2 sid db of
             Inl e \<Rightarrow> (db, Inl (Internal (show_database_error e)))
           | Inr max_seq \<Rightarrow>
               (let keep_count = min (max (before div 2) 10) before;
                    cutoff = max_seq - uint keep_count
                in if cutoff \<le> 0
                   then (db, Inr \<lparr> messages_before = before, messages_after = before, tokens_saved = 0 \<rparr>)
                   else case delete_messages_before_sequence q3 sid cutoff db of
                     (db1, Inl e) \<Rightarrow> (db1, Inl (Internal (show_database_error e)))
                   | (db1, Inr deleted) \<Rightarrow>
                       (case update_compaction_sequence q4 now sid cutoff db1 of
                          (db2, Inl e) \<Rightarrow> (db2, Inl (Internal (show_database_error e)))
                        | (db2, Inr _) \<Rightarrow>
                            (db2, Inr \<lparr> messages_before = before, messages_after = before - ucast deleted,
                                        tokens_saved = ucast deleted * 100 \<rparr>)))))"

text \<open>
  The same request through the relay, \<^verbatim>\<open>handle_compact_session\<close> of \<^verbatim>\<open>tunnel/handler.rs\<close>; \<open>decode\<close> is
  the protobuf decoder of the request and gives the session id. The reply is the response, or the
  text of an error with code \<^verbatim>\<open>Internal\<close>, before it is put into a frame.
\<close>

definition MIN_COMPACTION_KEEP :: "32 word" where
  "MIN_COMPACTION_KEEP = 10"

definition ESTIMATED_TOKENS_PER_MESSAGE :: "32 word" where
  "ESTIMATED_TOKENS_PER_MESSAGE = 100"

definition handle_compact_session ::
  "(byte list \<Rightarrow> string + string) \<Rightarrow> sqlite \<Rightarrow> sqlite \<Rightarrow> sqlite \<Rightarrow> sqlite \<Rightarrow> int \<Rightarrow> byte list \<Rightarrow> daemon_db
    \<Rightarrow> daemon_db \<times> (string + compact_session_response)" where
  "handle_compact_session decode q1 q2 q3 q4 now data db =
     (case decode data of
        Inl e \<Rightarrow> (db, Inl (''Decode error: '' @ e))
      | Inr sid \<Rightarrow>
          (case count_messages q1 sid db of
             Inl e \<Rightarrow> (db, Inl (show_database_error e))
           | Inr c \<Rightarrow>
               (let before = (word_of_int c :: 32 word) in
                if before = 0
                then (db, Inr \<lparr> messages_before = 0, messages_after = 0, tokens_saved = 0 \<rparr>)
                else case max_message_sequence q2 sid db of
                  Inl e \<Rightarrow> (db, Inl (show_database_error e))
                | Inr max_seq \<Rightarrow>
                    (let keep_count = min (max (before div 2) MIN_COMPACTION_KEEP) before;
                         cutoff = max_seq - uint keep_count
                     in if cutoff \<le> 0
                        then (db, Inr \<lparr> messages_before = before, messages_after = before, tokens_saved = 0 \<rparr>)
                        else case delete_messages_before_sequence q3 sid cutoff db of
                          (db1, Inl e) \<Rightarrow> (db1, Inl (show_database_error e))
                        | (db1, Inr deleted) \<Rightarrow>
                            (fst (update_compaction_sequence q4 now sid cutoff db1),
                             Inr \<lparr> messages_before = before, messages_after = before - ucast deleted,
                                   tokens_saved = ucast deleted * ESTIMATED_TOKENS_PER_MESSAGE \<rparr>)))))"

text \<open>\<^verbatim>\<open>resume_session\<close>: the events sent on the reply stream, while its receiver exists.\<close>

definition decode_error_event :: "string \<Rightarrow> agent_event" where
  "decode_error_event e = \<lparr> ev_sequence = 0, ev_timestamp = None, ev_parent_tool_use_id = [],
     ev_event = Some (ErrorEv ''DECODE_ERROR'' (''Decode error: '' @ e) False []) \<rparr>"

definition replay_message :: "(byte list \<Rightarrow> string + agent_event) \<Rightarrow> message_row \<Rightarrow> agent_event option" where
  "replay_message decode m =
     (case base64_decode (ms_payload m) of
        Inl _ \<Rightarrow> None
      | Inr bytes \<Rightarrow> (case decode bytes of Inr ev \<Rightarrow> Some ev | Inl e \<Rightarrow> Some (decode_error_event e)))"

definition resume_session ::
  "sqlite \<Rightarrow> (byte list \<Rightarrow> string + agent_event) \<Rightarrow> string \<Rightarrow> 64 word \<Rightarrow> daemon_db \<Rightarrow> status + agent_event list" where
  "resume_session q decode sid from_sequence db =
     (case get_messages_from_sequence q sid (sint from_sequence) db of
        Inl e \<Rightarrow> Inl (Internal (show_database_error e))
      | Inr ms \<Rightarrow> Inr (List.map_filter (replay_message decode) ms))"

record session_summary =
  sm_id :: string
  sm_model :: string
  sm_working_directory :: string
  sm_worktree_id :: string
  sm_status :: string
  sm_message_count :: "32 word"
  sm_total_input_tokens :: "32 word"
  sm_total_output_tokens :: "32 word"
  sm_total_cost_usd :: f64
  sm_created_at :: "timestamp option"
  sm_updated_at :: "timestamp option"
  sm_last_message_preview :: string
  sm_name :: string

definition summary_from :: "session_row \<Rightarrow> session_summary" where
  "summary_from s = \<lparr> sm_id = ss_id s, sm_model = ss_model s, sm_working_directory = ss_working_directory s,
     sm_worktree_id = unwrap_or [] (ss_worktree_id s), sm_status = ss_status s, sm_message_count = 0,
     sm_total_input_tokens = word_of_int (ss_total_input_tokens s),
     sm_total_output_tokens = word_of_int (ss_total_output_tokens s),
     sm_total_cost_usd = ss_total_cost_usd s, sm_created_at = Some (ss_created_at s, 0),
     sm_updated_at = Some (ss_updated_at s, 0),
     sm_last_message_preview = unwrap_or [] (ss_last_message_preview s), sm_name = ss_name s \<rparr>"

definition list_sessions_rpc ::
  "sqlite \<Rightarrow> string \<Rightarrow> 32 word \<Rightarrow> 32 word \<Rightarrow> daemon_db \<Rightarrow> status + session_summary list \<times> 32 word" where
  "list_sessions_rpc q working_directory limit off db =
     (case list_sessions q (if working_directory = [] then None else Some working_directory)
             (if limit = 0 then 50 else limit) off db of
        Inl e \<Rightarrow> Inl (Internal (show_database_error e))
      | Inr ss \<Rightarrow> Inr (map summary_from ss, of_nat (length ss)))"

definition cancel_turn :: "sqlite \<Rightarrow> int \<Rightarrow> string \<Rightarrow> session_relay \<Rightarrow> session_relay \<times> bool" where
  "cancel_turn q now sid r =
     (case cancel_session q now sid r of (r', Inr b) \<Rightarrow> (r', b) | (r', Inl _) \<Rightarrow> (r', False))"

text \<open>The client id comes from the metadata of the call or is a fresh one.\<close>

definition input_lock_rpc ::
  "sqlite \<Rightarrow> int \<Rightarrow> string option \<Rightarrow> string \<Rightarrow> string \<Rightarrow> daemon_db \<Rightarrow> daemon_db \<times> (status + bool \<times> string)" where
  "input_lock_rpc q now client_meta uuid sid db =
     (let cid = (case client_meta of Some c \<Rightarrow> c | None \<Rightarrow> ''unary-'' @ uuid) in
      case acquire_input_lock q now sid cid db of
        (db', Inl e) \<Rightarrow> (db', Inl (Internal (show_database_error e)))
      | (db', Inr previous) \<Rightarrow> (db', Inr (True, unwrap_or [] previous)))"

definition require_session_handle :: "string \<Rightarrow> session_relay \<Rightarrow> status + relay_handle" where
  "require_session_handle sid r =
     (case get_handle sid r of
        None \<Rightarrow> Inl (NotFound (''Session '' @ sid @ '' not active'')) | Some h \<Rightarrow> Inr h)"

definition list_session_grants :: "string \<Rightarrow> session_relay \<Rightarrow> status + (string \<times> bool) list" where
  "list_session_grants sid r =
     (case require_session_handle sid r of
        Inl e \<Rightarrow> Inl e | Inr h \<Rightarrow> Inr (list_grants (the_cells (rh_cells h) r)))"

definition clear_session_grants :: "string \<Rightarrow> string \<Rightarrow> session_relay \<Rightarrow> session_relay \<times> (status + unit)" where
  "clear_session_grants sid tool r =
     (case require_session_handle sid r of
        Inl e \<Rightarrow> (r, Inl e)
      | Inr h \<Rightarrow> (r\<lparr>rl_cells := hm_insert (rh_cells h) (clear_grants tool (the_cells (rh_cells h) r)) (rl_cells r)\<rparr>,
                  Inr ()))"

definition set_session_grant :: "string \<Rightarrow> string \<Rightarrow> bool \<Rightarrow> session_relay \<Rightarrow> session_relay \<times> (status + unit)" where
  "set_session_grant sid tool v r =
     (if tool = [] then (r, Inl (InvalidArgument ''tool_name must not be empty''))
      else case require_session_handle sid r of
        Inl e \<Rightarrow> (r, Inl e)
      | Inr h \<Rightarrow> (r\<lparr>rl_cells := hm_insert (rh_cells h) (set_grant tool v (the_cells (rh_cells h) r)) (rl_cells r)\<rparr>,
                  Inr ()))"

definition rename_session ::
  "sqlite \<Rightarrow> int \<Rightarrow> string \<Rightarrow> string \<Rightarrow> daemon_db \<Rightarrow> daemon_db \<times> (status + unit)" where
  "rename_session q now sid name db =
     (case update_session_name q now sid name db of
        (db', Inr _) \<Rightarrow> (db', Inr ())
      | (db', Inl e) \<Rightarrow> (db', Inl (case e of DbNotFound _ \<Rightarrow> NotFound (show_database_error e)
                                       | _ \<Rightarrow> Internal (show_database_error e))))"

definition delete_session_rpc ::
  "sqlite \<Rightarrow> sqlite \<Rightarrow> int \<Rightarrow> string \<Rightarrow> session_relay \<Rightarrow> session_relay \<times> (status + bool)" where
  "delete_session_rpc q q' now sid r =
     (if sid = [] then (r, Inl (InvalidArgument ''session_id must not be empty''))
      else
        let r1 = fst (cancel_session q now sid r)
        in case delete_session q' sid (rl_db r1) of
             (db, Inl e) \<Rightarrow> (r1\<lparr>rl_db := db\<rparr>, Inl (Internal (''Database error: '' @ show_database_error e)))
           | (db, Inr d) \<Rightarrow> (r1\<lparr>rl_db := db\<rparr>, Inr d))"

section \<open>The conversation stream\<close>

record start_conversation =
  st_session_id :: string
  st_working_directory :: string
  st_model :: string
  st_worktree_id :: string

datatype agent_request =
    StartReq start_conversation
  | MessageReq string string
  | PermissionReq string int "(string \<times> prost_value) list option" string
  | QuestionReq string "(string, string) hmap"
  | CancelReq string
  | EncryptedReq "byte list" "byte list"
  | EmptyReq

text \<open>What a stream keeps between requests: its session and the start that is still to come.\<close>

record stream_state =
  cv_session_id :: "string option"
  cv_pending_config :: "relay_session_config option"

text \<open>The arguments of one request: the relay's, and the outcome of each external call.\<close>

record request_env =
  rq_env :: relay_env
  rq_launch :: launch_env
  rq_sql :: "nat \<Rightarrow> sqlite"
  rq_now :: int
  rq_instant :: nat
  rq_ts :: timestamp
  rq_stdin_open :: bool
  rq_uuid :: string
  rq_address :: nat
  rq_decision :: "int \<Rightarrow> permission_decision option"
  rq_mux_config :: multiplexer_config

definition show_multiplexer_error :: "multiplexer_error \<Rightarrow> string" where
  "show_multiplexer_error e = (case e of
      SessionNotFound s \<Rightarrow> ''Session not found: '' @ s
    | TooManyClients s m \<Rightarrow> ''Too many clients for session '' @ s @ '' (max: '' @ show_nat m @ '')''
    | ClientAlreadyConnected c \<Rightarrow> ''Client already connected: '' @ c
    | ClientNotConnected c \<Rightarrow> ''Client not connected: '' @ c)"

definition handle_start ::
  "request_env \<Rightarrow> string \<Rightarrow> start_conversation \<Rightarrow> stream_state \<Rightarrow> session_relay
    \<Rightarrow> stream_state \<times> session_relay \<times> (string + unit)" where
  "handle_start e cid start cv r =
     (let sid = (if st_session_id start = [] then rq_uuid e else st_session_id start);
          model_for_cli = (if st_model start = [] then None else Some (st_model start));
          model_for_db = unwrap_or ''default'' model_for_cli;
          lookup =
            (case get_session (rq_sql e 0) sid (rl_db r) of
               Inr existing \<Rightarrow>
                 Inr (rl_db r, case ss_claude_session_id existing of
                                 Some c \<Rightarrow> if c = [] then None else Some c | None \<Rightarrow> None)
             | Inl _ \<Rightarrow>
                 (case create_session (rq_sql e 1) (rq_sql e 2) (rq_now e) sid model_for_db
                         (st_working_directory start) (rl_db r) of
                    (db, Inl er) \<Rightarrow> Inl (db, show_database_error er)
                  | (db, Inr _) \<Rightarrow> Inr (db, None)))
      in case lookup of
           Inl (db, er) \<Rightarrow> (cv, r\<lparr>rl_db := db\<rparr>, Inl er)
         | Inr (db, resume) \<Rightarrow>
             (case update_session_status (rq_sql e 3) (rq_now e) sid Active db of
                (db1, Inl er) \<Rightarrow> (cv, r\<lparr>rl_db := db1\<rparr>, Inl (show_database_error er))
              | (db1, Inr _) \<Rightarrow>
                  (case Multiplexer.subscribe (rq_mux_config e) (rq_instant e) sid cid ''grpc'' (rl_mux r) of
                     (mx, Inl er) \<Rightarrow> (cv, r\<lparr>rl_db := db1, rl_mux := mx\<rparr>, Inl (show_multiplexer_error er))
                   | (mx, Inr _) \<Rightarrow>
                       (\<lparr> cv_session_id = Some sid,
                          cv_pending_config = Some \<lparr> rs_session_id = sid,
                            rs_working_directory = st_working_directory start, rs_model = model_for_cli,
                            rs_resume_session = resume, rs_worktree_id = st_worktree_id start \<rparr> \<rparr>,
                        r\<lparr>rl_db := db1, rl_mux := mx\<rparr>, Inr ()))))"

definition lift_relay ::
  "stream_state \<Rightarrow> session_relay \<times> (relay_error + 'a) \<Rightarrow> stream_state \<times> session_relay \<times> (string + unit)" where
  "lift_relay cv res = (case res of (r, Inl e) \<Rightarrow> (cv, r, Inl (show_relay_error e)) | (r, Inr _) \<Rightarrow> (cv, r, Inr ()))"

definition handle_permission ::
  "request_env \<Rightarrow> string \<Rightarrow> string \<Rightarrow> int \<Rightarrow> session_relay \<Rightarrow> session_relay \<times> (relay_error + unit)" where
  "handle_permission e sid rid raw r =
     (let decision = unwrap_or Deny (rq_decision e raw) in
      case get_handle sid r of
        None \<Rightarrow> send_permission_response (rq_env e) (rq_stdin_open e) sid rid (is_granted decision) (JObject []) r
      | Some h \<Rightarrow>
          (let (c, allow, input) = process_permission_response rid decision (the_cells (rh_cells h) r)
           in send_permission_response (rq_env e) (rq_stdin_open e) sid rid allow input
                (r\<lparr>rl_cells := hm_insert (rh_cells h) c (rl_cells r)\<rparr>)))"

definition handle_question ::
  "request_env \<Rightarrow> string \<Rightarrow> string \<Rightarrow> (string, string) hmap \<Rightarrow> session_relay \<Rightarrow> session_relay \<times> (relay_error + unit)" where
  "handle_question e sid qid answers r =
     (case get_handle sid r of
        None \<Rightarrow> send_question_response (rq_env e) (rq_stdin_open e) sid qid answers (JObject []) r
      | Some h \<Rightarrow>
          (let c = the_cells (rh_cells h) r;
               input = unwrap_or (JObject []) (hm_get (rc_questions c) qid)
           in send_question_response (rq_env e) (rq_stdin_open e) sid qid answers input
                (r\<lparr>rl_cells := hm_insert (rh_cells h)
                     (c\<lparr>rc_questions := hm_remove qid (rc_questions c)\<rparr>) (rl_cells r)\<rparr>)))"

definition handle_message ::
  "request_env \<Rightarrow> string \<Rightarrow> string \<Rightarrow> string \<Rightarrow> stream_state \<Rightarrow> session_relay
    \<Rightarrow> stream_state \<times> session_relay \<times> (string + unit)" where
  "handle_message e sid content agent_id cv r =
     (case cv_pending_config cv of
        Some config \<Rightarrow>
          lift_relay (cv\<lparr>cv_pending_config := None\<rparr>)
            (start_session (rq_launch e) (rq_sql e 0) (rq_address e) config (Some content) r)
      | None \<Rightarrow>
          lift_relay cv (send_user_message (rq_env e) (rq_sql e 0) (rq_now e) (rq_ts e) (rq_stdin_open e) sid
            content (if agent_id = [] then None else Some agent_id) r))"

definition handle_agent_request ::
  "request_env \<Rightarrow> string \<Rightarrow> agent_request \<Rightarrow> stream_state \<Rightarrow> session_relay
    \<Rightarrow> stream_state \<times> session_relay \<times> (string + unit)" where
  "handle_agent_request e cid req cv r =
     (case req of
        StartReq start \<Rightarrow> handle_start e cid start cv r
      | EncryptedReq _ _ \<Rightarrow> (cv, r, Inr ())
      | EmptyReq \<Rightarrow> (cv, r, Inr ())
      | _ \<Rightarrow>
          (case cv_session_id cv of
             None \<Rightarrow> (cv, r, Inr ())
           | Some sid \<Rightarrow>
               (case req of
                  MessageReq content agent_id \<Rightarrow> handle_message e sid content agent_id cv r
                | PermissionReq rid raw _ _ \<Rightarrow> lift_relay cv (handle_permission e sid rid raw r)
                | QuestionReq qid answers \<Rightarrow> lift_relay cv (handle_question e sid qid answers r)
                | CancelReq _ \<Rightarrow> lift_relay cv (cancel_session (rq_sql e 0) (rq_now e) sid r)
                | _ \<Rightarrow> (cv, r, Inr ()))))"

text \<open>\<^verbatim>\<open>converse\<close>: requests until the stream ends or one fails, then the unsubscription. An error of
  the transport (\<open>None\<close>) ends the stream.\<close>

fun converse_loop ::
  "string \<Rightarrow> (request_env \<times> agent_request) option list \<Rightarrow> stream_state \<Rightarrow> session_relay
    \<Rightarrow> stream_state \<times> session_relay \<times> string option" where
  "converse_loop cid [] cv r = (cv, r, None)"
| "converse_loop cid (None # reqs) cv r = (cv, r, None)"
| "converse_loop cid (Some (e, req) # reqs) cv r =
     (case handle_agent_request e cid req cv r of
        (cv', r', Inl er) \<Rightarrow> (cv', r', Some er)
      | (cv', r', Inr _) \<Rightarrow> converse_loop cid reqs cv' r')"

definition converse ::
  "string \<Rightarrow> (request_env \<times> agent_request) option list \<Rightarrow> session_relay \<Rightarrow> session_relay \<times> string option" where
  "converse cid reqs r =
     (case converse_loop cid reqs \<lparr> cv_session_id = None, cv_pending_config = None \<rparr> r of
        (cv, r', er) \<Rightarrow>
          (case cv_session_id cv of
             None \<Rightarrow> (r', er)
           | Some sid \<Rightarrow> (r'\<lparr>rl_mux := unsubscribe sid cid (rl_mux r')\<rparr>, er)))"

definition exchange_keys :: "status + unit" where
  "exchange_keys = Inl (Unimplemented ''ExchangeKeys is only supported over tunnel connections'')"

section \<open>Replay\<close>

lemma replay_stored:
  assumes "stores env row ev" and "decode (re_encode env ev) = Inr ev"
  shows "replay_message decode row = Some ev"
  using assms by (simp add: replay_message_def stores_def base64_roundtrip)

lemma replay_all:
  assumes "list_all2 (stores env) rows evs" and "\<And>ev. ev \<in> set evs \<Longrightarrow> decode (re_encode env ev) = Inr ev"
  shows "List.map_filter (replay_message decode) rows = evs"
  using assms
  by (induction rule: list_all2_induct) (simp_all add: map_filter_simps replay_stored)

lemma filter_after:
  assumes "map f rows = map int [Suc n ..< Suc (n + length rows)]"
  shows "filter (\<lambda>m. f m > int (n + k)) rows = drop k rows"
  using assms
proof (induction rows arbitrary: n k)
  case (Cons m rows)
  have m: "f m = int (Suc n)" and rows: "map f rows = map int [Suc (Suc n) ..< Suc (Suc n + length rows)]"
    using Cons.prems by (simp_all add: upt_conv_Cons del: upt_Suc)
  show ?case
  proof (cases k)
    case 0
    have "list_all (\<lambda>v. v > int n) (map f rows)" unfolding rows by (auto simp: list_all_iff)
    then show ?thesis by (simp add: 0 m filter_id_conv list_all_iff)
  next
    case (Suc j)
    then show ?thesis using Cons.IH [OF rows, of j] by (simp add: m)
  qed
qed simp

lemma sorted_numbered: "map f rows = map int [a ..< b] \<Longrightarrow> sort_key f rows = rows"
  by (rule sort_key_id_if_sorted) (simp add: sorted_map sorted_wrt_upt)

text \<open>
  C9. A client that reconnects gets what it missed. After a run in which user messages arrive
  between lines of output, and if the protobuf decoder inverts the encoder, resuming the session
  from number \<open>n + k\<close> sends exactly the events that happened after the first \<open>k\<close> of the run, each
  once, unchanged and in order.
\<close>

theorem resume_replays_missed:
  assumes "quiet_run env sid a r0 evs r" and "waiting sid a n r0" and "n + length evs < 2 ^ 63"
    and "\<And>ev. ev \<in> set evs \<Longrightarrow> decode (re_encode env ev) = Inr ev" and "fst q"
    and "unat from = n + k" and "k \<le> length evs"
  shows "resume_session q decode sid from (rl_db r) = Inr (drop k evs)"
proof -
  obtain rows where rows: "stored sid (rl_db r) = stored sid (rl_db r0) @ rows" "list_all2 (stores env) rows evs"
    and nums: "map ms_sequence rows = map int [Suc n ..< Suc (n + length evs)]"
    using quiet_run_rows [OF assms(1-3)] .
  have len: "length rows = length evs" using rows(2) by (rule list_all2_lengthD)
  have "filter (\<lambda>m. ms_sequence m > int (n + k)) (stored sid (rl_db r0)) = []"
    using assms(2) by (auto simp: waiting_def numbered_to_def list_all_iff filter_empty_conv)
  moreover have "sint from = int (n + k)" using assms(3,6,7) by (simp add: sint_small)
  moreover have "filter (\<lambda>m. ms_session_id m = sid \<and> ms_sequence m > sint from) (messages (rl_db r))
      = filter (\<lambda>m. ms_sequence m > sint from) (stored sid (rl_db r))" by (simp add: stored_def)
  moreover have "filter (\<lambda>m. ms_sequence m > int (n + k)) rows = drop k rows"
    by (rule filter_after) (simp only: len nums)
  ultimately have "filter (\<lambda>m. ms_session_id m = sid \<and> ms_sequence m > sint from) (messages (rl_db r)) = drop k rows"
    unfolding rows(1) by (simp only: filter_append append_Nil)
  moreover have "sort_key ms_sequence (drop k rows) = drop k rows"
    by (rule sorted_numbered [of _ _ "Suc n + k" "Suc (n + length evs)"])
       (simp only: drop_map [symmetric] nums, simp only: drop_map drop_upt)
  moreover have "List.map_filter (replay_message decode) (drop k rows) = drop k evs"
    using rows(2) assms(4) by (intro replay_all [OF list_all2_dropI]) (auto dest: in_set_dropD)
  ultimately show ?thesis using assms(5) by (simp add: resume_session_def get_messages_from_sequence_def)
qed

definition demo_decode :: "byte list \<Rightarrow> string + agent_event" where
  "demo_decode bs = (if bs = [1] then Inr (demo_events ! 0) else if bs = [2] then Inr (demo_events ! 1)
     else Inl ''bad'')"

lemma demo_decodes: "ev \<in> set demo_events \<Longrightarrow> demo_decode (re_encode demo_relay_env ev) = Inr ev"
proof -
  have "list_all (\<lambda>ev. demo_decode (re_encode demo_relay_env ev) = Inr ev) demo_events" by code_simp
  then show "ev \<in> set demo_events \<Longrightarrow> demo_decode (re_encode demo_relay_env ev) = Inr ev"
    by (simp add: list_all_iff)
qed

theorem resume_replays_missed_witness:
  "resume_session ok_sql demo_decode ''s'' 1 (rl_db (demo_line (demo_user demo_relay))) = Inr (drop 1 demo_events)"
  by (rule resume_replays_missed [OF demo_run, where n = 0])
     (use demo_relay_waiting demo_events_length demo_decodes in \<open>auto simp: ok_sql_def\<close>)

section \<open>Compaction\<close>

text \<open>
  Compaction over the tunnel and over the local connection are the same operation: with a
  request that decodes, and if the statement that records the cut executes, they leave the same
  database and give the same answer, whichever of the other statements fails.
\<close>

theorem compaction_equivalent:
  assumes "decode data = Inr sid" and "fst q4"
  shows "handle_compact_session decode q1 q2 q3 q4 now data db =
    (case compact_session q1 q2 q3 q4 now sid db of
       (db', Inr resp) \<Rightarrow> (db', Inr resp)
     | (db', Inl (Internal e)) \<Rightarrow> (db', Inl e)
     | (db', Inl _) \<Rightarrow> (db', Inl []))"
  using assms
  by (simp add: handle_compact_session_def compact_session_def Let_def MIN_COMPACTION_KEEP_def
      ESTIMATED_TOKENS_PER_MESSAGE_def update_compaction_sequence_def
      split: sum.split prod.split)

text \<open>What the daemon keeps of \<open>n\<close> messages.\<close>

definition kept :: "nat \<Rightarrow> nat" where
  "kept n = min (max (n div 2) 10) n"

lemma kept_word:
  assumes "n < 2 ^ 32"
  shows "min (max (of_nat n div 2) 10) (of_nat n) = (of_nat (kept n) :: 32 word)"
    and "uint (of_nat (kept n) :: 32 word) = int (kept n)"
proof -
  have n: "unat (of_nat n :: 32 word) = n" using assms by (simp add: unat_of_nat)
  have d: "unat (of_nat n div 2 :: 32 word) = n div 2" by (simp add: unat_div n)
  have "kept n \<le> n" by (simp add: kept_def)
  with assms have k: "unat (of_nat (kept n) :: 32 word) = kept n" by (simp add: unat_of_nat)
  then show "uint (of_nat (kept n) :: 32 word) = int (kept n)" by (metis uint_nat)
  show "min (max (of_nat n div 2) 10) (of_nat n) = (of_nat (kept n) :: 32 word)"
    unfolding word_unat_eq_iff k
    by (auto simp: kept_def min_def max_def word_le_nat_alt n d)
qed

lemma filter_upto:
  assumes "map f rows = map int [Suc n ..< Suc (n + length rows)]"
  shows "length (filter (\<lambda>m. f m \<le> int (n + k)) rows) = min k (length rows)"
proof -
  have "length (filter (\<lambda>m. f m > int (n + k)) rows) = length rows - k"
    by (simp only: filter_after [OF assms] length_drop)
  then show ?thesis
    using sum_length_filter_compl [of "\<lambda>m. f m > int (n + k)" rows] by (simp add: not_less)
qed

lemma max_numbered:
  assumes "map ms_sequence (stored sid db) = map int [Suc n ..< Suc (n + k)]" and "0 < k" and "fst q"
  shows "max_message_sequence q sid db = Inr (int (n + k))"
proof -
  have ne: "stored sid db \<noteq> []" using arg_cong [OF assms(1), of length] assms(2) by auto
  have "set (map ms_sequence (stored sid db)) = int ` {Suc n ..< Suc (n + k)}"
    unfolding assms(1) by (simp only: set_map set_upt)
  moreover have "Max (int ` {Suc n ..< Suc (n + k)}) = int (n + k)"
  proof (rule Max_eqI)
    show "int (n + k) \<in> int ` {Suc n ..< Suc (n + k)}" using assms(2) by (intro imageI) simp
  qed auto
  ultimately show ?thesis using ne assms(3) by (simp add: max_message_sequence_def stored_def Let_def)
qed

lemma update_compaction_stored [simp]:
  "stored sid (fst (update_compaction_sequence q now s c db)) = stored sid db"
  by (simp add: update_compaction_sequence_def update_session_def stored_def)

lemma delete_numbered:
  assumes "map ms_sequence (stored sid db) = map int [Suc lo ..< Suc (lo + n)]" and "fst q" and "j \<le> n"
    and "delete_messages_before_sequence q sid (int (lo + j)) db = (db1, res)"
  shows "res = Inr (of_nat j)" and "stored sid db1 = drop j (stored sid db)"
    and "other \<noteq> sid \<Longrightarrow> stored other db1 = stored other db"
proof -
  let ?gone = "\<lambda>r. ms_session_id r = sid \<and> ms_sequence r \<le> int (lo + j)"
  have len: "length (stored sid db) = n" using arg_cong [OF assms(1), of length] by simp
  have db1: "db1 = db\<lparr>messages := filter (\<lambda>r. \<not> ?gone r) (messages db)\<rparr>"
    and res: "res = Inr (of_nat (length (filter ?gone (messages db))))"
    using assms(2,4) by (auto simp: delete_messages_before_sequence_def)
  have num: "map ms_sequence (stored sid db) = map int [Suc lo ..< Suc (lo + length (stored sid db))]"
    by (simp only: len assms(1))
  have "length (filter ?gone (messages db)) = length (filter (\<lambda>m. ms_sequence m \<le> int (lo + j)) (stored sid db))"
    by (simp add: stored_def)
  also have "\<dots> = j" using filter_upto [OF num, of j] len assms(3) by simp
  finally show "res = Inr (of_nat j)" by (simp add: res)
  have "stored sid db1 = filter (\<lambda>m. ms_sequence m > int (lo + j)) (stored sid db)"
    unfolding db1 stored_def by (auto intro!: filter_cong)
  then show "stored sid db1 = drop j (stored sid db)" by (simp only: filter_after [OF num])
  show "stored other db1 = stored other db" if "other \<noteq> sid"
    using that unfolding db1 stored_def by (auto intro!: filter_cong)
qed

text \<open>
  Compaction keeps the recent end of the history. When the messages of a session are numbered
  consecutively (as the relay numbers them) and all statements execute, it keeps exactly the last
  \<open>kept n\<close> of the \<open>n\<close> messages: the newer half, but at least ten of them, and all of them when there
  are fewer. The counts in the reply are those, other sessions keep their messages, and so does the
  highest number, from which the session continues to count.
\<close>

theorem compaction_keeps_recent:
  assumes "map ms_sequence (stored sid db) = map int [Suc lo ..< Suc (lo + n)]" and "n < 2 ^ 32"
    and "fst q1" and "fst q2" and "fst q3" and "fst q4"
    and "compact_session q1 q2 q3 q4 now sid db = (db', res)"
  shows "res = Inr \<lparr> messages_before = of_nat n, messages_after = of_nat (kept n),
                     tokens_saved = of_nat (n - kept n) * 100 \<rparr>
    \<and> stored sid db' = drop (n - kept n) (stored sid db)
    \<and> (\<forall>other. other \<noteq> sid \<longrightarrow> stored other db' = stored other db)
    \<and> max_message_sequence q2 sid db' = max_message_sequence q2 sid db"
proof -
  have len: "length (stored sid db) = n" using arg_cong [OF assms(1), of length] by simp
  have cnt: "count_messages q1 sid db = Inr (int n)"
    using assms(3) len by (simp add: count_messages_def stored_def)
  have zero: "(of_nat n :: 32 word) = 0 \<longleftrightarrow> n = 0"
    using assms(2) by (simp add: word_unat_eq_iff unat_of_nat)
  note kw = kept_word [OF assms(2)]
  note defs = compact_session_def cnt zero max_numbered [OF assms(1) _ assms(4)] Let_def kw
  consider "n = 0" | "0 < n" "lo + n \<le> kept n" | "0 < n" "kept n < lo + n" by linarith
  then show ?thesis
  proof cases
    case 1
    then show ?thesis using assms(7) by (auto simp: compact_session_def cnt kept_def)
  next
    case 2
    then have kn: "kept n = n" and "lo = 0" by (simp_all add: kept_def)
    have "(db', res) = (db, Inr \<lparr> messages_before = of_nat n, messages_after = of_nat n, tokens_saved = 0 \<rparr>)"
      unfolding assms(7) [symmetric] using 2 by (simp add: defs)
    then show ?thesis by (simp add: kn)
  next
    case 3
    define j where "j = n - kept n"
    have k: "kept n \<le> n" "0 < kept n" using 3(1) by (auto simp: kept_def)
    have cut: "int (lo + n) - int (kept n) = int (lo + j)" and pos: "0 < int (lo + j)"
      using k 3(2) by (simp_all add: j_def)
    obtain db1 dres where d: "delete_messages_before_sequence q3 sid (int (lo + j)) db = (db1, dres)" by fastforce
    note del = delete_numbered [OF assms(1,5) _ d]
    have j: "j \<le> n" by (simp add: j_def)
    have uj: "ucast (of_nat j :: 64 word) = (of_nat j :: 32 word)"
      using j assms(2) by (simp add: word_unat_eq_iff unsigned_ucast_eq take_bit_eq_mod unat_of_nat)
    have after: "of_nat n - of_nat j = (of_nat (kept n) :: 32 word)" using k(1) by (simp add: j_def of_nat_diff)
    have r: "(db', res) = (fst (update_compaction_sequence q4 now sid (int (lo + j)) db1),
        Inr \<lparr> messages_before = of_nat n, messages_after = of_nat (kept n), tokens_saved = of_nat j * 100 \<rparr>)"
      unfolding assms(7) [symmetric] using 3 assms(6) pos
      by (simp add: defs cut d del(1) [OF j] after uj update_compaction_sequence_def del: of_nat_add)
    have "map ms_sequence (stored sid db') = drop j (map int [Suc lo ..< Suc (lo + n)])"
      using r del(2) [OF j] by (simp only: prod.inject update_compaction_stored drop_map [symmetric] assms(1))
    also have "\<dots> = map int [Suc (lo + j) ..< Suc (lo + j + kept n)]"
      using k(1) by (simp add: drop_map drop_upt j_def del: upt_Suc)
    finally show ?thesis
      using r del(2) [OF j] del(3) [OF j] max_numbered [OF _ k(2) assms(4), of sid db' "lo + j"]
        max_numbered [OF assms(1) 3(1) assms(4)] k(1) by (simp add: j_def)
  qed
qed

text \<open>A session with twelve messages.\<close>

definition demo_history :: daemon_db where
  "demo_history = fold (\<lambda>i db. fst (insert_message ok_sql 0 ''s'' (int i) ''user'' ''p'' db)) [1 ..< 13]
     (fst (create_session ok_sql ok_sql 0 ''s'' ''m'' ''/w'' empty_db))"

theorem compaction_keeps_recent_witness:
  "stored ''s'' (fst (compact_session ok_sql ok_sql ok_sql ok_sql 1 ''s'' demo_history))
     = drop 2 (stored ''s'' demo_history)"
proof -
  have num: "map ms_sequence (stored ''s'' demo_history) = map int [Suc 0 ..< Suc (0 + 12)]" by code_simp
  obtain db res where c: "compact_session ok_sql ok_sql ok_sql ok_sql 1 ''s'' demo_history = (db, res)" by fastforce
  from compaction_keeps_recent [OF num _ _ _ _ _ c] show ?thesis
    unfolding c by (simp add: ok_sql_def kept_def)
qed

theorem compaction_equivalent_witness:
  "snd (handle_compact_session (\<lambda>_. Inr ''s'') ok_sql ok_sql ok_sql ok_sql 1 [] demo_history)
     = Inr \<lparr> messages_before = 12, messages_after = 10, tokens_saved = 200 \<rparr>"
proof -
  have "snd (compact_session ok_sql ok_sql ok_sql ok_sql 1 ''s'' demo_history)
     = Inr \<lparr> messages_before = 12, messages_after = 10, tokens_saved = 200 \<rparr>" by code_simp
  then show ?thesis
    by (subst compaction_equivalent [where sid = "''s''"]) (auto simp: ok_sql_def split: prod.splits)
qed

section \<open>Answers of a client\<close>

lemma permission_answer_step:
  assumes "cv_session_id cv = Some sid" and "get_handle sid r = Some h" and "rq_stdin_open e"
    and "hm_get (rc_permissions (the_cells (rh_cells h) r)) rid = Some p"
    and "d = unwrap_or Deny (rq_decision e raw)"
  shows "handle_agent_request e cid (PermissionReq rid raw updated msg) cv r = (cv, send_line True (rh_stdin_tx h)
      (re_print (rq_env e) (build_permission_response_json rid (is_granted d) (pp_input p)))
      (r\<lparr>rl_cells := hm_insert (rh_cells h) (fst (process_permission_response rid d (the_cells (rh_cells h) r))) (rl_cells r)\<rparr>), Inr ())"
proof -
  define c where "c = the_cells (rh_cells h) r"
  show ?thesis
    using assms(1-4) c_def
    by (simp add: handle_agent_request_def handle_permission_def assms(5) [symmetric] lift_relay_def
        send_permission_response_def get_active_handle_def get_handle_def process_permission_response_def
        stdin_result_def Let_def split: prod.splits)
qed

lemma is_granted_cases: "is_granted d \<longleftrightarrow> d \<in> {AllowOnce, AllowSession, AllowWithEdit}"
  by (cases d) simp_all

text \<open>
  C37. What becomes of the answer of a client to a permission request. For a session that is active,
  with the request \<open>rid\<close> waiting, exactly one line is written to the subprocess: a
  \<^verbatim>\<open>control_response\<close> for the request that, for \<^verbatim>\<open>AllowOnce\<close>, \<^verbatim>\<open>AllowSession\<close> and \<^verbatim>\<open>AllowWithEdit\<close>, allows
  the call with the input the tool was called with, and for every other decision denies it and interrupts. A
  decision number the daemon does not know is a denial. The request no longer waits. Only
  \<^verbatim>\<open>AllowSession\<close> changes the grants of the session, for that tool, and only in memory: the database
  stays as it was. \<^verbatim>\<open>docs/architecture/TESTING_PERMISSIONS.md\<close> says that \<^verbatim>\<open>ALLOW_SESSION\<close> inserts a
  \<^verbatim>\<open>permission_grant\<close> row, which does not happen.
\<close>

theorem permission_answer_delivered:
  assumes "cv_session_id cv = Some sid" and "get_handle sid r = Some h" and "rq_stdin_open e"
    and "hm_get (rc_permissions (the_cells (rh_cells h) r)) rid = Some p"
    and "d = unwrap_or Deny (rq_decision e raw)"
    and "handle_agent_request e cid (PermissionReq rid raw updated msg) cv r = (cv', r', res)"
  shows "res = Inr () \<and> cv' = cv
    \<and> rl_stdin r' = rl_stdin r @ [(rh_stdin_tx h, re_print (rq_env e) (JObject
         [(''response'', JObject [(''request_id'', JString rid),
             (''response'', if d \<in> {AllowOnce, AllowSession, AllowWithEdit}
                then JObject [(''behavior'', JString ''allow''), (''updatedInput'', pp_input p)]
                else JObject [(''behavior'', JString ''deny''), (''interrupt'', JBool True),
                       (''message'', JString ''User denied permission'')]),
             (''subtype'', JString ''success'')]),
          (''type'', JString ''control_response'')]))]
    \<and> hm_get (rc_permissions (the_cells (rh_cells h) r')) rid = None
    \<and> rc_grants (the_cells (rh_cells h) r') =
        (if d = AllowSession then hm_insert (pp_tool_name p) True (rc_grants (the_cells (rh_cells h) r))
         else rc_grants (the_cells (rh_cells h) r))
    \<and> rl_db r' = rl_db r \<and> rl_sessions r' = rl_sessions r"
proof -
  have step: "cv' = cv" "res = Inr ()" "r' = send_line True (rh_stdin_tx h)
      (re_print (rq_env e) (build_permission_response_json rid (is_granted d) (pp_input p)))
      (r\<lparr>rl_cells := hm_insert (rh_cells h) (fst (process_permission_response rid d (the_cells (rh_cells h) r))) (rl_cells r)\<rparr>)"
    using permission_answer_step [OF assms(1-5), of cid updated msg] assms(6) by simp_all
  show ?thesis
    using assms(4) unfolding step build_permission_response_json_def control_response_def is_granted_cases
    by (simp add: send_line_def process_permission_response_def Let_def)
qed

definition demo_request_env :: request_env where
  "demo_request_env = \<lparr> rq_env = demo_relay_env, rq_launch = ok_launch ''p2'', rq_sql = (\<lambda>_. ok_sql), rq_now = 3,
     rq_instant = 3, rq_ts = (3, 0), rq_stdin_open = True, rq_uuid = ''u'', rq_address = 1,
     rq_decision = (\<lambda>n. if n = 1 then Some AllowOnce else None), rq_mux_config = default_config \<rparr>"

text \<open>Request \<open>r1\<close> waits; a client answers with the unknown decision 99.\<close>

theorem permission_answer_delivered_witness:
  "rl_stdin (fst (snd (handle_agent_request demo_request_env ''c'' (PermissionReq ''r1'' 99 None [])
       \<lparr> cv_session_id = Some ''s'', cv_pending_config = None \<rparr> demo_permission)))
     = rl_stdin demo_permission @ [(0, re_print demo_relay_env
         (build_permission_response_json ''r1'' False (JObject [(''command'', JString ''ls'')])))]"
proof -
  let ?cv = "\<lparr> cv_session_id = Some ''s'', cv_pending_config = None \<rparr>"
  let ?h = "\<lparr> rh_process_id = ''p'', rh_session_id = ''s'', rh_stdin_tx = 0, rh_cells = 0 \<rparr>"
  let ?p = "\<lparr> pp_input = JObject [(''command'', JString ''ls'')], pp_tool_name = ''Bash'' \<rparr>"
  have 1: "get_handle ''s'' demo_permission = Some ?h" by code_simp
  have 2: "hm_get (rc_permissions (the_cells (rh_cells ?h) demo_permission)) ''r1'' = Some ?p" by code_simp
  obtain cv' r' res where run: "handle_agent_request demo_request_env ''c'' (PermissionReq ''r1'' 99 None []) ?cv demo_permission
      = (cv', r', res)" using prod_cases3 by blast
  from permission_answer_delivered [OF _ 1 _ 2 refl run] show ?thesis
    unfolding run build_permission_response_json_def control_response_def by (simp add: demo_request_env_def)
qed

text \<open>
  A second answer to a request is also written to the subprocess, now with an empty input in place
  of the tool's arguments.
\<close>

theorem duplicate_answer_written:
  assumes "cv_session_id cv = Some sid" and "get_handle sid r = Some h" and "rq_stdin_open e"
    and "hm_get (rc_permissions (the_cells (rh_cells h) r)) rid = None"
    and "d = unwrap_or Deny (rq_decision e raw)"
  shows "rl_stdin (fst (snd (handle_agent_request e cid (PermissionReq rid raw updated msg) cv r))) = rl_stdin r @
    [(rh_stdin_tx h, re_print (rq_env e) (build_permission_response_json rid (is_granted d) (JObject [])))]"
  using assms
  by (simp add: handle_agent_request_def handle_permission_def lift_relay_def send_permission_response_def
      get_active_handle_def get_handle_def process_permission_response_def stdin_result_def send_line_def Let_def)

text \<open>
  A client that joins a session whose subprocess is running loses its first message: the
  deferred start finds the running subprocess and returns its handle, and the message, taken to be
  the prompt of the start, is neither written to the subprocess nor stored. The client sees
  success.
\<close>

theorem joining_message_dropped:
  assumes "cv_session_id cv = Some sid" and "cv_pending_config cv = Some config"
    and "rs_session_id config = sid" and "is_active sid r"
  shows "handle_agent_request e cid (MessageReq content agent) cv r
    = (cv\<lparr>cv_pending_config := None\<rparr>, r, Inr ())"
  using assms
  by (auto simp: handle_agent_request_def handle_message_def lift_relay_def start_session_def is_active_def Let_def)

theorem joining_message_dropped_witness:
  "fst (snd (handle_agent_request demo_request_env ''c2'' (MessageReq ''stop that'' [])
     \<lparr> cv_session_id = Some ''s'', cv_pending_config = Some demo_config \<rparr> demo_relay)) = demo_relay"
proof -
  have "rs_session_id demo_config = ''s''" "is_active ''s'' demo_relay" by code_simp+
  then show ?thesis by (subst joining_message_dropped [where sid = "''s''" and config = demo_config]) simp_all
qed

section \<open>Streams\<close>

text \<open>A stream that starts two sessions, and ends.\<close>

definition demo_two_starts :: session_relay where
  "demo_two_starts = fst (converse ''c9''
     [Some (demo_request_env, StartReq \<lparr> st_session_id = ''s1'', st_working_directory = ''/w'', st_model = [], st_worktree_id = [] \<rparr>),
      Some (demo_request_env, StartReq \<lparr> st_session_id = ''s2'', st_working_directory = ''/w'', st_model = [], st_worktree_id = [] \<rparr>)]
     demo_relay)"

text \<open>The end of the stream unsubscribes the client from the session it started last, but not from the
  one before: there the client stays subscribed, and counts against the limit of clients.\<close>

theorem two_starts_leave_subscription:
  "map_option (\<lambda>s. map fst (clients s)) (hm_get (rl_mux demo_two_starts) ''s1'') = Some [''c9'']
   \<and> hm_get (rl_mux demo_two_starts) ''s2'' = None"
  by code_simp

end
