(* ===== verification/PermissionRules.thy ===== *)
theory PermissionRules
  imports Prelude
begin

text \<open>
  The rules that decide about tool calls, \<^verbatim>\<open>crates/betcode-core/src/permissions.rs\<close>: rules, the engine
  with its default rules, and the patterns. Paths are byte strings in UTF-8, on which
  \<^verbatim>\<open>to_string_lossy\<close> is the identity. The theory proves that sorting on every insertion and taking
  the first match is the same as taking the oldest matching rule of the best priority.
\<close>

section \<open>Rules\<close>

datatype permission_action = AllowAction | DenyAction | AskAction | AskSessionAction

datatype rule_source = BuiltinSource | GlobalSource | ProjectSource | SessionSource

record permission_rule =
  ru_id :: string
  ru_tool_pattern :: string
  ru_path_pattern :: "string option"
  ru_action :: permission_action
  ru_priority :: "32 word"
  ru_description :: "string option"
  ru_source :: rule_source

record permission_verdict =
  pv_action :: permission_action
  pv_rule_id :: "string option"
  pv_reason :: "string option"

definition default_verdict :: permission_verdict where
  "default_verdict = \<lparr> pv_action = AskAction, pv_rule_id = None, pv_reason = None \<rparr>"

section \<open>Patterns\<close>

definition matches_tool :: "string \<Rightarrow> string \<Rightarrow> bool" where
  "matches_tool pattern tool =
     (if pattern = ''*'' then True
      else case strip_suffix pattern ''*'' of
        Some pre \<Rightarrow> starts_with tool pre
      | None \<Rightarrow> pattern = tool)"

text \<open>
  \<^verbatim>\<open>Path::parent\<close>: the path without its last component. Empty components and components \<^verbatim>\<open>.\<close> are
  not counted, except for a \<^verbatim>\<open>.\<close> at the start of a relative path; the rest of the text is kept.
\<close>

fun split_slash :: "string \<Rightarrow> string list" where
  "split_slash [] = [[]]"
| "split_slash (c # s) =
     (if c = CHR ''/'' then [] # split_slash s
      else case split_slash s of seg # segs \<Rightarrow> (c # seg) # segs | [] \<Rightarrow> [[c]])"

fun join_slash :: "string list \<Rightarrow> string" where
  "join_slash [] = []"
| "join_slash [s] = s"
| "join_slash (s # ss) = s @ CHR ''/'' # join_slash ss"

definition trim_segments :: "string list \<Rightarrow> string list" where
  "trim_segments ss = rev (dropWhile (\<lambda>s. s = [] \<or> s = ''.'') (rev ss))"

definition path_parent :: "string \<Rightarrow> string option" where
  "path_parent p =
     (case p of
        [] \<Rightarrow> None
      | c # rest \<Rightarrow>
          if c = CHR ''/'' then
            (let segs = trim_segments (split_slash rest)
             in if segs = [] then None
                else Some (CHR ''/'' # join_slash (trim_segments (butlast segs))))
          else
            (let segs = split_slash p; body = trim_segments (tl segs)
             in if body = [] then Some []
                else Some (join_slash (hd segs # trim_segments (butlast body)))))"

definition matches_path :: "string \<Rightarrow> string \<Rightarrow> bool" where
  "matches_path pattern path =
     (if pattern = ''*'' \<or> pattern = ''**'' then True
      else case strip_suffix pattern ''/**'' of
        Some pre \<Rightarrow> starts_with path pre
      | None \<Rightarrow>
          (case strip_suffix pattern ''/*'' of
             Some pre \<Rightarrow>
               (case path_parent path of
                  Some parent \<Rightarrow> parent = pre
                | None \<Rightarrow> path = pattern)
           | None \<Rightarrow> path = pattern))"

section \<open>Engine\<close>

type_synonym permission_engine = "permission_rule list"

definition default_rule :: "string \<Rightarrow> string \<Rightarrow> permission_action \<Rightarrow> 32 word \<Rightarrow> string \<Rightarrow> permission_rule" where
  "default_rule i tool act prio descr = \<lparr> ru_id = i, ru_tool_pattern = tool, ru_path_pattern = None,
     ru_action = act, ru_priority = prio, ru_description = Some descr, ru_source = BuiltinSource \<rparr>"

definition default_rules :: "permission_rule list" where
  "default_rules =
     [default_rule ''builtin-read-allow'' ''Read'' AllowAction 100 ''Allow reading files'',
      default_rule ''builtin-glob-allow'' ''Glob'' AllowAction 100 ''Allow file globbing'',
      default_rule ''builtin-grep-allow'' ''Grep'' AllowAction 100 ''Allow grep search'',
      default_rule ''builtin-bash-ask'' ''Bash'' AskAction 200 ''Ask for bash commands'',
      default_rule ''builtin-write-ask'' ''Write'' AskAction 200 ''Ask for file writes'',
      default_rule ''builtin-edit-ask'' ''Edit'' AskAction 200 ''Ask for file edits'']"

definition new_engine :: permission_engine where
  "new_engine = default_rules"

definition with_rules :: "permission_rule list \<Rightarrow> permission_engine" where
  "with_rules rules = sort_key ru_priority rules"

definition add_rules :: "permission_rule list \<Rightarrow> permission_engine \<Rightarrow> permission_engine" where
  "add_rules rules e = sort_key ru_priority (e @ rules)"

definition rule_verdict :: "permission_rule \<Rightarrow> permission_verdict" where
  "rule_verdict r = \<lparr> pv_action = ru_action r, pv_rule_id = Some (ru_id r), pv_reason = ru_description r \<rparr>"

fun evaluate_rules :: "permission_engine \<Rightarrow> string \<Rightarrow> string option \<Rightarrow> permission_verdict" where
  "evaluate_rules [] tool path = default_verdict"
| "evaluate_rules (rule # rules) tool path =
     (if matches_tool (ru_tool_pattern rule) tool then
        (case ru_path_pattern rule of
           None \<Rightarrow> rule_verdict rule
         | Some pat \<Rightarrow>
             (case path of
                Some p \<Rightarrow> if \<not> matches_path pat p then evaluate_rules rules tool path else rule_verdict rule
              | None \<Rightarrow> evaluate_rules rules tool path))
      else evaluate_rules rules tool path)"

section \<open>What the engine decides\<close>

text \<open>The rules that apply to a call, and the one that decides: the oldest of the best priority.\<close>

definition applies :: "string \<Rightarrow> string option \<Rightarrow> permission_rule \<Rightarrow> bool" where
  "applies tool path rule \<longleftrightarrow> matches_tool (ru_tool_pattern rule) tool \<and>
     (case ru_path_pattern rule of
        None \<Rightarrow> True
      | Some pat \<Rightarrow> (case path of Some p \<Rightarrow> matches_path pat p | None \<Rightarrow> False))"

definition decisive :: "string \<Rightarrow> string option \<Rightarrow> permission_rule list \<Rightarrow> permission_rule option" where
  "decisive tool path rules =
     (let app = filter (applies tool path) rules; best = Min (set (map ru_priority app))
      in if app = [] then None else Some (hd (filter (\<lambda>r. ru_priority r = best) app)))"

lemma evaluate_Cons:
  "evaluate_rules (rule # rules) tool path =
     (if applies tool path rule then rule_verdict rule else evaluate_rules rules tool path)"
  by (auto simp: applies_def split: option.split)

lemma evaluate_find:
  "evaluate_rules rules tool path = (case find (applies tool path) rules of
     None \<Rightarrow> default_verdict | Some r \<Rightarrow> rule_verdict r)"
  by (induction rules) (simp_all add: evaluate_Cons del: evaluate_rules.simps(2))

lemma find_hd_filter: "find P xs = (if filter P xs = [] then None else Some (hd (filter P xs)))"
  by (induction xs) auto

lemma hd_sorted_min:
  assumes "sorted (map f xs)" and "xs \<noteq> []"
  shows "hd (filter (\<lambda>x. f x = Min (set (map f xs))) xs) = hd xs"
proof (cases xs)
  case (Cons x ys)
  then have "Min (set (map f xs)) = f x"
    using assms(1) by (intro Min_eqI) auto
  then show ?thesis by (simp add: Cons)
qed (use assms in simp)

lemma find_sorted_decisive:
  assumes "sorted (map ru_priority rules)"
  shows "find (applies tool path) rules = decisive tool path rules"
  using sorted_filter [OF assms, of "applies tool path"]
    hd_sorted_min [of ru_priority "filter (applies tool path) rules"]
  by (simp add: find_hd_filter decisive_def Let_def)

lemma decisive_sort: "decisive tool path (sort_key ru_priority xs @ ys) = decisive tool path (xs @ ys)"
proof -
  let ?l = "filter (applies tool path) (sort_key ru_priority xs @ ys)"
  let ?r = "filter (applies tool path) (xs @ ys)"
  have "set ?l = set ?r" by simp
  then have "set (map ru_priority ?l) = set (map ru_priority ?r)" and "?l = [] \<longleftrightarrow> ?r = []"
    by (simp_all only: set_map set_empty [symmetric])
  moreover have "filter (\<lambda>r. ru_priority r = k) ?l = filter (\<lambda>r. ru_priority r = k) ?r" for k
  proof -
    have "filter (\<lambda>r. ru_priority r = k) (filter (applies tool path) (sort_key ru_priority xs))
        = filter (applies tool path) (filter (\<lambda>r. ru_priority r = k) (sort_key ru_priority xs))"
      by (simp add: conj_commute)
    then show ?thesis by (simp only: filter_append sort_key_stable) (simp add: conj_commute)
  qed
  ultimately show ?thesis unfolding decisive_def Let_def by simp
qed

lemma add_rules_decisive:
  "decisive tool path (fold add_rules batches e) = decisive tool path (e @ concat batches)"
proof (induction batches arbitrary: e)
  case (Cons b batches)
  then show ?case
    using decisive_sort [of tool path "e @ b" "concat batches"] by (simp add: add_rules_def)
qed simp

lemma add_rules_sorted:
  "sorted (map ru_priority e) \<Longrightarrow> sorted (map ru_priority (fold add_rules batches e))"
  by (induction batches arbitrary: e) (simp_all add: add_rules_def)

lemma new_engine_sorted: "sorted (map ru_priority new_engine)"
  by code_simp

lemma engine_decides:
  "evaluate_rules (fold add_rules batches new_engine) tool path =
     (case decisive tool path (default_rules @ concat batches) of
        None \<Rightarrow> default_verdict | Some rule \<Rightarrow> rule_verdict rule)"
  unfolding evaluate_find find_sorted_decisive [OF add_rules_sorted [OF new_engine_sorted]] add_rules_decisive
  by (simp add: new_engine_def)

text \<open>Two rules for \<^verbatim>\<open>Bash\<close> of the same priority: the older one allows, the younger one denies.\<close>

definition allow_then_deny :: "permission_rule list list" where
  "allow_then_deny = [[default_rule ''a'' ''Bash'' AllowAction 5 []], [default_rule ''d'' ''Bash'' DenyAction 5 []]]"

lemma older_allow_beats_deny:
  "pv_action (evaluate_rules (fold add_rules allow_then_deny new_engine) ''Bash'' None) = AllowAction"
  by code_simp

text \<open>
  C38. However rules are added to an engine, in however many batches, a call is decided by the
  oldest of the applicable rules with the smallest priority number, the built-in rules counting as
  the oldest; without an applicable rule the user is asked. The sorting on each insertion does not
  change which rule that is. The action of a rule plays no part, contrary to
  \<^verbatim>\<open>docs/architecture/DAEMON.md\<close> and \<^verbatim>\<open>TESTING_PERMISSIONS.md\<close>, where deny rules take precedence over
  allow rules: of an older allow rule and a younger deny rule of the same priority the allow rule decides.
\<close>

theorem engine_decides_by_priority:
  "evaluate_rules (fold add_rules batches new_engine) tool path =
     (case decisive tool path (default_rules @ concat batches) of
        None \<Rightarrow> default_verdict
      | Some rule \<Rightarrow> rule_verdict rule)
   \<and> pv_action (evaluate_rules (fold add_rules allow_then_deny new_engine) ''Bash'' None) = AllowAction"
  using engine_decides older_allow_beats_deny by blast

text \<open>Without further rules only reading is allowed, and nothing is denied.\<close>

lemma default_engine_decides:
  "pv_action (evaluate_rules new_engine tool path) =
     (if tool \<in> {''Read'', ''Glob'', ''Grep''} then AllowAction else AskAction)"
  by (auto simp: new_engine_def default_rules_def default_rule_def matches_tool_def strip_suffix_def
      rule_verdict_def default_verdict_def suffix_def)

text \<open>
  A pattern that ends in \<^verbatim>\<open>/**\<close> is meant for everything below a directory, but matches every path
  that starts with the same characters: a sibling directory, and a path that leaves the directory.
\<close>

theorem directory_pattern_overmatches:
  "matches_path ''/proj/**'' ''/proj-secret/key'' \<and> matches_path ''/proj/**'' ''/proj/../etc/passwd''"
  by code_simp

end
