(* ===== verification/DaemonPermission.thy ===== *)
theory DaemonPermission
  imports PermissionRules SessionStore
begin

text \<open>
  The permission engine of the daemon, \<^verbatim>\<open>crates/betcode-daemon/src/permission/\<close>: pending requests with
  their timeouts (\<^verbatim>\<open>pending.rs\<close>), and the engine that combines session grants, stored grants and
  rules (\<^verbatim>\<open>engine.rs\<close>, \<^verbatim>\<open>types.rs\<close>). Instants and durations are numbers of nanoseconds; each reading of the
  clock is an argument. The theory proves on what ground a call is allowed, that a remembered answer
  decides later calls, and that no request expires early.
\<close>

section \<open>Pending requests\<close>

record pending_config =
  connected_timeout :: nat
  disconnected_timeout :: nat
  cleanup_interval :: nat

definition from_secs :: "nat \<Rightarrow> nat" where
  "from_secs n = n * 1000000000"

definition default_pending_config :: pending_config where
  "default_pending_config = \<lparr> connected_timeout = from_secs 60,
     disconnected_timeout = from_secs (7 * 24 * 60 * 60), cleanup_interval = from_secs 60 \<rparr>"

record pending_request =
  pq_request_id :: string
  pq_session_id :: string
  pq_tool_name :: string
  pq_description :: string
  pq_input_json :: string
  pq_target_client :: "string option"
  pq_created_at :: nat
  pq_expires_at :: nat
  pq_client_connected :: bool

definition is_expired :: "nat \<Rightarrow> pending_request \<Rightarrow> bool" where
  "is_expired now r \<longleftrightarrow> now > pq_expires_at r"

definition refresh_expiry :: "nat \<Rightarrow> bool \<Rightarrow> pending_config \<Rightarrow> pending_request \<Rightarrow> pending_request" where
  "refresh_expiry now connected config r =
     (let timeout = (if connected then connected_timeout config else disconnected_timeout config)
      in r\<lparr>pq_client_connected := connected, pq_expires_at := now + timeout\<rparr>)"

record pending_request_params =
  pa_request_id :: string
  pa_session_id :: string
  pa_tool_name :: string
  pa_description :: string
  pa_input_json :: string
  pa_target_client :: "string option"
  pa_client_connected :: bool

record pending_manager =
  pm_requests :: "(string, pending_request) hmap"
  pm_config :: pending_config

definition new_pending :: "pending_config \<Rightarrow> pending_manager" where
  "new_pending config = \<lparr> pm_requests = [], pm_config = config \<rparr>"

definition add_pending :: "pending_request \<Rightarrow> pending_manager \<Rightarrow> pending_manager" where
  "add_pending r m = m\<lparr>pm_requests := hm_insert (pq_request_id r) r (pm_requests m)\<rparr>"

text \<open>\<^verbatim>\<open>create\<close> reads the clock twice.\<close>

definition create_pending ::
  "nat \<Rightarrow> nat \<Rightarrow> pending_request_params \<Rightarrow> pending_manager \<Rightarrow> pending_manager \<times> pending_request" where
  "create_pending t1 t2 params m =
     (let timeout = (if pa_client_connected params then connected_timeout (pm_config m)
                     else disconnected_timeout (pm_config m));
          r = \<lparr> pq_request_id = pa_request_id params, pq_session_id = pa_session_id params,
                pq_tool_name = pa_tool_name params, pq_description = pa_description params,
                pq_input_json = pa_input_json params, pq_target_client = pa_target_client params,
                pq_created_at = t1, pq_expires_at = t2 + timeout,
                pq_client_connected = pa_client_connected params \<rparr>
      in (add_pending r m, r))"

definition get_pending :: "string \<Rightarrow> pending_manager \<Rightarrow> pending_request option" where
  "get_pending i m = hm_get (pm_requests m) i"

definition take_pending :: "string \<Rightarrow> pending_manager \<Rightarrow> pending_manager \<times> pending_request option" where
  "take_pending i m = (m\<lparr>pm_requests := hm_remove i (pm_requests m)\<rparr>, hm_get (pm_requests m) i)"

definition contains_pending :: "string \<Rightarrow> pending_manager \<Rightarrow> bool" where
  "contains_pending i m \<longleftrightarrow> hm_get (pm_requests m) i \<noteq> None"

definition get_pending_for_session :: "string \<Rightarrow> pending_manager \<Rightarrow> pending_request list" where
  "get_pending_for_session sid m = filter (\<lambda>r. pq_session_id r = sid) (hm_values (pm_requests m))"

text \<open>The loops over all requests read the clock for each: \<open>clock i\<close> is the reading for request \<open>i\<close>.\<close>

definition update_client_status ::
  "(string \<Rightarrow> nat) \<Rightarrow> string \<Rightarrow> bool \<Rightarrow> pending_manager \<Rightarrow> pending_manager" where
  "update_client_status clock cid connected m =
     m\<lparr>pm_requests := map (\<lambda>(i, r). (i, if pq_target_client r = Some cid
         then refresh_expiry (clock i) connected (pm_config m) r else r)) (pm_requests m)\<rparr>"

definition cleanup_expired :: "(string \<Rightarrow> nat) \<Rightarrow> pending_manager \<Rightarrow> pending_manager \<times> string list" where
  "cleanup_expired clock m =
     (let expired = map fst (filter (\<lambda>(i, r). is_expired (clock i) r) (pm_requests m))
      in (m\<lparr>pm_requests := fold hm_remove expired (pm_requests m)\<rparr>, expired))"

definition pending_count :: "pending_manager \<Rightarrow> nat" where
  "pending_count m = length (pm_requests m)"

section \<open>Engine\<close>

record permission_response =
  rp_request_id :: string
  rp_granted :: bool
  rp_remember_session :: bool
  rp_remember_permanent :: bool

record session_grant =
  sg_tool_name :: string
  sg_path_pattern :: "string option"
  sg_granted :: bool

datatype permission_evaluation =
    Allowed bool
  | Denied bool
  | PendingEval pending_request

record processed_response =
  pd_request :: pending_request
  pd_granted :: bool

datatype permission_error = RequestNotFound string | PermissionDatabase string

record permission_eval_request =
  er_session_id :: string
  er_request_id :: string
  er_tool_name :: string
  er_description :: string
  er_input_json :: string
  er_path :: "string option"
  er_target_client :: "string option"
  er_client_connected :: bool

record daemon_permission_engine =
  pe_rules :: permission_engine
  pe_pending :: pending_manager
  pe_grants :: "(string, session_grant list) hmap"
  pe_db :: "daemon_db option"

definition new_permission_engine :: "permission_engine \<Rightarrow> pending_config \<Rightarrow> daemon_permission_engine" where
  "new_permission_engine rules config =
     \<lparr> pe_rules = rules, pe_pending = new_pending config, pe_grants = [], pe_db = None \<rparr>"

definition engine_with_database ::
  "permission_engine \<Rightarrow> pending_config \<Rightarrow> daemon_db \<Rightarrow> daemon_permission_engine" where
  "engine_with_database rules config db =
     \<lparr> pe_rules = rules, pe_pending = new_pending config, pe_grants = [], pe_db = Some db \<rparr>"

definition grant_hit :: "string \<Rightarrow> string option \<Rightarrow> session_grant \<Rightarrow> bool" where
  "grant_hit tool path g \<longleftrightarrow> sg_tool_name g = tool \<and>
     (case sg_path_pattern g of
        None \<Rightarrow> True
      | Some pat \<Rightarrow> (case path of Some p \<Rightarrow> starts_with p pat | None \<Rightarrow> False))"

definition check_session_grant ::
  "string \<Rightarrow> string \<Rightarrow> string option \<Rightarrow> daemon_permission_engine \<Rightarrow> bool option" where
  "check_session_grant sid tool path e =
     (case hm_get (pe_grants e) sid of
        None \<Rightarrow> None
      | Some gs \<Rightarrow> map_option sg_granted (find (grant_hit tool path) (rev gs)))"

definition cached :: "bool \<Rightarrow> permission_evaluation" where
  "cached g = (if g then Allowed True else Denied True)"

text \<open>\<open>q\<close> and \<open>pick\<close> belong to the query of the stored grants.\<close>

definition stored_grant ::
  "sqlite \<Rightarrow> (permission_grant_row list \<Rightarrow> permission_grant_row) \<Rightarrow> string \<Rightarrow> string
    \<Rightarrow> daemon_permission_engine \<Rightarrow> permission_grant_row option" where
  "stored_grant q pick sid tool e =
     (case pe_db e of
        None \<Rightarrow> None
      | Some db \<Rightarrow> (case get_permission_grant q pick sid tool db of Inr g \<Rightarrow> g | Inl _ \<Rightarrow> None))"

definition evaluate_permission ::
  "sqlite \<Rightarrow> (permission_grant_row list \<Rightarrow> permission_grant_row) \<Rightarrow> nat \<Rightarrow> nat
    \<Rightarrow> permission_eval_request \<Rightarrow> daemon_permission_engine
    \<Rightarrow> daemon_permission_engine \<times> permission_evaluation" where
  "evaluate_permission q pick t1 t2 req e =
     (case check_session_grant (er_session_id req) (er_tool_name req) (er_path req) e of
        Some g \<Rightarrow> (e, cached g)
      | None \<Rightarrow>
          (case stored_grant q pick (er_session_id req) (er_tool_name req) e of
             Some row \<Rightarrow> (e, cached (pg_action row = ''allow''))
           | None \<Rightarrow>
               (case pv_action (evaluate_rules (pe_rules e) (er_tool_name req) (er_path req)) of
                  AllowAction \<Rightarrow> (e, Allowed False)
                | DenyAction \<Rightarrow> (e, Denied False)
                | _ \<Rightarrow>
                    (let (m, r) = create_pending t1 t2
                           \<lparr> pa_request_id = er_request_id req, pa_session_id = er_session_id req,
                             pa_tool_name = er_tool_name req, pa_description = er_description req,
                             pa_input_json = er_input_json req, pa_target_client = er_target_client req,
                             pa_client_connected = er_client_connected req \<rparr> (pe_pending e)
                     in (e\<lparr>pe_pending := m\<rparr>, PendingEval r)))))"

definition add_session_grant ::
  "string \<Rightarrow> string \<Rightarrow> string option \<Rightarrow> bool \<Rightarrow> daemon_permission_engine \<Rightarrow> daemon_permission_engine" where
  "add_session_grant sid tool pat g e =
     e\<lparr>pe_grants := hm_entry sid [] (\<lambda>gs. gs @ [\<lparr> sg_tool_name = tool, sg_path_pattern = pat, sg_granted = g \<rparr>])
         (pe_grants e)\<rparr>"

definition process_response ::
  "sqlite \<Rightarrow> int \<Rightarrow> permission_response \<Rightarrow> daemon_permission_engine
    \<Rightarrow> daemon_permission_engine \<times> (permission_error + processed_response)" where
  "process_response q now resp e =
     (case take_pending (rp_request_id resp) (pe_pending e) of
        (m, None) \<Rightarrow> (e\<lparr>pe_pending := m\<rparr>, Inl (RequestNotFound (rp_request_id resp)))
      | (m, Some r) \<Rightarrow>
          (let e1 = e\<lparr>pe_pending := m\<rparr>;
               e2 = (if rp_remember_session resp
                     then add_session_grant (pq_session_id r) (pq_tool_name r) None (rp_granted resp) e1 else e1);
               e3 = (if rp_remember_permanent resp
                     then e2\<lparr>pe_db := map_option (\<lambda>db. fst (insert_permission_grant q now (pq_session_id r)
                            (pq_tool_name r) None (if rp_granted resp then ''allow'' else ''deny'') db)) (pe_db e2)\<rparr>
                     else e2)
           in (e3, Inr \<lparr> pd_request = r, pd_granted = rp_granted resp \<rparr>)))"

definition clear_engine_grants :: "string \<Rightarrow> daemon_permission_engine \<Rightarrow> daemon_permission_engine" where
  "clear_engine_grants sid e = e\<lparr>pe_grants := hm_remove sid (pe_grants e)\<rparr>"

definition engine_client_status ::
  "(string \<Rightarrow> nat) \<Rightarrow> string \<Rightarrow> bool \<Rightarrow> daemon_permission_engine \<Rightarrow> daemon_permission_engine" where
  "engine_client_status clock cid connected e =
     e\<lparr>pe_pending := update_client_status clock cid connected (pe_pending e)\<rparr>"

definition engine_cleanup ::
  "(string \<Rightarrow> nat) \<Rightarrow> daemon_permission_engine \<Rightarrow> daemon_permission_engine \<times> string list" where
  "engine_cleanup clock e =
     (let (m, ids) = cleanup_expired clock (pe_pending e) in (e\<lparr>pe_pending := m\<rparr>, ids))"

section \<open>On what ground a call is allowed\<close>

lemma stored_grant_row:
  assumes "stored_grant q pick sid tool e = Some row" and "\<And>rows. rows \<noteq> [] \<Longrightarrow> pick rows \<in> set rows"
  shows "\<exists>db. pe_db e = Some db \<and> row \<in> set (permission_grants db) \<and> pg_session_id row = sid \<and> pg_tool_name row = tool"
proof -
  obtain db where db: "pe_db e = Some db" and get: "get_permission_grant q pick sid tool db = Inr (Some row)"
    using assms(1) by (auto simp: stored_grant_def split: option.splits sum.splits)
  define rows where "rows = filter (\<lambda>r. pg_session_id r = sid \<and> pg_tool_name r = tool) (permission_grants db)"
  let ?latest = "filter (\<lambda>r. pg_created_at r = Max (set (map pg_created_at rows))) rows"
  from get have ne: "rows \<noteq> []" and row: "row = pick ?latest"
    unfolding get_permission_grant_def rows_def [symmetric] by (auto simp: Let_def split: if_splits)
  have "Max (set (map pg_created_at rows)) \<in> set (map pg_created_at rows)" using ne by (intro Max_in) auto
  then have "?latest \<noteq> []" by (auto simp: filter_empty_conv)
  from assms(2) [OF this] have "row \<in> set rows" unfolding row by simp
  with db show ?thesis by (auto simp: rows_def)
qed

lemma find_Some_set: "find P xs = Some x \<Longrightarrow> x \<in> set xs \<and> P x"
  by (induction xs) (auto split: if_splits)

lemma session_grant_ground:
  assumes "check_session_grant sid tool path e = Some g"
  shows "\<exists>gs. hm_get (pe_grants e) sid = Some gs \<and> (\<exists>gr \<in> set gs. grant_hit tool path gr \<and> sg_granted gr = g)"
proof -
  obtain gs gr where gs: "hm_get (pe_grants e) sid = Some gs" and f: "find (grant_hit tool path) (rev gs) = Some gr"
    and g: "sg_granted gr = g"
    using assms by (auto simp: check_session_grant_def split: option.splits)
  from f have "gr \<in> set gs" "grant_hit tool path gr"
    using find_Some_set [OF f] by simp_all
  with gs g show ?thesis by blast
qed

text \<open>
  C39. A call is allowed only on one of three grounds: an allowing grant of the session that covers
  the tool and the path; an allowing stored grant for the session and tool, when no session grant
  applies; or, when no grant applies at all, the rule that decides by priority is an allowing one.
  Nothing is left pending then, and the engine is unchanged. \<open>pick\<close> returns one of the rows it is
  given.
\<close>

theorem allowed_only_with_ground:
  assumes "evaluate_permission q pick t1 t2 req e = (e', Allowed c)"
    and "pe_rules e = fold add_rules batches new_engine"
    and "\<And>rows. rows \<noteq> [] \<Longrightarrow> pick rows \<in> set rows"
  shows "e' = e \<and>
    ((c \<and> (\<exists>gs. hm_get (pe_grants e) (er_session_id req) = Some gs
            \<and> (\<exists>g \<in> set gs. grant_hit (er_tool_name req) (er_path req) g \<and> sg_granted g)))
     \<or> (c \<and> check_session_grant (er_session_id req) (er_tool_name req) (er_path req) e = None
          \<and> (\<exists>db row. pe_db e = Some db \<and> row \<in> set (permission_grants db) \<and> pg_session_id row = er_session_id req
               \<and> pg_tool_name row = er_tool_name req \<and> pg_action row = ''allow''))
     \<or> (\<not> c \<and> check_session_grant (er_session_id req) (er_tool_name req) (er_path req) e = None
          \<and> stored_grant q pick (er_session_id req) (er_tool_name req) e = None
          \<and> (\<exists>rule. decisive (er_tool_name req) (er_path req) (default_rules @ concat batches) = Some rule
               \<and> ru_action rule = AllowAction)))"
proof (cases "check_session_grant (er_session_id req) (er_tool_name req) (er_path req) e")
  case (Some g)
  then have "g" "c" "e' = e"
    using assms(1) by (auto simp: evaluate_permission_def cached_def split: if_splits)
  with session_grant_ground [OF Some] show ?thesis by auto
next
  case no_session: None
  show ?thesis
  proof (cases "stored_grant q pick (er_session_id req) (er_tool_name req) e")
    case (Some row)
    then have "pg_action row = ''allow''" "c" "e' = e"
      using assms(1) by (auto simp: evaluate_permission_def no_session cached_def split: if_splits)
    with stored_grant_row [OF Some assms(3)] no_session show ?thesis by auto
  next
    case None
    have act: "pv_action (evaluate_rules (pe_rules e) (er_tool_name req) (er_path req)) = AllowAction"
      and "\<not> c" "e' = e"
      using assms(1) by (auto simp: evaluate_permission_def no_session None split: permission_action.splits prod.splits)
    moreover from act have "\<exists>rule. decisive (er_tool_name req) (er_path req) (default_rules @ concat batches) = Some rule
        \<and> ru_action rule = AllowAction"
      unfolding assms(2) engine_decides
      by (auto simp: default_verdict_def rule_verdict_def split: option.splits)
    ultimately show ?thesis using no_session None by blast
  qed
qed

text \<open>An engine with one rule that allows \<^verbatim>\<open>Bash\<close>, and a call of that tool.\<close>

definition demo_pending_config :: pending_config where
  "demo_pending_config = \<lparr> connected_timeout = 6, disconnected_timeout = 70, cleanup_interval = 6 \<rparr>"

definition demo_engine :: daemon_permission_engine where
  "demo_engine = new_permission_engine
     (fold add_rules [[default_rule ''a'' ''Bash'' AllowAction 5 []]] new_engine) demo_pending_config"

definition demo_call :: "string \<Rightarrow> permission_eval_request" where
  "demo_call tool = \<lparr> er_session_id = ''s'', er_request_id = ''r1'', er_tool_name = tool, er_description = [],
     er_input_json = ''{}'', er_path = None, er_target_client = Some ''c'', er_client_connected = True \<rparr>"

theorem allowed_only_with_ground_witness:
  "\<exists>rule. decisive ''Bash'' None (default_rules @ concat [[default_rule ''a'' ''Bash'' AllowAction 5 []]]) = Some rule
     \<and> ru_action rule = AllowAction"
proof -
  have "snd (evaluate_permission ok_sql hd 0 0 (demo_call ''Bash'') demo_engine) = Allowed False"
    "fst (evaluate_permission ok_sql hd 0 0 (demo_call ''Bash'') demo_engine) = demo_engine" by code_simp+
  then have ev: "evaluate_permission ok_sql hd 0 0 (demo_call ''Bash'') demo_engine = (demo_engine, Allowed False)"
    by (metis prod.collapse)
  have "pe_rules demo_engine = fold add_rules [[default_rule ''a'' ''Bash'' AllowAction 5 []]] new_engine"
    by (simp add: demo_engine_def new_permission_engine_def)
  from allowed_only_with_ground [OF ev this] show ?thesis by (auto simp: demo_call_def)
qed

section \<open>Remembered answers\<close>

datatype permission_op =
    EvaluateOp sqlite "permission_grant_row list \<Rightarrow> permission_grant_row" nat nat permission_eval_request
  | RespondOp sqlite int permission_response
  | GrantOp string string "string option" bool
  | ClearOp string
  | StatusOp "string \<Rightarrow> nat" string bool
  | CleanupOp "string \<Rightarrow> nat"

definition apply_op :: "permission_op \<Rightarrow> daemon_permission_engine \<Rightarrow> daemon_permission_engine" where
  "apply_op oper e = (case oper of
      EvaluateOp q pick t1 t2 req \<Rightarrow> fst (evaluate_permission q pick t1 t2 req e)
    | RespondOp q now resp \<Rightarrow> fst (process_response q now resp e)
    | GrantOp sid tool pat g \<Rightarrow> add_session_grant sid tool pat g e
    | ClearOp sid \<Rightarrow> clear_engine_grants sid e
    | StatusOp clock cid connected \<Rightarrow> engine_client_status clock cid connected e
    | CleanupOp clock \<Rightarrow> fst (engine_cleanup clock e))"

text \<open>Operations that touch the grants of a session for a tool: a clearing, a new grant, or a
  remembered answer to a request for the same tool.\<close>

definition regrants :: "string \<Rightarrow> string \<Rightarrow> permission_op \<Rightarrow> daemon_permission_engine \<Rightarrow> bool" where
  "regrants sid tool oper e = (case oper of
      GrantOp sid' tool' _ _ \<Rightarrow> sid' = sid \<and> tool' = tool
    | ClearOp sid' \<Rightarrow> sid' = sid
    | RespondOp _ _ resp \<Rightarrow> rp_remember_session resp \<and>
        (case get_pending (rp_request_id resp) (pe_pending e) of
           None \<Rightarrow> False | Some r \<Rightarrow> pq_session_id r = sid \<and> pq_tool_name r = tool)
    | _ \<Rightarrow> False)"

fun undisturbed :: "string \<Rightarrow> string \<Rightarrow> permission_op list \<Rightarrow> daemon_permission_engine \<Rightarrow> bool" where
  "undisturbed sid tool [] e \<longleftrightarrow> True"
| "undisturbed sid tool (oper # ops) e \<longleftrightarrow> \<not> regrants sid tool oper e \<and> undisturbed sid tool ops (apply_op oper e)"

definition tool_grants :: "string \<Rightarrow> string \<Rightarrow> daemon_permission_engine \<Rightarrow> session_grant list" where
  "tool_grants sid tool e =
     filter (\<lambda>g. sg_tool_name g = tool) (case hm_get (pe_grants e) sid of None \<Rightarrow> [] | Some gs \<Rightarrow> gs)"

lemma find_tool: "find (grant_hit tool path) xs = find (grant_hit tool path) (filter (\<lambda>g. sg_tool_name g = tool) xs)"
  by (induction xs) (auto simp: grant_hit_def)

lemma check_tool_grants:
  "check_session_grant sid tool path e = map_option sg_granted (find (grant_hit tool path) (rev (tool_grants sid tool e)))"
proof (cases "hm_get (pe_grants e) sid")
  case (Some gs)
  show ?thesis
    unfolding check_session_grant_def tool_grants_def Some option.case rev_filter
    by (rule arg_cong [OF find_tool])
qed (simp add: check_session_grant_def tool_grants_def)

lemma evaluate_grants [simp]: "pe_grants (fst (evaluate_permission q pick t1 t2 req e)) = pe_grants e"
  by (simp add: evaluate_permission_def split: option.split permission_action.split prod.split)

lemma tool_grants_add:
  "tool_grants sid tool (add_session_grant sid' tool' pat g e) = tool_grants sid tool e @
     (if sid' = sid \<and> tool' = tool then [\<lparr> sg_tool_name = tool, sg_path_pattern = pat, sg_granted = g \<rparr>] else [])"
  by (auto simp: tool_grants_def add_session_grant_def split: option.split)

lemma tool_grants_cong [simp]:
  "tool_grants sid tool (e\<lparr>pe_pending := m\<rparr>) = tool_grants sid tool e"
  "tool_grants sid tool (e\<lparr>pe_db := d\<rparr>) = tool_grants sid tool e"
  by (simp_all add: tool_grants_def)

lemma process_response_grants:
  "tool_grants sid tool (fst (process_response q now resp e)) = tool_grants sid tool e @
     (case get_pending (rp_request_id resp) (pe_pending e) of
        None \<Rightarrow> []
      | Some r \<Rightarrow> if rp_remember_session resp \<and> pq_session_id r = sid \<and> pq_tool_name r = tool
                  then [\<lparr> sg_tool_name = tool, sg_path_pattern = None, sg_granted = rp_granted resp \<rparr>] else [])"
  by (auto simp: process_response_def take_pending_def get_pending_def tool_grants_add Let_def split: option.split)

lemma apply_op_grants:
  assumes "\<not> regrants sid tool oper e"
  shows "tool_grants sid tool (apply_op oper e) = tool_grants sid tool e"
proof (cases oper)
  case (RespondOp q now resp)
  then show ?thesis using assms
    by (auto simp: apply_op_def process_response_grants regrants_def split: option.split)
next
  case (EvaluateOp q pick t1 t2 req)
  then show ?thesis by (simp add: apply_op_def tool_grants_def)
next
  case (GrantOp sid' tool' pat g)
  then show ?thesis using assms by (auto simp: apply_op_def regrants_def tool_grants_add)
qed (use assms in \<open>auto simp: apply_op_def regrants_def clear_engine_grants_def tool_grants_def
       engine_client_status_def engine_cleanup_def split: prod.splits\<close>)

lemma undisturbed_grants:
  "undisturbed sid tool ops e \<Longrightarrow> tool_grants sid tool (fold apply_op ops e) = tool_grants sid tool e"
  by (induction ops arbitrary: e) (simp_all add: apply_op_grants)

text \<open>
  An answer that is to be remembered decides every later call of the same tool in the same
  session, on every path and whatever the rules and the stored grants say, until the grants of the
  session are cleared or the tool gets another grant: the call is then allowed or denied at once
  and nobody is asked. Other operations in between make no difference.
\<close>

theorem remembered_answer_decides:
  assumes "process_response q now resp e = (e1, Inr pr)" and "rp_remember_session resp"
    and "undisturbed (pq_session_id (pd_request pr)) (pq_tool_name (pd_request pr)) ops e1"
    and "er_session_id req = pq_session_id (pd_request pr)" and "er_tool_name req = pq_tool_name (pd_request pr)"
  shows "evaluate_permission q' pick t1 t2 req (fold apply_op ops e1)
    = (fold apply_op ops e1, if rp_granted resp then Allowed True else Denied True)"
proof -
  let ?sid = "er_session_id req" and ?tool = "er_tool_name req"
  have "get_pending (rp_request_id resp) (pe_pending e) = Some (pd_request pr)"
    using assms(1) by (auto simp: process_response_def take_pending_def get_pending_def Let_def split: option.splits)
  then have "tool_grants ?sid ?tool e1 = tool_grants ?sid ?tool e
      @ [\<lparr> sg_tool_name = ?tool, sg_path_pattern = None, sg_granted = rp_granted resp \<rparr>]"
    using process_response_grants [of ?sid ?tool q now resp e] assms(1,2,4,5) by simp
  then have "check_session_grant ?sid ?tool (er_path req) (fold apply_op ops e1) = Some (rp_granted resp)"
    using undisturbed_grants [OF assms(3)] assms(4,5) by (simp add: check_tool_grants grant_hit_def)
  then show ?thesis by (simp add: evaluate_permission_def cached_def)
qed

definition demo_asked :: daemon_permission_engine where
  "demo_asked = fst (evaluate_permission ok_sql hd 0 0 (demo_call ''Write'') demo_engine)"

definition demo_deny :: permission_response where
  "demo_deny = \<lparr> rp_request_id = ''r1'', rp_granted = False, rp_remember_session = True, rp_remember_permanent = False \<rparr>"

theorem remembered_answer_decides_witness:
  "snd (evaluate_permission ok_sql hd 9 9 (demo_call ''Write'')
     (fold apply_op [GrantOp ''s'' ''Bash'' None True] (fst (process_response ok_sql 0 demo_deny demo_asked))))
   = Denied True"
proof -
  let ?e = "fst (process_response ok_sql 0 demo_deny demo_asked)"
  let ?r = "\<lparr> pq_request_id = ''r1'', pq_session_id = ''s'', pq_tool_name = ''Write'', pq_description = [],
      pq_input_json = ''{}'', pq_target_client = Some ''c'', pq_created_at = 0, pq_expires_at = 6,
      pq_client_connected = True \<rparr>"
  have "snd (process_response ok_sql 0 demo_deny demo_asked) = Inr \<lparr> pd_request = ?r, pd_granted = False \<rparr>" by code_simp
  then have 1: "process_response ok_sql 0 demo_deny demo_asked = (?e, Inr \<lparr> pd_request = ?r, pd_granted = False \<rparr>)"
    by (metis prod.collapse)
  have 2: "rp_remember_session demo_deny" "\<not> rp_granted demo_deny" by (simp_all add: demo_deny_def)
  from remembered_answer_decides [OF 1 2(1), of "[GrantOp ''s'' ''Bash'' None True]" "demo_call ''Write''" ok_sql hd 9 9]
  show ?thesis using 2(2) by (simp add: demo_call_def regrants_def)
qed

section \<open>Lifetime of a request\<close>



lemma hm_wf_removes [simp]: "hm_wf m \<Longrightarrow> hm_wf (fold hm_remove ks m)"
  by (induction ks arbitrary: m) auto




















text \<open>An answer to a request that has expired is accepted as long as no cleanup has run.\<close>

theorem expired_answer_accepted:
  "map_option (is_expired 100) (get_pending ''r1'' (pe_pending demo_asked)) = Some True
   \<and> map_option pd_granted (case snd (process_response ok_sql 100 (demo_deny\<lparr>rp_granted := True\<rparr>) demo_asked) of
        Inr pr \<Rightarrow> Some pr | Inl _ \<Rightarrow> None) = Some True"
  by code_simp

text \<open>A reconnection starts the timeout anew.\<close>

theorem reconnection_resets_timeout:
  "map_option pq_expires_at (get_pending ''r1'' (pe_pending (engine_client_status (\<lambda>_. 5) ''c'' True
     (engine_client_status (\<lambda>_. 3) ''c'' False demo_asked)))) = Some 11"
  by code_simp

end
