(* ===== verification/RelayStore.thy ===== *)
theory RelayStore
  imports SubagentStore Json
begin

text \<open>
  The database of the relay server, \<^verbatim>\<open>crates/betcode-relay/src/storage/\<close> and its migrations: users,
  refresh tokens, machines, the buffer of requests for machines that are offline, certificates and
  device tokens, with one definition per query. Tables are lists of rows in the order of insertion; a
  statement fails when it violates a constraint of the schema. Where a query that returns one row
  may match several, the choice is SQLite's, the argument \<open>pick\<close>. The theory proves that every sequence
  of statements keeps the constraints.
\<close>

section \<open>Tables\<close>

record user_row =
  us_id :: string
  us_username :: string
  us_email :: string
  us_password_hash :: string
  us_created_at :: int
  us_updated_at :: int

record token_row =
  tk_id :: string
  tk_user_id :: string
  tk_token_hash :: string
  tk_expires_at :: int
  tk_revoked :: int
  tk_created_at :: int
  tk_rotated_at :: "int option"
  tk_successor_id :: "string option"

record machine_row =
  mc_id :: string
  mc_name :: string
  mc_owner_id :: string
  mc_status :: string
  mc_registered_at :: int
  mc_last_seen :: int
  mc_metadata :: string
  mc_identity_pubkey :: "byte list option"

record buffered_message =
  bm_id :: int
  bm_machine_id :: string
  bm_request_id :: string
  bm_method :: string
  bm_payload :: "byte list"
  bm_metadata :: string
  bm_priority :: int
  bm_expires_at :: int
  bm_created_at :: int

record certificate_row =
  ct_id :: string
  ct_machine_id :: "string option"
  ct_subject_cn :: string
  ct_serial_number :: string
  ct_not_before :: int
  ct_not_after :: int
  ct_pem_cert :: string
  ct_revoked :: int
  ct_created_at :: int

record device_token_row =
  dt_id :: string
  dt_user_id :: string
  dt_device_token :: string
  dt_platform :: string
  dt_created_at :: int

text \<open>\<open>last_buffer_id\<close> is the counter of the column with \<^verbatim>\<open>AUTOINCREMENT\<close>.\<close>

record relay_db =
  users :: "user_row list"
  tokens :: "token_row list"
  machines :: "machine_row list"
  message_buffer :: "buffered_message list"
  last_buffer_id :: int
  certificates :: "certificate_row list"
  device_tokens :: "device_token_row list"

definition empty_relay_db :: relay_db where
  "empty_relay_db = \<lparr> users = [], tokens = [], machines = [], message_buffer = [], last_buffer_id = 0,
     certificates = [], device_tokens = [] \<rparr>"

section \<open>Users\<close>

definition get_user :: "sqlite \<Rightarrow> string \<Rightarrow> relay_db \<Rightarrow> database_error + user_row" where
  "get_user q i db =
     (if \<not> fst q then Inl (Query (snd q))
      else case find (\<lambda>r. us_id r = i) (users db) of None \<Rightarrow> Inl (DbNotFound (''User '' @ i)) | Some r \<Rightarrow> Inr r)"

definition get_user_by_username :: "sqlite \<Rightarrow> string \<Rightarrow> relay_db \<Rightarrow> database_error + user_row" where
  "get_user_by_username q name db =
     (if \<not> fst q then Inl (Query (snd q))
      else case find (\<lambda>r. us_username r = name) (users db) of
        None \<Rightarrow> Inl (DbNotFound (''User with username '' @ name)) | Some r \<Rightarrow> Inr r)"

definition create_user ::
  "sqlite \<Rightarrow> sqlite \<Rightarrow> int \<Rightarrow> string \<Rightarrow> string \<Rightarrow> string \<Rightarrow> string \<Rightarrow> relay_db
    \<Rightarrow> relay_db \<times> (database_error + user_row)" where
  "create_user q q' now i name email hash db =
     (if \<not> fst q \<or> i \<in> set (map us_id (users db)) \<or> name \<in> set (map us_username (users db))
      then (db, Inl (Query (snd q)))
      else
        let db' = db\<lparr>users := users db @ [\<lparr> us_id = i, us_username = name, us_email = email,
              us_password_hash = hash, us_created_at = now, us_updated_at = now \<rparr>]\<rparr>
        in (db', get_user q' i db'))"

section \<open>Refresh tokens\<close>

definition get_token :: "sqlite \<Rightarrow> string \<Rightarrow> relay_db \<Rightarrow> database_error + token_row" where
  "get_token q i db =
     (if \<not> fst q then Inl (Query (snd q))
      else case find (\<lambda>r. tk_id r = i) (tokens db) of None \<Rightarrow> Inl (DbNotFound (''Token '' @ i)) | Some r \<Rightarrow> Inr r)"

definition create_token ::
  "sqlite \<Rightarrow> sqlite \<Rightarrow> int \<Rightarrow> string \<Rightarrow> string \<Rightarrow> string \<Rightarrow> int \<Rightarrow> relay_db
    \<Rightarrow> relay_db \<times> (database_error + token_row)" where
  "create_token q q' now i user_id hash expires_at db =
     (if \<not> fst q \<or> i \<in> set (map tk_id (tokens db)) \<or> user_id \<notin> set (map us_id (users db))
      then (db, Inl (Query (snd q)))
      else
        let db' = db\<lparr>tokens := tokens db @ [\<lparr> tk_id = i, tk_user_id = user_id, tk_token_hash = hash,
              tk_expires_at = expires_at, tk_revoked = 0, tk_created_at = now, tk_rotated_at = None,
              tk_successor_id = None \<rparr>]\<rparr>
        in (db', get_token q' i db'))"

definition token_valid :: "int \<Rightarrow> int \<Rightarrow> token_row \<Rightarrow> bool" where
  "token_valid now grace r \<longleftrightarrow> tk_expires_at r > now \<and> tk_revoked r = 0
     \<and> (case tk_rotated_at r of None \<Rightarrow> True | Some t \<Rightarrow> t > now - grace)"

definition get_token_by_hash ::
  "sqlite \<Rightarrow> (token_row list \<Rightarrow> token_row) \<Rightarrow> int \<Rightarrow> string \<Rightarrow> int \<Rightarrow> relay_db
    \<Rightarrow> database_error + token_row option" where
  "get_token_by_hash q pick now hash grace db =
     (if \<not> fst q then Inl (Query (snd q))
      else
        let rows = filter (\<lambda>r. tk_token_hash r = hash \<and> token_valid now grace r) (tokens db)
        in Inr (if rows = [] then None else Some (pick rows)))"

definition rotate_token ::
  "sqlite \<Rightarrow> int \<Rightarrow> string \<Rightarrow> string \<Rightarrow> relay_db \<Rightarrow> relay_db \<times> (database_error + bool)" where
  "rotate_token q now i successor_id db =
     (let hit = (\<lambda>r. tk_id r = i \<and> tk_revoked r = 0) in
      if \<not> fst q \<or> (list_ex hit (tokens db) \<and> successor_id \<notin> set (map tk_id (tokens db)))
      then (db, Inl (Query (snd q)))
      else (db\<lparr>tokens := update_rows hit (\<lambda>r. r\<lparr>tk_rotated_at := Some (unwrap_or now (tk_rotated_at r)),
                tk_successor_id := Some successor_id\<rparr>) (tokens db)\<rparr>,
            Inr (list_ex hit (tokens db))))"

definition revoke_token :: "sqlite \<Rightarrow> string \<Rightarrow> relay_db \<Rightarrow> relay_db \<times> (database_error + bool)" where
  "revoke_token q i db =
     (if \<not> fst q then (db, Inl (Query (snd q)))
      else (db\<lparr>tokens := update_rows (\<lambda>r. tk_id r = i) (\<lambda>r. r\<lparr>tk_revoked := 1\<rparr>) (tokens db)\<rparr>,
            Inr (list_ex (\<lambda>r. tk_id r = i) (tokens db))))"

definition revoke_user_tokens :: "sqlite \<Rightarrow> string \<Rightarrow> relay_db \<Rightarrow> relay_db \<times> (database_error + 64 word)" where
  "revoke_user_tokens q u db =
     (if \<not> fst q then (db, Inl (Query (snd q)))
      else (db\<lparr>tokens := update_rows (\<lambda>r. tk_user_id r = u) (\<lambda>r. r\<lparr>tk_revoked := 1\<rparr>) (tokens db)\<rparr>,
            Inr (of_nat (length (filter (\<lambda>r. tk_user_id r = u) (tokens db))))))"

section \<open>Machines\<close>

definition get_machine :: "sqlite \<Rightarrow> string \<Rightarrow> relay_db \<Rightarrow> database_error + machine_row" where
  "get_machine q i db =
     (if \<not> fst q then Inl (Query (snd q))
      else case find (\<lambda>r. mc_id r = i) (machines db) of
        None \<Rightarrow> Inl (DbNotFound (''Machine '' @ i)) | Some r \<Rightarrow> Inr r)"

definition create_machine ::
  "sqlite \<Rightarrow> sqlite \<Rightarrow> int \<Rightarrow> string \<Rightarrow> string \<Rightarrow> string \<Rightarrow> string \<Rightarrow> relay_db
    \<Rightarrow> relay_db \<times> (database_error + machine_row)" where
  "create_machine q q' now i name owner_id metadata db =
     (if \<not> fst q \<or> i \<in> set (map mc_id (machines db)) \<or> owner_id \<notin> set (map us_id (users db))
      then (db, Inl (Query (snd q)))
      else
        let db' = db\<lparr>machines := machines db @ [\<lparr> mc_id = i, mc_name = name, mc_owner_id = owner_id,
              mc_status = ''offline'', mc_registered_at = now, mc_last_seen = now, mc_metadata = metadata,
              mc_identity_pubkey = None \<rparr>]\<rparr>
        in (db', get_machine q' i db'))"

definition owned_machines :: "string \<Rightarrow> string option \<Rightarrow> relay_db \<Rightarrow> machine_row list" where
  "owned_machines owner_id status db =
     filter (\<lambda>r. mc_owner_id r = owner_id \<and> (case status of None \<Rightarrow> True | Some s \<Rightarrow> mc_status r = s)) (machines db)"

definition list_machines ::
  "sqlite \<Rightarrow> string \<Rightarrow> string option \<Rightarrow> 32 word \<Rightarrow> 32 word \<Rightarrow> relay_db \<Rightarrow> database_error + machine_row list" where
  "list_machines q owner_id status limit off db =
     (if \<not> fst q then Inl (Query (snd q))
      else Inr (take (unat limit) (drop (unat off) (sort_key (\<lambda>r. - mc_last_seen r) (owned_machines owner_id status db)))))"

definition count_machines :: "sqlite \<Rightarrow> string \<Rightarrow> string option \<Rightarrow> relay_db \<Rightarrow> database_error + int" where
  "count_machines q owner_id status db =
     (if \<not> fst q then Inl (Query (snd q)) else Inr (int (length (owned_machines owner_id status db))))"

definition update_machine_status ::
  "sqlite \<Rightarrow> int \<Rightarrow> string \<Rightarrow> string \<Rightarrow> relay_db \<Rightarrow> relay_db \<times> (database_error + unit)" where
  "update_machine_status q now i status db =
     (if \<not> fst q \<or> (list_ex (\<lambda>r. mc_id r = i) (machines db) \<and> status \<notin> {''online'', ''offline''})
      then (db, Inl (Query (snd q)))
      else (db\<lparr>machines := update_rows (\<lambda>r. mc_id r = i) (\<lambda>r. r\<lparr>mc_status := status, mc_last_seen := now\<rparr>)
                 (machines db)\<rparr>, Inr ()))"

definition touch_machine :: "sqlite \<Rightarrow> int \<Rightarrow> string \<Rightarrow> relay_db \<Rightarrow> relay_db \<times> (database_error + unit)" where
  "touch_machine q now i db =
     (if \<not> fst q then (db, Inl (Query (snd q)))
      else (db\<lparr>machines := update_rows (\<lambda>r. mc_id r = i) (\<lambda>r. r\<lparr>mc_last_seen := now\<rparr>) (machines db)\<rparr>, Inr ()))"

text \<open>The buffered requests and certificates of a machine go with it.\<close>

definition remove_machine :: "sqlite \<Rightarrow> string \<Rightarrow> relay_db \<Rightarrow> relay_db \<times> (database_error + bool)" where
  "remove_machine q i db =
     (if \<not> fst q then (db, Inl (Query (snd q)))
      else (db\<lparr>machines := filter (\<lambda>r. mc_id r \<noteq> i) (machines db),
              message_buffer := filter (\<lambda>r. bm_machine_id r \<noteq> i) (message_buffer db),
              certificates := filter (\<lambda>r. ct_machine_id r \<noteq> Some i) (certificates db)\<rparr>,
            Inr (list_ex (\<lambda>r. mc_id r = i) (machines db))))"

definition update_machine_identity_pubkey ::
  "sqlite \<Rightarrow> string \<Rightarrow> byte list \<Rightarrow> relay_db \<Rightarrow> relay_db \<times> (database_error + unit)" where
  "update_machine_identity_pubkey q i pubkey db =
     (if \<not> fst q then (db, Inl (Query (snd q)))
      else (db\<lparr>machines := update_rows (\<lambda>r. mc_id r = i) (\<lambda>r. r\<lparr>mc_identity_pubkey := Some pubkey\<rparr>)
                 (machines db)\<rparr>, Inr ()))"

definition get_machine_identity_pubkey ::
  "sqlite \<Rightarrow> string \<Rightarrow> relay_db \<Rightarrow> database_error + byte list option" where
  "get_machine_identity_pubkey q i db =
     (case get_machine q i db of Inl e \<Rightarrow> Inl e | Inr r \<Rightarrow> Inr (mc_identity_pubkey r))"

section \<open>Message buffer\<close>

record buffer_message_params =
  bp_machine_id :: string
  bp_request_id :: string
  bp_method :: string
  bp_payload :: "byte list"
  bp_metadata :: string
  bp_priority :: int
  bp_ttl_secs :: int

definition buffer_message ::
  "sqlite \<Rightarrow> int \<Rightarrow> buffer_message_params \<Rightarrow> relay_db \<Rightarrow> relay_db \<times> (database_error + int)" where
  "buffer_message q now p db =
     (if \<not> fst q \<or> bp_machine_id p \<notin> set (map mc_id (machines db)) then (db, Inl (Query (snd q)))
      else
        let i = last_buffer_id db + 1
        in (db\<lparr>message_buffer := message_buffer db @ [\<lparr> bm_id = i, bm_machine_id = bp_machine_id p,
                bm_request_id = bp_request_id p, bm_method = bp_method p, bm_payload = bp_payload p,
                bm_metadata = bp_metadata p, bm_priority = bp_priority p,
                bm_expires_at = now + bp_ttl_secs p, bm_created_at = now \<rparr>],
              last_buffer_id := i\<rparr>, Inr i))"

text \<open>\<^verbatim>\<open>ORDER BY priority DESC, created_at ASC\<close>; rows that agree in both come in the order of insertion.\<close>

definition live_messages :: "int \<Rightarrow> string \<Rightarrow> relay_db \<Rightarrow> buffered_message list" where
  "live_messages now machine_id db =
     sort_key (\<lambda>r. - bm_priority r) (sort_key bm_created_at
       (filter (\<lambda>r. bm_machine_id r = machine_id \<and> bm_expires_at r > now) (message_buffer db)))"

definition drain_buffer_query ::
  "sqlite \<Rightarrow> int \<Rightarrow> string \<Rightarrow> relay_db \<Rightarrow> database_error + buffered_message list" where
  "drain_buffer_query q now machine_id db =
     (if \<not> fst q then Inl (Query (snd q)) else Inr (live_messages now machine_id db))"

definition delete_buffered_message :: "sqlite \<Rightarrow> int \<Rightarrow> relay_db \<Rightarrow> relay_db \<times> (database_error + bool)" where
  "delete_buffered_message q i db =
     (if \<not> fst q then (db, Inl (Query (snd q)))
      else (db\<lparr>message_buffer := filter (\<lambda>r. bm_id r \<noteq> i) (message_buffer db)\<rparr>,
            Inr (list_ex (\<lambda>r. bm_id r = i) (message_buffer db))))"

definition cleanup_expired_buffer :: "sqlite \<Rightarrow> int \<Rightarrow> relay_db \<Rightarrow> relay_db \<times> (database_error + 64 word)" where
  "cleanup_expired_buffer q now db =
     (if \<not> fst q then (db, Inl (Query (snd q)))
      else (db\<lparr>message_buffer := filter (\<lambda>r. \<not> bm_expires_at r \<le> now) (message_buffer db)\<rparr>,
            Inr (of_nat (length (filter (\<lambda>r. bm_expires_at r \<le> now) (message_buffer db))))))"

definition count_buffered_messages :: "sqlite \<Rightarrow> string \<Rightarrow> relay_db \<Rightarrow> database_error + int" where
  "count_buffered_messages q machine_id db =
     (if \<not> fst q then Inl (Query (snd q))
      else Inr (int (length (filter (\<lambda>r. bm_machine_id r = machine_id) (message_buffer db)))))"

section \<open>Certificates\<close>

definition get_certificate :: "sqlite \<Rightarrow> string \<Rightarrow> relay_db \<Rightarrow> database_error + certificate_row" where
  "get_certificate q i db =
     (if \<not> fst q then Inl (Query (snd q))
      else case find (\<lambda>r. ct_id r = i) (certificates db) of
        None \<Rightarrow> Inl (DbNotFound (''Certificate '' @ i)) | Some r \<Rightarrow> Inr r)"

definition create_certificate ::
  "sqlite \<Rightarrow> sqlite \<Rightarrow> int \<Rightarrow> string \<Rightarrow> string option \<Rightarrow> string \<Rightarrow> string \<Rightarrow> int \<Rightarrow> int \<Rightarrow> string \<Rightarrow> relay_db
    \<Rightarrow> relay_db \<times> (database_error + certificate_row)" where
  "create_certificate q q' now i machine_id cn serial not_before not_after pem db =
     (if \<not> fst q \<or> i \<in> set (map ct_id (certificates db))
        \<or> (case machine_id of None \<Rightarrow> False | Some m \<Rightarrow> m \<notin> set (map mc_id (machines db)))
      then (db, Inl (Query (snd q)))
      else
        let db' = db\<lparr>certificates := certificates db @ [\<lparr> ct_id = i, ct_machine_id = machine_id,
              ct_subject_cn = cn, ct_serial_number = serial, ct_not_before = not_before,
              ct_not_after = not_after, ct_pem_cert = pem, ct_revoked = 0, ct_created_at = now \<rparr>]\<rparr>
        in (db', get_certificate q' i db'))"

definition get_machine_certificates ::
  "sqlite \<Rightarrow> string \<Rightarrow> relay_db \<Rightarrow> database_error + certificate_row list" where
  "get_machine_certificates q machine_id db =
     (if \<not> fst q then Inl (Query (snd q))
      else Inr (sort_key (\<lambda>r. - ct_created_at r)
        (filter (\<lambda>r. ct_machine_id r = Some machine_id \<and> ct_revoked r = 0) (certificates db))))"

definition revoke_certificate :: "sqlite \<Rightarrow> string \<Rightarrow> relay_db \<Rightarrow> relay_db \<times> (database_error + bool)" where
  "revoke_certificate q i db =
     (if \<not> fst q then (db, Inl (Query (snd q)))
      else (db\<lparr>certificates := update_rows (\<lambda>r. ct_id r = i) (\<lambda>r. r\<lparr>ct_revoked := 1\<rparr>) (certificates db)\<rparr>,
            Inr (list_ex (\<lambda>r. ct_id r = i) (certificates db))))"

definition certs_with_serial :: "string \<Rightarrow> relay_db \<Rightarrow> certificate_row list" where
  "certs_with_serial serial db = filter (\<lambda>r. ct_serial_number r = serial) (certificates db)"

definition get_certificate_by_serial ::
  "sqlite \<Rightarrow> (certificate_row list \<Rightarrow> certificate_row) \<Rightarrow> string \<Rightarrow> relay_db
    \<Rightarrow> database_error + certificate_row option" where
  "get_certificate_by_serial q pick serial db =
     (if \<not> fst q then Inl (Query (snd q))
      else let rows = certs_with_serial serial db in Inr (if rows = [] then None else Some (pick rows)))"

definition is_certificate_revoked ::
  "sqlite \<Rightarrow> (certificate_row list \<Rightarrow> certificate_row) \<Rightarrow> string \<Rightarrow> relay_db \<Rightarrow> database_error + bool" where
  "is_certificate_revoked q pick serial db =
     (if \<not> fst q then Inl (Query (snd q))
      else let rows = certs_with_serial serial db in Inr (rows \<noteq> [] \<and> ct_revoked (pick rows) \<noteq> 0))"

definition revoke_certificate_by_serial ::
  "sqlite \<Rightarrow> string \<Rightarrow> relay_db \<Rightarrow> relay_db \<times> (database_error + bool)" where
  "revoke_certificate_by_serial q serial db =
     (if \<not> fst q then (db, Inl (Query (snd q)))
      else (db\<lparr>certificates := update_rows (\<lambda>r. ct_serial_number r = serial) (\<lambda>r. r\<lparr>ct_revoked := 1\<rparr>)
                 (certificates db)\<rparr>,
            Inr (list_ex (\<lambda>r. ct_serial_number r = serial) (certificates db))))"

section \<open>Device tokens\<close>

text \<open>The conflict clause names the column of the token; a clash of the primary key is an error.\<close>

definition upsert_device_token ::
  "sqlite \<Rightarrow> int \<Rightarrow> string \<Rightarrow> string \<Rightarrow> string \<Rightarrow> string \<Rightarrow> relay_db
    \<Rightarrow> relay_db \<times> (database_error + unit)" where
  "upsert_device_token q now i user_id device_token platform db =
     (if \<not> fst q \<or> platform \<notin> {''android'', ''ios''} then (db, Inl (Query (snd q)))
      else if device_token \<in> set (map dt_device_token (device_tokens db)) then
        (if list_ex (\<lambda>r. dt_id r = i \<and> dt_device_token r \<noteq> device_token) (device_tokens db)
         then (db, Inl (Query (snd q)))
         else (db\<lparr>device_tokens := update_rows (\<lambda>r. dt_device_token r = device_token)
                  (\<lambda>r. r\<lparr>dt_user_id := user_id, dt_platform := platform, dt_created_at := now\<rparr>) (device_tokens db)\<rparr>,
               Inr ()))
      else if i \<in> set (map dt_id (device_tokens db)) then (db, Inl (Query (snd q)))
      else (db\<lparr>device_tokens := device_tokens db @ [\<lparr> dt_id = i, dt_user_id = user_id,
                dt_device_token = device_token, dt_platform = platform, dt_created_at = now \<rparr>]\<rparr>, Inr ()))"

definition delete_device_token :: "sqlite \<Rightarrow> string \<Rightarrow> relay_db \<Rightarrow> relay_db \<times> (database_error + bool)" where
  "delete_device_token q device_token db =
     (if \<not> fst q then (db, Inl (Query (snd q)))
      else (db\<lparr>device_tokens := filter (\<lambda>r. dt_device_token r \<noteq> device_token) (device_tokens db)\<rparr>,
            Inr (list_ex (\<lambda>r. dt_device_token r = device_token) (device_tokens db))))"

definition get_device_tokens_for_user ::
  "sqlite \<Rightarrow> string \<Rightarrow> relay_db \<Rightarrow> database_error + device_token_row list" where
  "get_device_tokens_for_user q user_id db =
     (if \<not> fst q then Inl (Query (snd q))
      else Inr (sort_key (\<lambda>r. - dt_created_at r) (filter (\<lambda>r. dt_user_id r = user_id) (device_tokens db))))"

definition get_device_token :: "sqlite \<Rightarrow> string \<Rightarrow> relay_db \<Rightarrow> database_error + device_token_row option" where
  "get_device_token q device_token db =
     (if \<not> fst q then Inl (Query (snd q))
      else Inr (find (\<lambda>r. dt_device_token r = device_token) (device_tokens db)))"

section \<open>Constraints of the schema\<close>

abbreviation user_ids :: "relay_db \<Rightarrow> string set" where
  "user_ids db \<equiv> set (map us_id (users db))"

abbreviation token_ids :: "relay_db \<Rightarrow> string set" where
  "token_ids db \<equiv> set (map tk_id (tokens db))"

abbreviation machine_ids :: "relay_db \<Rightarrow> string set" where
  "machine_ids db \<equiv> set (map mc_id (machines db))"

definition users_wf :: "relay_db \<Rightarrow> bool" where
  "users_wf db \<longleftrightarrow> distinct (map us_id (users db)) \<and> distinct (map us_username (users db))"

definition tokens_wf :: "relay_db \<Rightarrow> bool" where
  "tokens_wf db \<longleftrightarrow> distinct (map tk_id (tokens db))
     \<and> list_all (\<lambda>r. tk_user_id r \<in> user_ids db \<and> tk_revoked r \<in> {0, 1}
         \<and> (case tk_successor_id r of None \<Rightarrow> True | Some i \<Rightarrow> i \<in> token_ids db)) (tokens db)"

definition machines_wf :: "relay_db \<Rightarrow> bool" where
  "machines_wf db \<longleftrightarrow> distinct (map mc_id (machines db))
     \<and> list_all (\<lambda>r. mc_owner_id r \<in> user_ids db \<and> mc_status r \<in> {''online'', ''offline''}) (machines db)"

definition buffer_wf :: "relay_db \<Rightarrow> bool" where
  "buffer_wf db \<longleftrightarrow> distinct (map bm_id (message_buffer db))
     \<and> list_all (\<lambda>r. bm_id r \<le> last_buffer_id db \<and> bm_machine_id r \<in> machine_ids db) (message_buffer db)"

definition certificates_wf :: "relay_db \<Rightarrow> bool" where
  "certificates_wf db \<longleftrightarrow> distinct (map ct_id (certificates db))
     \<and> list_all (\<lambda>r. ct_revoked r \<in> {0, 1}
         \<and> (case ct_machine_id r of None \<Rightarrow> True | Some m \<Rightarrow> m \<in> machine_ids db)) (certificates db)"

definition device_tokens_wf :: "relay_db \<Rightarrow> bool" where
  "device_tokens_wf db \<longleftrightarrow> distinct (map dt_id (device_tokens db)) \<and> distinct (map dt_device_token (device_tokens db))
     \<and> list_all (\<lambda>r. dt_platform r \<in> {''android'', ''ios''}) (device_tokens db)"

definition relay_wf :: "relay_db \<Rightarrow> bool" where
  "relay_wf db \<longleftrightarrow> users_wf db \<and> tokens_wf db \<and> machines_wf db \<and> buffer_wf db \<and> certificates_wf db
     \<and> device_tokens_wf db"

lemmas relay_table_defs = users_wf_def tokens_wf_def machines_wf_def buffer_wf_def certificates_wf_def
  device_tokens_wf_def

inductive relay_db_step :: "relay_db \<Rightarrow> relay_db \<Rightarrow> bool" where
  rstep_create_user: "relay_db_step db (fst (create_user q q' now i name email hash db))"
| rstep_create_token: "relay_db_step db (fst (create_token q q' now i u hash expires db))"
| rstep_rotate_token: "relay_db_step db (fst (rotate_token q now i successor db))"
| rstep_revoke_token: "relay_db_step db (fst (revoke_token q i db))"
| rstep_revoke_user_tokens: "relay_db_step db (fst (revoke_user_tokens q u db))"
| rstep_create_machine: "relay_db_step db (fst (create_machine q q' now i name owner metadata db))"
| rstep_machine_status: "relay_db_step db (fst (update_machine_status q now i status db))"
| rstep_touch_machine: "relay_db_step db (fst (touch_machine q now i db))"
| rstep_remove_machine: "relay_db_step db (fst (remove_machine q i db))"
| rstep_machine_pubkey: "relay_db_step db (fst (update_machine_identity_pubkey q i pubkey db))"
| rstep_buffer: "relay_db_step db (fst (buffer_message q now p db))"
| rstep_delete_buffered: "relay_db_step db (fst (delete_buffered_message q b db))"
| rstep_cleanup: "relay_db_step db (fst (cleanup_expired_buffer q now db))"
| rstep_create_certificate:
    "relay_db_step db (fst (create_certificate q q' now i m cn serial not_before not_after pem db))"
| rstep_revoke_certificate: "relay_db_step db (fst (revoke_certificate q i db))"
| rstep_revoke_serial: "relay_db_step db (fst (revoke_certificate_by_serial q serial db))"
| rstep_device: "relay_db_step db (fst (upsert_device_token q now i u device platform db))"
| rstep_delete_device: "relay_db_step db (fst (delete_device_token q device db))"

lemma update_rows_keys [simp]:
  "map tk_id (update_rows p (\<lambda>r. r\<lparr>tk_revoked := v\<rparr>) ts) = map tk_id ts"
  "map tk_id (update_rows p (\<lambda>r. r\<lparr>tk_rotated_at := g r, tk_successor_id := h r\<rparr>) ts) = map tk_id ts"
  "map mc_id (update_rows p' (\<lambda>r. r\<lparr>mc_status := st, mc_last_seen := n\<rparr>) ms) = map mc_id ms"
  "map mc_id (update_rows p' (\<lambda>r. r\<lparr>mc_last_seen := n\<rparr>) ms) = map mc_id ms"
  "map mc_id (update_rows p' (\<lambda>r. r\<lparr>mc_identity_pubkey := k\<rparr>) ms) = map mc_id ms"
  "map ct_id (update_rows c (\<lambda>r. r\<lparr>ct_revoked := v\<rparr>) cs) = map ct_id cs"
  "map dt_id (update_rows d (\<lambda>r. r\<lparr>dt_user_id := u, dt_platform := pl, dt_created_at := n\<rparr>) ds) = map dt_id ds"
  "map dt_device_token (update_rows d (\<lambda>r. r\<lparr>dt_user_id := u, dt_platform := pl, dt_created_at := n\<rparr>) ds)
     = map dt_device_token ds"
  by (rule update_rows_map; simp)+

lemma create_user_wf: "relay_wf db \<Longrightarrow> relay_wf (fst (create_user q q' now i name email hash db))"
  by (auto simp: relay_wf_def relay_table_defs create_user_def Let_def list_all_iff cong: option.case_cong)

lemma create_token_wf: "relay_wf db \<Longrightarrow> relay_wf (fst (create_token q q' now i u hash expires db))"
  by (auto simp: relay_wf_def relay_table_defs create_token_def Let_def list_all_iff cong: option.case_cong split: option.splits)

lemma token_update_wf:
  assumes "relay_wf db" and "map tk_id (update_rows p f (tokens db)) = map tk_id (tokens db)"
    and "\<And>r. r \<in> set (tokens db) \<Longrightarrow> p r \<Longrightarrow> tk_user_id (f r) = tk_user_id r"
    and "\<And>r. r \<in> set (tokens db) \<Longrightarrow> p r \<Longrightarrow> tk_revoked (f r) \<in> {tk_revoked r, 1}"
    and "\<And>r. r \<in> set (tokens db) \<Longrightarrow> p r \<Longrightarrow> tk_successor_id (f r) = tk_successor_id r
           \<or> (\<exists>i \<in> token_ids db. tk_successor_id (f r) = Some i)"
  shows "relay_wf (db\<lparr>tokens := update_rows p f (tokens db)\<rparr>)"
proof -
  have "list_all (\<lambda>r. tk_user_id r \<in> user_ids db \<and> tk_revoked r \<in> {0, 1}
      \<and> (case tk_successor_id r of None \<Rightarrow> True | Some i \<Rightarrow> i \<in> token_ids db)) (update_rows p f (tokens db))"
  proof (rule update_rows_allI)
    show "list_all (\<lambda>r. tk_user_id r \<in> user_ids db \<and> tk_revoked r \<in> {0, 1}
      \<and> (case tk_successor_id r of None \<Rightarrow> True | Some i \<Rightarrow> i \<in> token_ids db)) (tokens db)"
      using assms(1) by (simp add: relay_wf_def tokens_wf_def)
  qed (use assms(3-5) in fastforce)
  with assms(1,2) show ?thesis
    unfolding relay_wf_def relay_table_defs by (simp cong: option.case_cong del: set_map)
qed

lemma rotate_token_wf: "relay_wf db \<Longrightarrow> relay_wf (fst (rotate_token q now i successor db))"
  by (auto simp: rotate_token_def Let_def list_ex_iff simp del: set_map intro!: token_update_wf)

lemma revoke_token_wf: "relay_wf db \<Longrightarrow> relay_wf (fst (revoke_token q i db))"
  by (auto simp: revoke_token_def intro!: token_update_wf)

lemma revoke_user_tokens_wf: "relay_wf db \<Longrightarrow> relay_wf (fst (revoke_user_tokens q u db))"
  by (auto simp: revoke_user_tokens_def intro!: token_update_wf)

lemma create_machine_wf: "relay_wf db \<Longrightarrow> relay_wf (fst (create_machine q q' now i name owner metadata db))"
  by (auto simp: relay_wf_def relay_table_defs create_machine_def Let_def list_all_iff cong: option.case_cong split: option.splits)

lemma machine_update_wf:
  assumes "relay_wf db" and "map mc_id (update_rows p f (machines db)) = map mc_id (machines db)"
    and "\<And>r. r \<in> set (machines db) \<Longrightarrow> p r \<Longrightarrow> mc_owner_id (f r) = mc_owner_id r"
    and "\<And>r. r \<in> set (machines db) \<Longrightarrow> p r \<Longrightarrow> mc_status (f r) \<in> {mc_status r, ''online'', ''offline''}"
  shows "relay_wf (db\<lparr>machines := update_rows p f (machines db)\<rparr>)"
proof -
  have "list_all (\<lambda>r. mc_owner_id r \<in> user_ids db \<and> mc_status r \<in> {''online'', ''offline''})
      (update_rows p f (machines db))"
  proof (rule update_rows_allI)
    show "list_all (\<lambda>r. mc_owner_id r \<in> user_ids db \<and> mc_status r \<in> {''online'', ''offline''}) (machines db)"
      using assms(1) by (simp add: relay_wf_def machines_wf_def)
  qed (use assms(3,4) in fastforce)
  with assms(1,2) show ?thesis
    unfolding relay_wf_def relay_table_defs by (simp cong: option.case_cong del: set_map)
qed

lemma machine_status_wf: "relay_wf db \<Longrightarrow> relay_wf (fst (update_machine_status q now i status db))"
  by (auto simp: update_machine_status_def list_ex_iff intro!: machine_update_wf)

lemma touch_machine_wf: "relay_wf db \<Longrightarrow> relay_wf (fst (touch_machine q now i db))"
  by (auto simp: touch_machine_def intro!: machine_update_wf)

lemma machine_pubkey_wf: "relay_wf db \<Longrightarrow> relay_wf (fst (update_machine_identity_pubkey q i pubkey db))"
  by (auto simp: update_machine_identity_pubkey_def intro!: machine_update_wf)

lemma remove_machine_wf: "relay_wf db \<Longrightarrow> relay_wf (fst (remove_machine q i db))"
  by (auto simp: relay_wf_def relay_table_defs remove_machine_def list_all_iff distinct_map_filter
      cong: option.case_cong split: option.splits)

lemma buffer_message_wf: "relay_wf db \<Longrightarrow> relay_wf (fst (buffer_message q now p db))"
  by (fastforce simp: relay_wf_def relay_table_defs buffer_message_def Let_def list_all_iff cong: option.case_cong)

lemma buffer_filter_wf: "relay_wf db \<Longrightarrow> relay_wf (db\<lparr>message_buffer := filter p (message_buffer db)\<rparr>)"
  by (auto simp: relay_wf_def relay_table_defs list_all_iff distinct_map_filter cong: option.case_cong)

lemma create_certificate_wf:
  "relay_wf db \<Longrightarrow> relay_wf (fst (create_certificate q q' now i m cn serial not_before not_after pem db))"
  by (auto simp: relay_wf_def relay_table_defs create_certificate_def Let_def list_all_iff cong: option.case_cong split: option.splits)

lemma certificate_revoke_wf:
  assumes "relay_wf db"
  shows "relay_wf (db\<lparr>certificates := update_rows p (\<lambda>r. r\<lparr>ct_revoked := 1\<rparr>) (certificates db)\<rparr>)"
proof -
  have "list_all (\<lambda>r. ct_revoked r \<in> {0, 1} \<and> (case ct_machine_id r of None \<Rightarrow> True | Some m \<Rightarrow> m \<in> machine_ids db))
      (update_rows p (\<lambda>r. r\<lparr>ct_revoked := 1\<rparr>) (certificates db))"
    using assms by (intro update_rows_all) (auto simp: relay_wf_def certificates_wf_def)
  with assms show ?thesis unfolding relay_wf_def relay_table_defs by (simp cong: option.case_cong del: set_map)
qed

lemma upsert_device_wf: "relay_wf db \<Longrightarrow> relay_wf (fst (upsert_device_token q now i u device platform db))"
  by (auto simp: relay_wf_def relay_table_defs upsert_device_token_def cong: option.case_cong intro!: update_rows_all)

lemma delete_device_wf: "relay_wf db \<Longrightarrow> relay_wf (fst (delete_device_token q device db))"
  by (auto simp: relay_wf_def relay_table_defs delete_device_token_def list_all_iff distinct_map_filter cong: option.case_cong)

lemma relay_db_step_wf: "relay_db_step db db' \<Longrightarrow> relay_wf db \<Longrightarrow> relay_wf db'"
proof (induction rule: relay_db_step.induct)
  case (rstep_delete_buffered db q b)
  then show ?case by (auto simp: delete_buffered_message_def intro: buffer_filter_wf)
next
  case (rstep_cleanup db q now)
  then show ?case unfolding cleanup_expired_buffer_def by (auto intro: buffer_filter_wf)
next
  case (rstep_revoke_certificate db q i)
  then show ?case by (auto simp: revoke_certificate_def intro: certificate_revoke_wf)
next
  case (rstep_revoke_serial db q serial)
  then show ?case by (auto simp: revoke_certificate_by_serial_def intro: certificate_revoke_wf)
qed (simp_all add: create_user_wf create_token_wf rotate_token_wf revoke_token_wf revoke_user_tokens_wf
       create_machine_wf machine_status_wf touch_machine_wf remove_machine_wf machine_pubkey_wf
       buffer_message_wf create_certificate_wf upsert_device_wf delete_device_wf)

lemma empty_relay_db_wf: "relay_wf empty_relay_db"
  by (simp add: relay_wf_def relay_table_defs empty_relay_db_def)

interpretation relay_db_run: step_system "\<lambda>db. db = empty_relay_db" relay_db_step relay_wf
  by unfold_locales (auto simp: empty_relay_db_wf intro: relay_db_step_wf)

text \<open>
  After any sequence of statements on the relay's database, whatever each of them returns, the
  identifiers of every table are distinct, user names and device tokens are unique, every
  reference to a user, a machine or a token is to a row that exists, the columns with a check hold
  one of the values it lists, and no identifier in the buffer exceeds the counter of the table.
\<close>

theorem relay_schema_integrity: "reach (\<lambda>db. db = empty_relay_db) relay_db_step db \<Longrightarrow> relay_wf db"
  by (rule relay_db_run.reach_inv)

theorem relay_schema_integrity_witness:
  "relay_wf (fst (create_machine (True, []) (True, []) 1 ''m'' ''laptop'' ''u'' ''{}''
     (fst (create_user (True, []) (True, []) 0 ''u'' ''user'' ''e'' ''h'' empty_relay_db))))"
  by (rule relay_schema_integrity)
     (rule reach_step [where step = relay_db_step], rule reach_step [where step = relay_db_step], rule reach_init, rule refl,
      rule rstep_create_user, rule rstep_create_machine)

end
