(* ===== verification/Frames.thy ===== *)
theory Frames
  imports CoreDb
begin

text \<open>
  The frames that travel through a tunnel between the relay and a daemon, as the relay
  (\<^verbatim>\<open>crates/betcode-relay/src/\<close>) and the daemon (\<^verbatim>\<open>crates/betcode-daemon/src/tunnel/\<close>) build and read
  them. The protocol types are generated from files that are not part of the sources, so they are
  given by the fields the code uses; an enumeration is the datatype of the enumerators the code
  names and of the other numbers. Timestamps of frames are written and never read; they are left out.
\<close>

datatype frame_type = FtRequest | FtResponse | FtStreamData | FtStreamEnd | FtError | FtControl | FtOther int

record encrypted_payload =
  ep_ciphertext :: "byte list"
  ep_nonce :: "byte list"
  ep_ephemeral_pubkey :: "byte list"

record stream_payload =
  sp_method :: string
  sp_encrypted :: "encrypted_payload option"
  sp_sequence :: "64 word"
  sp_metadata :: "(string, string) hmap"

record tunnel_error =
  te_code :: int
  te_message :: string
  te_details :: "(string, string) hmap"

record tunnel_control =
  tl_control_type :: int
  tl_params :: "(string, string) hmap"

datatype frame_payload = PStreamData stream_payload | PError tunnel_error | PControl tunnel_control

record tunnel_frame =
  tf_request_id :: string
  tf_frame_type :: frame_type
  tf_payload :: "frame_payload option"

definition build_request_frame :: "string \<Rightarrow> string \<Rightarrow> byte list \<Rightarrow> (string, string) hmap \<Rightarrow> tunnel_frame" where
  "build_request_frame request_id mth data metadata =
     \<lparr> tf_request_id = request_id, tf_frame_type = FtRequest,
       tf_payload = Some (PStreamData \<lparr> sp_method = mth,
         sp_encrypted = Some \<lparr> ep_ciphertext = data, ep_nonce = [], ep_ephemeral_pubkey = [] \<rparr>,
         sp_sequence = 0, sp_metadata = metadata \<rparr>) \<rparr>"

definition error_frame :: "string \<Rightarrow> int \<Rightarrow> string \<Rightarrow> tunnel_frame" where
  "error_frame request_id code message =
     \<lparr> tf_request_id = request_id, tf_frame_type = FtError,
       tf_payload = Some (PError \<lparr> te_code = code, te_message = message, te_details = [] \<rparr>) \<rparr>"

text \<open>The bytes of an optional payload, empty when there is none.\<close>

definition payload_data :: "stream_payload \<Rightarrow> byte list" where
  "payload_data p = (case sp_encrypted p of None \<Rightarrow> [] | Some e \<Rightarrow> ep_ciphertext e)"

end
