(* ===== verification/RelayRegistry.thy ===== *)
theory RelayRegistry
  imports RelayStore Frames
begin

text \<open>
  Connections of daemons at the relay, \<^verbatim>\<open>crates/betcode-relay/src/registry/connection.rs\<close>, and the
  state of the relay process. A connection is shared by the registry, its tunnel task and the calls
  that use it, so it is a cell behind an address. A call that waits for a response and a stream
  that waits for frames are cells as well: their address stands for the channel between the
  connection and the caller. A bounded channel keeps all frames it accepted and the number of
  those its receiver has taken; sending to a full one waits, which is the result \<open>None\<close>.
\<close>

section \<open>State of the relay\<close>

datatype router_error =
    MachineOffline string
  | Buffered string
  | SendFailed string
  | Timeout string
  | ResponseDropped string

text \<open>A one-shot channel: empty, with the response, or with one side gone.\<close>

datatype oneshot = SlotEmpty | SlotFrame tunnel_frame | SlotSenderGone | SlotReceiverGone

text \<open>Where a unary call is: the caller's rights are checked, the frame waits for a place in the
  channel, the response is awaited, the call has returned, the caller has gone away.\<close>

datatype unary_phase =
    UChecked
  | USending tunnel_frame
  | UWaiting
  | UReturned "router_error + tunnel_frame"
  | UAbandoned

record unary_call =
  uc_user :: string
  uc_machine_id :: string
  uc_request_id :: string
  uc_method :: string
  uc_data :: "byte list"
  uc_conn :: nat
  uc_phase :: unary_phase
  uc_slot :: oneshot

datatype stream_phase =
    SChecked
  | SSending tunnel_frame
  | SOpen
  | SFailed router_error

record stream_call =
  sc_user :: string
  sc_machine_id :: string
  sc_request_id :: string
  sc_method :: string
  sc_data :: "byte list"
  sc_conn :: nat
  sc_phase :: stream_phase
  sc_frames :: "tunnel_frame list"
  sc_taken :: nat
  sc_receiver :: bool
  sc_sender :: bool

text \<open>\<open>tc_queue\<close> and \<open>tc_taken\<close> are the channel \<open>frame_tx\<close>, \<open>tc_receiver\<close> says whether its receiver
  exists. \<open>tc_received\<close> is the history of the frames the daemon has sent on this connection.\<close>

record tunnel_connection =
  tc_machine_id :: string
  tc_owner_id :: string
  tc_queue :: "tunnel_frame list"
  tc_taken :: nat
  tc_receiver :: bool
  tc_pending :: "(string, nat) hmap"
  tc_stream_pending :: "(string, nat) hmap"
  tc_cancelled_streams :: "string set"
  tc_received :: "tunnel_frame list"

text \<open>The phases of the task that serves a tunnel.\<close>

datatype tunnel_phase =
    TpRegistered
  | TpOnline
  | TpDraining nat "buffered_message list"
  | TpServing
  | TpCancelled
  | TpUnregistered
  | TpEnded

record relay_state =
  rl_db :: relay_db
  rl_connections :: "(string, nat) hmap"
  rl_conn :: "nat \<Rightarrow> tunnel_connection"
  rl_task :: "nat \<Rightarrow> tunnel_phase"
  rl_call :: "nat \<Rightarrow> unary_call"
  rl_stream :: "nat \<Rightarrow> stream_call"
  rl_next :: nat

definition CHANNEL_SIZE :: nat where
  "CHANNEL_SIZE = 128"

definition new_connection :: "string \<Rightarrow> string \<Rightarrow> tunnel_connection" where
  "new_connection machine_id owner_id = \<lparr> tc_machine_id = machine_id, tc_owner_id = owner_id, tc_queue = [],
     tc_taken = 0, tc_receiver = True, tc_pending = [], tc_stream_pending = [], tc_cancelled_streams = {},
     tc_received = [] \<rparr>"

definition upd_conn :: "nat \<Rightarrow> (tunnel_connection \<Rightarrow> tunnel_connection) \<Rightarrow> relay_state \<Rightarrow> relay_state" where
  "upd_conn c f s = s\<lparr>rl_conn := (rl_conn s)(c := f (rl_conn s c))\<rparr>"

definition upd_call :: "nat \<Rightarrow> (unary_call \<Rightarrow> unary_call) \<Rightarrow> relay_state \<Rightarrow> relay_state" where
  "upd_call w f s = s\<lparr>rl_call := (rl_call s)(w := f (rl_call s w))\<rparr>"

definition upd_stream :: "nat \<Rightarrow> (stream_call \<Rightarrow> stream_call) \<Rightarrow> relay_state \<Rightarrow> relay_state" where
  "upd_stream w f s = s\<lparr>rl_stream := (rl_stream s)(w := f (rl_stream s w))\<rparr>"

section \<open>Connection\<close>

definition send_frame :: "nat \<Rightarrow> tunnel_frame \<Rightarrow> relay_state \<Rightarrow> (relay_state \<times> bool) option" where
  "send_frame c frame s =
     (let k = rl_conn s c in
      if \<not> tc_receiver k then Some (s, False)
      else if length (tc_queue k) - tc_taken k < CHANNEL_SIZE
      then Some (upd_conn c (\<lambda>k. k\<lparr>tc_queue := tc_queue k @ [frame]\<rparr>) s, True)
      else None)"

text \<open>The receiver of a one-shot channel whose sender is dropped learns about it, unless it has the
  response already.\<close>

definition drop_sender :: "nat option \<Rightarrow> relay_state \<Rightarrow> relay_state" where
  "drop_sender w s = (case w of None \<Rightarrow> s
     | Some w \<Rightarrow> if uc_slot (rl_call s w) = SlotEmpty then upd_call w (\<lambda>k. k\<lparr>uc_slot := SlotSenderGone\<rparr>) s else s)"

definition register_pending :: "nat \<Rightarrow> string \<Rightarrow> nat \<Rightarrow> relay_state \<Rightarrow> relay_state" where
  "register_pending c request_id w s =
     upd_conn c (\<lambda>k. k\<lparr>tc_pending := hm_insert request_id w (tc_pending k)\<rparr>)
       (drop_sender (hm_get (tc_pending (rl_conn s c)) request_id) s)"

definition remove_pending :: "nat \<Rightarrow> string \<Rightarrow> relay_state \<Rightarrow> relay_state" where
  "remove_pending c request_id s =
     upd_conn c (\<lambda>k. k\<lparr>tc_pending := hm_remove request_id (tc_pending k)\<rparr>)
       (drop_sender (hm_get (tc_pending (rl_conn s c)) request_id) s)"

definition complete_pending :: "nat \<Rightarrow> string \<Rightarrow> tunnel_frame \<Rightarrow> relay_state \<Rightarrow> relay_state \<times> bool" where
  "complete_pending c request_id frame s =
     (case hm_get (tc_pending (rl_conn s c)) request_id of
        None \<Rightarrow> (s, False)
      | Some w \<Rightarrow>
          let s1 = upd_conn c (\<lambda>k. k\<lparr>tc_pending := hm_remove request_id (tc_pending k)\<rparr>) s
          in if uc_slot (rl_call s1 w) = SlotEmpty
             then (upd_call w (\<lambda>k. k\<lparr>uc_slot := SlotFrame frame\<rparr>) s1, True) else (s1, False))"

definition drop_stream_sender :: "nat option \<Rightarrow> relay_state \<Rightarrow> relay_state" where
  "drop_stream_sender w s = (case w of None \<Rightarrow> s | Some w \<Rightarrow> upd_stream w (\<lambda>k. k\<lparr>sc_sender := False\<rparr>) s)"

definition register_stream_pending :: "nat \<Rightarrow> string \<Rightarrow> nat \<Rightarrow> relay_state \<Rightarrow> relay_state" where
  "register_stream_pending c request_id w s =
     upd_conn c (\<lambda>k. k\<lparr>tc_stream_pending := hm_insert request_id w (tc_stream_pending k)\<rparr>)
       (drop_stream_sender (hm_get (tc_stream_pending (rl_conn s c)) request_id) s)"

definition complete_stream :: "nat \<Rightarrow> string \<Rightarrow> relay_state \<Rightarrow> relay_state \<times> bool" where
  "complete_stream c request_id s =
     (upd_conn c (\<lambda>k. k\<lparr>tc_stream_pending := hm_remove request_id (tc_stream_pending k)\<rparr>)
        (drop_stream_sender (hm_get (tc_stream_pending (rl_conn s c)) request_id) s),
      hm_get (tc_stream_pending (rl_conn s c)) request_id \<noteq> None)"

definition send_stream_frame :: "nat \<Rightarrow> string \<Rightarrow> tunnel_frame \<Rightarrow> relay_state \<Rightarrow> (relay_state \<times> bool) option" where
  "send_stream_frame c request_id frame s =
     (case hm_get (tc_stream_pending (rl_conn s c)) request_id of
        None \<Rightarrow> Some (s, False)
      | Some w \<Rightarrow>
          let k = rl_stream s w in
          if \<not> sc_receiver k
          then Some (upd_conn c (\<lambda>k. k\<lparr>tc_cancelled_streams := insert request_id (tc_cancelled_streams k)\<rparr>)
                       (fst (complete_stream c request_id s)), False)
          else if length (sc_frames k) - sc_taken k < CHANNEL_SIZE
          then Some (upd_stream w (\<lambda>k. k\<lparr>sc_frames := sc_frames k @ [frame]\<rparr>) s, True)
          else None)"

definition has_stream_pending :: "nat \<Rightarrow> string \<Rightarrow> relay_state \<Rightarrow> bool" where
  "has_stream_pending c request_id s \<longleftrightarrow> hm_get (tc_stream_pending (rl_conn s c)) request_id \<noteq> None"

definition is_cancelled_stream :: "nat \<Rightarrow> string \<Rightarrow> relay_state \<Rightarrow> bool" where
  "is_cancelled_stream c request_id s \<longleftrightarrow> request_id \<in> tc_cancelled_streams (rl_conn s c)"

definition clear_cancelled_stream :: "nat \<Rightarrow> string \<Rightarrow> relay_state \<Rightarrow> relay_state" where
  "clear_cancelled_stream c request_id s =
     upd_conn c (\<lambda>k. k\<lparr>tc_cancelled_streams := tc_cancelled_streams k - {request_id}\<rparr>) s"

definition cancel_all_pending :: "nat \<Rightarrow> relay_state \<Rightarrow> relay_state" where
  "cancel_all_pending c s =
     upd_conn c (\<lambda>k. k\<lparr>tc_pending := [], tc_stream_pending := [], tc_cancelled_streams := {}\<rparr>)
       (foldr (\<lambda>(_, w). drop_stream_sender (Some w)) (tc_stream_pending (rl_conn s c))
         (foldr (\<lambda>(_, w). drop_sender (Some w)) (tc_pending (rl_conn s c)) s))"

definition conn_pending_count :: "nat \<Rightarrow> relay_state \<Rightarrow> nat" where
  "conn_pending_count c s = length (tc_pending (rl_conn s c))"

definition stream_pending_count :: "nat \<Rightarrow> relay_state \<Rightarrow> nat" where
  "stream_pending_count c s = length (tc_stream_pending (rl_conn s c))"

section \<open>Registry\<close>

definition register_connection :: "string \<Rightarrow> string \<Rightarrow> relay_state \<Rightarrow> relay_state \<times> nat" where
  "register_connection machine_id owner_id s =
     (let c = rl_next s
      in (s\<lparr>rl_conn := (rl_conn s)(c := new_connection machine_id owner_id),
            rl_connections := hm_insert machine_id c (rl_connections s), rl_next := Suc c\<rparr>, c))"

definition unregister_connection :: "string \<Rightarrow> relay_state \<Rightarrow> relay_state \<times> nat option" where
  "unregister_connection machine_id s =
     (s\<lparr>rl_connections := hm_remove machine_id (rl_connections s)\<rparr>, hm_get (rl_connections s) machine_id)"

definition get_connection :: "string \<Rightarrow> relay_state \<Rightarrow> nat option" where
  "get_connection machine_id s = hm_get (rl_connections s) machine_id"

definition is_connected :: "string \<Rightarrow> relay_state \<Rightarrow> bool" where
  "is_connected machine_id s \<longleftrightarrow> get_connection machine_id s \<noteq> None"

definition connected_machines :: "relay_state \<Rightarrow> string list" where
  "connected_machines s = map fst (rl_connections s)"

definition connection_count :: "relay_state \<Rightarrow> nat" where
  "connection_count s = length (rl_connections s)"

section \<open>What the operations leave alone\<close>

named_theorems relay_cells \<open>cells after an update\<close>

lemma upd_conn_cells [relay_cells, simp]:
  "rl_conn (upd_conn c f s) = (rl_conn s)(c := f (rl_conn s c))" "rl_db (upd_conn c f s) = rl_db s"
  "rl_connections (upd_conn c f s) = rl_connections s" "rl_task (upd_conn c f s) = rl_task s"
  "rl_call (upd_conn c f s) = rl_call s" "rl_stream (upd_conn c f s) = rl_stream s"
  "rl_next (upd_conn c f s) = rl_next s"
  by (simp_all add: upd_conn_def)

lemma upd_call_cells [relay_cells, simp]:
  "rl_call (upd_call w f s) = (rl_call s)(w := f (rl_call s w))" "rl_db (upd_call w f s) = rl_db s"
  "rl_connections (upd_call w f s) = rl_connections s" "rl_task (upd_call w f s) = rl_task s"
  "rl_conn (upd_call w f s) = rl_conn s" "rl_stream (upd_call w f s) = rl_stream s"
  "rl_next (upd_call w f s) = rl_next s"
  by (simp_all add: upd_call_def)

lemma upd_stream_cells [relay_cells, simp]:
  "rl_stream (upd_stream w f s) = (rl_stream s)(w := f (rl_stream s w))" "rl_db (upd_stream w f s) = rl_db s"
  "rl_connections (upd_stream w f s) = rl_connections s" "rl_task (upd_stream w f s) = rl_task s"
  "rl_conn (upd_stream w f s) = rl_conn s" "rl_call (upd_stream w f s) = rl_call s"
  "rl_next (upd_stream w f s) = rl_next s"
  by (simp_all add: upd_stream_def)

end
