(* ===== verification/RelayRouter.thy ===== *)
theory RelayRouter
  imports RelayRegistry Grpc
begin

text \<open>
  The router of the relay: the buffer of requests for machines that are offline
  (\<^verbatim>\<open>crates/betcode-relay/src/buffer/manager.rs\<close>), the forwarding of calls (\<^verbatim>\<open>router/forwarder.rs\<close>), and
  the service that daemons open tunnels with (\<^verbatim>\<open>server/tunnel_svc.rs\<close>). A call and a tunnel task
  are sequences of steps, between which other calls and tasks may run; \<open>relay_step\<close> interleaves them.
  Encoding of metadata as JSON, the peer's certificate, the clock and the outcomes of statements are
  arguments.
\<close>

section \<open>Buffer manager\<close>

datatype buffer_error =
    BufStorage string
  | BufMachineOffline string
  | CapExceeded string nat

record buffer_config =
  bc_default_ttl_secs :: int
  bc_max_per_machine :: nat

definition buffer_request ::
  "buffer_config \<Rightarrow> sqlite \<Rightarrow> sqlite \<Rightarrow> int \<Rightarrow> string \<Rightarrow> string \<Rightarrow> string \<Rightarrow> byte list \<Rightarrow> string \<Rightarrow> relay_db
    \<Rightarrow> relay_db \<times> (buffer_error + int)" where
  "buffer_request bc q q' now machine_id request_id mth data metadata_json db =
     attempt (\<lambda>e. BufStorage (show_database_error e)) (db, count_buffered_messages q machine_id db) (\<lambda>current db.
       if int (bc_max_per_machine bc) \<le> current then (db, Inl (CapExceeded machine_id (bc_max_per_machine bc)))
       else attempt (\<lambda>e. BufStorage (show_database_error e))
         (buffer_message q' now \<lparr> bp_machine_id = machine_id, bp_request_id = request_id, bp_method = mth,
            bp_payload = data, bp_metadata = metadata_json, bp_priority = 0,
            bp_ttl_secs = bc_default_ttl_secs bc \<rparr> db) (\<lambda>i db. (db, Inr i)))"

text \<open>The frame of a buffered message. Metadata that is not a JSON object of strings is dropped.\<close>

definition buffered_frame :: "(string \<Rightarrow> (string, string) hmap option) \<Rightarrow> buffered_message \<Rightarrow> tunnel_frame" where
  "buffered_frame parse msg =
     build_request_frame (bm_request_id msg) (bm_method msg) (bm_payload msg) (unwrap_or [] (parse (bm_metadata msg)))"

text \<open>
  One round of the loop of \<^verbatim>\<open>drain_buffer\<close>: the frame is sent, then the row is deleted; a failing
  deletion is only logged. The result says whether the frame was sent; \<open>None\<close>: the channel is full.
\<close>

definition drain_message ::
  "(string \<Rightarrow> (string, string) hmap option) \<Rightarrow> sqlite \<Rightarrow> nat \<Rightarrow> buffered_message \<Rightarrow> relay_state
    \<Rightarrow> (relay_state \<times> bool) option" where
  "drain_message parse q c msg s =
     (case send_frame c (buffered_frame parse msg) s of
        None \<Rightarrow> None
      | Some (s, False) \<Rightarrow> Some (s, False)
      | Some (s, True) \<Rightarrow> Some (s\<lparr>rl_db := fst (delete_buffered_message q (bm_id msg) (rl_db s))\<rparr>, True))"

text \<open>The loop when nothing else runs: the messages that were sent, or the point where it waits.\<close>

datatype drain_result = Drained relay_state nat | DrainWaits relay_state "buffered_message list"

fun drain_messages ::
  "(string \<Rightarrow> (string, string) hmap option) \<Rightarrow> (nat \<Rightarrow> sqlite) \<Rightarrow> nat \<Rightarrow> buffered_message list \<Rightarrow> nat
    \<Rightarrow> relay_state \<Rightarrow> drain_result" where
  "drain_messages parse q c [] sent s = Drained s sent"
| "drain_messages parse q c (msg # msgs) sent s =
     (case drain_message parse (q sent) c msg s of
        None \<Rightarrow> DrainWaits s (msg # msgs)
      | Some (s, ok) \<Rightarrow> if ok then drain_messages parse q c msgs (Suc sent) s else Drained s sent)"

text \<open>What \<^verbatim>\<open>drain_buffer\<close> does before its loop: the messages, and the connection to send them on.\<close>

definition drain_begin ::
  "sqlite \<Rightarrow> int \<Rightarrow> string \<Rightarrow> relay_state \<Rightarrow> buffer_error + (nat \<times> buffered_message list) option" where
  "drain_begin q now machine_id s =
     (case drain_buffer_query q now machine_id (rl_db s) of
        Inl e \<Rightarrow> Inl (BufStorage (show_database_error e))
      | Inr msgs \<Rightarrow>
          if msgs = [] then Inr None
          else case get_connection machine_id s of
            None \<Rightarrow> Inl (BufMachineOffline machine_id)
          | Some c \<Rightarrow> Inr (Some (c, msgs)))"

definition drain_buffer ::
  "(string \<Rightarrow> (string, string) hmap option) \<Rightarrow> sqlite \<Rightarrow> (nat \<Rightarrow> sqlite) \<Rightarrow> int \<Rightarrow> string \<Rightarrow> relay_state
    \<Rightarrow> buffer_error + drain_result" where
  "drain_buffer parse q q' now machine_id s =
     (case drain_begin q now machine_id s of
        Inl e \<Rightarrow> Inl e
      | Inr None \<Rightarrow> Inr (Drained s 0)
      | Inr (Some (c, msgs)) \<Rightarrow> Inr (drain_messages parse q' c msgs 0 s))"

definition buffer_cleanup_expired :: "sqlite \<Rightarrow> int \<Rightarrow> relay_db \<Rightarrow> relay_db \<times> (buffer_error + 64 word)" where
  "buffer_cleanup_expired q now db =
     attempt (\<lambda>e. BufStorage (show_database_error e)) (cleanup_expired_buffer q now db) (\<lambda>n db. (db, Inr n))"

definition buffered_count :: "sqlite \<Rightarrow> string \<Rightarrow> relay_db \<Rightarrow> buffer_error + int" where
  "buffered_count q machine_id db =
     (case count_buffered_messages q machine_id db of Inl e \<Rightarrow> Inl (BufStorage (show_database_error e)) | Inr n \<Rightarrow> Inr n)"

section \<open>Ownership\<close>

definition verify_machine_ownership :: "sqlite \<Rightarrow> string \<Rightarrow> string \<Rightarrow> relay_db \<Rightarrow> status + unit" where
  "verify_machine_ownership q machine_id user_id db =
     (case get_machine q machine_id db of
        Inl (DbNotFound _) \<Rightarrow> Inl (NotFound ''Machine not found'')
      | Inl _ \<Rightarrow> Inl (Internal ''Internal error'')
      | Inr m \<Rightarrow> if mc_owner_id m \<noteq> user_id then Inl (PermissionDenied ''Not your machine'') else Inr ())"

section \<open>Forwarding of unary calls\<close>

text \<open>A call with its identifier, after the rights of the caller were checked.\<close>

definition new_unary_call ::
  "string \<Rightarrow> string \<Rightarrow> string \<Rightarrow> string \<Rightarrow> byte list \<Rightarrow> relay_state \<Rightarrow> relay_state \<times> ('e + nat)" where
  "new_unary_call user_id machine_id request_id mth data s =
     (s\<lparr>rl_call := (rl_call s)(rl_next s := \<lparr> uc_user = user_id, uc_machine_id = machine_id,
          uc_request_id = request_id, uc_method = mth, uc_data = data, uc_conn = 0, uc_phase = UChecked,
          uc_slot = SlotEmpty \<rparr>), rl_next := Suc (rl_next s)\<rparr>, Inr (rl_next s))"

definition unary_check ::
  "sqlite \<Rightarrow> string \<Rightarrow> string \<Rightarrow> string \<Rightarrow> string \<Rightarrow> byte list \<Rightarrow> relay_state \<Rightarrow> relay_state \<times> (status + nat)" where
  "unary_check q user_id machine_id request_id mth data s =
     attempt id (s, verify_machine_ownership q machine_id user_id (rl_db s))
       (\<lambda>_. new_unary_call user_id machine_id request_id mth data)"

text \<open>
  \<^verbatim>\<open>forward_request\<close> up to sending. Without a connection the request is buffered; otherwise the
  waiter is registered before the frame is sent.
\<close>

definition forward_begin ::
  "buffer_config \<Rightarrow> sqlite \<Rightarrow> sqlite \<Rightarrow> int \<Rightarrow> string option \<Rightarrow> nat \<Rightarrow> relay_state \<Rightarrow> relay_state" where
  "forward_begin bc q q' now json w s =
     (let k = rl_call s w in
      case get_connection (uc_machine_id k) s of
        None \<Rightarrow>
          (case buffer_request bc q q' now (uc_machine_id k) (uc_request_id k) (uc_method k) (uc_data k)
                  (unwrap_or ''{}'' json) (rl_db s) of
             (db, Inr _) \<Rightarrow> upd_call w (\<lambda>k. k\<lparr>uc_phase := UReturned (Inl (Buffered (uc_machine_id k)))\<rparr>) (s\<lparr>rl_db := db\<rparr>)
           | (db, Inl _) \<Rightarrow> upd_call w (\<lambda>k. k\<lparr>uc_phase := UReturned (Inl (MachineOffline (uc_machine_id k)))\<rparr>) (s\<lparr>rl_db := db\<rparr>))
      | Some c \<Rightarrow>
          register_pending c (uc_request_id k) w
            (upd_call w (\<lambda>k. k\<lparr>uc_conn := c,
               uc_phase := USending (build_request_frame (uc_request_id k) (uc_method k) (uc_data k) [])\<rparr>) s))"

text \<open>Sending. On failure the call returns at once; dropping its receiver leaves the entry in
  \<open>tc_pending\<close>.\<close>

definition forward_send :: "nat \<Rightarrow> tunnel_frame \<Rightarrow> relay_state \<Rightarrow> relay_state option" where
  "forward_send w frame s =
     (let k = rl_call s w in
      case send_frame (uc_conn k) frame s of
        None \<Rightarrow> None
      | Some (s, True) \<Rightarrow> Some (upd_call w (\<lambda>k. k\<lparr>uc_phase := UWaiting\<rparr>) s)
      | Some (s, False) \<Rightarrow> Some (upd_call w (\<lambda>k. k\<lparr>uc_phase := UReturned (Inl (SendFailed (uc_machine_id k))),
            uc_slot := (if uc_slot k = SlotEmpty then SlotReceiverGone else uc_slot k)\<rparr>) s))"

text \<open>The end of the wait: with the response, because the sender is gone, or by the timeout.\<close>

definition forward_finish :: "nat \<Rightarrow> bool \<Rightarrow> relay_state \<Rightarrow> relay_state option" where
  "forward_finish w timed_out s =
     (let k = rl_call s w in
      case uc_slot k of
        SlotFrame f \<Rightarrow> Some (upd_call w (\<lambda>k. k\<lparr>uc_phase := UReturned (Inr f)\<rparr>) s)
      | SlotSenderGone \<Rightarrow>
          Some (remove_pending (uc_conn k) (uc_request_id k)
            (upd_call w (\<lambda>k. k\<lparr>uc_phase := UReturned (Inl (ResponseDropped (uc_request_id k)))\<rparr>) s))
      | _ \<Rightarrow>
          if timed_out
          then Some (remove_pending (uc_conn k) (uc_request_id k)
            (upd_call w (\<lambda>k. k\<lparr>uc_phase := UReturned (Inl (Timeout (uc_request_id k))), uc_slot := SlotReceiverGone\<rparr>) s))
          else None)"

text \<open>The caller goes away: the future of the call is dropped with the receiver.\<close>

definition forward_abandon :: "nat \<Rightarrow> relay_state \<Rightarrow> relay_state" where
  "forward_abandon w s = upd_call w (\<lambda>k. k\<lparr>uc_phase := UAbandoned,
     uc_slot := (if uc_slot k = SlotEmpty then SlotReceiverGone else uc_slot k)\<rparr>) s"

section \<open>Forwarding of streams\<close>

definition new_stream_call ::
  "string \<Rightarrow> string \<Rightarrow> string \<Rightarrow> string \<Rightarrow> byte list \<Rightarrow> relay_state \<Rightarrow> relay_state \<times> ('e + nat)" where
  "new_stream_call user_id machine_id request_id mth data s =
     (s\<lparr>rl_stream := (rl_stream s)(rl_next s := \<lparr> sc_user = user_id, sc_machine_id = machine_id,
          sc_request_id = request_id, sc_method = mth, sc_data = data, sc_conn = 0, sc_phase = SChecked,
          sc_frames = [], sc_taken = 0, sc_receiver = True, sc_sender = True \<rparr>), rl_next := Suc (rl_next s)\<rparr>,
      Inr (rl_next s))"

definition stream_check ::
  "sqlite \<Rightarrow> string \<Rightarrow> string \<Rightarrow> string \<Rightarrow> string \<Rightarrow> byte list \<Rightarrow> relay_state \<Rightarrow> relay_state \<times> (status + nat)" where
  "stream_check q user_id machine_id request_id mth data s =
     attempt id (s, verify_machine_ownership q machine_id user_id (rl_db s))
       (\<lambda>_. new_stream_call user_id machine_id request_id mth data)"

text \<open>\<^verbatim>\<open>setup_stream_forward\<close> up to sending, and sending. A stream is not buffered.\<close>

definition stream_begin :: "nat \<Rightarrow> relay_state \<Rightarrow> relay_state" where
  "stream_begin w s =
     (let k = rl_stream s w in
      case get_connection (sc_machine_id k) s of
        None \<Rightarrow> upd_stream w (\<lambda>k. k\<lparr>sc_phase := SFailed (MachineOffline (sc_machine_id k))\<rparr>) s
      | Some c \<Rightarrow>
          register_stream_pending c (sc_request_id k) w
            (upd_stream w (\<lambda>k. k\<lparr>sc_conn := c,
               sc_phase := SSending (build_request_frame (sc_request_id k) (sc_method k) (sc_data k) [])\<rparr>) s))"

definition stream_send :: "nat \<Rightarrow> tunnel_frame \<Rightarrow> relay_state \<Rightarrow> relay_state option" where
  "stream_send w frame s =
     (case send_frame (sc_conn (rl_stream s w)) frame s of
        None \<Rightarrow> None
      | Some (s, True) \<Rightarrow> Some (upd_stream w (\<lambda>k. k\<lparr>sc_phase := SOpen\<rparr>) s)
      | Some (s, False) \<Rightarrow>
          Some (upd_stream w (\<lambda>k. k\<lparr>sc_phase := SFailed (SendFailed (sc_machine_id k)), sc_receiver := False\<rparr>) s))"

text \<open>A message of the client on an open bidirectional stream (\<^verbatim>\<open>converse_proxy_task\<close>), sent on the
  connection of the stream; \<open>None\<close> when the channel is full. The result says whether it was sent.\<close>

definition client_frame :: "string \<Rightarrow> byte list \<Rightarrow> tunnel_frame" where
  "client_frame request_id data =
     \<lparr> tf_request_id = request_id, tf_frame_type = FtStreamData,
       tf_payload = Some (PStreamData \<lparr> sp_method = [],
         sp_encrypted = Some \<lparr> ep_ciphertext = data, ep_nonce = [], ep_ephemeral_pubkey = [] \<rparr>,
         sp_sequence = 0, sp_metadata = [] \<rparr>) \<rparr>"

definition client_send :: "nat \<Rightarrow> byte list \<Rightarrow> relay_state \<Rightarrow> (relay_state \<times> bool) option" where
  "client_send w data s = send_frame (sc_conn (rl_stream s w)) (client_frame (sc_request_id (rl_stream s w)) data) s"

text \<open>The reader of a stream takes the next frame, or goes away.\<close>

definition stream_take :: "nat \<Rightarrow> relay_state \<Rightarrow> relay_state" where
  "stream_take w s = upd_stream w (\<lambda>k. k\<lparr>sc_taken := min (Suc (sc_taken k)) (length (sc_frames k))\<rparr>) s"

definition stream_abandon :: "nat \<Rightarrow> relay_state \<Rightarrow> relay_state" where
  "stream_abandon w s = upd_stream w (\<lambda>k. k\<lparr>sc_receiver := False\<rparr>) s"

section \<open>Tunnel service\<close>

record peer_cert_info =
  pc_common_name :: string
  pc_serial_hex :: string

text \<open>The checks before the tunnel's task is started; the result is the name in the certificate.\<close>

definition open_tunnel ::
  "sqlite \<Rightarrow> (certificate_row list \<Rightarrow> certificate_row) \<Rightarrow> bool \<Rightarrow> peer_cert_info option \<Rightarrow> relay_db
    \<Rightarrow> status + string option" where
  "open_tunnel q pick mtls_enabled peer db =
     (if \<not> mtls_enabled then Inr None
      else case peer of
        None \<Rightarrow> Inl (Unauthenticated ''Client certificate required for tunnel connections'')
      | Some info \<Rightarrow>
          if (case is_certificate_revoked q pick (pc_serial_hex info) db of Inl _ \<Rightarrow> True | Inr b \<Rightarrow> b)
          then Inl (Unauthenticated ''Client certificate has been revoked'')
          else Inr (Some (pc_common_name info)))"

text \<open>The machine named in the first frame, empty when it names none.\<close>

definition first_machine_id :: "tunnel_frame option \<Rightarrow> string" where
  "first_machine_id first =
     (case first of
        None \<Rightarrow> []
      | Some f \<Rightarrow>
          if tf_frame_type f \<noteq> FtControl then []
          else case tf_payload f of
            Some (PControl ctrl) \<Rightarrow> unwrap_or [] (hm_get (tl_params ctrl) ''machine_id'')
          | _ \<Rightarrow> [])"

definition tunnel_admit ::
  "sqlite \<Rightarrow> string option \<Rightarrow> string \<Rightarrow> tunnel_frame option \<Rightarrow> relay_db \<Rightarrow> status + string" where
  "tunnel_admit q peer_cert_cn owner_id first db =
     (let machine_id = first_machine_id first in
      if machine_id = [] then Inl (InvalidArgument ''First frame must identify machine'')
      else if peer_cert_cn \<noteq> None \<and> peer_cert_cn \<noteq> Some machine_id
      then Inl (PermissionDenied (''Certificate CN '' @ quote (unwrap_or [] peer_cert_cn)
             @ '' does not match machine_id '' @ quote machine_id))
      else case verify_machine_ownership q machine_id owner_id db of Inl e \<Rightarrow> Inl e | Inr _ \<Rightarrow> Inr machine_id)"

definition tunnel_register :: "string \<Rightarrow> string \<Rightarrow> relay_state \<Rightarrow> relay_state" where
  "tunnel_register machine_id owner_id s =
     (case register_connection machine_id owner_id s of (s, c) \<Rightarrow> s\<lparr>rl_task := (rl_task s)(c := TpRegistered)\<rparr>)"

abbreviation set_task :: "nat \<Rightarrow> tunnel_phase \<Rightarrow> relay_state \<Rightarrow> relay_state" where
  "set_task c p s \<equiv> s\<lparr>rl_task := (rl_task s)(c := p)\<rparr>"

text \<open>One step of a tunnel's task up to the point where it serves its stream. A full channel
  stops it; the task that empties the channel is started after the last of these steps.\<close>

definition tunnel_start_step ::
  "(string \<Rightarrow> (string, string) hmap option) \<Rightarrow> sqlite \<Rightarrow> int \<Rightarrow> nat \<Rightarrow> relay_state \<Rightarrow> relay_state option" where
  "tunnel_start_step parse q now c s =
     (let m = tc_machine_id (rl_conn s c) in
      case rl_task s c of
        TpRegistered \<Rightarrow> Some (set_task c TpOnline (s\<lparr>rl_db := fst (update_machine_status q now m ''online'' (rl_db s))\<rparr>))
      | TpOnline \<Rightarrow>
          (case drain_begin q now m s of
             Inr (Some (c', msgs)) \<Rightarrow> Some (set_task c (TpDraining c' msgs) s)
           | _ \<Rightarrow> Some (set_task c TpServing s))
      | TpDraining c' [] \<Rightarrow> Some (set_task c TpServing s)
      | TpDraining c' (msg # msgs) \<Rightarrow>
          (case drain_message parse q c' msg s of
             None \<Rightarrow> None
           | Some (s, ok) \<Rightarrow> Some (set_task c (if ok then TpDraining c' msgs else TpServing) s))
      | _ \<Rightarrow> None)"

text \<open>The task that copies frames to the daemon: it takes a frame, or ends because the output is
  closed.\<close>

definition forwarder_take :: "nat \<Rightarrow> relay_state \<Rightarrow> relay_state" where
  "forwarder_take c s = upd_conn c (\<lambda>k. k\<lparr>tc_taken := min (Suc (tc_taken k)) (length (tc_queue k))\<rparr>) s"

definition forwarder_stop :: "nat \<Rightarrow> relay_state \<Rightarrow> relay_state" where
  "forwarder_stop c s = upd_conn c (\<lambda>k. k\<lparr>tc_receiver := False\<rparr>) s"

text \<open>A frame of the daemon. \<open>None\<close>: the channel of the stream it belongs to is full.\<close>

definition daemon_frame :: "nat \<Rightarrow> tunnel_frame \<Rightarrow> relay_state \<Rightarrow> relay_state option" where
  "daemon_frame c frame s =
     (let rid = tf_request_id frame; s = upd_conn c (\<lambda>k. k\<lparr>tc_received := tc_received k @ [frame]\<rparr>) s in
      case tf_frame_type frame of
        FtStreamEnd \<Rightarrow>
          if has_stream_pending c rid s
          then map_option (\<lambda>(s, _). fst (complete_stream c rid s)) (send_stream_frame c rid frame s)
          else if is_cancelled_stream c rid s then Some (clear_cancelled_stream c rid s)
          else Some (fst (complete_pending c rid frame s))
      | FtStreamData \<Rightarrow>
          map_option (\<lambda>(s, ok). if ok then s else fst (complete_pending c rid frame s)) (send_stream_frame c rid frame s)
      | FtError \<Rightarrow>
          map_option (\<lambda>(s, ok). if ok then s else fst (complete_pending c rid frame s)) (send_stream_frame c rid frame s)
      | FtResponse \<Rightarrow> Some (fst (complete_pending c rid frame s))
      | _ \<Rightarrow> Some s)"

text \<open>The end of a tunnel: its waiters are dropped, its machine is taken out of the registry and
  the copying task stopped, and the machine is marked offline.\<close>

definition tunnel_end_step :: "sqlite \<Rightarrow> int \<Rightarrow> nat \<Rightarrow> relay_state \<Rightarrow> relay_state option" where
  "tunnel_end_step q now c s =
     (let m = tc_machine_id (rl_conn s c) in
      case rl_task s c of
        TpServing \<Rightarrow> Some (set_task c TpCancelled (cancel_all_pending c s))
      | TpCancelled \<Rightarrow> Some (set_task c TpUnregistered (forwarder_stop c (fst (unregister_connection m s))))
      | TpUnregistered \<Rightarrow> Some (set_task c TpEnded (s\<lparr>rl_db := fst (update_machine_status q now m ''offline'' (rl_db s))\<rparr>))
      | _ \<Rightarrow> None)"

text \<open>Registration of a machine by its daemon.\<close>

record tunnel_register_request =
  tq_machine_id :: string
  tq_machine_name :: string
  tq_identity_pubkey :: "byte list"

record tunnel_register_response =
  tr_accepted :: bool
  tr_relay_id :: string
  tr_heartbeat_interval_secs :: "32 word"

definition register_tunnel ::
  "(nat \<Rightarrow> sqlite) \<Rightarrow> int \<Rightarrow> string option \<Rightarrow> string \<Rightarrow> tunnel_register_request \<Rightarrow> relay_db
    \<Rightarrow> relay_db \<times> (status + tunnel_register_response)" where
  "register_tunnel q now json user_id req db =
     attempt id
       (case get_machine (q 0) (tq_machine_id req) db of
          Inr m \<Rightarrow> if mc_owner_id m \<noteq> user_id then (db, Inl (PermissionDenied ''Not your machine'')) else (db, Inr m)
        | Inl _ \<Rightarrow>
            attempt (\<lambda>e. Internal (''Failed to auto-register machine: '' @ show_database_error e))
              (create_machine (q 1) (q 2) now (tq_machine_id req) (tq_machine_name req) user_id (unwrap_or ''{}'' json) db)
              (\<lambda>m db. (db, Inr m)))
       (\<lambda>_ db.
          (if tq_identity_pubkey req = [] then db
           else fst (update_machine_identity_pubkey (q 3) (tq_machine_id req) (tq_identity_pubkey req) db),
           Inr \<lparr> tr_accepted = True, tr_relay_id = ''relay-1'', tr_heartbeat_interval_secs = 30 \<rparr>))"

definition tunnel_heartbeat :: "sqlite \<Rightarrow> sqlite \<Rightarrow> int \<Rightarrow> string \<Rightarrow> string \<Rightarrow> relay_db \<Rightarrow> relay_db \<times> (status + string)" where
  "tunnel_heartbeat q q' now caller_id machine_id db =
     attempt id (db, verify_machine_ownership q machine_id caller_id db)
       (\<lambda>_ db. (fst (touch_machine q' now machine_id db), Inr machine_id))"

section \<open>Runs of the relay\<close>

definition mc_owners :: "machine_row list \<Rightarrow> (string \<times> string) set" where
  "mc_owners ms = (\<lambda>r. (mc_id r, mc_owner_id r)) ` set ms"

text \<open>
  Steps of calls, streams and tunnel tasks, and the statements of the other services. With
  \<open>removal\<close> a machine may also be removed. A frame is read only while its tunnel serves.
\<close>

inductive relay_step :: "bool \<Rightarrow> relay_state \<Rightarrow> relay_state \<Rightarrow> bool" for removal where
  rs_unary_check: "relay_step removal s (fst (unary_check q u m rid mth data s))"
| rs_forward_begin: "w < rl_next s \<Longrightarrow> uc_phase (rl_call s w) = UChecked \<Longrightarrow>
    relay_step removal s (forward_begin bc q q' now json w s)"
| rs_forward_send: "uc_phase (rl_call s w) = USending f \<Longrightarrow> forward_send w f s = Some s' \<Longrightarrow> relay_step removal s s'"
| rs_forward_finish: "uc_phase (rl_call s w) = UWaiting \<Longrightarrow> forward_finish w b s = Some s' \<Longrightarrow> relay_step removal s s'"
| rs_forward_abandon: "uc_phase (rl_call s w) \<in> {UChecked, UWaiting} \<union> range USending \<Longrightarrow>
    relay_step removal s (forward_abandon w s)"
| rs_stream_check: "relay_step removal s (fst (stream_check q u m rid mth data s))"
| rs_stream_begin: "w < rl_next s \<Longrightarrow> sc_phase (rl_stream s w) = SChecked \<Longrightarrow> relay_step removal s (stream_begin w s)"
| rs_stream_send: "sc_phase (rl_stream s w) = SSending f \<Longrightarrow> stream_send w f s = Some s' \<Longrightarrow> relay_step removal s s'"
| rs_client_send: "sc_phase (rl_stream s w) = SOpen \<Longrightarrow> client_send w data s = Some (s', ok) \<Longrightarrow> relay_step removal s s'"
| rs_stream_take: "relay_step removal s (stream_take w s)"
| rs_stream_abandon: "relay_step removal s (stream_abandon w s)"
| rs_tunnel_register: "tunnel_admit q cn u first (rl_db s) = Inr m \<Longrightarrow> relay_step removal s (tunnel_register m u s)"
| rs_tunnel_start: "c < rl_next s \<Longrightarrow> tunnel_start_step parse q now c s = Some s' \<Longrightarrow> relay_step removal s s'"
| rs_forwarder_take: "rl_task s c = TpServing \<Longrightarrow> relay_step removal s (forwarder_take c s)"
| rs_forwarder_stop: "rl_task s c = TpServing \<Longrightarrow> relay_step removal s (forwarder_stop c s)"
| rs_daemon_frame: "rl_task s c = TpServing \<Longrightarrow> daemon_frame c f s = Some s' \<Longrightarrow> relay_step removal s s'"
| rs_tunnel_end: "tunnel_end_step q now c s = Some s' \<Longrightarrow> relay_step removal s s'"
| rs_database: "relay_db_step (rl_db s) db \<Longrightarrow> removal \<or> mc_owners (machines (rl_db s)) \<subseteq> mc_owners (machines db) \<Longrightarrow>
    relay_step removal s (s\<lparr>rl_db := db\<rparr>)"

definition init_relay :: "relay_db \<Rightarrow> relay_state" where
  "init_relay db = \<lparr> rl_db = db, rl_connections = [], rl_conn = \<lambda>_. new_connection [] [], rl_task = \<lambda>_. TpEnded,
     rl_call = \<lambda>_. \<lparr> uc_user = [], uc_machine_id = [], uc_request_id = [], uc_method = [], uc_data = [],
       uc_conn = 0, uc_phase = UAbandoned, uc_slot = SlotReceiverGone \<rparr>,
     rl_stream = \<lambda>_. \<lparr> sc_user = [], sc_machine_id = [], sc_request_id = [], sc_method = [], sc_data = [],
       sc_conn = 0, sc_phase = SFailed (MachineOffline []), sc_frames = [], sc_taken = 0, sc_receiver = False,
       sc_sender = False \<rparr>, rl_next = 0 \<rparr>"

abbreviation relay_reach :: "bool \<Rightarrow> relay_state \<Rightarrow> bool" where
  "relay_reach removal \<equiv> reach (\<lambda>s. \<exists>db. relay_wf db \<and> s = init_relay db) (relay_step removal)"

end
