(* ===== verification/RelayRuns.thy ===== *)
theory RelayRuns
  imports RelayRouter
begin

text \<open>
  Properties of every run of the relay's router: a response reaches the call that waits for it and
  nobody else, calls reach only daemons of their user, and what draining the buffer does. The
  invariant is proved for updates of single cells and lifted to the operations.
\<close>

section \<open>Responses reach their callers\<close>

definition conns_ok :: "relay_state \<Rightarrow> bool" where
  "conns_ok s \<longleftrightarrow> (\<forall>m c. hm_get (rl_connections s) m = Some c \<longrightarrow> c < rl_next s \<and> tc_machine_id (rl_conn s c) = m)
     \<and> (\<forall>c. rl_task s c \<noteq> TpEnded \<longrightarrow> c < rl_next s)
     \<and> (\<forall>c \<ge> rl_next s. tc_received (rl_conn s c) = [])"

definition pending_ok :: "relay_state \<Rightarrow> bool" where
  "pending_ok s \<longleftrightarrow> (\<forall>c rid w. hm_get (tc_pending (rl_conn s c)) rid = Some w \<longrightarrow> c < rl_next s \<and> w < rl_next s
     \<and> uc_conn (rl_call s w) = c \<and> uc_request_id (rl_call s w) = rid \<and> uc_phase (rl_call s w) \<noteq> UChecked)"

definition streams_ok :: "relay_state \<Rightarrow> bool" where
  "streams_ok s \<longleftrightarrow> (\<forall>c rid w. hm_get (tc_stream_pending (rl_conn s c)) rid = Some w \<longrightarrow> c < rl_next s \<and> w < rl_next s
     \<and> sc_conn (rl_stream s w) = c \<and> sc_request_id (rl_stream s w) = rid \<and> sc_phase (rl_stream s w) \<noteq> SChecked)"

definition call_ok :: "relay_state \<Rightarrow> unary_call \<Rightarrow> bool" where
  "call_ok s k \<longleftrightarrow> (uc_phase k = UChecked \<longrightarrow> (\<forall>f. uc_slot k \<noteq> SlotFrame f))
     \<and> (\<forall>f. uc_slot k = SlotFrame f \<longrightarrow> tf_request_id f = uc_request_id k \<and> f \<in> set (tc_received (rl_conn s (uc_conn k))))
     \<and> (\<forall>f. uc_phase k = UReturned (Inr f) \<longrightarrow> uc_slot k = SlotFrame f)"

text \<open>The frames of a connection that belong to a request.\<close>

definition frames_of :: "string \<Rightarrow> tunnel_frame list \<Rightarrow> tunnel_frame list" where
  "frames_of rid fs = filter (\<lambda>f. tf_request_id f = rid) fs"

definition stream_ok :: "relay_state \<Rightarrow> stream_call \<Rightarrow> bool" where
  "stream_ok s k \<longleftrightarrow> (sc_phase k = SChecked \<longrightarrow> sc_frames k = [])
     \<and> subseq (sc_frames k) (frames_of (sc_request_id k) (tc_received (rl_conn s (sc_conn k))))"

definition relay_inv :: "relay_state \<Rightarrow> bool" where
  "relay_inv s \<longleftrightarrow> conns_ok s \<and> pending_ok s \<and> streams_ok s \<and> (\<forall>w. call_ok s (rl_call s w)) \<and> (\<forall>w. stream_ok s (rl_stream s w))"

lemmas relay_inv_defs = relay_inv_def conns_ok_def pending_ok_def streams_ok_def call_ok_def stream_ok_def

text \<open>Updates of one cell that keep the invariant.\<close>

lemma pending_okD:
  "relay_inv s \<Longrightarrow> hm_get (tc_pending (rl_conn s c)) rid = Some w \<Longrightarrow> c < rl_next s \<and> w < rl_next s
     \<and> uc_conn (rl_call s w) = c \<and> uc_request_id (rl_call s w) = rid \<and> uc_phase (rl_call s w) \<noteq> UChecked"
  by (simp add: relay_inv_def pending_ok_def)

lemma streams_okD:
  "relay_inv s \<Longrightarrow> hm_get (tc_stream_pending (rl_conn s c)) rid = Some w \<Longrightarrow> c < rl_next s \<and> w < rl_next s
     \<and> sc_conn (rl_stream s w) = c \<and> sc_request_id (rl_stream s w) = rid \<and> sc_phase (rl_stream s w) \<noteq> SChecked"
  by (simp add: relay_inv_def streams_ok_def)

lemma ok_frame [simp]:
  "conns_ok (upd_call w f s) = conns_ok s" "conns_ok (upd_stream w g s) = conns_ok s"
  "streams_ok (upd_call w f s) = streams_ok s" "pending_ok (upd_stream w g s) = pending_ok s"
  "call_ok (upd_call w f s) = call_ok s" "call_ok (upd_stream w g s) = call_ok s"
  "stream_ok (upd_call w f s) = stream_ok s" "stream_ok (upd_stream w g s) = stream_ok s"
  by (simp_all add: conns_ok_def streams_ok_def pending_ok_def call_ok_def stream_ok_def fun_eq_iff)

lemma inv_upd_call:
  assumes "relay_inv s" and "uc_conn (f (rl_call s w)) = uc_conn (rl_call s w)"
    and "uc_request_id (f (rl_call s w)) = uc_request_id (rl_call s w)"
    and "uc_phase (f (rl_call s w)) = UChecked \<Longrightarrow> uc_phase (rl_call s w) = UChecked"
    and "call_ok s (f (rl_call s w))"
  shows "relay_inv (upd_call w f s)"
proof -
  have "pending_ok (upd_call w f s)"
    using assms(1-4) unfolding relay_inv_def pending_ok_def by simp blast
  with assms(1,5) show ?thesis by (simp add: relay_inv_def)
qed

lemma inv_upd_stream:
  assumes "relay_inv s" and "sc_conn (f (rl_stream s w)) = sc_conn (rl_stream s w)"
    and "sc_request_id (f (rl_stream s w)) = sc_request_id (rl_stream s w)"
    and "sc_phase (f (rl_stream s w)) = SChecked \<Longrightarrow> sc_phase (rl_stream s w) = SChecked"
    and "stream_ok s (f (rl_stream s w))"
  shows "relay_inv (upd_stream w f s)"
proof -
  have "streams_ok (upd_stream w f s)"
    using assms(1-4) unfolding relay_inv_def streams_ok_def by simp blast
  with assms(1,5) show ?thesis by (simp add: relay_inv_def)
qed

lemma subseq_frames_of: "subseq xs (frames_of r fs) \<Longrightarrow> subseq xs (frames_of r (fs @ gs))"
  using list_emb_append_mono [of "(=)" xs "frames_of r fs" "[]" "frames_of r gs"] by (simp add: frames_of_def)

lemma call_ok_mono:
  assumes "call_ok s k" and "\<exists>gs. tc_received (rl_conn s' (uc_conn k)) = tc_received (rl_conn s (uc_conn k)) @ gs"
  shows "call_ok s' k"
proof -
  have "set (tc_received (rl_conn s (uc_conn k))) \<subseteq> set (tc_received (rl_conn s' (uc_conn k)))" using assms(2) by force
  with assms(1) show ?thesis unfolding call_ok_def by blast
qed

lemma stream_ok_mono:
  "stream_ok s k \<Longrightarrow> \<exists>gs. tc_received (rl_conn s' (sc_conn k)) = tc_received (rl_conn s (sc_conn k)) @ gs \<Longrightarrow> stream_ok s' k"
  unfolding stream_ok_def using subseq_frames_of by force

lemma inv_upd_conn:
  assumes "relay_inv s" and "tc_machine_id (f (rl_conn s c)) = tc_machine_id (rl_conn s c)"
    and "tc_received (f (rl_conn s c)) = tc_received (rl_conn s c) @ fs" and "fs = [] \<or> c < rl_next s"
    and "map_of (tc_pending (f (rl_conn s c))) \<subseteq>\<^sub>m map_of (tc_pending (rl_conn s c))"
    and "map_of (tc_stream_pending (f (rl_conn s c))) \<subseteq>\<^sub>m map_of (tc_stream_pending (rl_conn s c))"
  shows "relay_inv (upd_conn c f s)"
proof -
  have p: "map_of (tc_pending (f (rl_conn s c))) rid = Some w \<Longrightarrow> map_of (tc_pending (rl_conn s c)) rid = Some w"
    and st: "map_of (tc_stream_pending (f (rl_conn s c))) rid = Some w \<Longrightarrow> map_of (tc_stream_pending (rl_conn s c)) rid = Some w"
    for rid w using assms(5,6) by (metis domI map_le_def)+
  have "conns_ok (upd_conn c f s)" using assms(1-4) by (auto simp: relay_inv_def conns_ok_def)
  moreover have "pending_ok (upd_conn c f s)"
    unfolding pending_ok_def using pending_okD [OF assms(1)] p by (simp split: if_split) blast
  moreover have "streams_ok (upd_conn c f s)"
    unfolding streams_ok_def using streams_okD [OF assms(1)] st by (simp split: if_split) blast
  moreover have "call_ok (upd_conn c f s) (rl_call s w)" and "stream_ok (upd_conn c f s) (rl_stream s w)" for w
  proof -
    have "call_ok s (rl_call s w)" and "stream_ok s (rl_stream s w)" using assms(1) by (simp_all add: relay_inv_def)
    moreover have r: "\<exists>gs. tc_received (rl_conn (upd_conn c f s) c') = tc_received (rl_conn s c') @ gs" for c'
      using assms(3) by simp
    ultimately show "call_ok (upd_conn c f s) (rl_call s w)" and "stream_ok (upd_conn c f s) (rl_stream s w)"
      using call_ok_mono stream_ok_mono by blast+
  qed
  ultimately show ?thesis by (simp add: relay_inv_def)
qed

lemma inv_db: "relay_inv (s\<lparr>rl_db := db\<rparr>) = relay_inv s"
  by (simp add: relay_inv_defs)

lemma inv_task: "relay_inv s \<Longrightarrow> c < rl_next s \<Longrightarrow> relay_inv (set_task c p s)"
  by (auto simp: relay_inv_def conns_ok_def pending_ok_def streams_ok_def call_ok_def stream_ok_def)

lemma inv_call_ok: "relay_inv s \<Longrightarrow> call_ok s (rl_call s w)" and inv_stream_ok: "relay_inv s \<Longrightarrow> stream_ok s (rl_stream s w)"
  by (simp_all add: relay_inv_def)

lemma inv_drop_sender:
  assumes "relay_inv s"
  shows "relay_inv (drop_sender w s)"
proof (cases w)
  case (Some v)
  have "call_ok s ((rl_call s v)\<lparr>uc_slot := SlotSenderGone\<rparr>)" if "uc_slot (rl_call s v) = SlotEmpty"
    using inv_call_ok [OF assms, of v] that by (simp add: call_ok_def)
  then show ?thesis using assms by (auto simp: drop_sender_def Some intro!: inv_upd_call)
qed (simp add: drop_sender_def assms)

lemma inv_drop_stream_sender:
  assumes "relay_inv s"
  shows "relay_inv (drop_stream_sender w s)"
proof (cases w)
  case (Some v)
  have "stream_ok s ((rl_stream s v)\<lparr>sc_sender := False\<rparr>)"
    using inv_stream_ok [OF assms, of v] by (simp add: stream_ok_def)
  then show ?thesis using assms by (auto simp: drop_stream_sender_def Some intro!: inv_upd_stream)
qed (simp add: drop_stream_sender_def assms)

lemma map_le_hm_remove: "map_of (hm_remove k m) \<subseteq>\<^sub>m map_of m"
  unfolding map_le_def by (metis domIff hm_get_remove)

lemma drop_sender_cells [simp]:
  "rl_conn (drop_sender w s) = rl_conn s" "rl_connections (drop_sender w s) = rl_connections s"
  "rl_next (drop_sender w s) = rl_next s" "rl_task (drop_sender w s) = rl_task s" "rl_db (drop_sender w s) = rl_db s"
  "rl_stream (drop_sender w s) = rl_stream s"
  "uc_conn (rl_call (drop_sender w s) v) = uc_conn (rl_call s v)"
  "uc_request_id (rl_call (drop_sender w s) v) = uc_request_id (rl_call s v)"
  "uc_phase (rl_call (drop_sender w s) v) = uc_phase (rl_call s v)"
  by (auto simp: drop_sender_def split: option.split)

lemma drop_stream_sender_cells [simp]:
  "rl_conn (drop_stream_sender w s) = rl_conn s" "rl_connections (drop_stream_sender w s) = rl_connections s"
  "rl_next (drop_stream_sender w s) = rl_next s" "rl_task (drop_stream_sender w s) = rl_task s"
  "rl_db (drop_stream_sender w s) = rl_db s" "rl_call (drop_stream_sender w s) = rl_call s"
  "sc_conn (rl_stream (drop_stream_sender w s) v) = sc_conn (rl_stream s v)"
  "sc_request_id (rl_stream (drop_stream_sender w s) v) = sc_request_id (rl_stream s v)"
  "sc_phase (rl_stream (drop_stream_sender w s) v) = sc_phase (rl_stream s v)"
  "sc_frames (rl_stream (drop_stream_sender w s) v) = sc_frames (rl_stream s v)"
  by (auto simp: drop_stream_sender_def split: option.split)

lemma inv_remove_pending: "relay_inv s \<Longrightarrow> relay_inv (remove_pending c rid s)"
  unfolding remove_pending_def
  by (rule inv_upd_conn [where fs = "[]"])
     (simp_all add: inv_drop_sender map_le_hm_remove)

lemma inv_complete_stream: "relay_inv s \<Longrightarrow> relay_inv (fst (complete_stream c rid s))"
  unfolding complete_stream_def fst_conv
  by (rule inv_upd_conn [where fs = "[]"]) (auto intro!: inv_drop_stream_sender simp: map_le_hm_remove)

lemma inv_register_pending:
  assumes "relay_inv s" and "c < rl_next s" and "w < rl_next s" and "uc_conn (rl_call s w) = c"
    and "uc_request_id (rl_call s w) = rid" and "uc_phase (rl_call s w) \<noteq> UChecked"
  shows "relay_inv (register_pending c rid w s)"
proof -
  define s1 where "s1 = drop_sender (hm_get (tc_pending (rl_conn s c)) rid) s"
  have i: "relay_inv s1" unfolding s1_def by (rule inv_drop_sender) (rule assms(1))
  have "pending_ok (register_pending c rid w s)"
    using i assms(2-6) unfolding register_pending_def relay_inv_def pending_ok_def s1_def by simp
  moreover have "conns_ok (register_pending c rid w s)" "streams_ok (register_pending c rid w s)"
    using i unfolding register_pending_def relay_inv_def conns_ok_def streams_ok_def s1_def by simp_all
  moreover have "call_ok (register_pending c rid w s) k = call_ok s1 k"
    "stream_ok (register_pending c rid w s) k' = stream_ok s1 k'" for k k'
    by (simp_all add: register_pending_def s1_def call_ok_def stream_ok_def)
  ultimately show ?thesis using i by (simp add: relay_inv_def register_pending_def s1_def)
qed

lemma inv_register_stream_pending:
  assumes "relay_inv s" and "c < rl_next s" and "w < rl_next s" and "sc_conn (rl_stream s w) = c"
    and "sc_request_id (rl_stream s w) = rid" and "sc_phase (rl_stream s w) \<noteq> SChecked"
  shows "relay_inv (register_stream_pending c rid w s)"
proof -
  define s1 where "s1 = drop_stream_sender (hm_get (tc_stream_pending (rl_conn s c)) rid) s"
  have i: "relay_inv s1" unfolding s1_def by (rule inv_drop_stream_sender) (rule assms(1))
  have "streams_ok (register_stream_pending c rid w s)"
    using i assms(2-6) unfolding register_stream_pending_def relay_inv_def streams_ok_def s1_def by simp
  moreover have "conns_ok (register_stream_pending c rid w s)" "pending_ok (register_stream_pending c rid w s)"
    using i unfolding register_stream_pending_def relay_inv_def conns_ok_def pending_ok_def s1_def by simp_all
  moreover have "call_ok (register_stream_pending c rid w s) k = call_ok s1 k"
    "stream_ok (register_stream_pending c rid w s) k' = stream_ok s1 k'" for k k'
    by (simp_all add: register_stream_pending_def s1_def call_ok_def stream_ok_def)
  ultimately show ?thesis using i by (simp add: relay_inv_def register_stream_pending_def s1_def)
qed

lemma inv_complete_pending:
  assumes "relay_inv s" and "frame \<in> set (tc_received (rl_conn s c))" and "tf_request_id frame = rid"
  shows "relay_inv (fst (complete_pending c rid frame s))"
proof (cases "hm_get (tc_pending (rl_conn s c)) rid")
  case (Some w)
  define s1 where "s1 = upd_conn c (\<lambda>k. k\<lparr>tc_pending := hm_remove rid (tc_pending k)\<rparr>) s"
  have i: "relay_inv s1"
    unfolding s1_def by (rule inv_upd_conn [where fs = "[]"]) (use assms(1) in \<open>simp_all add: map_le_hm_remove\<close>)
  have w: "uc_conn (rl_call s w) = c" "uc_request_id (rl_call s w) = rid" "uc_phase (rl_call s w) \<noteq> UChecked"
    using pending_okD [OF assms(1) Some] by simp_all
  have "call_ok s1 ((rl_call s1 w)\<lparr>uc_slot := SlotFrame frame\<rparr>)" if "uc_slot (rl_call s1 w) = SlotEmpty"
    using inv_call_ok [OF i, of w] that w assms(2,3) by (simp add: call_ok_def s1_def)
  then have "relay_inv (upd_call w (\<lambda>k. k\<lparr>uc_slot := SlotFrame frame\<rparr>) s1)" if "uc_slot (rl_call s1 w) = SlotEmpty"
    using that i by (intro inv_upd_call) simp_all
  with i show ?thesis by (simp add: complete_pending_def Some Let_def s1_def)
qed (simp add: complete_pending_def assms(1))

lemma inv_send_stream_frame:
  assumes "relay_inv s" and "send_stream_frame c rid frame s = Some (s', ok)"
    and "\<And>w. hm_get (tc_stream_pending (rl_conn s c)) rid = Some w \<Longrightarrow>
           subseq (sc_frames (rl_stream s w) @ [frame]) (frames_of rid (tc_received (rl_conn s c)))"
  shows "relay_inv s'"
proof (cases "hm_get (tc_stream_pending (rl_conn s c)) rid")
  case (Some w)
  have w: "sc_conn (rl_stream s w) = c" "sc_request_id (rl_stream s w) = rid" "sc_phase (rl_stream s w) \<noteq> SChecked"
    using streams_okD [OF assms(1) Some] by simp_all
  have "stream_ok s ((rl_stream s w)\<lparr>sc_frames := sc_frames (rl_stream s w) @ [frame]\<rparr>)"
    using assms(3) [OF Some] w by (simp add: stream_ok_def)
  then have "relay_inv (upd_stream w (\<lambda>k. k\<lparr>sc_frames := sc_frames k @ [frame]\<rparr>) s)"
    using assms(1) by (intro inv_upd_stream) simp_all
  moreover have "relay_inv (upd_conn c (\<lambda>k. k\<lparr>tc_cancelled_streams := insert rid (tc_cancelled_streams k)\<rparr>)
      (fst (complete_stream c rid s)))"
    by (rule inv_upd_conn [where fs = "[]"]) (use assms(1) in \<open>simp_all add: inv_complete_stream\<close>)
  ultimately show ?thesis
    using assms(2) by (auto simp: send_stream_frame_def Some Let_def split: if_splits)
qed (use assms(1,2) in \<open>simp add: send_stream_frame_def\<close>)

lemma send_stream_frame_received:
  "send_stream_frame c rid frame s = Some (s', ok) \<Longrightarrow> tc_received (rl_conn s' c') = tc_received (rl_conn s c')"
  by (auto simp: send_stream_frame_def complete_stream_def Let_def split: option.splits if_splits)

lemma inv_daemon_frame:
  assumes "relay_inv s" and "rl_task s c = TpServing" and "daemon_frame c frame s = Some s'"
  shows "relay_inv s'"
proof -
  define s0 where "s0 = upd_conn c (\<lambda>k. k\<lparr>tc_received := tc_received k @ [frame]\<rparr>) s"
  have "c < rl_next s" using assms(1,2) by (force simp: relay_inv_def conns_ok_def)
  then have i: "relay_inv s0"
    unfolding s0_def by (intro inv_upd_conn [where fs = "[frame]"]) (use assms(1) in simp_all)
  have in0: "frame \<in> set (tc_received (rl_conn s0 c))" by (simp add: s0_def)
  have sub: "subseq (sc_frames (rl_stream s0 w) @ [frame]) (frames_of (tf_request_id frame) (tc_received (rl_conn s0 c)))"
    if "hm_get (tc_stream_pending (rl_conn s0 c)) (tf_request_id frame) = Some w" for w
  proof -
    have "hm_get (tc_stream_pending (rl_conn s c)) (tf_request_id frame) = Some w" using that by (simp add: s0_def)
    from streams_okD [OF assms(1) this] inv_stream_ok [OF assms(1), of w]
    have "subseq (sc_frames (rl_stream s w)) (frames_of (tf_request_id frame) (tc_received (rl_conn s c)))"
      by (simp add: stream_ok_def)
    then show ?thesis by (simp add: s0_def frames_of_def list_emb_append_mono)
  qed
  have sent: "relay_inv t \<and> frame \<in> set (tc_received (rl_conn t c))"
    if "send_stream_frame c (tf_request_id frame) frame s0 = Some (t, ok)" for t ok
    using inv_send_stream_frame [OF i that sub] send_stream_frame_received [OF that, of c] in0 by simp
  have clear: "relay_inv (clear_cancelled_stream c rid s0)" for rid
    unfolding clear_cancelled_stream_def by (rule inv_upd_conn [where fs = "[]"]) (use i in simp_all)
  show ?thesis
    using assms(3) i unfolding daemon_frame_def Let_def s0_def [symmetric]
    by (auto split: frame_type.splits if_splits simp: clear
        intro!: inv_complete_pending [OF _ _ refl] inv_complete_stream dest!: sent intro: in0)
qed

lemma inv_cancel_all_pending:
  assumes "relay_inv s"
  shows "relay_inv (cancel_all_pending c s)"
proof -
  have p: "relay_inv (foldr (\<lambda>(_, w). drop_sender (Some w)) ps s)" for ps :: "(string \<times> nat) list"
    by (induction ps) (auto intro!: inv_drop_sender assms)
  have q: "relay_inv t \<Longrightarrow> relay_inv (foldr (\<lambda>(_, w). drop_stream_sender (Some w)) ps t)" for t and ps :: "(string \<times> nat) list"
    by (induction ps) (auto intro!: inv_drop_stream_sender)
  show ?thesis
    unfolding cancel_all_pending_def by (intro inv_upd_conn [where fs = "[]"] q p) simp_all
qed

lemma inv_send_frame:
  assumes "relay_inv s" and "send_frame c f s = Some (s', ok)"
  shows "relay_inv s'"
proof -
  have "relay_inv (upd_conn c (\<lambda>k. k\<lparr>tc_queue := tc_queue k @ [f]\<rparr>) s)"
    by (rule inv_upd_conn [where fs = "[]"]) (use assms(1) in simp_all)
  with assms show ?thesis by (auto simp: send_frame_def Let_def split: if_splits)
qed

lemma send_frame_cells:
  assumes "send_frame c f s = Some (s', ok)"
  shows "rl_call s' = rl_call s" "rl_stream s' = rl_stream s" "rl_next s' = rl_next s" "rl_task s' = rl_task s"
    "rl_connections s' = rl_connections s" "rl_db s' = rl_db s"
    "tc_pending (rl_conn s' c') = tc_pending (rl_conn s c')" "tc_machine_id (rl_conn s' c') = tc_machine_id (rl_conn s c')"
    "tc_owner_id (rl_conn s' c') = tc_owner_id (rl_conn s c')" "tc_received (rl_conn s' c') = tc_received (rl_conn s c')"
  using assms by (auto simp: send_frame_def Let_def split: if_splits)

text \<open>A call changes its phase, and possibly gives up its slot.\<close>

lemma inv_call_phase:
  assumes "relay_inv s" and "\<And>f. uc_phase (g (rl_call s w)) = UReturned (Inr f) \<Longrightarrow> uc_slot (g (rl_call s w)) = SlotFrame f"
    and "uc_phase (g (rl_call s w)) \<noteq> UChecked" and "uc_conn (g (rl_call s w)) = uc_conn (rl_call s w)"
    and "uc_request_id (g (rl_call s w)) = uc_request_id (rl_call s w)"
    and "uc_slot (g (rl_call s w)) \<in> {uc_slot (rl_call s w), SlotReceiverGone}"
  shows "relay_inv (upd_call w g s)"
proof (rule inv_upd_call [where f = g, OF assms(1,4,5)])
  show "call_ok s (g (rl_call s w))"
    using inv_call_ok [OF assms(1), of w] assms(2-6) by (auto simp: call_ok_def)
qed (use assms(3) in simp)

lemma inv_forward_send: "relay_inv s \<Longrightarrow> forward_send w f s = Some s' \<Longrightarrow> relay_inv s'"
  by (auto simp: forward_send_def Let_def split: option.splits bool.splits intro!: inv_call_phase)
     (blast intro: inv_send_frame)+

lemma inv_forward_finish: "relay_inv s \<Longrightarrow> forward_finish w b s = Some s' \<Longrightarrow> relay_inv s'"
  by (auto simp: forward_finish_def Let_def split: oneshot.splits if_splits
      intro!: inv_remove_pending inv_call_phase)

lemma inv_forward_abandon: "relay_inv s \<Longrightarrow> relay_inv (forward_abandon w s)"
  unfolding forward_abandon_def by (rule inv_call_phase) auto

text \<open>A call whose rights were checked is in no table yet, so it may choose its connection.\<close>

lemma inv_choose_conn:
  assumes "relay_inv s" and "uc_phase (rl_call s w) = UChecked"
  shows "relay_inv (upd_call w (\<lambda>k. k\<lparr>uc_conn := c, uc_phase := USending f\<rparr>) s)"
proof -
  have "call_ok s ((rl_call s w)\<lparr>uc_conn := c, uc_phase := USending f\<rparr>)"
    using inv_call_ok [OF assms(1), of w] assms(2) by (simp add: call_ok_def)
  moreover have "pending_ok (upd_call w (\<lambda>k. k\<lparr>uc_conn := c, uc_phase := USending f\<rparr>) s)"
    unfolding pending_ok_def using pending_okD [OF assms(1)] assms(2) by (simp, blast)
  ultimately show ?thesis using assms(1) by (simp add: relay_inv_def)
qed

lemma conn_okD: "relay_inv s \<Longrightarrow> get_connection m s = Some c \<Longrightarrow> c < rl_next s \<and> tc_machine_id (rl_conn s c) = m"
  by (simp add: relay_inv_def conns_ok_def get_connection_def)

lemma inv_forward_begin:
  assumes "relay_inv s" and "w < rl_next s" and "uc_phase (rl_call s w) = UChecked"
  shows "relay_inv (forward_begin bc q q' now json w s)"
proof (cases "get_connection (uc_machine_id (rl_call s w)) s")
  case None
  have "relay_inv (s\<lparr>rl_db := db\<rparr>)" for db using assms(1) by (simp add: inv_db)
  with None show ?thesis
    by (auto simp: forward_begin_def Let_def split: prod.split sum.split intro!: inv_call_phase)
next
  case (Some c)
  let ?f = "build_request_frame (uc_request_id (rl_call s w)) (uc_method (rl_call s w)) (uc_data (rl_call s w)) []"
  have eq: "forward_begin bc q q' now json w s = register_pending c (uc_request_id (rl_call s w)) w
      (upd_call w (\<lambda>k. k\<lparr>uc_conn := c, uc_phase := USending ?f\<rparr>) s)"
    by (simp add: forward_begin_def Some Let_def upd_call_def)
  show ?thesis unfolding eq
    using conn_okD [OF assms(1) Some] assms by (intro inv_register_pending inv_choose_conn) simp_all
qed

lemma inv_choose_stream_conn:
  assumes "relay_inv s" and "sc_phase (rl_stream s w) = SChecked"
  shows "relay_inv (upd_stream w (\<lambda>k. k\<lparr>sc_conn := c, sc_phase := SSending f\<rparr>) s)"
proof -
  have "stream_ok s ((rl_stream s w)\<lparr>sc_conn := c, sc_phase := SSending f\<rparr>)"
    using inv_stream_ok [OF assms(1), of w] assms(2) by (simp add: stream_ok_def)
  moreover have "streams_ok (upd_stream w (\<lambda>k. k\<lparr>sc_conn := c, sc_phase := SSending f\<rparr>) s)"
    unfolding streams_ok_def using streams_okD [OF assms(1)] assms(2) by (simp, blast)
  ultimately show ?thesis using assms(1) by (simp add: relay_inv_def)
qed

lemma inv_stream_fields:
  assumes "relay_inv s" and "sc_frames (g (rl_stream s w)) = sc_frames (rl_stream s w)"
    and "sc_phase (g (rl_stream s w)) = SChecked \<Longrightarrow> sc_phase (rl_stream s w) = SChecked"
    and "sc_conn (g (rl_stream s w)) = sc_conn (rl_stream s w)"
    and "sc_request_id (g (rl_stream s w)) = sc_request_id (rl_stream s w)"
  shows "relay_inv (upd_stream w g s)"
proof (rule inv_upd_stream [where f = g, OF assms(1,4,5,3)])
  show "stream_ok s (g (rl_stream s w))"
    using inv_stream_ok [OF assms(1), of w] assms(2-5) by (auto simp: stream_ok_def)
qed simp

lemma inv_stream_begin:
  assumes "relay_inv s" and "w < rl_next s" and "sc_phase (rl_stream s w) = SChecked"
  shows "relay_inv (stream_begin w s)"
proof (cases "get_connection (sc_machine_id (rl_stream s w)) s")
  case None
  then show ?thesis using assms(1) by (auto simp: stream_begin_def Let_def intro!: inv_stream_fields)
next
  case (Some c)
  let ?f = "build_request_frame (sc_request_id (rl_stream s w)) (sc_method (rl_stream s w)) (sc_data (rl_stream s w)) []"
  have eq: "stream_begin w s = register_stream_pending c (sc_request_id (rl_stream s w)) w
      (upd_stream w (\<lambda>k. k\<lparr>sc_conn := c, sc_phase := SSending ?f\<rparr>) s)"
    by (simp add: stream_begin_def Some Let_def upd_stream_def)
  show ?thesis unfolding eq
    using conn_okD [OF assms(1) Some] assms by (intro inv_register_stream_pending inv_choose_stream_conn) simp_all
qed

lemma inv_stream_send: "relay_inv s \<Longrightarrow> stream_send w f s = Some s' \<Longrightarrow> relay_inv s'"
  by (auto simp: stream_send_def split: option.splits bool.splits intro!: inv_stream_fields)
     (blast intro: inv_send_frame)+

lemma inv_new_call:
  assumes "relay_inv s" and "uc_phase k = UChecked" and "uc_slot k = SlotEmpty"
  shows "relay_inv (s\<lparr>rl_call := (rl_call s)(rl_next s := k), rl_next := Suc (rl_next s)\<rparr>)" (is "relay_inv ?t")
proof -
  have "conns_ok ?t" "streams_ok ?t"
    using assms(1) unfolding relay_inv_def conns_ok_def streams_ok_def by (auto simp: less_Suc_eq)
  moreover have "pending_ok ?t"
    using pending_okD [OF assms(1)] unfolding pending_ok_def by (simp add: less_Suc_eq) blast
  moreover have "call_ok ?t = call_ok s" "stream_ok ?t = stream_ok s" by (auto simp: call_ok_def stream_ok_def fun_eq_iff)
  ultimately show ?thesis using assms by (simp add: relay_inv_def call_ok_def)
qed

lemma inv_new_stream:
  assumes "relay_inv s" and "sc_phase k = SChecked" and "sc_frames k = []"
  shows "relay_inv (s\<lparr>rl_stream := (rl_stream s)(rl_next s := k), rl_next := Suc (rl_next s)\<rparr>)" (is "relay_inv ?t")
proof -
  have "conns_ok ?t" "pending_ok ?t"
    using assms(1) unfolding relay_inv_def conns_ok_def pending_ok_def by (auto simp: less_Suc_eq)
  moreover have "streams_ok ?t"
    using streams_okD [OF assms(1)] unfolding streams_ok_def by (simp add: less_Suc_eq) blast
  moreover have "call_ok ?t = call_ok s" "stream_ok ?t = stream_ok s" by (auto simp: call_ok_def stream_ok_def fun_eq_iff)
  ultimately show ?thesis using assms by (simp add: relay_inv_def stream_ok_def)
qed

lemma inv_unary_check: "relay_inv s \<Longrightarrow> relay_inv (fst (unary_check q u m rid mth data s))"
  by (auto simp: unary_check_def new_unary_call_def attempt_def split: sum.split intro!: inv_new_call)

lemma inv_stream_check: "relay_inv s \<Longrightarrow> relay_inv (fst (stream_check q u m rid mth data s))"
  by (auto simp: stream_check_def new_stream_call_def attempt_def split: sum.split intro!: inv_new_stream)

lemma inv_tunnel_register:
  assumes "relay_inv s"
  shows "relay_inv (tunnel_register m u s)" (is "relay_inv ?t")
proof -
  have r: "tc_received (rl_conn ?t c) = tc_received (rl_conn s c)" for c
    using assms by (simp add: tunnel_register_def register_connection_def new_connection_def relay_inv_def conns_ok_def Let_def)
  have eq: "rl_next ?t = Suc (rl_next s)" "rl_conn ?t = (rl_conn s)(rl_next s := new_connection m u)"
    "rl_call ?t = rl_call s" "rl_stream ?t = rl_stream s" "rl_task ?t = (rl_task s)(rl_next s := TpRegistered)"
    "rl_connections ?t = hm_insert m (rl_next s) (rl_connections s)"
    by (simp_all add: tunnel_register_def register_connection_def Let_def)
  have "conns_ok ?t"
    using assms r unfolding relay_inv_def conns_ok_def eq by (auto simp: new_connection_def less_Suc_eq)
  moreover have "pending_ok ?t"
    unfolding pending_ok_def eq using pending_okD [OF assms] by (simp add: new_connection_def less_Suc_eq)
  moreover have "streams_ok ?t"
    unfolding streams_ok_def eq using streams_okD [OF assms] by (simp add: new_connection_def less_Suc_eq)
  moreover have "call_ok ?t = call_ok s" "stream_ok ?t = stream_ok s" by (auto simp: call_ok_def stream_ok_def r fun_eq_iff)
  ultimately show ?thesis using assms by (simp add: relay_inv_def eq)
qed

lemma drain_message_cells:
  assumes "drain_message parse q c msg s = Some (s', ok)"
  shows "rl_next s' = rl_next s" "rl_task s' = rl_task s" "rl_connections s' = rl_connections s"
    "rl_call s' = rl_call s" "rl_stream s' = rl_stream s"
    "tc_machine_id (rl_conn s' c') = tc_machine_id (rl_conn s c')" "tc_owner_id (rl_conn s' c') = tc_owner_id (rl_conn s c')"
    "tc_pending (rl_conn s' c') = tc_pending (rl_conn s c')" "machines (rl_db s') = machines (rl_db s)"
proof -
  obtain s1 where s1: "send_frame c (buffered_frame parse msg) s = Some (s1, ok)"
    and s': "s' = (if ok then s1\<lparr>rl_db := fst (delete_buffered_message q (bm_id msg) (rl_db s1))\<rparr> else s1)"
    using assms by (auto simp: drain_message_def split: option.splits bool.splits)
  note cells = send_frame_cells [OF s1]
  have del: "machines (fst (delete_buffered_message q i db)) = machines db" for i db
    by (simp add: delete_buffered_message_def)
  show "rl_next s' = rl_next s" "rl_task s' = rl_task s" "rl_connections s' = rl_connections s"
    "rl_call s' = rl_call s" "rl_stream s' = rl_stream s"
    "tc_machine_id (rl_conn s' c') = tc_machine_id (rl_conn s c')" "tc_owner_id (rl_conn s' c') = tc_owner_id (rl_conn s c')"
    "tc_pending (rl_conn s' c') = tc_pending (rl_conn s c')" "machines (rl_db s') = machines (rl_db s)"
    by (simp_all add: s' cells del)
qed

lemma inv_drain_message: "relay_inv s \<Longrightarrow> drain_message parse q c msg s = Some (s', ok) \<Longrightarrow> relay_inv s'"
  by (auto simp: drain_message_def inv_db split: option.splits bool.splits) (blast intro: inv_send_frame)+

lemma inv_tunnel_start:
  assumes "relay_inv s" and "c < rl_next s" and "tunnel_start_step parse q now c s = Some s'"
  shows "relay_inv s'"
proof -
  have "relay_inv (set_task c p s)" for p using assms(1,2) by (rule inv_task)
  moreover have "relay_inv (set_task c p t)" if "drain_message parse q c' msg s = Some (t, ok)" for p t c' msg ok
    using inv_drain_message [OF assms(1) that] drain_message_cells [OF that] assms(2) by (intro inv_task) simp_all
  moreover have "relay_inv (set_task c p (s\<lparr>rl_db := db\<rparr>))" for p db
    using assms(1,2) by (intro inv_task) (simp_all add: inv_db)
  ultimately show ?thesis
    using assms(3) by (auto simp: tunnel_start_step_def Let_def split: tunnel_phase.splits list.splits option.splits sum.splits)
qed

lemma cancel_all_pending_next [simp]: "rl_next (cancel_all_pending c s) = rl_next s"
proof -
  have p: "rl_next (foldr (\<lambda>(_, w). drop_sender (Some w)) ps s) = rl_next s" for ps :: "(string \<times> nat) list"
    by (induction ps) auto
  have q: "rl_next (foldr (\<lambda>(_, w). drop_stream_sender (Some w)) ps t) = rl_next t" for t and ps :: "(string \<times> nat) list"
    by (induction ps) auto
  show ?thesis by (simp add: cancel_all_pending_def p q)
qed

lemma inv_tunnel_end:
  assumes "relay_inv s" and "tunnel_end_step q now c s = Some s'"
  shows "relay_inv s'"
proof -
  have c: "c < rl_next s"
    using assms by (force simp: relay_inv_def conns_ok_def tunnel_end_step_def Let_def split: tunnel_phase.splits)
  have i: "relay_inv (fst (unregister_connection m s))" for m
    using assms(1) by (auto simp: unregister_connection_def relay_inv_defs)
  have "relay_inv (forwarder_stop c (fst (unregister_connection m s)))" for m
    unfolding forwarder_stop_def by (rule inv_upd_conn [where fs = "[]"]) (simp_all add: i)
  then have "relay_inv (set_task c p (forwarder_stop c (fst (unregister_connection m s))))" for p m
    using c by (intro inv_task) (simp_all add: forwarder_stop_def unregister_connection_def)
  moreover have "relay_inv (set_task c p (s\<lparr>rl_db := db\<rparr>))" for p db
    using assms(1) c by (intro inv_task) (simp_all add: inv_db)
  moreover have "relay_inv (set_task c p (cancel_all_pending c s))" for p
    using assms(1) c by (intro inv_task inv_cancel_all_pending) simp_all
  ultimately show ?thesis
    using assms(2) by (auto simp: tunnel_end_step_def Let_def split: tunnel_phase.splits)
qed

lemma relay_step_inv: "relay_step removal s t \<Longrightarrow> relay_inv s \<Longrightarrow> relay_inv t"
proof (induction rule: relay_step.induct)
  case (rs_forwarder_take s c)
  then show ?case unfolding forwarder_take_def by (intro inv_upd_conn [where fs = "[]"]) simp_all
next
  case (rs_forwarder_stop s c)
  then show ?case unfolding forwarder_stop_def by (intro inv_upd_conn [where fs = "[]"]) simp_all
next
  case (rs_stream_take s w)
  then show ?case unfolding stream_take_def by (intro inv_stream_fields) simp_all
next
  case (rs_stream_abandon s w)
  then show ?case unfolding stream_abandon_def by (intro inv_stream_fields) simp_all
next
  case (rs_client_send s w data s' ok)
  then show ?case unfolding client_send_def by (blast intro: inv_send_frame)
qed (simp_all add: inv_db inv_unary_check inv_forward_begin inv_forward_abandon inv_stream_check inv_stream_begin
      inv_tunnel_register, (blast intro: inv_forward_send inv_forward_finish inv_stream_send inv_tunnel_start
        inv_tunnel_end inv_daemon_frame)+)

lemma init_relay_inv: "relay_inv (init_relay db)"
  by (simp add: relay_inv_defs init_relay_def new_connection_def)

section \<open>Waiting calls are registered\<close>

definition waiting :: "unary_call \<Rightarrow> bool" where
  "waiting k \<longleftrightarrow> (uc_phase k = UWaiting \<or> (\<exists>f. uc_phase k = USending f)) \<and> uc_slot k = SlotEmpty"

definition wait_inv :: "relay_state \<Rightarrow> bool" where
  "wait_inv s \<longleftrightarrow> (\<forall>w. waiting (rl_call s w) \<longrightarrow>
     hm_get (tc_pending (rl_conn s (uc_conn (rl_call s w)))) (uc_request_id (rl_call s w)) = Some w)"

lemma wait_invD:
  "wait_inv s \<Longrightarrow> waiting (rl_call s w) \<Longrightarrow>
     hm_get (tc_pending (rl_conn s (uc_conn (rl_call s w)))) (uc_request_id (rl_call s w)) = Some w"
  by (simp add: wait_inv_def)

text \<open>Steps that leave the tables of waiters alone and make no new call wait.\<close>

lemma wait_frame:
  assumes "wait_inv s" and "\<And>c. tc_pending (rl_conn t c) = tc_pending (rl_conn s c)"
    and "\<And>w. waiting (rl_call t w) \<Longrightarrow> waiting (rl_call s w) \<and> uc_conn (rl_call t w) = uc_conn (rl_call s w)
           \<and> uc_request_id (rl_call t w) = uc_request_id (rl_call s w)"
  shows "wait_inv t"
  unfolding wait_inv_def using assms(2,3) wait_invD [OF assms(1)] by simp

text \<open>Entries are taken out of one table; none of their calls waits any more.\<close>

lemma wait_removed:
  assumes "wait_inv s" and "\<And>c'. c' \<noteq> c \<Longrightarrow> tc_pending (rl_conn t c') = tc_pending (rl_conn s c')"
    and "\<And>rid w. hm_get (tc_pending (rl_conn s c)) rid = Some w \<Longrightarrow> waiting (rl_call t w) \<Longrightarrow>
           hm_get (tc_pending (rl_conn t c)) rid = Some w"
    and "\<And>w. waiting (rl_call t w) \<Longrightarrow> waiting (rl_call s w) \<and> uc_conn (rl_call t w) = uc_conn (rl_call s w)
           \<and> uc_request_id (rl_call t w) = uc_request_id (rl_call s w)"
  shows "wait_inv t"
  unfolding wait_inv_def
proof (intro allI impI)
  fix w assume w: "waiting (rl_call t w)"
  note same = assms(4) [OF w]
  show "hm_get (tc_pending (rl_conn t (uc_conn (rl_call t w)))) (uc_request_id (rl_call t w)) = Some w"
    using wait_invD [OF assms(1), of w] same assms(2,3) w by (cases "uc_conn (rl_call s w) = c") auto
qed

lemma drop_sender_waiting:
  "waiting (rl_call (drop_sender w s) v) \<longleftrightarrow> waiting (rl_call s v) \<and> w \<noteq> Some v"
  by (auto simp: waiting_def drop_sender_def split: option.split)

lemma wait_remove_pending: "wait_inv s \<Longrightarrow> wait_inv (remove_pending c rid s)"
  by (erule wait_removed [where c = c])
     (auto simp: remove_pending_def drop_sender_waiting split: if_splits)

lemma wait_register_pending:
  assumes "\<And>v. v \<noteq> w \<Longrightarrow> waiting (rl_call s v) \<Longrightarrow>
      hm_get (tc_pending (rl_conn s (uc_conn (rl_call s v)))) (uc_request_id (rl_call s v)) = Some v"
    and "uc_conn (rl_call s w) = c" and "uc_request_id (rl_call s w) = rid"
  shows "wait_inv (register_pending c rid w s)"
  unfolding wait_inv_def
proof (intro allI impI)
  fix v assume "waiting (rl_call (register_pending c rid w s) v)"
  then have "waiting (rl_call s v)" and "hm_get (tc_pending (rl_conn s c)) rid \<noteq> Some v"
    by (simp_all add: register_pending_def drop_sender_waiting)
  with assms show "hm_get (tc_pending (rl_conn (register_pending c rid w s)
      (uc_conn (rl_call (register_pending c rid w s) v)))) (uc_request_id (rl_call (register_pending c rid w s) v)) = Some v"
    by (cases "v = w") (simp_all add: register_pending_def, metis)
qed

lemma complete_pending_waiting:
  "waiting (rl_call (fst (complete_pending c rid f s)) v) \<longleftrightarrow>
     waiting (rl_call s v) \<and> hm_get (tc_pending (rl_conn s c)) rid \<noteq> Some v"
  by (auto simp: complete_pending_def waiting_def Let_def split: option.split)

lemma complete_pending_cells:
  "uc_conn (rl_call (fst (complete_pending c rid f s)) v) = uc_conn (rl_call s v)"
  "uc_request_id (rl_call (fst (complete_pending c rid f s)) v) = uc_request_id (rl_call s v)"
  "tc_pending (rl_conn (fst (complete_pending c rid f s)) c') =
     (if c' = c then hm_remove rid (tc_pending (rl_conn s c)) else tc_pending (rl_conn s c'))"
  by (auto simp: complete_pending_def Let_def delete_id map_of_eq_None_iff split: option.split)

lemma wait_complete_pending: "wait_inv s \<Longrightarrow> wait_inv (fst (complete_pending c rid f s))"
  by (erule wait_removed [where c = c])
     (auto simp: complete_pending_waiting complete_pending_cells split: if_splits)

lemma wait_cancel_all_pending:
  assumes "wait_inv s"
  shows "wait_inv (cancel_all_pending c s)"
proof -
  let ?d = "\<lambda>ps. foldr (\<lambda>(_, w). drop_sender (Some w)) ps s"
  have w: "waiting (rl_call (?d ps) v) \<longleftrightarrow> waiting (rl_call s v) \<and> v \<notin> snd ` set ps"
    and c: "uc_conn (rl_call (?d ps) v) = uc_conn (rl_call s v)"
    and r: "uc_request_id (rl_call (?d ps) v) = uc_request_id (rl_call s v)"
    and k: "rl_conn (?d ps) = rl_conn s" for ps v
    by (induction ps) (auto simp: drop_sender_waiting)
  have q: "rl_call (foldr (\<lambda>(_, w). drop_stream_sender (Some w)) ps t) = rl_call t"
    "rl_conn (foldr (\<lambda>(_, w). drop_stream_sender (Some w)) ps t) = rl_conn t" for t and ps :: "(string \<times> nat) list"
    by (induction ps) auto
  show ?thesis
    by (rule wait_removed [OF assms, where c = c])
       (auto simp: cancel_all_pending_def w c r k q dest!: map_of_SomeD split: if_splits, force)
qed

lemma send_stream_frame_cells:
  assumes "send_stream_frame c rid f s = Some (s', ok)"
  shows "rl_call s' = rl_call s" "tc_pending (rl_conn s' c') = tc_pending (rl_conn s c')"
    "tc_machine_id (rl_conn s' c') = tc_machine_id (rl_conn s c')" "tc_owner_id (rl_conn s' c') = tc_owner_id (rl_conn s c')"
    "rl_next s' = rl_next s" "rl_connections s' = rl_connections s" "rl_db s' = rl_db s" "rl_task s' = rl_task s"
    "sc_phase (rl_stream s' v) = sc_phase (rl_stream s v)" "sc_conn (rl_stream s' v) = sc_conn (rl_stream s v)"
    "sc_machine_id (rl_stream s' v) = sc_machine_id (rl_stream s v)" "sc_user (rl_stream s' v) = sc_user (rl_stream s v)"
  using assms by (auto simp: send_stream_frame_def complete_stream_def drop_stream_sender_def Let_def
      split: option.splits if_splits)

lemma wait_same_calls:
  "wait_inv s \<Longrightarrow> rl_call t = rl_call s \<Longrightarrow> (\<And>c. tc_pending (rl_conn t c) = tc_pending (rl_conn s c)) \<Longrightarrow> wait_inv t"
  by (simp add: wait_inv_def)

lemma complete_stream_pending [simp]:
  "rl_call (fst (complete_stream c rid s)) = rl_call s"
  "tc_pending (rl_conn (fst (complete_stream c rid s)) c') = tc_pending (rl_conn s c')"
  by (simp_all add: complete_stream_def)

lemma wait_daemon_frame:
  assumes "wait_inv s" and "daemon_frame c f s = Some s'"
  shows "wait_inv s'"
proof -
  define s0 where "s0 = upd_conn c (\<lambda>k. k\<lparr>tc_received := tc_received k @ [f]\<rparr>) s"
  have i: "wait_inv s0" by (rule wait_same_calls [OF assms(1)]) (simp_all add: s0_def)
  have sent: "wait_inv t" if "send_stream_frame c (tf_request_id f) f s0 = Some (t, ok)" for t ok
    by (rule wait_same_calls [OF i]) (simp_all add: send_stream_frame_cells [OF that])
  have closed: "wait_inv t \<Longrightarrow> wait_inv (fst (complete_stream c rid t))" for rid t
    by (erule wait_same_calls) simp_all
  have clear: "wait_inv (clear_cancelled_stream c rid s0)" for rid
    by (rule wait_same_calls [OF i]) (simp_all add: clear_cancelled_stream_def)
  show ?thesis
    using assms(2) i unfolding daemon_frame_def Let_def s0_def [symmetric]
    by (auto split: frame_type.splits if_splits simp: clear intro!: wait_complete_pending closed dest!: sent)
qed

lemma wait_phase:
  assumes "wait_inv s" and "waiting (g (rl_call s w)) \<Longrightarrow> waiting (rl_call s w) \<and> uc_conn (g (rl_call s w)) = uc_conn (rl_call s w)
     \<and> uc_request_id (g (rl_call s w)) = uc_request_id (rl_call s w)"
  shows "wait_inv (upd_call w g s)"
  by (rule wait_frame [OF assms(1)]) (use assms(2) in auto)

lemma wait_send_frame: "wait_inv s \<Longrightarrow> send_frame c f s = Some (s', ok) \<Longrightarrow> wait_inv s'"
  by (erule wait_same_calls) (simp_all add: send_frame_cells)

lemma wait_forward_begin:
  assumes "wait_inv s" and "uc_phase (rl_call s w) = UChecked"
  shows "wait_inv (forward_begin bc q q' now json w s)"
proof (cases "get_connection (uc_machine_id (rl_call s w)) s")
  case None
  have "wait_inv (s\<lparr>rl_db := db\<rparr>)" for db using assms(1) by (simp add: wait_inv_def)
  with None show ?thesis
    by (auto simp: forward_begin_def Let_def waiting_def split: prod.split sum.split intro!: wait_phase)
next
  case (Some c)
  then show ?thesis
    by (auto simp: forward_begin_def Let_def intro!: wait_register_pending wait_invD [OF assms(1)])
qed

lemma wait_forward_send:
  assumes "wait_inv s" and "uc_phase (rl_call s w) = USending f" and "forward_send w f s = Some s'"
  shows "wait_inv s'"
proof -
  obtain s1 ok where s1: "send_frame (uc_conn (rl_call s w)) f s = Some (s1, ok)"
    using assms(3) by (auto simp: forward_send_def Let_def split: option.splits)
  have i: "wait_inv s1" using assms(1) s1 by (rule wait_send_frame)
  show ?thesis
    using assms(3) s1 send_frame_cells(1) [OF s1] assms(2)
    by (auto simp: forward_send_def Let_def waiting_def split: bool.splits intro!: wait_phase [OF i])
qed

lemma wait_forward_finish: "wait_inv s \<Longrightarrow> forward_finish w b s = Some s' \<Longrightarrow> wait_inv s'"
  by (auto simp: forward_finish_def Let_def waiting_def split: oneshot.splits if_splits
      intro!: wait_remove_pending wait_phase)

lemma wait_tunnel_start:
  assumes "wait_inv s" and "tunnel_start_step parse q now c s = Some s'"
  shows "wait_inv s'"
proof -
  have d: "wait_inv t" if "drain_message parse q c' msg s = Some (t, ok)" for t c' msg ok
    by (rule wait_same_calls [OF assms(1)]) (simp_all add: drain_message_cells [OF that])
  have p: "wait_inv t \<Longrightarrow> wait_inv (set_task c p t)" "wait_inv t \<Longrightarrow> wait_inv (set_task c p (t\<lparr>rl_db := db\<rparr>))" for p t db
    by (simp_all add: wait_inv_def)
  show ?thesis
    using assms(2) p [OF assms(1)] p(1) [OF d]
    by (auto simp: tunnel_start_step_def Let_def split: tunnel_phase.splits list.splits option.splits sum.splits)
qed

lemma wait_tunnel_end:
  assumes "wait_inv s" and "tunnel_end_step q now c s = Some s'"
  shows "wait_inv s'"
proof -
  have u: "wait_inv (forwarder_stop c (fst (unregister_connection m s)))" for m
    by (rule wait_same_calls [OF assms(1)]) (simp_all add: forwarder_stop_def unregister_connection_def)
  have p: "wait_inv t \<Longrightarrow> wait_inv (set_task c p t)" "wait_inv t \<Longrightarrow> wait_inv (set_task c p (t\<lparr>rl_db := db\<rparr>))" for p t db
    by (simp_all add: wait_inv_def)
  show ?thesis
    using assms(2) p(1) [OF u] p(2) [OF assms(1)] p(1) [OF wait_cancel_all_pending [OF assms(1)]]
    by (auto simp: tunnel_end_step_def Let_def split: tunnel_phase.splits)
qed

lemma wait_tunnel_register:
  assumes "relay_inv s" and "wait_inv s"
  shows "wait_inv (tunnel_register m u s)"
  unfolding wait_inv_def
proof (intro allI impI)
  fix w assume "waiting (rl_call (tunnel_register m u s) w)"
  then have *: "hm_get (tc_pending (rl_conn s (uc_conn (rl_call s w)))) (uc_request_id (rl_call s w)) = Some w"
    using wait_invD [OF assms(2)] by (simp add: tunnel_register_def register_connection_def Let_def)
  from pending_okD [OF assms(1) this] have "uc_conn (rl_call s w) \<noteq> rl_next s" by simp
  with * show "hm_get (tc_pending (rl_conn (tunnel_register m u s) (uc_conn (rl_call (tunnel_register m u s) w))))
      (uc_request_id (rl_call (tunnel_register m u s) w)) = Some w"
    by (simp add: tunnel_register_def register_connection_def Let_def)
qed

lemma relay_step_wait: "relay_step removal s t \<Longrightarrow> relay_inv s \<Longrightarrow> wait_inv s \<Longrightarrow> wait_inv t"
proof (induction rule: relay_step.induct)
  case (rs_unary_check s q u m rid mth data)
  have "\<not> waiting \<lparr> uc_user = u, uc_machine_id = m, uc_request_id = rid, uc_method = mth, uc_data = data, uc_conn = 0,
      uc_phase = UChecked, uc_slot = SlotEmpty \<rparr>" by (simp add: waiting_def)
  with rs_unary_check show ?case by (auto simp: unary_check_def new_unary_call_def attempt_def wait_inv_def split: sum.split)
next
  case (rs_forward_abandon s w)
  then show ?case unfolding forward_abandon_def by (intro wait_phase) (simp_all add: waiting_def)
next
  case (rs_stream_check s q u m rid mth data)
  then show ?case by (auto simp: stream_check_def new_stream_call_def attempt_def wait_inv_def split: sum.split)
next
  case (rs_stream_begin w s)
  then show ?case
    by (auto simp: stream_begin_def register_stream_pending_def Let_def wait_inv_def split: option.split)
next
  case (rs_stream_send s w f s')
  then show ?case
    by (auto simp: stream_send_def split: option.splits bool.splits)
       (erule wait_same_calls; simp add: send_frame_cells)+
next
  case (rs_client_send s w data s' ok)
  then show ?case unfolding client_send_def by (blast intro: wait_send_frame)
next
  case (rs_stream_take s w)
  show ?case by (rule wait_same_calls [OF rs_stream_take.prems(2)]) (simp_all add: stream_take_def)
next
  case (rs_stream_abandon s w)
  show ?case by (rule wait_same_calls [OF rs_stream_abandon.prems(2)]) (simp_all add: stream_abandon_def)
next
  case (rs_forwarder_take s c)
  show ?case by (rule wait_same_calls [OF rs_forwarder_take.prems(2)]) (simp_all add: forwarder_take_def)
next
  case (rs_forwarder_stop s c)
  show ?case by (rule wait_same_calls [OF rs_forwarder_stop.prems(2)]) (simp_all add: forwarder_stop_def)
next
  case (rs_database s db)
  show ?case by (rule wait_same_calls [OF rs_database.prems(2)]) simp_all
qed (blast intro: wait_forward_begin wait_tunnel_register wait_forward_send wait_forward_finish wait_tunnel_start
      wait_tunnel_end wait_daemon_frame)+

lemma init_relay_wait: "wait_inv (init_relay db)"
  by (simp add: wait_inv_def waiting_def init_relay_def)

interpretation relay_run: step_system "\<lambda>s. \<exists>db. relay_wf db \<and> s = init_relay db" "relay_step removal"
    "\<lambda>s. relay_inv s \<and> wait_inv s" for removal
  by unfold_locales (auto simp: init_relay_inv init_relay_wait intro: relay_step_inv relay_step_wait)

text \<open>
  C11. In every run of the relay, with any interleaving of calls, streams, tunnels and removals of
  machines, a call returns only a frame that carries its own request identifier and that arrived
  on the connection the request was sent on; and the frames handed to a stream are frames of its own
  request from its own connection, in the order in which the daemon sent them and none of them twice.
\<close>

theorem responses_routed:
  assumes "relay_reach removal s"
  shows "(uc_phase (rl_call s w) = UReturned (Inr f) \<longrightarrow>
       tf_request_id f = uc_request_id (rl_call s w) \<and> f \<in> set (tc_received (rl_conn s (uc_conn (rl_call s w)))))
     \<and> subseq (sc_frames (rl_stream s w)) (frames_of (sc_request_id (rl_stream s w))
         (tc_received (rl_conn s (sc_conn (rl_stream s w)))))"
proof -
  have "relay_inv s" using relay_run.reach_inv [OF assms] by simp
  then have "call_ok s (rl_call s w)" and "stream_ok s (rl_stream s w)" by (simp_all add: inv_call_ok inv_stream_ok)
  then show ?thesis unfolding call_ok_def stream_ok_def by blast
qed

text \<open>
  C12. In every run of the relay, when a call waits and the daemon at the other end of its
  connection sends the response (or an error frame, or data, when no stream uses the identifier),
  the frame is taken without waiting, goes to this call and to no other call or stream, and the
  call returns it whether or not its timeout passes at that moment.
\<close>

theorem response_delivered:
  assumes "relay_reach removal s" and "uc_phase (rl_call s w) = UWaiting" and "uc_slot (rl_call s w) = SlotEmpty"
    and "tf_request_id f = uc_request_id (rl_call s w)" and "c = uc_conn (rl_call s w)"
    and "tf_frame_type f = FtResponse \<or>
      tf_frame_type f \<in> {FtError, FtStreamData} \<and> \<not> has_stream_pending c (tf_request_id f) s"
  shows "\<exists>s'. daemon_frame c f s = Some s'
    \<and> map_option (\<lambda>s. uc_phase (rl_call s w)) (forward_finish w timed_out s') = Some (UReturned (Inr f))
    \<and> (\<forall>v. v \<noteq> w \<longrightarrow> rl_call s' v = rl_call s v) \<and> rl_stream s' = rl_stream s"
proof -
  have "wait_inv s" using relay_run.reach_inv [OF assms(1)] by simp
  then have p: "hm_get (tc_pending (rl_conn s c)) (tf_request_id f) = Some w"
    using wait_invD [of s w] assms(2-5) by (simp add: waiting_def)
  define s0 where "s0 = upd_conn c (\<lambda>k. k\<lparr>tc_received := tc_received k @ [f]\<rparr>) s"
  define s1 where "s1 = fst (complete_pending c (tf_request_id f) f s0)"
  have s1: "uc_slot (rl_call s1 w) = SlotFrame f" "\<forall>v. v \<noteq> w \<longrightarrow> rl_call s1 v = rl_call s v" "rl_stream s1 = rl_stream s"
    using p assms(3) by (simp_all add: s1_def s0_def complete_pending_def Let_def)
  have "send_stream_frame c (tf_request_id f) f s0 = Some (s0, False)" if "\<not> has_stream_pending c (tf_request_id f) s"
    using that by (simp add: send_stream_frame_def s0_def has_stream_pending_def)
  then have "daemon_frame c f s = Some s1"
    using assms(6) unfolding daemon_frame_def Let_def s0_def [symmetric] by (auto simp: s1_def)
  moreover have "map_option (\<lambda>s. uc_phase (rl_call s w)) (forward_finish w timed_out s1) = Some (UReturned (Inr f))"
    by (simp add: forward_finish_def s1 Let_def)
  ultimately show ?thesis using s1 by blast
qed

text \<open>A run with one call: a daemon connects, the call is sent and answered.\<close>

definition demo_machine_db :: relay_db where
  "demo_machine_db = fst (create_machine (True, []) (True, []) 0 ''m'' ''laptop'' ''u'' ''{}''
     (fst (create_user (True, []) (True, []) 0 ''u'' ''user'' ''e'' ''h'' empty_relay_db)))"

definition demo_hello :: tunnel_frame where
  "demo_hello = \<lparr> tf_request_id = [], tf_frame_type = FtControl,
     tf_payload = Some (PControl \<lparr> tl_control_type = 0, tl_params = [(''machine_id'', ''m'')] \<rparr>) \<rparr>"

abbreviation demo_start :: "nat \<Rightarrow> relay_state \<Rightarrow> relay_state" where
  "demo_start c s \<equiv> the (tunnel_start_step (\<lambda>_. None) (True, []) 1 c s)"

definition demo_connected :: relay_state where
  "demo_connected = demo_start 0 (demo_start 0 (tunnel_register ''m'' ''u'' (init_relay demo_machine_db)))"

definition demo_request :: tunnel_frame where
  "demo_request = build_request_frame ''r'' ''M'' [7] []"

definition demo_waiting :: relay_state where
  "demo_waiting = the (forward_send 1 demo_request
     (forward_begin \<lparr> bc_default_ttl_secs = 10, bc_max_per_machine = 2 \<rparr> (True, []) (True, []) 2 (Some ''{}'') 1
        (fst (unary_check (True, []) ''u'' ''m'' ''r'' ''M'' [7] demo_connected))))"

definition demo_response :: tunnel_frame where
  "demo_response = \<lparr> tf_request_id = ''r'', tf_frame_type = FtResponse, tf_payload = None \<rparr>"

definition demo_answered :: relay_state where
  "demo_answered = the (forward_finish 1 False (the (daemon_frame 0 demo_response demo_waiting)))"

lemma some_the: "x \<noteq> None \<Longrightarrow> x = Some (the x)"
  by auto

lemma relay_reach_step: "relay_reach removal s \<Longrightarrow> relay_step removal s t \<Longrightarrow> relay_reach removal t"
  by (rule reach_step)

lemma demo_wf: "relay_wf demo_machine_db"
proof -
  have "relay_wf empty_relay_db" by (rule empty_relay_db_wf)
  then show ?thesis unfolding demo_machine_db_def by (intro create_machine_wf create_user_wf)
qed

lemma demo_init_reach: "relay_reach removal (init_relay demo_machine_db)"
  by (rule reach_init) (use demo_wf in blast)

lemma demo_connected_reach: "relay_reach removal demo_connected"
proof -
  define s where "s = tunnel_register ''m'' ''u'' (init_relay demo_machine_db)"
  have a: "tunnel_admit (True, []) None ''u'' (Some demo_hello) (rl_db (init_relay demo_machine_db)) = Inr ''m''" by code_simp
  have r: "relay_reach removal s"
    unfolding s_def by (rule relay_reach_step [OF demo_init_reach]) (rule rs_tunnel_register [OF a])
  have b: "tunnel_start_step (\<lambda>_. None) (True, []) 1 0 s \<noteq> None" "0 < rl_next s" unfolding s_def by code_simp+
  have r': "relay_reach removal (demo_start 0 s)"
    by (rule relay_reach_step [OF r]) (rule rs_tunnel_start [OF b(2) some_the [OF b(1)]])
  have c: "tunnel_start_step (\<lambda>_. None) (True, []) 1 0 (demo_start 0 s) \<noteq> None" "0 < rl_next (demo_start 0 s)"
    unfolding s_def by code_simp+
  show ?thesis
    unfolding demo_connected_def s_def [symmetric]
    by (rule relay_reach_step [OF r']) (rule rs_tunnel_start [OF c(2) some_the [OF c(1)]])
qed

lemma demo_waiting_reach: "relay_reach removal demo_waiting"
proof -
  define s where "s = fst (unary_check (True, []) ''u'' ''m'' ''r'' ''M'' [7] demo_connected)"
  define t where "t = forward_begin \<lparr> bc_default_ttl_secs = 10, bc_max_per_machine = 2 \<rparr> (True, []) (True, []) 2 (Some ''{}'') 1 s"
  have r: "relay_reach removal s"
    unfolding s_def by (rule relay_reach_step [OF demo_connected_reach]) (rule rs_unary_check)
  have b: "1 < rl_next s" "uc_phase (rl_call s 1) = UChecked" unfolding s_def by code_simp+
  have r': "relay_reach removal t" unfolding t_def by (rule relay_reach_step [OF r]) (rule rs_forward_begin [OF b])
  have c: "uc_phase (rl_call t 1) = USending demo_request" "forward_send 1 demo_request t \<noteq> None"
    unfolding t_def s_def by code_simp+
  show ?thesis
    unfolding demo_waiting_def s_def [symmetric] t_def [symmetric]
    by (rule relay_reach_step [OF r']) (rule rs_forward_send [OF c(1) some_the [OF c(2)]])
qed

lemma demo_answered_reach: "relay_reach removal demo_answered"
proof -
  define t where "t = the (daemon_frame 0 demo_response demo_waiting)"
  have a: "rl_task demo_waiting 0 = TpServing" "daemon_frame 0 demo_response demo_waiting \<noteq> None" by code_simp+
  have r: "relay_reach removal t"
    unfolding t_def by (rule relay_reach_step [OF demo_waiting_reach]) (rule rs_daemon_frame [OF a(1) some_the [OF a(2)]])
  have b: "uc_phase (rl_call t 1) = UWaiting" "forward_finish 1 False t \<noteq> None" unfolding t_def by code_simp+
  show ?thesis
    unfolding demo_answered_def t_def [symmetric]
    by (rule relay_reach_step [OF r]) (rule rs_forward_finish [OF b(1) some_the [OF b(2)]])
qed

theorem responses_routed_witness:
  "uc_phase (rl_call demo_answered 1) = UReturned (Inr demo_response)
   \<and> tf_request_id demo_response = uc_request_id (rl_call demo_answered 1)
   \<and> demo_response \<in> set (tc_received (rl_conn demo_answered (uc_conn (rl_call demo_answered 1))))"
proof -
  have "uc_phase (rl_call demo_answered 1) = UReturned (Inr demo_response)" by code_simp
  with responses_routed [OF demo_answered_reach, of 1 demo_response] show ?thesis by blast
qed

theorem response_delivered_witness:
  "uc_phase (rl_call demo_waiting 1) = UWaiting \<and> (\<exists>s'. daemon_frame 0 demo_response demo_waiting = Some s'
    \<and> map_option (\<lambda>s. uc_phase (rl_call s 1)) (forward_finish 1 True s') = Some (UReturned (Inr demo_response)))"
proof -
  have "uc_phase (rl_call demo_waiting 1) = UWaiting" "uc_slot (rl_call demo_waiting 1) = SlotEmpty"
    "tf_request_id demo_response = uc_request_id (rl_call demo_waiting 1)" "0 = uc_conn (rl_call demo_waiting 1)"
    "tf_frame_type demo_response = FtResponse" by code_simp+
  with response_delivered [OF demo_waiting_reach this(1-4), where timed_out = True] show ?thesis by blast
qed

end
