(* ===== verification/RelayDrain.thy ===== *)
theory RelayDrain
  imports RelayRuns
begin

text \<open>
  What happens to buffered requests when their machine connects. The channel to a daemon has 128
  places, and the task that empties it is started after the buffer has been drained into it.
\<close>

section \<open>Draining that fits\<close>

definition free_places :: "nat \<Rightarrow> relay_state \<Rightarrow> nat" where
  "free_places c s = CHANNEL_SIZE - (length (tc_queue (rl_conn s c)) - tc_taken (rl_conn s c))"

text \<open>The state after the messages were sent and their rows deleted.\<close>

definition delivered_state ::
  "(string \<Rightarrow> (string, string) hmap option) \<Rightarrow> nat \<Rightarrow> buffered_message list \<Rightarrow> relay_state \<Rightarrow> relay_state" where
  "delivered_state parse c msgs s =
     (upd_conn c (\<lambda>k. k\<lparr>tc_queue := tc_queue k @ map (buffered_frame parse) msgs\<rparr>) s)
     \<lparr>rl_db := (rl_db s)\<lparr>message_buffer := filter (\<lambda>r. bm_id r \<notin> bm_id ` set msgs) (message_buffer (rl_db s))\<rparr>\<rparr>"

lemma drain_message_sent:
  assumes "tc_receiver (rl_conn s c)" and "0 < free_places c s" and "fst q"
  shows "drain_message parse q c msg s = Some (delivered_state parse c [msg] s, True)"
  using assms
  by (simp add: drain_message_def send_frame_def free_places_def delivered_state_def delete_buffered_message_def
      upd_conn_def Let_def)

lemma drain_message_waits:
  "tc_receiver (rl_conn s c) \<Longrightarrow> free_places c s = 0 \<Longrightarrow> drain_message parse q c msg s = None"
  by (simp add: drain_message_def send_frame_def free_places_def Let_def)

lemma delivered_Cons:
  "delivered_state parse c msgs (delivered_state parse c [msg] s) = delivered_state parse c (msg # msgs) s"
  by (simp add: delivered_state_def upd_conn_def filter_filter conj_commute)

lemma delivered_Nil [simp]: "delivered_state parse c [] s = s"
  by (simp add: delivered_state_def upd_conn_def)

lemma drain_messages_result:
  assumes "tc_receiver (rl_conn s c)" and "tc_taken (rl_conn s c) \<le> length (tc_queue (rl_conn s c))"
    and "\<forall>i. fst (q i)"
  shows "drain_messages parse q c msgs sent s =
    (let n = free_places c s; t = delivered_state parse c (take n msgs) s
     in if length msgs \<le> n then Drained t (sent + length msgs) else DrainWaits t (drop n msgs))"
  using assms(1,2)
proof (induction msgs arbitrary: sent s)
  case (Cons msg msgs)
  show ?case
  proof (cases "free_places c s")
    case 0
    with Cons.prems show ?thesis by (simp add: drain_message_waits Let_def)
  next
    case (Suc n)
    let ?t = "delivered_state parse c [msg] s"
    have t: "free_places c ?t = n" "tc_receiver (rl_conn ?t c)"
      "tc_taken (rl_conn ?t c) \<le> length (tc_queue (rl_conn ?t c))"
      using Suc Cons.prems by (auto simp: free_places_def delivered_state_def)
    have "drain_message parse (q sent) c msg s = Some (?t, True)"
      using Cons.prems(1) Suc assms(3) by (intro drain_message_sent) simp_all
    with Cons.IH [OF t(2,3)] show ?thesis by (simp add: t(1) Suc Let_def delivered_Cons)
  qed
qed (simp add: Let_def)

text \<open>The order in which the buffer is read.\<close>

definition drain_before :: "buffered_message \<Rightarrow> buffered_message \<Rightarrow> bool" where
  "drain_before a b \<longleftrightarrow> bm_priority a > bm_priority b \<or> (bm_priority a = bm_priority b \<and> bm_created_at a \<le> bm_created_at b)"

lemma sort_key_stable_sorted:
  fixes f g :: "'a \<Rightarrow> 'b::linorder"
  assumes "sorted (map g xs)"
  shows "sorted_wrt (\<lambda>a b. f a < f b \<or> (f a = f b \<and> g a \<le> g b)) (sort_key f xs)"
proof (rule sorted_wrt_iff_nth_less [THEN iffD2], intro allI impI)
  fix i j assume ij: "i < j" "j < length (sort_key f xs)"
  let ?ys = "sort_key f xs"
  have le: "f (?ys ! i) \<le> f (?ys ! j)"
    using sorted_nth_mono [OF sorted_sort_key [of f xs], of i j] ij by simp
  show "f (?ys ! i) < f (?ys ! j) \<or> f (?ys ! i) = f (?ys ! j) \<and> g (?ys ! i) \<le> g (?ys ! j)"
  proof (cases "f (?ys ! i) = f (?ys ! j)")
    case True
    let ?p = "\<lambda>y. f y = f (?ys ! i)"
    have "filter ?p ?ys = filter ?p xs" by (rule sort_key_stable)
    moreover have "sorted (map g (filter ?p xs))" using assms by (rule sorted_filter)
    ultimately have s: "sorted_wrt (\<lambda>a b. g a \<le> g b) (filter ?p ?ys)" by (simp add: sorted_map)
    have "?ys = take j ?ys @ ?ys ! j # drop (Suc j) ?ys" using ij by (simp add: id_take_nth_drop)
    then have "filter ?p ?ys = filter ?p (take j ?ys) @ ?ys ! j # filter ?p (drop (Suc j) ?ys)"
      using True by (metis (mono_tags, lifting) filter.simps(2) filter_append)
    moreover have "?ys ! i \<in> set (filter ?p (take j ?ys))" using ij by (auto simp: in_set_conv_nth)
    ultimately have "g (?ys ! i) \<le> g (?ys ! j)" using s by (simp add: sorted_wrt_append)
    with True show ?thesis by simp
  qed (use le in simp)
qed

lemma live_messages_order: "sorted_wrt drain_before (live_messages now m db)"
  using sort_key_stable_sorted [where f = "\<lambda>r. - bm_priority r" and g = bm_created_at,
      OF sorted_sort_key [of bm_created_at "filter (\<lambda>r. bm_machine_id r = m \<and> bm_expires_at r > now) (message_buffer db)"]]
  unfolding live_messages_def drain_before_def by simp

lemma set_live_messages:
  "set (live_messages now m db) = {r \<in> set (message_buffer db). bm_machine_id r = m \<and> bm_expires_at r > now}"
  by (auto simp: live_messages_def)

text \<open>
  C14. Draining the buffer of a machine whose connection has room for all its live messages, when
  the statements execute: every message that has not expired is sent exactly once, the number is
  reported, exactly their rows are deleted, and nothing else changes in the database. Messages with
  the larger priority number are sent first, older ones first among equals. This is the opposite of
  the documented order: \<^verbatim>\<open>docs/architecture/TOPOLOGY.md\<close> makes 0 the highest priority and 4 the lowest,
  and a message of priority 0 is sent after every message of priority 1 to 4.
\<close>

theorem drain_delivers_in_order:
  assumes "relay_wf (rl_db s)" and "get_connection m s = Some c" and "tc_receiver (rl_conn s c)"
    and "tc_taken (rl_conn s c) \<le> length (tc_queue (rl_conn s c))"
    and "msgs = live_messages now m (rl_db s)" and "length msgs \<le> free_places c s" and "fst q" and "\<forall>i. fst (q' i)"
  shows "\<exists>t. drain_buffer parse q q' now m s = Inr (Drained t (length msgs))
    \<and> tc_queue (rl_conn t c) = tc_queue (rl_conn s c) @ map (buffered_frame parse) msgs
    \<and> sorted_wrt drain_before msgs \<and> distinct msgs
    \<and> rl_db t = (rl_db s)\<lparr>message_buffer :=
        filter (\<lambda>r. \<not> (bm_machine_id r = m \<and> bm_expires_at r > now)) (message_buffer (rl_db s))\<rparr>"
proof -
  let ?t = "delivered_state parse c msgs s"
  have ids: "distinct (map bm_id (message_buffer (rl_db s)))" using assms(1) by (simp add: relay_wf_def buffer_wf_def)
  have eq: "filter (\<lambda>r. bm_id r \<notin> bm_id ` set msgs) (message_buffer (rl_db s))
      = filter (\<lambda>r. \<not> (bm_machine_id r = m \<and> bm_expires_at r > now)) (message_buffer (rl_db s))"
    using ids unfolding assms(5) set_live_messages
    by (intro filter_cong) (auto simp: distinct_map inj_on_def)
  have "distinct (message_buffer (rl_db s))" using ids by (simp add: distinct_map)
  then have "distinct msgs" by (simp add: assms(5) live_messages_def)
  moreover have "drain_buffer parse q q' now m s = Inr (Drained ?t (length msgs))"
  proof (cases "msgs = []")
    case True
    then show ?thesis
      using assms(5,7) by (simp add: drain_buffer_def drain_begin_def drain_buffer_query_def)
  next
    case False
    then show ?thesis
      using assms drain_messages_result [OF assms(3,4,8), of parse msgs 0]
      by (simp add: drain_buffer_def drain_begin_def drain_buffer_query_def Let_def)
  qed
  moreover have "tc_queue (rl_conn ?t c) = tc_queue (rl_conn s c) @ map (buffered_frame parse) msgs"
    by (simp add: delivered_state_def)
  moreover have "rl_db ?t = (rl_db s)\<lparr>message_buffer :=
      filter (\<lambda>r. \<not> (bm_machine_id r = m \<and> bm_expires_at r > now)) (message_buffer (rl_db s))\<rparr>"
    by (simp add: delivered_state_def eq)
  ultimately show ?thesis using live_messages_order assms(5) by blast
qed

text \<open>A machine with requests waiting for it.\<close>

definition demo_params :: buffer_message_params where
  "demo_params = \<lparr> bp_machine_id = ''m'', bp_request_id = ''r'', bp_method = ''M'', bp_payload = [], bp_metadata = ''{}'',
     bp_priority = 0, bp_ttl_secs = 100 \<rparr>"

definition demo_backlog :: "nat \<Rightarrow> relay_db" where
  "demo_backlog n = ((\<lambda>db. fst (buffer_message (True, []) 0 demo_params db)) ^^ n) demo_machine_db"

lemma demo_backlog_Suc: "demo_backlog (Suc n) = fst (buffer_message (True, []) 0 demo_params (demo_backlog n))"
  by (simp add: demo_backlog_def)

lemma demo_backlog_wf: "relay_wf (demo_backlog n)"
  by (induction n) (simp_all only: demo_backlog_Suc buffer_message_wf, simp add: demo_backlog_def demo_wf)

lemma demo_backlog_machines: "machines (demo_backlog n) = machines demo_machine_db"
  by (induction n) (simp_all add: demo_backlog_Suc buffer_message_def Let_def demo_backlog_def)

lemma demo_backlog_live: "length (live_messages 1 ''m'' (demo_backlog n)) = n"
proof -
  have m: "''m'' \<in> set (map mc_id (machines demo_machine_db))" by code_simp
  have "length (filter (\<lambda>r. bm_machine_id r = ''m'' \<and> bm_expires_at r > 1) (message_buffer (demo_backlog n))) = n"
  proof (induction n)
    case 0
    show ?case unfolding demo_backlog_def funpow_0 by code_simp
  next
    case (Suc n)
    have "message_buffer (demo_backlog (Suc n)) = message_buffer (demo_backlog n) @
        [\<lparr> bm_id = last_buffer_id (demo_backlog n) + 1, bm_machine_id = ''m'', bm_request_id = ''r'', bm_method = ''M'',
           bm_payload = [], bm_metadata = ''{}'', bm_priority = 0, bm_expires_at = 100, bm_created_at = 0 \<rparr>]"
      using m by (simp add: demo_backlog_Suc buffer_message_def Let_def demo_backlog_machines demo_params_def del: set_map)
    with Suc show ?case by simp
  qed
  then show ?thesis by (simp add: live_messages_def)
qed

definition demo_reconnecting :: "nat \<Rightarrow> relay_state" where
  "demo_reconnecting n = demo_start 0 (tunnel_register ''m'' ''u'' (init_relay (demo_backlog n)))"

lemma demo_reconnecting_cells:
  "get_connection ''m'' (demo_reconnecting n) = Some 0" "rl_conn (demo_reconnecting n) 0 = new_connection ''m'' ''u''"
  "rl_task (demo_reconnecting n) 0 = TpOnline" "rl_next (demo_reconnecting n) = 1"
  "rl_db (demo_reconnecting n) = fst (update_machine_status (True, []) 1 ''m'' ''online'' (demo_backlog n))"
  by (simp_all add: demo_reconnecting_def tunnel_register_def register_connection_def tunnel_start_step_def init_relay_def
      get_connection_def new_connection_def Let_def)

lemma demo_reconnecting_db:
  "relay_wf (rl_db (demo_reconnecting n))"
  "message_buffer (rl_db (demo_reconnecting n)) = message_buffer (demo_backlog n)"
  by (simp_all add: demo_reconnecting_cells machine_status_wf demo_backlog_wf) (simp add: update_machine_status_def)

lemma demo_reconnecting_live: "length (live_messages 1 ''m'' (rl_db (demo_reconnecting n))) = n"
  using demo_backlog_live [of n] by (simp add: live_messages_def demo_reconnecting_db)

theorem drain_delivers_in_order_witness:
  "\<exists>t. drain_buffer (\<lambda>_. None) (True, []) (\<lambda>_. (True, [])) 1 ''m'' (demo_reconnecting 100) = Inr (Drained t 100)
     \<and> message_buffer (rl_db t) = filter (\<lambda>r. \<not> (bm_machine_id r = ''m'' \<and> bm_expires_at r > 1)) (message_buffer (demo_backlog 100))"
proof -
  note demo_reconnecting_live [of 100]
  with drain_delivers_in_order [OF demo_reconnecting_db(1) [of 100] demo_reconnecting_cells(1) _ _ refl, where now = 1
      and q = "(True, [])" and q' = "\<lambda>_. (True, [])" and parse = "\<lambda>_. None"]
  show ?thesis
    by (auto simp: demo_reconnecting_cells(2) demo_reconnecting_db new_connection_def free_places_def CHANNEL_SIZE_def)
qed

section \<open>Draining that does not fit\<close>

text \<open>Steps that leave the channels to the daemons and the tunnel tasks alone.\<close>

definition same_chan :: "relay_state \<Rightarrow> relay_state \<Rightarrow> bool" where
  "same_chan s t \<longleftrightarrow> rl_task t = rl_task s \<and> rl_next s \<le> rl_next t
     \<and> (\<forall>c. tc_queue (rl_conn t c) = tc_queue (rl_conn s c) \<and> tc_taken (rl_conn t c) = tc_taken (rl_conn s c)
          \<and> tc_receiver (rl_conn t c) = tc_receiver (rl_conn s c))"

lemma same_chan_refl [simp]: "same_chan s s"
  by (simp add: same_chan_def)

lemma same_chan_trans: "same_chan s t \<Longrightarrow> same_chan t u \<Longrightarrow> same_chan s u"
  by (simp add: same_chan_def)

lemma same_chan_upd [simp]:
  "same_chan s (upd_call w f s)" "same_chan s (upd_stream w g s)" "same_chan s (s\<lparr>rl_db := db\<rparr>)"
  "same_chan s (drop_sender v s)" "same_chan s (drop_stream_sender v s)"
  by (simp_all add: same_chan_def)

lemma same_chan_conn:
  "tc_queue (f (rl_conn s c)) = tc_queue (rl_conn s c) \<Longrightarrow> tc_taken (f (rl_conn s c)) = tc_taken (rl_conn s c) \<Longrightarrow>
     tc_receiver (f (rl_conn s c)) = tc_receiver (rl_conn s c) \<Longrightarrow> same_chan s (upd_conn c f s)"
  by (simp add: same_chan_def)

lemma same_chan_pending:
  "same_chan s (register_pending c rid w s)" "same_chan s (remove_pending c rid s)"
  "same_chan s (fst (complete_pending c rid f s))" "same_chan s (register_stream_pending c rid w s)"
  "same_chan s (fst (complete_stream c rid s))" "same_chan s (clear_cancelled_stream c rid s)"
  by (auto simp: same_chan_def register_pending_def remove_pending_def complete_pending_def register_stream_pending_def
      complete_stream_def clear_cancelled_stream_def Let_def split: option.split)

lemma same_chan_send_stream: "send_stream_frame c rid f s = Some (s', ok) \<Longrightarrow> same_chan s s'"
  by (auto simp: same_chan_def send_stream_frame_def complete_stream_def Let_def split: option.splits if_splits)

lemma same_chan_daemon_frame:
  assumes "daemon_frame c f s = Some s'"
  shows "same_chan s s'"
proof -
  define s0 where "s0 = upd_conn c (\<lambda>k. k\<lparr>tc_received := tc_received k @ [f]\<rparr>) s"
  have 0: "same_chan s s0" unfolding s0_def by (rule same_chan_conn) simp_all
  have sent: "same_chan s t" if "send_stream_frame c (tf_request_id f) f s0 = Some (t, ok)" for t ok
    using same_chan_trans [OF 0 same_chan_send_stream [OF that]] .
  show ?thesis
    using assms 0 unfolding daemon_frame_def Let_def s0_def [symmetric]
    by (auto split: frame_type.splits if_splits intro: same_chan_trans [OF _ same_chan_pending(3)]
        same_chan_trans [OF _ same_chan_pending(5)] same_chan_trans [OF _ same_chan_pending(6)] dest!: sent)
qed

text \<open>A frame may have been queued.\<close>

definition chan_grows :: "relay_state \<Rightarrow> relay_state \<Rightarrow> bool" where
  "chan_grows s t \<longleftrightarrow> rl_task t = rl_task s \<and> rl_next s \<le> rl_next t
     \<and> (\<forall>c. tc_taken (rl_conn t c) = tc_taken (rl_conn s c) \<and> tc_receiver (rl_conn t c) = tc_receiver (rl_conn s c)
          \<and> length (tc_queue (rl_conn s c)) \<le> length (tc_queue (rl_conn t c))
          \<and> (length (tc_queue (rl_conn s c)) - tc_taken (rl_conn s c) \<le> CHANNEL_SIZE \<longrightarrow>
             length (tc_queue (rl_conn t c)) - tc_taken (rl_conn s c) \<le> CHANNEL_SIZE))"

lemma same_chan_grows: "same_chan s t \<Longrightarrow> chan_grows s t"
  by (simp add: same_chan_def chan_grows_def)

lemma chan_grows_trans: "chan_grows s t \<Longrightarrow> chan_grows t u \<Longrightarrow> chan_grows s u"
  unfolding chan_grows_def by (metis le_trans)

lemma send_frame_grows: "send_frame c f s = Some (s', ok) \<Longrightarrow> chan_grows s s'"
  by (auto simp: send_frame_def chan_grows_def Let_def split: if_splits)

lemma drain_message_grows: "drain_message parse q c msg s = Some (s', ok) \<Longrightarrow> chan_grows s s'"
  by (auto simp: drain_message_def split: option.splits bool.splits dest!: send_frame_grows
      intro: chan_grows_trans [OF _ same_chan_grows [OF same_chan_upd(3)]])

lemma call_steps_grow:
  "chan_grows s (forward_begin bc q q' now json w s)" "forward_send w f s = Some s' \<Longrightarrow> chan_grows s s'"
  "forward_finish w b s = Some s' \<Longrightarrow> chan_grows s s'" "chan_grows s (forward_abandon w s)"
proof -
  show "chan_grows s (forward_begin bc q q' now json w s)"
    by (auto simp: forward_begin_def Let_def split: option.split prod.split sum.split
        intro!: same_chan_grows same_chan_trans [OF same_chan_upd(3) same_chan_upd(1)]
          same_chan_trans [OF same_chan_upd(1) same_chan_pending(1)])
  show "forward_send w f s = Some s' \<Longrightarrow> chan_grows s s'"
    by (auto simp: forward_send_def Let_def split: option.splits bool.splits
        dest!: send_frame_grows intro: chan_grows_trans [OF _ same_chan_grows [OF same_chan_upd(1)]])
  show "forward_finish w b s = Some s' \<Longrightarrow> chan_grows s s'"
    by (auto simp: forward_finish_def Let_def split: oneshot.splits if_splits
        intro!: same_chan_grows same_chan_trans [OF same_chan_upd(1) same_chan_pending(2)])
  show "chan_grows s (forward_abandon w s)" by (simp add: forward_abandon_def same_chan_grows)
qed

lemma stream_steps_grow:
  "chan_grows s (stream_begin w s)" "stream_send w f s = Some s' \<Longrightarrow> chan_grows s s'"
  "client_send w data s = Some (s', ok) \<Longrightarrow> chan_grows s s'" "chan_grows s (stream_take w s)" "chan_grows s (stream_abandon w s)"
proof -
  show "chan_grows s (stream_begin w s)"
    by (auto simp: stream_begin_def Let_def split: option.split
        intro!: same_chan_grows same_chan_trans [OF same_chan_upd(2) same_chan_pending(4)])
  show "stream_send w f s = Some s' \<Longrightarrow> chan_grows s s'"
    by (auto simp: stream_send_def split: option.splits bool.splits
        dest!: send_frame_grows intro: chan_grows_trans [OF _ same_chan_grows [OF same_chan_upd(2)]])
  show "client_send w data s = Some (s', ok) \<Longrightarrow> chan_grows s s'" by (auto simp: client_send_def intro: send_frame_grows)
  show "chan_grows s (stream_take w s)" "chan_grows s (stream_abandon w s)"
    by (simp_all add: stream_take_def stream_abandon_def same_chan_grows)
qed

lemma check_steps_grow:
  "chan_grows s (fst (unary_check q u m rid mth data s))" "chan_grows s (fst (stream_check q u m rid mth data s))"
  by (simp_all add: unary_check_def stream_check_def new_unary_call_def new_stream_call_def attempt_def chan_grows_def split: sum.split)

fun starting :: "tunnel_phase \<Rightarrow> bool" where
  "starting TpRegistered = True"
| "starting TpOnline = True"
| "starting (TpDraining _ _) = True"
| "starting _ = False"

text \<open>While a tunnel starts, nobody takes frames out of its channel.\<close>

definition chan_inv :: "relay_state \<Rightarrow> bool" where
  "chan_inv s \<longleftrightarrow> (\<forall>c. length (tc_queue (rl_conn s c)) - tc_taken (rl_conn s c) \<le> CHANNEL_SIZE
     \<and> (starting (rl_task s c) \<longrightarrow> tc_receiver (rl_conn s c) \<and> tc_taken (rl_conn s c) = 0))"

lemma chan_inv_grows: "chan_inv s \<Longrightarrow> chan_grows s t \<Longrightarrow> chan_inv t"
  unfolding chan_inv_def chan_grows_def by auto

lemma chan_inv_task: "chan_inv s \<Longrightarrow> (starting p \<Longrightarrow> starting (rl_task s c)) \<Longrightarrow> chan_inv (set_task c p s)"
  by (auto simp: chan_inv_def)

lemma chan_inv_start:
  assumes "chan_inv s" and "tunnel_start_step parse q now c s = Some s'"
  shows "chan_inv s'"
proof -
  have d: "chan_inv t \<and> rl_task t = rl_task s" if "drain_message parse q c' msg s = Some (t, ok)" for t c' msg ok
    using chan_inv_grows [OF assms(1) drain_message_grows [OF that]] drain_message_cells [OF that] by simp
  have db: "chan_inv (s\<lparr>rl_db := db, rl_task := (rl_task s)(c := TpOnline)\<rparr>)" if "rl_task s c = TpRegistered" for db
    using assms(1) that by (auto simp: chan_inv_def)
  show ?thesis
    using assms
    by (auto simp: tunnel_start_step_def Let_def split: tunnel_phase.splits list.splits option.splits sum.splits
        intro!: chan_inv_task db dest!: d)
qed

lemma cancel_all_pending_chan: "same_chan s (cancel_all_pending c s)"
proof -
  have p: "same_chan s (foldr (\<lambda>(_, w). drop_sender (Some w)) ps s)" for ps :: "(string \<times> nat) list"
    by (induction ps) (auto intro: same_chan_trans [OF _ same_chan_upd(4)])
  have q: "same_chan t (foldr (\<lambda>(_, w). drop_stream_sender (Some w)) ps t)" for t and ps :: "(string \<times> nat) list"
    by (induction ps) (auto intro: same_chan_trans [OF _ same_chan_upd(5)])
  show ?thesis
    unfolding cancel_all_pending_def by (rule same_chan_trans [OF same_chan_trans [OF p q] same_chan_conn]) simp_all
qed

lemma end_step_phase:
  assumes "tunnel_end_step q now c s = Some s'"
  shows "\<not> starting (rl_task s c)" "\<not> starting (rl_task s' c)" "rl_next s \<le> rl_next s'"
    "c' \<noteq> c \<Longrightarrow> rl_task s' c' = rl_task s c'" "tc_queue (rl_conn s' c') = tc_queue (rl_conn s c')"
    "tc_taken (rl_conn s' c') = tc_taken (rl_conn s c')"
    "c' \<noteq> c \<Longrightarrow> tc_receiver (rl_conn s' c') = tc_receiver (rl_conn s c')"
proof -
  note cp = cancel_all_pending_chan [of s c, unfolded same_chan_def]
  have "\<not> starting (rl_task s c) \<and> \<not> starting (rl_task s' c) \<and> rl_next s \<le> rl_next s'
     \<and> (c' \<noteq> c \<longrightarrow> rl_task s' c' = rl_task s c') \<and> tc_queue (rl_conn s' c') = tc_queue (rl_conn s c')
     \<and> tc_taken (rl_conn s' c') = tc_taken (rl_conn s c') \<and> (c' \<noteq> c \<longrightarrow> tc_receiver (rl_conn s' c') = tc_receiver (rl_conn s c'))"
  proof (cases "rl_task s c")
    case TpServing
    then have "s' = set_task c TpCancelled (cancel_all_pending c s)" using assms by (simp add: tunnel_end_step_def Let_def)
    then show ?thesis using cp TpServing by simp
  next
    case TpCancelled
    then have "s' = set_task c TpUnregistered (forwarder_stop c (fst (unregister_connection (tc_machine_id (rl_conn s c)) s)))"
      using assms by (simp add: tunnel_end_step_def Let_def)
    then show ?thesis using TpCancelled by (simp add: forwarder_stop_def unregister_connection_def)
  next
    case TpUnregistered
    then have "\<exists>db. s' = set_task c TpEnded (s\<lparr>rl_db := db\<rparr>)" using assms by (auto simp: tunnel_end_step_def Let_def)
    then show ?thesis using TpUnregistered by auto
  qed (use assms in \<open>simp_all add: tunnel_end_step_def Let_def\<close>)
  then show "\<not> starting (rl_task s c)" "\<not> starting (rl_task s' c)" "rl_next s \<le> rl_next s'"
    "c' \<noteq> c \<Longrightarrow> rl_task s' c' = rl_task s c'" "tc_queue (rl_conn s' c') = tc_queue (rl_conn s c')"
    "tc_taken (rl_conn s' c') = tc_taken (rl_conn s c')"
    "c' \<noteq> c \<Longrightarrow> tc_receiver (rl_conn s' c') = tc_receiver (rl_conn s c')" by simp_all
qed

lemma chan_inv_end:
  assumes "chan_inv s" and e: "tunnel_end_step q now c s = Some s'"
  shows "chan_inv s'"
  unfolding chan_inv_def
proof (intro allI conjI impI)
  fix d
  show "length (tc_queue (rl_conn s' d)) - tc_taken (rl_conn s' d) \<le> CHANNEL_SIZE"
    using assms(1) by (simp add: chan_inv_def end_step_phase(5,6) [OF e])
  assume "starting (rl_task s' d)"
  with end_step_phase(2) [OF e] have d: "d \<noteq> c" by auto
  with \<open>starting (rl_task s' d)\<close> assms(1) show "tc_receiver (rl_conn s' d)" and "tc_taken (rl_conn s' d) = 0"
    by (simp_all add: chan_inv_def end_step_phase(4,6,7) [OF e])
qed

lemma chan_inv_register: "chan_inv s \<Longrightarrow> chan_inv (tunnel_register m u s)"
  by (auto simp: chan_inv_def tunnel_register_def register_connection_def new_connection_def Let_def)

lemma relay_step_chan: "relay_step removal s t \<Longrightarrow> chan_inv s \<Longrightarrow> chan_inv t"
proof (induction rule: relay_step.induct)
  case (rs_forwarder_take s c)
  then have "length (tc_queue (rl_conn s c)) - tc_taken (rl_conn s c) \<le> CHANNEL_SIZE" by (simp add: chan_inv_def)
  then have "length (tc_queue (rl_conn s c)) - min (Suc (tc_taken (rl_conn s c))) (length (tc_queue (rl_conn s c))) \<le> CHANNEL_SIZE"
    by linarith
  with rs_forwarder_take show ?case by (auto simp: chan_inv_def forwarder_take_def)
next
  case (rs_forwarder_stop s c)
  then show ?case by (auto simp: chan_inv_def forwarder_stop_def)
next
  case (rs_database s db)
  then show ?case by (simp add: chan_inv_def)
qed (blast intro: chan_inv_grows check_steps_grow call_steps_grow stream_steps_grow chan_inv_register chan_inv_start
      chan_inv_end same_chan_grows same_chan_daemon_frame)+

lemma init_relay_chan: "chan_inv (init_relay db)"
  by (simp add: chan_inv_def init_relay_def new_connection_def)

interpretation chan_run: step_system "\<lambda>s. \<exists>db. relay_wf db \<and> s = init_relay db" "relay_step removal"
    "\<lambda>s. relay_inv s \<and> chan_inv s" for removal
  by unfold_locales (auto simp: init_relay_inv init_relay_chan intro: relay_step_inv relay_step_chan)

text \<open>A tunnel with more messages to send than its channel can still take.\<close>

definition overfull :: "nat \<Rightarrow> relay_state \<Rightarrow> bool" where
  "overfull c s \<longleftrightarrow> c < rl_next s \<and> (\<exists>msgs. rl_task s c = TpDraining c msgs
     \<and> CHANNEL_SIZE < length (tc_queue (rl_conn s c)) + length msgs)"

lemma overfull_grows: "overfull c s \<Longrightarrow> chan_grows s t \<Longrightarrow> overfull c t"
  unfolding overfull_def chan_grows_def by (metis add_le_mono1 order_less_le_trans)

lemma overfull_start:
  assumes "chan_inv s" and "overfull c s" and "tunnel_start_step parse q now c' s = Some s'"
  shows "overfull c s'"
proof -
  obtain msgs where c: "c < rl_next s" "rl_task s c = TpDraining c msgs"
    and n: "CHANNEL_SIZE < length (tc_queue (rl_conn s c)) + length msgs" using assms(2) by (auto simp: overfull_def)
  have i: "tc_receiver (rl_conn s c)" "tc_taken (rl_conn s c) = 0" "length (tc_queue (rl_conn s c)) \<le> CHANNEL_SIZE"
    using assms(1) c(2) unfolding chan_inv_def by (metis diff_zero starting.simps(3))+
  show ?thesis
  proof (cases "c' = c")
    case False
    have other: "overfull c (set_task c' p t)" if "overfull c t" for p t using that False by (auto simp: overfull_def)
    have d: "overfull c t" if "drain_message parse q d msg s = Some (t, ok)" for d msg t ok
      using overfull_grows [OF assms(2) drain_message_grows [OF that]] .
    have db: "overfull c (s\<lparr>rl_db := db\<rparr>)" for db using assms(2) by (simp add: overfull_def)
    show ?thesis
      using assms(3) other [OF assms(2)] other [OF d] other [OF db]
      by (auto simp: tunnel_start_step_def Let_def split: tunnel_phase.splits list.splits option.splits sum.splits)
  next
    case True
    obtain msg rest where msgs: "msgs = msg # rest" using n i(3) by (cases msgs) auto
    obtain t ok where t: "drain_message parse q c msg s = Some (t, ok)" and s': "s' = set_task c (if ok then TpDraining c rest else TpServing) t"
      using assms(3) c(2) by (auto simp: tunnel_start_step_def True msgs Let_def split: option.splits)
    have "ok" and "tc_queue (rl_conn t c) = tc_queue (rl_conn s c) @ [buffered_frame parse msg]" and "rl_next t = rl_next s"
      using t i(1) by (auto simp: drain_message_def send_frame_def Let_def split: option.splits bool.splits if_splits)
    then show ?thesis using c n by (simp add: overfull_def s' msgs)
  qed
qed

lemma overfull_step: "relay_step removal s t \<Longrightarrow> chan_inv s \<Longrightarrow> overfull c s \<Longrightarrow> overfull c t"
proof (induction rule: relay_step.induct)
  case (rs_forwarder_take s c')
  then show ?case by (auto simp: overfull_def forwarder_take_def)
next
  case (rs_forwarder_stop s c')
  then show ?case by (auto simp: overfull_def forwarder_stop_def)
next
  case (rs_database s db)
  then show ?case by (simp add: overfull_def)
next
  case (rs_tunnel_register q cn u first s m)
  then show ?case by (auto simp: overfull_def tunnel_register_def register_connection_def Let_def)
next
  case (rs_tunnel_end q now c' s s')
  note e = end_step_phase [OF rs_tunnel_end.hyps]
  have "c \<noteq> c'" using e(1) rs_tunnel_end.prems(2) by (auto simp: overfull_def)
  with e(3) e(4,5) [of c] rs_tunnel_end.prems(2) show ?case by (auto simp: overfull_def)
qed (blast intro: overfull_grows check_steps_grow call_steps_grow stream_steps_grow overfull_start same_chan_grows
      same_chan_daemon_frame)+

lemma overfull_steps:
  "(relay_step removal)\<^sup>*\<^sup>* s t \<Longrightarrow> chan_inv s \<Longrightarrow> overfull c s \<Longrightarrow> chan_inv t \<and> overfull c t"
  by (induction rule: rtranclp_induct) (auto intro: relay_step_chan overfull_step)

text \<open>
  C15. When a machine connects while more than 128 live requests are buffered for it, its tunnel
  never starts to serve: in every continuation of every run, whatever else happens, the tunnel's
  task is still sending buffered requests, since it waits for a place in a channel that nobody
  empties before it is done.
\<close>

theorem reconnect_backlog_deadlock:
  assumes "relay_reach removal s" and "rl_task s c = TpOnline" and "m = tc_machine_id (rl_conn s c)"
    and "get_connection m s = Some c" and "fst q" and "128 < length (live_messages now m (rl_db s))"
    and "tunnel_start_step parse q now c s = Some s'" and "(relay_step removal)\<^sup>*\<^sup>* s' t"
  shows "\<exists>msgs. rl_task t c = TpDraining c msgs \<and> msgs \<noteq> []"
proof -
  have i: "relay_inv s" "chan_inv s" using chan_run.reach_inv [OF assms(1)] by simp_all
  have "live_messages now m (rl_db s) \<noteq> []" using assms(6) by auto
  then have s': "s' = set_task c (TpDraining c (live_messages now m (rl_db s))) s"
    using assms(2-5,7) by (auto simp: tunnel_start_step_def drain_begin_def drain_buffer_query_def Let_def)
  have "overfull c s'"
    using assms(6) conn_okD [OF i(1) assms(4)] by (simp add: overfull_def s' CHANNEL_SIZE_def)
  moreover have "chan_inv s'" unfolding s' using i(2) assms(2) by (intro chan_inv_task) simp_all
  ultimately have o: "overfull c t" and ci: "chan_inv t" using overfull_steps [OF assms(8)] by simp_all
  from o obtain msgs where t: "rl_task t c = TpDraining c msgs" "CHANNEL_SIZE < length (tc_queue (rl_conn t c)) + length msgs"
    by (auto simp: overfull_def)
  have "length (tc_queue (rl_conn t c)) \<le> CHANNEL_SIZE"
    using ci t(1) unfolding chan_inv_def by (metis diff_zero starting.simps(3))
  with t show ?thesis by auto
qed

lemma demo_reconnecting_reach: "relay_reach removal (demo_reconnecting n)"
proof -
  have i: "relay_reach removal (init_relay (demo_backlog n))" by (rule reach_init) (use demo_backlog_wf in blast)
  define s where "s = tunnel_register ''m'' ''u'' (init_relay (demo_backlog n))"
  have m: "machines (rl_db (init_relay (demo_backlog n))) = machines demo_machine_db"
    by (simp add: init_relay_def demo_backlog_machines)
  have "tunnel_admit (True, []) None ''u'' (Some demo_hello) demo_machine_db = Inr ''m''" by code_simp
  then have a: "tunnel_admit (True, []) None ''u'' (Some demo_hello) (rl_db (init_relay (demo_backlog n))) = Inr ''m''"
    by (simp only: tunnel_admit_def verify_machine_ownership_def get_machine_def m)
  have r: "relay_reach removal s" unfolding s_def by (rule relay_reach_step [OF i]) (rule rs_tunnel_register [OF a])
  have "rl_next s = 1" "rl_task s 0 = TpRegistered"
    by (simp_all add: s_def tunnel_register_def register_connection_def init_relay_def Let_def)
  then have b: "0 < rl_next s" "tunnel_start_step (\<lambda>_. None) (True, []) 1 0 s \<noteq> None"
    by (simp_all add: tunnel_start_step_def Let_def)
  show ?thesis
    unfolding demo_reconnecting_def s_def [symmetric]
    by (rule relay_reach_step [OF r]) (rule rs_tunnel_start [OF b(1) some_the [OF b(2)]])
qed

theorem reconnect_backlog_deadlock_witness:
  "\<exists>msgs. rl_task (demo_start 0 (demo_reconnecting 129)) 0 = TpDraining 0 msgs \<and> msgs \<noteq> []"
proof (rule reconnect_backlog_deadlock [OF demo_reconnecting_reach [of True 129] demo_reconnecting_cells(3) refl _ _ _ some_the])
  have m: "tc_machine_id (rl_conn (demo_reconnecting 129) 0) = ''m''"
    by (simp add: demo_reconnecting_cells new_connection_def)
  show "get_connection (tc_machine_id (rl_conn (demo_reconnecting 129) 0)) (demo_reconnecting 129) = Some 0"
    unfolding m by (rule demo_reconnecting_cells(1))
  show "128 < length (live_messages 1 (tc_machine_id (rl_conn (demo_reconnecting 129) 0)) (rl_db (demo_reconnecting 129)))"
    unfolding m by (simp add: demo_reconnecting_live)
  show "tunnel_start_step (\<lambda>_. None) (True, []) 1 0 (demo_reconnecting 129) \<noteq> None"
    by (simp add: tunnel_start_step_def demo_reconnecting_cells Let_def split: sum.split option.split)
qed simp_all

end
