(* ===== verification/RelayIsolation.thy ===== *)
theory RelayIsolation
  imports RelayRuns
begin

text \<open>
  Separation of users at the relay, and what happens to a machine's requests when it reconnects. The
  theory proves that calls and streams reach only daemons of their own user as long as no machine is
  removed, that removal breaks this, that the end of an old tunnel cuts off a newer one, and what
  draining the buffer delivers: everything in order when the messages fit the channel, and a
  tunnel that never starts to serve when they do not.
\<close>

section \<open>Calls reach daemons of their user\<close>

fun linked :: "unary_phase \<Rightarrow> bool" where
  "linked (USending _) = True"
| "linked UWaiting = True"
| "linked (UReturned r) = (case r of Inl _ \<Rightarrow> False | Inr _ \<Rightarrow> True)"
| "linked _ = False"

fun linked_stream :: "stream_phase \<Rightarrow> bool" where
  "linked_stream (SSending _) = True"
| "linked_stream SOpen = True"
| "linked_stream _ = False"

abbreviation owners :: "relay_state \<Rightarrow> (string \<times> string) set" where
  "owners s \<equiv> mc_owners (machines (rl_db s))"

text \<open>The connection \<open>c\<close> belongs to the machine \<open>m\<close> and to its owner.\<close>

definition conn_of :: "relay_state \<Rightarrow> string \<Rightarrow> nat \<Rightarrow> bool" where
  "conn_of s m c \<longleftrightarrow> c < rl_next s \<and> tc_machine_id (rl_conn s c) = m \<and> (m, tc_owner_id (rl_conn s c)) \<in> owners s"

definition owner_inv :: "relay_state \<Rightarrow> bool" where
  "owner_inv s \<longleftrightarrow> relay_wf (rl_db s)
     \<and> (\<forall>m c. get_connection m s = Some c \<longrightarrow> conn_of s m c)
     \<and> (\<forall>w. uc_phase (rl_call s w) = UChecked \<or> linked (uc_phase (rl_call s w)) \<longrightarrow>
          (uc_machine_id (rl_call s w), uc_user (rl_call s w)) \<in> owners s)
     \<and> (\<forall>w. linked (uc_phase (rl_call s w)) \<longrightarrow> conn_of s (uc_machine_id (rl_call s w)) (uc_conn (rl_call s w)))
     \<and> (\<forall>w. sc_phase (rl_stream s w) = SChecked \<or> linked_stream (sc_phase (rl_stream s w)) \<longrightarrow>
          (sc_machine_id (rl_stream s w), sc_user (rl_stream s w)) \<in> owners s)
     \<and> (\<forall>w. linked_stream (sc_phase (rl_stream s w)) \<longrightarrow> conn_of s (sc_machine_id (rl_stream s w)) (sc_conn (rl_stream s w)))"

text \<open>Steps that give no call or stream a connection.\<close>

definition quiet_conns :: "relay_state \<Rightarrow> relay_state \<Rightarrow> bool" where
  "quiet_conns s t \<longleftrightarrow> rl_next t = rl_next s
     \<and> (\<forall>c. tc_machine_id (rl_conn t c) = tc_machine_id (rl_conn s c) \<and> tc_owner_id (rl_conn t c) = tc_owner_id (rl_conn s c))
     \<and> (\<forall>m c. get_connection m t = Some c \<longrightarrow> get_connection m s = Some c) \<and> owners s \<subseteq> owners t"

definition quiet_calls :: "relay_state \<Rightarrow> relay_state \<Rightarrow> bool" where
  "quiet_calls s t \<longleftrightarrow> (\<forall>w. (uc_phase (rl_call t w) = UChecked \<longrightarrow> uc_phase (rl_call s w) = UChecked)
     \<and> (linked (uc_phase (rl_call t w)) \<longrightarrow> linked (uc_phase (rl_call s w)))
     \<and> uc_machine_id (rl_call t w) = uc_machine_id (rl_call s w) \<and> uc_user (rl_call t w) = uc_user (rl_call s w)
     \<and> uc_conn (rl_call t w) = uc_conn (rl_call s w))"

definition quiet_streams :: "relay_state \<Rightarrow> relay_state \<Rightarrow> bool" where
  "quiet_streams s t \<longleftrightarrow> (\<forall>w. (sc_phase (rl_stream t w) = SChecked \<longrightarrow> sc_phase (rl_stream s w) = SChecked)
     \<and> (linked_stream (sc_phase (rl_stream t w)) \<longrightarrow> linked_stream (sc_phase (rl_stream s w)))
     \<and> sc_machine_id (rl_stream t w) = sc_machine_id (rl_stream s w) \<and> sc_user (rl_stream t w) = sc_user (rl_stream s w)
     \<and> sc_conn (rl_stream t w) = sc_conn (rl_stream s w))"

definition quiet :: "relay_state \<Rightarrow> relay_state \<Rightarrow> bool" where
  "quiet s t \<longleftrightarrow> quiet_conns s t \<and> quiet_calls s t \<and> quiet_streams s t"

lemmas quiet_defs = quiet_def quiet_conns_def quiet_calls_def quiet_streams_def

lemma quiet_refl [simp]: "quiet s s"
  by (simp add: quiet_defs)

lemma quiet_trans [trans]: "quiet s t \<Longrightarrow> quiet t u \<Longrightarrow> quiet s u"
  unfolding quiet_def quiet_conns_def quiet_calls_def quiet_streams_def by (auto; blast)

lemma conn_of_quiet: "conn_of s m c \<Longrightarrow> quiet_conns s t \<Longrightarrow> conn_of t m c"
  unfolding conn_of_def quiet_conns_def by auto

lemma owner_quiet:
  assumes "owner_inv s" and "quiet s t" and "relay_wf (rl_db t)"
  shows "owner_inv t"
proof -
  have q: "quiet_conns s t" "quiet_calls s t" "quiet_streams s t" using assms(2) by (simp_all add: quiet_def)
  have ow: "x \<in> owners s \<Longrightarrow> x \<in> owners t" for x using q(1) by (auto simp: quiet_conns_def)
  have "get_connection m t = Some c \<Longrightarrow> conn_of t m c" for m c
    using assms(1) q(1) conn_of_quiet [OF _ q(1)] by (simp add: owner_inv_def quiet_conns_def)
  moreover have "uc_phase (rl_call t w) = UChecked \<or> linked (uc_phase (rl_call t w)) \<Longrightarrow>
      (uc_machine_id (rl_call t w), uc_user (rl_call t w)) \<in> owners t"
    "linked (uc_phase (rl_call t w)) \<Longrightarrow> conn_of t (uc_machine_id (rl_call t w)) (uc_conn (rl_call t w))" for w
    using assms(1) q(2) ow conn_of_quiet [OF _ q(1)] unfolding owner_inv_def quiet_calls_def by metis+
  moreover have "sc_phase (rl_stream t w) = SChecked \<or> linked_stream (sc_phase (rl_stream t w)) \<Longrightarrow>
      (sc_machine_id (rl_stream t w), sc_user (rl_stream t w)) \<in> owners t"
    "linked_stream (sc_phase (rl_stream t w)) \<Longrightarrow> conn_of t (sc_machine_id (rl_stream t w)) (sc_conn (rl_stream t w))" for w
    using assms(1) q(3) ow conn_of_quiet [OF _ q(1)] unfolding owner_inv_def quiet_streams_def by metis+
  ultimately show ?thesis using assms(3) unfolding owner_inv_def by blast
qed

lemma quiet_upd_call:
  assumes "uc_phase (g (rl_call s w)) = UChecked \<Longrightarrow> uc_phase (rl_call s w) = UChecked"
    and "linked (uc_phase (g (rl_call s w))) \<Longrightarrow> linked (uc_phase (rl_call s w))"
    and "uc_machine_id (g (rl_call s w)) = uc_machine_id (rl_call s w)" and "uc_user (g (rl_call s w)) = uc_user (rl_call s w)"
    and "uc_conn (g (rl_call s w)) = uc_conn (rl_call s w)"
  shows "quiet s (upd_call w g s)"
  using assms by (simp add: quiet_defs get_connection_def)

lemma quiet_upd_stream:
  assumes "sc_phase (g (rl_stream s w)) = SChecked \<Longrightarrow> sc_phase (rl_stream s w) = SChecked"
    and "linked_stream (sc_phase (g (rl_stream s w))) \<Longrightarrow> linked_stream (sc_phase (rl_stream s w))"
    and "sc_machine_id (g (rl_stream s w)) = sc_machine_id (rl_stream s w)"
    and "sc_user (g (rl_stream s w)) = sc_user (rl_stream s w)" and "sc_conn (g (rl_stream s w)) = sc_conn (rl_stream s w)"
  shows "quiet s (upd_stream w g s)"
  using assms by (simp add: quiet_defs get_connection_def)

lemma quiet_upd_conn:
  "tc_machine_id (g (rl_conn s c)) = tc_machine_id (rl_conn s c) \<Longrightarrow> tc_owner_id (g (rl_conn s c)) = tc_owner_id (rl_conn s c) \<Longrightarrow>
     quiet s (upd_conn c g s)"
  by (simp add: quiet_defs get_connection_def)

lemma quiet_db: "owners s \<subseteq> mc_owners (machines db) \<Longrightarrow> quiet s (s\<lparr>rl_db := db\<rparr>)"
  by (simp add: quiet_defs get_connection_def)

lemma quiet_task: "quiet s (set_task c p s)"
  by (simp add: quiet_defs get_connection_def)

lemma quiet_drop_sender: "quiet s (drop_sender w s)"
  by (auto simp: drop_sender_def split: option.split intro!: quiet_upd_call)

lemma quiet_drop_stream_sender: "quiet s (drop_stream_sender w s)"
  by (auto simp: drop_stream_sender_def split: option.split intro!: quiet_upd_stream)

lemma quiet_send_frame: "send_frame c f s = Some (s', ok) \<Longrightarrow> quiet s s'"
  by (auto simp: send_frame_def Let_def split: if_splits intro!: quiet_upd_conn)

lemma quiet_remove_pending: "quiet s (remove_pending c rid s)"
  unfolding remove_pending_def by (rule quiet_trans [OF quiet_drop_sender quiet_upd_conn]) simp_all

lemma quiet_complete_pending: "quiet s (fst (complete_pending c rid f s))"
proof (cases "hm_get (tc_pending (rl_conn s c)) rid")
  case (Some w)
  let ?s = "upd_conn c (\<lambda>k. k\<lparr>tc_pending := hm_remove rid (tc_pending k)\<rparr>) s"
  have "quiet s ?s" by (rule quiet_upd_conn) simp_all
  moreover have "quiet ?s (upd_call w (\<lambda>k. k\<lparr>uc_slot := SlotFrame f\<rparr>) ?s)" by (rule quiet_upd_call) simp_all
  ultimately show ?thesis by (auto simp: complete_pending_def Some Let_def intro: quiet_trans)
qed (simp add: complete_pending_def)

lemma quiet_complete_stream: "quiet s (fst (complete_stream c rid s))"
  unfolding complete_stream_def fst_conv by (rule quiet_trans [OF quiet_drop_stream_sender quiet_upd_conn]) simp_all

lemma quiet_send_stream_frame: "send_stream_frame c rid f s = Some (s', ok) \<Longrightarrow> quiet s s'"
  by (auto simp: send_stream_frame_def Let_def split: option.splits if_splits
      intro!: quiet_upd_stream quiet_trans [OF quiet_complete_stream quiet_upd_conn])

lemma quiet_cancel_all_pending: "quiet s (cancel_all_pending c s)"
proof -
  have p: "quiet s (foldr (\<lambda>(_, w). drop_sender (Some w)) ps s)" for ps :: "(string \<times> nat) list"
    by (induction ps) (auto intro: quiet_trans [OF _ quiet_drop_sender])
  have q: "quiet t (foldr (\<lambda>(_, w). drop_stream_sender (Some w)) ps t)" for t and ps :: "(string \<times> nat) list"
    by (induction ps) (auto intro: quiet_trans [OF _ quiet_drop_stream_sender])
  show ?thesis
    unfolding cancel_all_pending_def by (rule quiet_trans [OF quiet_trans [OF p q] quiet_upd_conn]) simp_all
qed

lemma quiet_daemon_frame:
  assumes "daemon_frame c f s = Some s'"
  shows "quiet s s'"
proof -
  define s0 where "s0 = upd_conn c (\<lambda>k. k\<lparr>tc_received := tc_received k @ [f]\<rparr>) s"
  have 0: "quiet s s0" unfolding s0_def by (rule quiet_upd_conn) simp_all
  have sent: "quiet s t" if "send_stream_frame c (tf_request_id f) f s0 = Some (t, ok)" for t ok
    using quiet_trans [OF 0 quiet_send_stream_frame [OF that]] .
  have clear: "quiet s (clear_cancelled_stream c rid s0)" for rid
    unfolding clear_cancelled_stream_def by (rule quiet_trans [OF 0 quiet_upd_conn]) simp_all
  show ?thesis
    using assms 0 unfolding daemon_frame_def Let_def s0_def [symmetric]
    by (auto split: frame_type.splits if_splits simp: clear
        intro: quiet_trans [OF _ quiet_complete_pending] quiet_trans [OF _ quiet_complete_stream] dest!: sent)
qed

lemma quiet_forward_send:
  assumes "uc_phase (rl_call s w) = USending f" and "forward_send w f s = Some s'"
  shows "quiet s s'"
proof -
  obtain s1 ok where s1: "send_frame (uc_conn (rl_call s w)) f s = Some (s1, ok)"
    using assms(2) by (auto simp: forward_send_def Let_def split: option.splits)
  show ?thesis
    using assms s1 send_frame_cells(1) [OF s1]
    by (auto simp: forward_send_def Let_def split: bool.splits intro!: quiet_trans [OF quiet_send_frame [OF s1]] quiet_upd_call)
qed

lemma quiet_forward_finish:
  assumes "uc_phase (rl_call s w) = UWaiting" and "forward_finish w b s = Some s'"
  shows "quiet s s'"
  using assms
  by (auto simp: forward_finish_def Let_def split: oneshot.splits if_splits
      intro!: quiet_upd_call quiet_trans [OF quiet_upd_call quiet_remove_pending])

lemma quiet_stream_send:
  assumes "sc_phase (rl_stream s w) = SSending f" and "stream_send w f s = Some s'"
  shows "quiet s s'"
proof -
  obtain s1 ok where s1: "send_frame (sc_conn (rl_stream s w)) f s = Some (s1, ok)"
    using assms(2) by (auto simp: stream_send_def split: option.splits)
  show ?thesis
    using assms s1 send_frame_cells(2) [OF s1]
    by (auto simp: stream_send_def split: bool.splits intro!: quiet_trans [OF quiet_send_frame [OF s1]] quiet_upd_stream)
qed

lemma mc_owners_update:
  "(\<And>r. mc_id (g r) = mc_id r \<and> mc_owner_id (g r) = mc_owner_id r) \<Longrightarrow> mc_owners (update_rows p g ms) = mc_owners ms"
  unfolding mc_owners_def set_map [symmetric] by (subst update_rows_map) simp_all

lemma mc_owners_status: "mc_owners (machines (fst (update_machine_status q now m st db))) = mc_owners (machines db)"
  by (simp add: update_machine_status_def mc_owners_update)

lemma owner_same_db: "owner_inv s \<Longrightarrow> quiet s t \<Longrightarrow> rl_db t = rl_db s \<Longrightarrow> owner_inv t"
  by (rule owner_quiet) (simp_all add: owner_inv_def)

lemma verified_owner: "verify_machine_ownership q m u db = Inr x \<Longrightarrow> (m, u) \<in> mc_owners (machines db)"
  by (auto simp: verify_machine_ownership_def get_machine_def mc_owners_def find_Some_iff
      split: sum.splits database_error.splits if_splits option.splits intro!: image_eqI)

lemma owner_start:
  assumes "owner_inv s" and "tunnel_start_step parse q now c s = Some s'"
  shows "owner_inv s'"
proof -
  have wf: "relay_wf (rl_db s)" using assms(1) by (simp add: owner_inv_def)
  have st: "owner_inv (s\<lparr>rl_db := fst (update_machine_status q now m ''online'' (rl_db s))\<rparr>)" for m
    by (rule owner_quiet [OF assms(1) quiet_db]) (simp_all add: mc_owners_status machine_status_wf wf)
  have task: "owner_inv t \<Longrightarrow> owner_inv (set_task c p t)" for p t by (rule owner_same_db [OF _ quiet_task]) simp_all
  have dr: "owner_inv t" if d: "drain_message parse q c' msg s = Some (t, ok)" for t c' msg ok
  proof (rule owner_quiet [OF assms(1)])
    show "quiet s t" using drain_message_cells [OF d] by (simp add: quiet_defs get_connection_def)
    obtain s1 where "send_frame c' (buffered_frame parse msg) s = Some (s1, ok)"
      and "rl_db t = (if ok then fst (delete_buffered_message q (bm_id msg) (rl_db s1)) else rl_db s1)"
      using d by (auto simp: drain_message_def split: option.splits bool.splits)
    then show "relay_wf (rl_db t)"
      using relay_db_step_wf [OF rstep_delete_buffered wf] wf send_frame_cells(6) by auto
  qed
  show ?thesis
    using assms(2) task [OF assms(1)] task [OF st] task [OF dr]
    by (auto simp: tunnel_start_step_def Let_def split: tunnel_phase.splits list.splits option.splits sum.splits)
qed

lemma owner_end:
  assumes "owner_inv s" and "tunnel_end_step q now c s = Some s'"
  shows "owner_inv s'"
proof -
  have wf: "relay_wf (rl_db s)" using assms(1) by (simp add: owner_inv_def)
  have st: "owner_inv (s\<lparr>rl_db := fst (update_machine_status q now m ''offline'' (rl_db s))\<rparr>)" for m
    by (rule owner_quiet [OF assms(1) quiet_db]) (simp_all add: mc_owners_status machine_status_wf wf)
  have task: "owner_inv t \<Longrightarrow> owner_inv (set_task c p t)" for p t by (rule owner_same_db [OF _ quiet_task]) simp_all
  have un: "owner_inv (forwarder_stop c (fst (unregister_connection m s)))" for m
    by (rule owner_same_db [OF assms(1)])
       (auto simp: quiet_defs get_connection_def forwarder_stop_def unregister_connection_def)
  have db: "rl_db (cancel_all_pending c s) = rl_db s"
  proof -
    have p: "rl_db (foldr (\<lambda>(_, w). drop_sender (Some w)) ps s) = rl_db s" for ps :: "(string \<times> nat) list"
      by (induction ps) auto
    have q: "rl_db (foldr (\<lambda>(_, w). drop_stream_sender (Some w)) ps t) = rl_db t" for t and ps :: "(string \<times> nat) list"
      by (induction ps) auto
    show ?thesis by (simp add: cancel_all_pending_def p q)
  qed
  show ?thesis
    using assms(2) task [OF un] task [OF st] task [OF owner_same_db [OF assms(1) quiet_cancel_all_pending db]]
    by (auto simp: tunnel_end_step_def Let_def split: tunnel_phase.splits)
qed

text \<open>A registered connection belongs to the owner of its machine.\<close>

lemma owner_register:
  assumes "relay_inv s" and "owner_inv s" and "tunnel_admit q cn u first (rl_db s) = Inr m"
  shows "owner_inv (tunnel_register m u s)" (is "owner_inv ?t")
proof -
  have own: "(m, u) \<in> owners s"
    using assms(3) verified_owner [of q m u] by (auto simp: tunnel_admit_def Let_def split: if_splits sum.splits)
  have eq: "rl_next ?t = Suc (rl_next s)" "rl_conn ?t = (rl_conn s)(rl_next s := new_connection m u)"
    "rl_call ?t = rl_call s" "rl_stream ?t = rl_stream s" "rl_db ?t = rl_db s"
    "rl_connections ?t = hm_insert m (rl_next s) (rl_connections s)"
    by (simp_all add: tunnel_register_def register_connection_def Let_def)
  have keep: "conn_of s m' c \<Longrightarrow> conn_of ?t m' c" for m' c by (auto simp: conn_of_def eq)
  have new: "conn_of ?t m (rl_next s)" using own by (simp add: conn_of_def eq new_connection_def)
  show ?thesis
    using assms(2) keep new unfolding owner_inv_def eq get_connection_def by auto
qed

lemma owner_unary_check: "owner_inv s \<Longrightarrow> owner_inv (fst (unary_check q u m rid mth data s))"
  using verified_owner [of q m u "rl_db s"]
  by (auto simp: unary_check_def new_unary_call_def attempt_def owner_inv_def conn_of_def get_connection_def less_Suc_eq split: sum.splits)

lemma owner_stream_check: "owner_inv s \<Longrightarrow> owner_inv (fst (stream_check q u m rid mth data s))"
  using verified_owner [of q m u "rl_db s"]
  by (auto simp: stream_check_def new_stream_call_def attempt_def owner_inv_def conn_of_def get_connection_def less_Suc_eq split: sum.splits)

lemma quiet_register_pending: "quiet s (register_pending c rid w s)"
  unfolding register_pending_def by (rule quiet_trans [OF quiet_drop_sender quiet_upd_conn]) simp_all

lemma quiet_register_stream_pending: "quiet s (register_stream_pending c rid w s)"
  unfolding register_stream_pending_def by (rule quiet_trans [OF quiet_drop_stream_sender quiet_upd_conn]) simp_all

lemma buffer_request_db:
  assumes "relay_wf db"
  shows "relay_wf (fst (buffer_request bc q q' now m rid mth data json db))
    \<and> machines (fst (buffer_request bc q q' now m rid mth data json db)) = machines db"
proof -
  have "relay_wf (fst (buffer_message q' now p db)) \<and> machines (fst (buffer_message q' now p db)) = machines db" for p
    using buffer_message_wf [OF assms] by (simp add: buffer_message_def Let_def)
  then show ?thesis
    using assms by (cases "count_buffered_messages q m db") (simp_all add: buffer_request_def)
qed

lemma owner_forward_begin:
  assumes "owner_inv s" and "uc_phase (rl_call s w) = UChecked"
  shows "owner_inv (forward_begin bc q q' now json w s)"
proof (cases "get_connection (uc_machine_id (rl_call s w)) s")
  case None
  define r where "r = buffer_request bc q q' now (uc_machine_id (rl_call s w)) (uc_request_id (rl_call s w))
    (uc_method (rl_call s w)) (uc_data (rl_call s w)) (unwrap_or ''{}'' json) (rl_db s)"
  have db: "owner_inv (s\<lparr>rl_db := fst r\<rparr>)"
    using buffer_request_db [of "rl_db s"] assms(1) unfolding r_def
    by (intro owner_quiet [OF assms(1) quiet_db]) (simp_all add: owner_inv_def)
  have "\<exists>e. forward_begin bc q q' now json w s = upd_call w (\<lambda>k. k\<lparr>uc_phase := UReturned (Inl (e k))\<rparr>) (s\<lparr>rl_db := fst r\<rparr>)"
    by (cases r; cases "snd r") (auto simp: forward_begin_def None Let_def r_def [symmetric] intro: exI)
  then show ?thesis using db by (auto intro!: owner_same_db [OF db quiet_upd_call])
next
  case (Some c)
  let ?f = "build_request_frame (uc_request_id (rl_call s w)) (uc_method (rl_call s w)) (uc_data (rl_call s w)) []"
  let ?t = "upd_call w (\<lambda>k. k\<lparr>uc_conn := c, uc_phase := USending ?f\<rparr>) s"
  have eq: "forward_begin bc q q' now json w s = register_pending c (uc_request_id (rl_call s w)) w ?t"
    by (simp add: forward_begin_def Some Let_def upd_call_def)
  have "conn_of s (uc_machine_id (rl_call s w)) c" "(uc_machine_id (rl_call s w), uc_user (rl_call s w)) \<in> owners s"
    using assms Some by (auto simp: owner_inv_def)
  then have "owner_inv ?t"
    using assms(1) unfolding owner_inv_def conn_of_def get_connection_def by simp
  then show ?thesis unfolding eq
    by (rule owner_same_db [OF _ quiet_register_pending]) (simp add: register_pending_def)
qed

lemma owner_stream_begin:
  assumes "owner_inv s" and "sc_phase (rl_stream s w) = SChecked"
  shows "owner_inv (stream_begin w s)"
proof (cases "get_connection (sc_machine_id (rl_stream s w)) s")
  case None
  then show ?thesis
    by (auto simp: stream_begin_def Let_def intro!: owner_same_db [OF assms(1) quiet_upd_stream])
next
  case (Some c)
  let ?f = "build_request_frame (sc_request_id (rl_stream s w)) (sc_method (rl_stream s w)) (sc_data (rl_stream s w)) []"
  let ?t = "upd_stream w (\<lambda>k. k\<lparr>sc_conn := c, sc_phase := SSending ?f\<rparr>) s"
  have eq: "stream_begin w s = register_stream_pending c (sc_request_id (rl_stream s w)) w ?t"
    by (simp add: stream_begin_def Some Let_def upd_stream_def)
  have "conn_of s (sc_machine_id (rl_stream s w)) c" "(sc_machine_id (rl_stream s w), sc_user (rl_stream s w)) \<in> owners s"
    using assms Some by (auto simp: owner_inv_def)
  then have "owner_inv ?t"
    using assms(1) unfolding owner_inv_def conn_of_def get_connection_def by simp
  then show ?thesis unfolding eq
    by (rule owner_same_db [OF _ quiet_register_stream_pending]) (simp add: register_stream_pending_def)
qed

lemma step_same_db:
  "forward_send w f s = Some s' \<Longrightarrow> rl_db s' = rl_db s" "forward_finish w b s = Some s' \<Longrightarrow> rl_db s' = rl_db s"
  "stream_send w f s = Some s' \<Longrightarrow> rl_db s' = rl_db s" "daemon_frame c f s = Some s' \<Longrightarrow> rl_db s' = rl_db s"
proof -
  show "forward_send w f s = Some s' \<Longrightarrow> rl_db s' = rl_db s" "stream_send w f s = Some s' \<Longrightarrow> rl_db s' = rl_db s"
    by (auto simp: forward_send_def stream_send_def Let_def send_frame_cells split: option.splits bool.splits)
  show "forward_finish w b s = Some s' \<Longrightarrow> rl_db s' = rl_db s"
    by (auto simp: forward_finish_def remove_pending_def Let_def split: oneshot.splits if_splits)
  have c: "rl_db (fst (complete_pending c r f t)) = rl_db t" "rl_db (fst (complete_stream c r t)) = rl_db t" for c r f t
    by (auto simp: complete_pending_def complete_stream_def Let_def split: option.split)
  show "daemon_frame c f s = Some s' \<Longrightarrow> rl_db s' = rl_db s"
    by (auto simp: daemon_frame_def Let_def c clear_cancelled_stream_def send_stream_frame_cells
        split: frame_type.splits if_splits)
qed

lemma relay_step_owner: "relay_step False s t \<Longrightarrow> relay_inv s \<Longrightarrow> owner_inv s \<Longrightarrow> owner_inv t"
proof (induction rule: relay_step.induct)
  case (rs_forward_abandon s w)
  show ?case unfolding forward_abandon_def
    by (rule owner_same_db [OF rs_forward_abandon.prems(2) quiet_upd_call]) simp_all
next
  case (rs_client_send s w data s' ok)
  then have q: "send_frame (sc_conn (rl_stream s w)) (client_frame (sc_request_id (rl_stream s w)) data) s = Some (s', ok)"
    by (simp add: client_send_def)
  show ?case by (rule owner_same_db [OF rs_client_send.prems(2) quiet_send_frame [OF q]]) (rule send_frame_cells(6) [OF q])
next
  case (rs_stream_take s w)
  show ?case unfolding stream_take_def by (rule owner_same_db [OF rs_stream_take.prems(2) quiet_upd_stream]) simp_all
next
  case (rs_stream_abandon s w)
  show ?case unfolding stream_abandon_def by (rule owner_same_db [OF rs_stream_abandon.prems(2) quiet_upd_stream]) simp_all
next
  case (rs_forwarder_take s c)
  show ?case unfolding forwarder_take_def by (rule owner_same_db [OF rs_forwarder_take.prems(2) quiet_upd_conn]) simp_all
next
  case (rs_forwarder_stop s c)
  show ?case unfolding forwarder_stop_def by (rule owner_same_db [OF rs_forwarder_stop.prems(2) quiet_upd_conn]) simp_all
next
  case (rs_database s db)
  then have "relay_wf (rl_db s)" by (simp add: owner_inv_def)
  with rs_database relay_db_step_wf show ?case by (intro owner_quiet [OF _ quiet_db]) auto
qed (blast intro: owner_unary_check owner_forward_begin owner_stream_check owner_stream_begin owner_start owner_end
    owner_register owner_same_db quiet_forward_send quiet_forward_finish quiet_stream_send quiet_daemon_frame step_same_db)+

lemma init_relay_owner: "relay_wf db \<Longrightarrow> owner_inv (init_relay db)"
  by (simp add: owner_inv_def init_relay_def get_connection_def)

interpretation owned_run: step_system "\<lambda>s. \<exists>db. relay_wf db \<and> s = init_relay db" "relay_step False"
    "\<lambda>s. relay_inv s \<and> owner_inv s"
  by unfold_locales (auto simp: init_relay_inv init_relay_owner intro: relay_step_inv relay_step_owner)

lemma owner_unique: "relay_wf db \<Longrightarrow> (m, u) \<in> mc_owners (machines db) \<Longrightarrow> (m, v) \<in> mc_owners (machines db) \<Longrightarrow> u = v"
  by (auto simp: relay_wf_def machines_wf_def mc_owners_def distinct_map inj_on_def)

text \<open>
  C13. As long as no machine is removed, users are separated: in every run, a call whose frame is
  being sent or was sent, and a stream that is open, use a connection that the user's own daemon
  opened for the machine the call names. So no user's request reaches another user's daemon, and
  no user gets an answer from one.
\<close>

theorem own_daemon_only:
  assumes "relay_reach False s"
  shows "(linked (uc_phase (rl_call s w)) \<longrightarrow> tc_owner_id (rl_conn s (uc_conn (rl_call s w))) = uc_user (rl_call s w)
       \<and> tc_machine_id (rl_conn s (uc_conn (rl_call s w))) = uc_machine_id (rl_call s w))
     \<and> (linked_stream (sc_phase (rl_stream s w)) \<longrightarrow> tc_owner_id (rl_conn s (sc_conn (rl_stream s w))) = sc_user (rl_stream s w)
       \<and> tc_machine_id (rl_conn s (sc_conn (rl_stream s w))) = sc_machine_id (rl_stream s w))"
proof -
  have o: "owner_inv s" using owned_run.reach_inv [OF assms] by simp
  then have wf: "relay_wf (rl_db s)" by (simp add: owner_inv_def)
  show ?thesis
    using o owner_unique [OF wf] unfolding owner_inv_def conn_of_def by blast
qed

theorem own_daemon_only_witness:
  "uc_phase (rl_call demo_answered 1) = UReturned (Inr demo_response) \<and>
   tc_owner_id (rl_conn demo_answered (uc_conn (rl_call demo_answered 1))) = ''u''"
proof -
  have "linked (uc_phase (rl_call demo_answered 1))" and u: "uc_user (rl_call demo_answered 1) = ''u''"
    and "uc_phase (rl_call demo_answered 1) = UReturned (Inr demo_response)" by code_simp+
  with own_daemon_only [OF demo_answered_reach, of 1] show ?thesis by simp
qed

text \<open>
  Removing a machine does not end its tunnel. Another user who then registers the identifier
  reaches the daemon of the old owner: the frame of \<open>v\<close> is queued for the daemon of \<open>u\<close>.
\<close>

definition demo_removed :: relay_state where
  "demo_removed = demo_connected\<lparr>rl_db :=
     fst (create_machine (True, []) (True, []) 1 ''m'' ''other'' ''v'' ''{}''
       (fst (create_user (True, []) (True, []) 1 ''v'' ''victim'' ''e'' ''h''
         (fst (remove_machine (True, []) ''m'' (rl_db demo_connected))))))\<rparr>"

definition demo_crossed :: relay_state where
  "demo_crossed = the (forward_send 1 demo_request
     (forward_begin \<lparr> bc_default_ttl_secs = 10, bc_max_per_machine = 2 \<rparr> (True, []) (True, []) 2 (Some ''{}'') 1
        (fst (unary_check (True, []) ''v'' ''m'' ''r'' ''M'' [7] demo_removed))))"

lemma demo_removed_reach: "relay_reach True demo_removed"
proof -
  have db: "relay_reach True (s\<lparr>rl_db := db\<rparr>)" if "relay_reach True s" and "relay_db_step (rl_db s) db" for s db
    by (rule relay_reach_step [OF that(1)]) (rule rs_database [OF that(2)], simp)
  show ?thesis
    unfolding demo_removed_def
    using db [OF db [OF db [OF demo_connected_reach rstep_remove_machine] rstep_create_user] rstep_create_machine]
    by simp
qed

theorem removed_machine_crosses_users:
  "relay_reach True demo_crossed \<and> uc_user (rl_call demo_crossed 1) = ''v'' \<and> uc_phase (rl_call demo_crossed 1) = UWaiting
   \<and> tc_owner_id (rl_conn demo_crossed 0) = ''u'' \<and> tc_queue (rl_conn demo_crossed 0) = [demo_request]"
proof -
  define s where "s = fst (unary_check (True, []) ''v'' ''m'' ''r'' ''M'' [7] demo_removed)"
  define t where "t = forward_begin \<lparr> bc_default_ttl_secs = 10, bc_max_per_machine = 2 \<rparr> (True, []) (True, []) 2 (Some ''{}'') 1 s"
  have r: "relay_reach True s"
    unfolding s_def by (rule relay_reach_step [OF demo_removed_reach]) (rule rs_unary_check)
  have b: "1 < rl_next s" "uc_phase (rl_call s 1) = UChecked" unfolding s_def by code_simp+
  have r': "relay_reach True t" unfolding t_def by (rule relay_reach_step [OF r]) (rule rs_forward_begin [OF b])
  have c: "uc_phase (rl_call t 1) = USending demo_request" "forward_send 1 demo_request t \<noteq> None"
    unfolding t_def s_def by code_simp+
  have "relay_reach True demo_crossed"
    unfolding demo_crossed_def s_def [symmetric] t_def [symmetric]
    by (rule relay_reach_step [OF r']) (rule rs_forward_send [OF c(1) some_the [OF c(2)]])
  moreover have "uc_user (rl_call demo_crossed 1) = ''v''" "uc_phase (rl_call demo_crossed 1) = UWaiting"
    "tc_owner_id (rl_conn demo_crossed 0) = ''u''" "tc_queue (rl_conn demo_crossed 0) = [demo_request]" by code_simp+
  ultimately show ?thesis by simp
qed

text \<open>
  The end of a tunnel takes its machine out of the registry without looking whether the entry is
  its own: when the daemon has already opened a new tunnel, the new connection is cut off from
  requests while its task goes on.
\<close>

theorem stale_tunnel_evicts_new:
  assumes "rl_task s c = TpCancelled" and "tc_machine_id (rl_conn s c) = m" and "get_connection m s = Some c'" and "c' \<noteq> c"
  shows "\<exists>s'. tunnel_end_step q now c s = Some s' \<and> get_connection m s' = None
    \<and> rl_task s' c' = rl_task s c' \<and> rl_conn s' c' = rl_conn s c'"
  using assms by (simp add: tunnel_end_step_def get_connection_def unregister_connection_def forwarder_stop_def)

end
