(* ===== verification/RelayAuth.thy ===== *)
theory RelayAuth
  imports RelayStore Grpc
begin

text \<open>
  Authentication at the relay server: claims and tokens (\<^verbatim>\<open>crates/betcode-relay/src/auth/\<close>), the
  interceptor of calls (\<^verbatim>\<open>server/interceptor.rs\<close>) and the service (\<^verbatim>\<open>server/auth_svc.rs\<close>). The JWT
  library, SHA-256 and argon2 are arguments. The theory proves that a refresh token that was used is
  accepted again only within the grace period, whatever happens in between.
\<close>

section \<open>Tokens\<close>

record claims =
  cl_jti :: string
  cl_sub :: string
  cl_username :: string
  cl_iat :: int
  cl_exp :: int
  cl_token_type :: string

definition is_access :: "claims \<Rightarrow> bool" where
  "is_access c \<longleftrightarrow> cl_token_type c = ''access''"

definition is_refresh :: "claims \<Rightarrow> bool" where
  "is_refresh c \<longleftrightarrow> cl_token_type c = ''refresh''"

definition INSECURE_DEFAULT_SECRET :: string where
  "INSECURE_DEFAULT_SECRET = ''dev-secret-change-me''"

definition MIN_SECRET_LENGTH :: nat where
  "MIN_SECRET_LENGTH = 32"

datatype jwt_secret_error = InsecureDefault | TooShort nat

definition validate_jwt_secret :: "string \<Rightarrow> jwt_secret_error + unit" where
  "validate_jwt_secret secret =
     (if secret = INSECURE_DEFAULT_SECRET then Inl InsecureDefault
      else if length secret < MIN_SECRET_LENGTH then Inl (TooShort (length secret))
      else Inr ())"

text \<open>The encoder and the decoder of the library under the manager's key (the decoder checks the
  expiry, so it depends on the time), and the hash under which tokens are stored.\<close>

record jwt_manager =
  jw_encode :: "claims \<Rightarrow> string + string"
  jw_decode :: "int \<Rightarrow> string \<Rightarrow> string + claims"
  jw_hash_token :: "string \<Rightarrow> string"
  jw_access_ttl_secs :: int
  jw_refresh_ttl_secs :: int

definition issue_access_token ::
  "jwt_manager \<Rightarrow> int \<Rightarrow> string \<Rightarrow> string \<Rightarrow> string \<Rightarrow> string + string \<times> int" where
  "issue_access_token j now jti user_id username =
     (let c = \<lparr> cl_jti = jti, cl_sub = user_id, cl_username = username, cl_iat = now,
                cl_exp = now + jw_access_ttl_secs j, cl_token_type = ''access'' \<rparr>
      in case jw_encode j c of Inl e \<Rightarrow> Inl e | Inr t \<Rightarrow> Inr (t, jw_access_ttl_secs j))"

definition issue_refresh_token ::
  "jwt_manager \<Rightarrow> int \<Rightarrow> string \<Rightarrow> string \<Rightarrow> string \<Rightarrow> string + string \<times> int" where
  "issue_refresh_token j now jti user_id username =
     (let ex = now + jw_refresh_ttl_secs j;
          c = \<lparr> cl_jti = jti, cl_sub = user_id, cl_username = username, cl_iat = now,
                cl_exp = ex, cl_token_type = ''refresh'' \<rparr>
      in case jw_encode j c of Inl e \<Rightarrow> Inl e | Inr t \<Rightarrow> Inr (t, ex))"

definition validate_token :: "jwt_manager \<Rightarrow> int \<Rightarrow> string \<Rightarrow> string + claims" where
  "validate_token j now token = jw_decode j now token"

section \<open>Interceptor\<close>

definition jwt_interceptor :: "jwt_manager \<Rightarrow> int \<Rightarrow> string option \<Rightarrow> status + claims" where
  "jwt_interceptor j now authorization =
     (case Option.bind authorization (\<lambda>v. strip_prefix v ''Bearer '') of
        None \<Rightarrow> Inl (Unauthenticated ''Missing authorization header'')
      | Some token \<Rightarrow>
          (case validate_token j now token of
             Inl _ \<Rightarrow> Inl (Unauthenticated ''Invalid token'')
           | Inr c \<Rightarrow> if \<not> is_access c then Inl (Unauthenticated ''Not an access token'') else Inr c))"

section \<open>Service\<close>

text \<open>
  The arguments of one request: the outcome of each statement, the readings of the clock, fresh
  identifiers, the choice of SQLite, and argon2. \<open>au_hash_password\<close> is the result with the salt of
  this request.
\<close>

record auth_env =
  au_jwt :: jwt_manager
  au_grace :: int
  au_sql :: "nat \<Rightarrow> sqlite"
  au_now :: "nat \<Rightarrow> int"
  au_jti_access :: string
  au_jti_refresh :: string
  au_token_id :: string
  au_user_id :: string
  au_pick :: "token_row list \<Rightarrow> token_row"
  au_verify_password :: "string \<Rightarrow> string \<Rightarrow> string + bool"
  au_hash_password :: "string \<Rightarrow> string + string"

record token_pair =
  tp_token_id :: string
  tp_access_token :: string
  tp_refresh_token :: string
  tp_expires_in :: int

definition issue_token_pair ::
  "auth_env \<Rightarrow> string \<Rightarrow> string \<Rightarrow> relay_db \<Rightarrow> relay_db \<times> (status + token_pair)" where
  "issue_token_pair e user_id username db =
     attempt (\<lambda>er. Internal (''Token creation failed: '' @ er))
       (db, issue_access_token (au_jwt e) (au_now e 0) (au_jti_access e) user_id username)
       (\<lambda>(access, expires_in) db.
     attempt (\<lambda>er. Internal (''Token creation failed: '' @ er))
       (db, issue_refresh_token (au_jwt e) (au_now e 1) (au_jti_refresh e) user_id username)
       (\<lambda>(refresh, refresh_exp) db.
     attempt (\<lambda>er. Internal (''Token storage failed: '' @ show_database_error er))
       (create_token (au_sql e 0) (au_sql e 1) (au_now e 2) (au_token_id e) user_id
          (jw_hash_token (au_jwt e) refresh) refresh_exp db)
       (\<lambda>_ db. (db, Inr \<lparr> tp_token_id = au_token_id e, tp_access_token = access,
                         tp_refresh_token = refresh, tp_expires_in = expires_in \<rparr>))))"

record auth_response =
  ar_user_id :: string
  ar_access_token :: string
  ar_refresh_token :: string
  ar_expires_in_secs :: int

definition auth_reply :: "string \<Rightarrow> token_pair \<Rightarrow> auth_response" where
  "auth_reply u t = \<lparr> ar_user_id = u, ar_access_token = tp_access_token t,
     ar_refresh_token = tp_refresh_token t, ar_expires_in_secs = tp_expires_in t \<rparr>"

definition login :: "auth_env \<Rightarrow> string \<Rightarrow> string \<Rightarrow> relay_db \<Rightarrow> relay_db \<times> (status + auth_response)" where
  "login e username password db =
     attempt (\<lambda>_. Unauthenticated ''Invalid credentials'') (db, get_user_by_username (au_sql e 2) username db) (\<lambda>u db.
     attempt (\<lambda>_. Internal ''Password verification failed'')
       (db, au_verify_password e password (us_password_hash u)) (\<lambda>valid db.
     if \<not> valid then (db, Inl (Unauthenticated ''Invalid credentials''))
     else attempt id (issue_token_pair e (us_id u) (us_username u) db)
       (\<lambda>t db. (db, Inr (auth_reply (us_id u) t)))))"

definition register_user ::
  "auth_env \<Rightarrow> string \<Rightarrow> string \<Rightarrow> string \<Rightarrow> relay_db \<Rightarrow> relay_db \<times> (status + auth_response)" where
  "register_user e username password email db =
     (if length username < 3 then (db, Inl (InvalidArgument ''Username must be at least 3 characters''))
      else if length password < 8 then (db, Inl (InvalidArgument ''Password must be at least 8 characters''))
      else if \<not> isl (get_user_by_username (au_sql e 2) username db)
      then (db, Inl (AlreadyExists ''Username already taken''))
      else
        attempt (\<lambda>er. Internal (''Password hashing failed: '' @ er)) (db, au_hash_password e password) (\<lambda>hash db.
        attempt (\<lambda>er. Internal (''User creation failed: '' @ show_database_error er))
          (create_user (au_sql e 3) (au_sql e 4) (au_now e 3) (au_user_id e) username email hash db) (\<lambda>_ db.
        attempt id (issue_token_pair e (au_user_id e) username db)
          (\<lambda>t db. (db, Inr (auth_reply (au_user_id e) t))))))"

definition revoke_successor :: "sqlite \<Rightarrow> token_row \<Rightarrow> relay_db \<Rightarrow> relay_db \<times> (database_error + bool)" where
  "revoke_successor q st db = (case tk_successor_id st of None \<Rightarrow> (db, Inr False) | Some s \<Rightarrow> revoke_token q s db)"

text \<open>The response to a refresh is the new pair.\<close>

definition refresh_token :: "auth_env \<Rightarrow> string \<Rightarrow> relay_db \<Rightarrow> relay_db \<times> (status + token_pair)" where
  "refresh_token e token db =
     attempt (\<lambda>_. Unauthenticated ''Invalid refresh token'') (db, validate_token (au_jwt e) (au_now e 3) token) (\<lambda>c db.
     if \<not> is_refresh c then (db, Inl (InvalidArgument ''Not a refresh token''))
     else
       attempt (\<lambda>er. Internal (''Token lookup failed: '' @ show_database_error er))
         (db, get_token_by_hash (au_sql e 2) (au_pick e) (au_now e 4) (jw_hash_token (au_jwt e) token) (au_grace e) db)
         (\<lambda>found db. case found of
            None \<Rightarrow> (db, Inl (Unauthenticated ''Refresh token revoked or expired''))
          | Some st \<Rightarrow>
              attempt (\<lambda>er. Internal (''Successor revocation failed: '' @ show_database_error er))
                (revoke_successor (au_sql e 3) st db) (\<lambda>_ db.
              attempt id (issue_token_pair e (cl_sub c) (cl_username c) db) (\<lambda>t db.
              attempt (\<lambda>er. Internal (''Token rotation failed: '' @ show_database_error er))
                (rotate_token (au_sql e 4) (au_now e 5) (tk_id st) (tp_token_id t) db) (\<lambda>_ db. (db, Inr t))))))"

definition revoke_token_rpc :: "auth_env \<Rightarrow> string \<Rightarrow> relay_db \<Rightarrow> relay_db \<times> (status + bool)" where
  "revoke_token_rpc e token db =
     attempt (\<lambda>er. Internal (''Token lookup failed: '' @ show_database_error er))
       (db, get_token_by_hash (au_sql e 0) (au_pick e) (au_now e 0) (jw_hash_token (au_jwt e) token) (au_grace e) db)
       (\<lambda>found db. case found of
          None \<Rightarrow> (db, Inr False)
        | Some st \<Rightarrow>
            attempt (\<lambda>er. Internal (''Revocation failed: '' @ show_database_error er))
              (revoke_token (au_sql e 1) (tk_id st) db) (\<lambda>b db. (db, Inr b)))"

text \<open>Only access tokens open a call.\<close>

lemma interceptor_access:
  "jwt_interceptor j now authorization = Inr c \<longleftrightarrow>
     (\<exists>token. authorization = Some (''Bearer '' @ token) \<and> jw_decode j now token = Inr c \<and> is_access c)"
proof -
  define pre where "pre = ''Bearer ''"
  have *: "Option.bind authorization (\<lambda>v. strip_prefix v pre) = Some token \<longleftrightarrow> authorization = Some (pre @ token)"
    for token by (cases authorization) (auto simp: strip_prefix_def prefix_def)
  show ?thesis
  proof (cases "Option.bind authorization (\<lambda>v. strip_prefix v pre)")
    case None
    then show ?thesis using * unfolding jwt_interceptor_def pre_def [symmetric] by auto
  next
    case (Some token)
    then have "authorization = Some (pre @ token)" using * by simp
    with Some show ?thesis
      unfolding jwt_interceptor_def validate_token_def pre_def [symmetric]
      by (cases "jw_decode j now token") (auto simp: strip_prefix_def)
  qed
qed

section \<open>Tokens that are no longer accepted\<close>

text \<open>No row with this hash is valid at time \<open>t\<close> or later.\<close>

definition spent :: "int \<Rightarrow> int \<Rightarrow> string \<Rightarrow> relay_db \<Rightarrow> bool" where
  "spent t grace h db \<longleftrightarrow> (\<forall>r \<in> set (tokens db). tk_token_hash r = h \<longrightarrow>
     tk_revoked r \<noteq> 0 \<or> tk_expires_at r \<le> t \<or> (\<exists>s. tk_rotated_at r = Some s \<and> s \<le> t - grace))"

lemma spent_lookup:
  "spent t grace h db \<Longrightarrow> t \<le> now \<Longrightarrow> get_token_by_hash q pick now h grace db = (if fst q then Inr None else Inl (Query (snd q)))"
  by (force simp: spent_def get_token_by_hash_def token_valid_def Let_def filter_empty_conv split: option.splits)

lemma spent_revoke: "spent t grace h db \<Longrightarrow> spent t grace h (fst (revoke_token q i db))"
  by (auto simp: spent_def revoke_token_def update_rows_def)

lemma spent_rotate: "spent t grace h db \<Longrightarrow> spent t grace h (fst (rotate_token q now i successor db))"
  by (fastforce simp: spent_def rotate_token_def update_rows_def Let_def unwrap_or_def split: option.splits)

lemma rotate_token_rows:
  assumes "rotate_token q now i successor db = (db', Inr b)"
  shows "tokens db' = map (\<lambda>r. if tk_id r = i \<and> tk_revoked r = 0 then r\<lparr> tk_rotated_at := Some (unwrap_or now (tk_rotated_at r)),
      tk_successor_id := Some successor \<rparr> else r) (tokens db)"
  using assms by (auto simp: rotate_token_def Let_def update_rows_def split: if_splits)

lemma spent_create:
  "spent t grace h db \<Longrightarrow> hash \<noteq> h \<Longrightarrow> spent t grace h (fst (create_token q q' now i u hash expires db))"
  by (auto simp: spent_def create_token_def Let_def)

lemma spent_cong: "tokens db' = tokens db \<Longrightarrow> spent t grace h db' = spent t grace h db"
  by (simp add: spent_def)

text \<open>A request whose new refresh token would not have the hash \<open>h\<close>.\<close>

definition avoids :: "auth_env \<Rightarrow> string \<Rightarrow> bool" where
  "avoids e h \<longleftrightarrow> (\<forall>c t. jw_encode (au_jwt e) c = Inr t \<and> is_refresh c \<and> cl_jti c = au_jti_refresh e \<longrightarrow>
     jw_hash_token (au_jwt e) t \<noteq> h)"

lemma avoids_issue:
  assumes "avoids e h" and "issue_refresh_token (au_jwt e) now (au_jti_refresh e) u n = Inr (t, x)"
  shows "jw_hash_token (au_jwt e) t \<noteq> h"
proof -
  let ?c = "\<lparr> cl_jti = au_jti_refresh e, cl_sub = u, cl_username = n, cl_iat = now,
    cl_exp = now + jw_refresh_ttl_secs (au_jwt e), cl_token_type = ''refresh'' \<rparr>"
  have "jw_encode (au_jwt e) ?c = Inr t"
    using assms(2) by (auto simp: issue_refresh_token_def Let_def split: sum.splits)
  with assms(1) show ?thesis unfolding avoids_def is_refresh_def by (metis claims.select_convs(1,6))
qed

text \<open>Issuing a pair stores at most one row, which does not have that hash.\<close>

lemma issue_token_pair_rows:
  assumes "avoids e h"
  shows "tokens (fst (issue_token_pair e u n db)) = tokens db \<or>
    (\<exists>r. tokens (fst (issue_token_pair e u n db)) = tokens db @ [r] \<and> tk_token_hash r \<noteq> h)"
proof (cases "issue_access_token (au_jwt e) (au_now e 0) (au_jti_access e) u n")
  case (Inr acc)
  show ?thesis
  proof (cases "issue_refresh_token (au_jwt e) (au_now e 1) (au_jti_refresh e) u n")
    case refr: (Inr ref)
    obtain t x where ref: "ref = (t, x)" by fastforce
    have "jw_hash_token (au_jwt e) t \<noteq> h" using avoids_issue [OF assms] refr ref by blast
    moreover have "fst (issue_token_pair e u n db) = fst (create_token (au_sql e 0) (au_sql e 1) (au_now e 2)
        (au_token_id e) u (jw_hash_token (au_jwt e) t) x db)"
      by (simp add: issue_token_pair_def Inr refr ref attempt_def case_prod_beta del: One_nat_def split: sum.split)
    ultimately show ?thesis by (auto simp: create_token_def Let_def)
  qed (simp add: issue_token_pair_def Inr case_prod_beta del: One_nat_def)
qed (simp add: issue_token_pair_def)

lemma spent_issue: "spent t grace h db \<Longrightarrow> avoids e h \<Longrightarrow> spent t grace h (fst (issue_token_pair e u n db))"
  using issue_token_pair_rows [of e h u n db] by (auto simp: spent_def)

lemma spent_create_user: "spent t grace h db \<Longrightarrow> spent t grace h (fst (create_user q q' now i n em hash db))"
  by (simp add: spent_def create_user_def Let_def)

lemma spent_revoke_successor: "spent t grace h db \<Longrightarrow> spent t grace h (fst (revoke_successor q st db))"
  by (simp add: revoke_successor_def spent_revoke split: option.split)

lemmas spent_intros = attempt_inv [of "spent t grace h"] spent_issue spent_create_user spent_revoke_successor
  spent_rotate spent_revoke for t grace h

lemma spent_login: "spent t grace h db \<Longrightarrow> avoids e h \<Longrightarrow> spent t grace h (fst (login e n p db))"
  unfolding login_def by (auto intro!: spent_intros)

lemma spent_register: "spent t grace h db \<Longrightarrow> avoids e h \<Longrightarrow> spent t grace h (fst (register_user e n p em db))"
  unfolding register_user_def by (auto intro!: spent_intros)

lemma spent_refresh: "spent t grace h db \<Longrightarrow> avoids e h \<Longrightarrow> spent t grace h (fst (refresh_token e token db))"
  unfolding refresh_token_def by (auto intro!: spent_intros split: option.split)

lemma spent_revoke_rpc: "spent t grace h db \<Longrightarrow> spent t grace h (fst (revoke_token_rpc e token db))"
  unfolding revoke_token_rpc_def by (auto intro!: spent_intros split: option.split)

text \<open>
  What can happen at the relay: calls of the service, none of which issues a token with the hash
  \<open>h\<close>, and statements on other tables.
\<close>

inductive auth_step :: "string \<Rightarrow> relay_db \<Rightarrow> relay_db \<Rightarrow> bool" for h where
  auth_login: "avoids e h \<Longrightarrow> auth_step h db (fst (login e n p db))"
| auth_register: "avoids e h \<Longrightarrow> auth_step h db (fst (register_user e n p em db))"
| auth_refresh: "avoids e h \<Longrightarrow> auth_step h db (fst (refresh_token e token db))"
| auth_revoke: "auth_step h db (fst (revoke_token_rpc e token db))"
| auth_other: "tokens db' = tokens db \<Longrightarrow> auth_step h db db'"

lemma spent_step: "auth_step h db db' \<Longrightarrow> spent t grace h db \<Longrightarrow> spent t grace h db'"
proof (induction rule: auth_step.induct)
  case (auth_other db' db)
  then show ?case by (simp only: spent_cong [OF auth_other.hyps])
qed (simp_all add: spent_login spent_register spent_refresh spent_revoke_rpc)

lemma spent_steps: "(auth_step h)\<^sup>*\<^sup>* db db' \<Longrightarrow> spent t grace h db \<Longrightarrow> spent t grace h db'"
  by (induction rule: rtranclp_induct) (auto intro: spent_step)

lemma spent_refused:
  assumes "spent t grace h db" and "jw_hash_token (au_jwt e) token = h" and "au_grace e = grace" and "t \<le> au_now e 4"
  shows "fst (refresh_token e token db) = db \<and> isl (snd (refresh_token e token db))"
  using spent_lookup [OF assms(1,4)] assms(2,3)
  by (cases "validate_token (au_jwt e) (au_now e 3) token") (auto simp: refresh_token_def)

text \<open>A successful refresh at time \<open>t\<close> or before leaves the token spent after the grace period.\<close>

lemma refresh_spends:
  assumes "refresh_token e token db = (db', Inr res)" and "h = jw_hash_token (au_jwt e) token" and "avoids e h"
    and "distinct (map tk_token_hash (tokens db))" and "\<And>rows. rows \<noteq> [] \<Longrightarrow> au_pick e rows \<in> set rows"
    and "\<forall>r \<in> set (tokens db). \<forall>s. tk_rotated_at r = Some s \<longrightarrow> s \<le> t" and "au_now e 5 \<le> t"
  shows "spent (t + grace) grace h db'"
proof -
  obtain c :: claims and st db1 b1 db2 b3 where
    look: "get_token_by_hash (au_sql e 2) (au_pick e) (au_now e 4) h (au_grace e) db = Inr (Some st)"
    and rv: "revoke_successor (au_sql e 3) st db = (db1, Inr b1)"
    and iss: "issue_token_pair e (cl_sub c) (cl_username c) db1 = (db2, Inr res)"
    and rot: "rotate_token (au_sql e 4) (au_now e 5) (tk_id st) (tp_token_id res) db2 = (db', Inr b3)"
    using assms(1) unfolding refresh_token_def assms(2)
    by (clarsimp simp: attempt_Inr split: if_splits option.splits)
  define rows where "rows = filter (\<lambda>r. tk_token_hash r = h \<and> token_valid (au_now e 4) (au_grace e) r) (tokens db)"
  have "rows \<noteq> []" and "st = au_pick e rows"
    using look unfolding get_token_by_hash_def rows_def [symmetric] by (auto simp: Let_def split: if_splits)
  with assms(5) have "st \<in> set rows" by blast
  then have st: "st \<in> set (tokens db)" "tk_token_hash st = h" by (simp_all add: rows_def)
  have only: "r = st" if "r \<in> set (tokens db)" "tk_token_hash r = h" for r
    using assms(4) that st by (simp add: distinct_map inj_on_def)
  have r1: "tk_id r = tk_id st \<and> (tk_revoked r \<noteq> 0 \<or> r = st)" if "r \<in> set (tokens db1)" "tk_token_hash r = h" for r
    using rv that only
    by (auto simp: revoke_successor_def revoke_token_def update_rows_def split: option.splits if_splits)
  have r2: "tk_id r = tk_id st \<and> (tk_revoked r \<noteq> 0 \<or> r = st)" if "r \<in> set (tokens db2)" "tk_token_hash r = h" for r
    using issue_token_pair_rows [OF assms(3), of "cl_sub c" "cl_username c" db1] that r1 by (auto simp: iss)
  have le: "unwrap_or (au_now e 5) (tk_rotated_at st) \<le> t"
    using assms(6,7) st(1) by (auto simp: unwrap_or_def split: option.split)
  show ?thesis
    unfolding spent_def
  proof (intro ballI impI)
    fix r assume r: "r \<in> set (tokens db')" "tk_token_hash r = h"
    obtain r0 where r0: "r0 \<in> set (tokens db2)" and eq: "r = (if tk_id r0 = tk_id st \<and> tk_revoked r0 = 0
        then r0\<lparr> tk_rotated_at := Some (unwrap_or (au_now e 5) (tk_rotated_at r0)), tk_successor_id := Some (tp_token_id res) \<rparr> else r0)"
      using r(1) unfolding rotate_token_rows [OF rot] set_map by (rule imageE)
    have "tk_token_hash r0 = h" using r(2) unfolding eq by (simp split: if_splits)
    note r0 = r2 [OF r0 this]
    show "tk_revoked r \<noteq> 0 \<or> tk_expires_at r \<le> t + grace \<or> (\<exists>s. tk_rotated_at r = Some s \<and> s \<le> t + grace - grace)"
      using r0 le unfolding eq by auto
  qed
qed

text \<open>
  C10. A refresh token that was used is accepted again only within the grace period. After a
  successful refresh no later than \<open>t\<close>, and after any sequence of logins, registrations, refreshes
  and revocations, with any outcome of every statement and any readings of the clock, a refresh
  with the same token at \<open>t + grace\<close> or later is refused and changes nothing. Retries within the
  period do not extend it. (Hashes of different tokens are assumed to differ, and \<open>au_pick\<close> to
  return one of the rows it is given.)
\<close>

theorem used_refresh_token_expires:
  assumes "refresh_token e token db = (db1, Inr res)" and "h = jw_hash_token (au_jwt e) token" and "avoids e h"
    and "distinct (map tk_token_hash (tokens db))" and "\<And>rows. rows \<noteq> [] \<Longrightarrow> au_pick e rows \<in> set rows"
    and "\<forall>r \<in> set (tokens db). \<forall>s. tk_rotated_at r = Some s \<longrightarrow> s \<le> t" and "au_now e 5 \<le> t"
    and "(auth_step h)\<^sup>*\<^sup>* db1 db2"
    and "jw_hash_token (au_jwt e') token = h" and "t + au_grace e' \<le> au_now e' 4"
  shows "fst (refresh_token e' token db2) = db2 \<and> isl (snd (refresh_token e' token db2))"
  using spent_refused [OF spent_steps [OF assms(8) refresh_spends [OF assms(1-7)]] assms(9) refl assms(10)] .

text \<open>Concrete requests: tokens are their kind and their identifier, hashes are the tokens.\<close>

definition demo_jwt :: jwt_manager where
  "demo_jwt = \<lparr> jw_encode = \<lambda>c. Inr ((if is_refresh c then CHR ''r'' else CHR ''a'') # cl_jti c),
     jw_decode = \<lambda>_ t. (case t of [] \<Rightarrow> Inl ''empty''
       | x # jti \<Rightarrow> Inr \<lparr> cl_jti = jti, cl_sub = ''u'', cl_username = ''user'', cl_iat = 0, cl_exp = 1000,
           cl_token_type = (if x = CHR ''r'' then ''refresh'' else ''access'') \<rparr>),
     jw_hash_token = id, jw_access_ttl_secs = 100, jw_refresh_ttl_secs = 1000 \<rparr>"

definition demo_auth :: "string \<Rightarrow> int \<Rightarrow> auth_env" where
  "demo_auth jti now = \<lparr> au_jwt = demo_jwt, au_grace = 10, au_sql = \<lambda>_. (True, []), au_now = \<lambda>_. now,
     au_jti_access = jti, au_jti_refresh = jti, au_token_id = jti, au_user_id = ''u'', au_pick = hd,
     au_verify_password = \<lambda>p h. Inr (p = h), au_hash_password = Inr \<rparr>"

definition demo_tokens :: relay_db where
  "demo_tokens = fst (register_user (demo_auth ''1'' 0) ''user'' ''password'' ''e'' empty_relay_db)"

abbreviation demo_refresh :: "string \<Rightarrow> int \<Rightarrow> string \<Rightarrow> relay_db \<Rightarrow> relay_db \<times> (status + token_pair)" where
  "demo_refresh jti now \<equiv> refresh_token (demo_auth jti now)"

lemma demo_avoids: "jti \<noteq> ''1'' \<Longrightarrow> avoids (demo_auth jti now) ''r1''"
  by (auto simp: avoids_def demo_auth_def demo_jwt_def)

text \<open>The token of the registration is used at 100 and again at 105; at 110 it is refused.\<close>

theorem used_refresh_token_expires_witness:
  "let db1 = fst (demo_refresh ''2'' 100 ''r1'' demo_tokens); db2 = fst (demo_refresh ''3'' 105 ''r1'' db1) in
   \<not> isl (snd (demo_refresh ''2'' 100 ''r1'' demo_tokens)) \<and> \<not> isl (snd (demo_refresh ''3'' 105 ''r1'' db1))
   \<and> fst (demo_refresh ''4'' 110 ''r1'' db2) = db2 \<and> isl (snd (demo_refresh ''4'' 110 ''r1'' db2))"
proof -
  define db1 where "db1 = fst (demo_refresh ''2'' 100 ''r1'' demo_tokens)"
  define db2 where "db2 = fst (demo_refresh ''3'' 105 ''r1'' db1)"
  have ok: "\<not> isl (snd (demo_refresh ''2'' 100 ''r1'' demo_tokens))" by code_simp
  have ok2: "\<not> isl (snd (demo_refresh ''3'' 105 ''r1'' db1))" unfolding db1_def by code_simp
  obtain res where res: "demo_refresh ''2'' 100 ''r1'' demo_tokens = (db1, Inr res)"
    using ok by (metis db1_def prod.collapse sum.collapse(2))
  have step: "auth_step ''r1'' db1 db2"
    unfolding db2_def by (rule auth_refresh) (rule demo_avoids, simp)
  have rows: "distinct (map tk_token_hash (tokens demo_tokens))"
    "list_all (\<lambda>r. tk_rotated_at r = None) (tokens demo_tokens)" by code_simp+
  have "fst (demo_refresh ''4'' 110 ''r1'' db2) = db2 \<and> isl (snd (demo_refresh ''4'' 110 ''r1'' db2))"
    by (rule used_refresh_token_expires [OF res _ demo_avoids rows(1) _ _ _ r_into_rtranclp [of "auth_step ''r1''", OF step], where t = 100])
       (use rows(2) in \<open>auto simp: demo_auth_def demo_jwt_def list_all_iff\<close>)
  with ok ok2 show ?thesis by (simp add: db1_def db2_def Let_def)
qed

text \<open>
  A retry within the grace period revokes only the token issued by the previous use. When that one
  was itself used, the token issued for it stays valid: \<open>r1\<close> is used at 100 for \<open>r2\<close>, which is used
  at 101 for \<open>r3\<close>; the second use of \<open>r1\<close> at 105 revokes \<open>r2\<close>, and \<open>r3\<close> is accepted at 500.
\<close>

theorem retry_keeps_descendant:
  "let db1 = fst (demo_refresh ''2'' 100 ''r1'' demo_tokens); db2 = fst (demo_refresh ''3'' 101 ''r2'' db1);
       db3 = fst (demo_refresh ''4'' 105 ''r1'' db2)
   in isl (snd (demo_refresh ''5'' 106 ''r2'' db3)) \<and> \<not> isl (snd (demo_refresh ''5'' 500 ''r3'' db3))
    \<and> \<not> isl (snd (demo_refresh ''5'' 500 ''r4'' db3))"
  by code_simp

end
