(* ===== verification/RelayServices.thy ===== *)
theory RelayServices
  imports RelayIsolation RelayAuth
begin

text \<open>
  The services of the relay: the proxies that forward calls to daemons (\<^verbatim>\<open>server/grpc_util.rs\<close>,
  \<^verbatim>\<open>server/agent_proxy.rs\<close>), machines (\<^verbatim>\<open>server/machine_svc.rs\<close>) and push devices
  (\<^verbatim>\<open>notifications/service.rs\<close>). The protobuf codec, the JSON codec of metadata and fresh identifiers are
  arguments. The theory proves from the authorization header on that a call is forwarded only with
  an access token of the owner of the machine, and what the proxied stream of a daemon consists of.
\<close>

section \<open>Proxies\<close>

definition extract_claims :: "claims option \<Rightarrow> status + claims" where
  "extract_claims ext = (case ext of None \<Rightarrow> Inl (Internal ''Claims not found in request extensions'') | Some c \<Rightarrow> Inr c)"

definition extract_machine_id :: "string option \<Rightarrow> status + string" where
  "extract_machine_id header =
     (case header of None \<Rightarrow> Inl (InvalidArgument ''Missing x-machine-id metadata header'') | Some m \<Rightarrow> Inr m)"

definition router_error_to_status :: "router_error \<Rightarrow> status" where
  "router_error_to_status err =
     (case err of
        MachineOffline m \<Rightarrow> Unavailable (''Machine offline: '' @ m)
      | Buffered m \<Rightarrow> Unavailable (''Machine offline, request buffered: '' @ m)
      | Timeout r \<Rightarrow> DeadlineExceeded (''Request timed out: '' @ r)
      | SendFailed m \<Rightarrow> Internal (''Failed to send to machine: '' @ m)
      | ResponseDropped r \<Rightarrow> Internal (''Response dropped: '' @ r))"

definition decode_response :: "(byte list \<Rightarrow> string + 'm) \<Rightarrow> tunnel_frame \<Rightarrow> status + 'm" where
  "decode_response decode frame =
     (if tf_frame_type frame = FtError
      then (case tf_payload frame of
              Some (PError e) \<Rightarrow> Inl (Internal (''Daemon error: '' @ te_message e))
            | _ \<Rightarrow> Inl (Internal ''Daemon returned error frame''))
      else case tf_payload frame of
        Some (PStreamData p) \<Rightarrow>
          (case decode (payload_data p) of
             Inl e \<Rightarrow> Inl (Internal (''Failed to decode response: '' @ e)) | Inr m \<Rightarrow> Inr m)
      | _ \<Rightarrow> Inl (Internal ''Unexpected response payload format''))"

text \<open>The beginning of a forwarded call and of a forwarded stream. The rest are the steps in
  \<open>RelayRouter\<close>; the result of a call is translated at the end.\<close>

definition forward_unary_rpc ::
  "sqlite \<Rightarrow> claims option \<Rightarrow> string option \<Rightarrow> string \<Rightarrow> string \<Rightarrow> (string + byte list) \<Rightarrow> relay_state
    \<Rightarrow> relay_state \<times> (status + nat)" where
  "forward_unary_rpc q ext header request_id mth encoded s =
     attempt id (s, extract_claims ext) (\<lambda>c s.
     attempt id (s, extract_machine_id header) (\<lambda>machine_id s.
     attempt id (s, verify_machine_ownership q machine_id (cl_sub c) (rl_db s)) (\<lambda>_ s.
     attempt (\<lambda>e. Internal (''Encode error: '' @ e)) (s, encoded) (\<lambda>buf.
       new_unary_call (cl_sub c) machine_id request_id mth buf))))"

definition forward_stream_rpc ::
  "sqlite \<Rightarrow> claims option \<Rightarrow> string option \<Rightarrow> string \<Rightarrow> string \<Rightarrow> (string + byte list) \<Rightarrow> relay_state
    \<Rightarrow> relay_state \<times> (status + nat)" where
  "forward_stream_rpc q ext header request_id mth encoded s =
     attempt id (s, extract_claims ext) (\<lambda>c s.
     attempt id (s, extract_machine_id header) (\<lambda>machine_id s.
     attempt id (s, verify_machine_ownership q machine_id (cl_sub c) (rl_db s)) (\<lambda>_ s.
     attempt (\<lambda>e. Internal (''Encode error: '' @ e)) (s, encoded) (\<lambda>buf.
       new_stream_call (cl_sub c) machine_id request_id mth buf))))"

definition unary_reply :: "(byte list \<Rightarrow> string + 'm) \<Rightarrow> router_error + tunnel_frame \<Rightarrow> status + 'm" where
  "unary_reply decode r =
     (case r of Inl e \<Rightarrow> Inl (router_error_to_status e) | Inr frame \<Rightarrow> decode_response decode frame)"

datatype 'm stream_frame_action = SfSend "status + 'm" | SfBreak "(status + 'm) option" | SfSkip

definition decode_stream_frame :: "(byte list \<Rightarrow> string + 'm) \<Rightarrow> tunnel_frame \<Rightarrow> 'm stream_frame_action" where
  "decode_stream_frame decode frame =
     (case tf_frame_type frame of
        FtStreamData \<Rightarrow>
          (case tf_payload frame of
             Some (PStreamData p) \<Rightarrow> (case decode (payload_data p) of Inr m \<Rightarrow> SfSend (Inr m) | Inl _ \<Rightarrow> SfSkip)
           | _ \<Rightarrow> SfSkip)
      | FtError \<Rightarrow>
          (case tf_payload frame of
             Some (PError e) \<Rightarrow> SfBreak (Some (Inl (Internal (''Daemon error: '' @ te_message e))))
           | _ \<Rightarrow> SfBreak None)
      | _ \<Rightarrow> SfSkip)"

text \<open>The task of \<^verbatim>\<open>forward_server_stream\<close> on the frames of its stream: what the client receives, when
  it stays until the end.\<close>

fun proxy_stream :: "(byte list \<Rightarrow> string + 'm) \<Rightarrow> tunnel_frame list \<Rightarrow> (status + 'm) list" where
  "proxy_stream decode [] = []"
| "proxy_stream decode (f # fs) =
     (case decode_stream_frame decode f of
        SfSend item \<Rightarrow> item # proxy_stream decode fs
      | SfBreak None \<Rightarrow> []
      | SfBreak (Some item) \<Rightarrow> [item]
      | SfSkip \<Rightarrow> proxy_stream decode fs)"

section \<open>Machines\<close>

definition extract_user_id :: "claims option \<Rightarrow> status + string" where
  "extract_user_id ext = map_sum id cl_sub (extract_claims ext)"

text \<open>The check of this service, which maps every database error to the same status.\<close>

definition verify_owned_machine :: "sqlite \<Rightarrow> string \<Rightarrow> string \<Rightarrow> relay_db \<Rightarrow> status + machine_row" where
  "verify_owned_machine q machine_id user_id db =
     (case get_machine q machine_id db of
        Inl _ \<Rightarrow> Inl (NotFound ''Machine not found'')
      | Inr m \<Rightarrow> if mc_owner_id m \<noteq> user_id then Inl (PermissionDenied ''Not your machine'') else Inr m)"

datatype machine_status = MachineOnline | MachineOfflineStatus

record machine_info =
  mi_machine_id :: string
  mi_name :: string
  mi_owner_id :: string
  mi_status :: machine_status
  mi_registered_at :: int
  mi_last_seen :: int
  mi_metadata :: "(string, string) hmap"

definition machine_to_proto :: "(string \<Rightarrow> (string, string) hmap option) \<Rightarrow> machine_row \<Rightarrow> machine_info" where
  "machine_to_proto parse m = \<lparr> mi_machine_id = mc_id m, mi_name = mc_name m, mi_owner_id = mc_owner_id m,
     mi_status = (if mc_status m = ''online'' then MachineOnline else MachineOfflineStatus),
     mi_registered_at = mc_registered_at m, mi_last_seen = mc_last_seen m,
     mi_metadata = unwrap_or [] (parse (mc_metadata m)) \<rparr>"

definition register_machine ::
  "sqlite \<Rightarrow> sqlite \<Rightarrow> int \<Rightarrow> (string \<Rightarrow> (string, string) hmap option) \<Rightarrow> string option \<Rightarrow> claims option \<Rightarrow> string \<Rightarrow> string
    \<Rightarrow> relay_db \<Rightarrow> relay_db \<times> (status + machine_info)" where
  "register_machine q q' now parse json ext machine_id name db =
     attempt id (db, extract_user_id ext) (\<lambda>user_id db.
     attempt (\<lambda>e. Internal (''Failed to register machine: '' @ show_database_error e))
       (create_machine q q' now machine_id name user_id (unwrap_or ''{}'' json) db)
       (\<lambda>m db. (db, Inr (machine_to_proto parse m))))"

text \<open>The filter is the enumerator of the request, \<open>None\<close> for any other number. The total is cut to
  32 bits.\<close>

definition list_machines_rpc ::
  "sqlite \<Rightarrow> sqlite \<Rightarrow> (string \<Rightarrow> (string, string) hmap option) \<Rightarrow> claims option \<Rightarrow> machine_status option \<Rightarrow> 32 word
    \<Rightarrow> 32 word \<Rightarrow> relay_db \<Rightarrow> status + machine_info list \<times> 32 word" where
  "list_machines_rpc q q' parse ext filt limit off db =
     snd (attempt id (db, extract_user_id ext) (\<lambda>user_id db.
       let st = (case filt of Some MachineOnline \<Rightarrow> Some ''online'' | Some MachineOfflineStatus \<Rightarrow> Some ''offline'' | None \<Rightarrow> None);
           lim = (if limit = 0 then 100 else limit)
       in attempt (\<lambda>e. Internal (''Failed to list machines: '' @ show_database_error e))
            (db, list_machines q user_id st lim off db) (\<lambda>ms db.
          attempt (\<lambda>e. Internal (''Failed to count machines: '' @ show_database_error e))
            (db, count_machines q' user_id st db) (\<lambda>n db.
          (db, Inr (map (machine_to_proto parse) ms,
                    if 0 \<le> n \<and> n < 2 ^ 32 then word_of_int n else - 1))))))"

definition remove_machine_rpc ::
  "sqlite \<Rightarrow> sqlite \<Rightarrow> claims option \<Rightarrow> string \<Rightarrow> relay_db \<Rightarrow> relay_db \<times> (status + bool)" where
  "remove_machine_rpc q q' ext machine_id db =
     attempt id (db, extract_user_id ext) (\<lambda>user_id db.
     attempt id (db, verify_owned_machine q machine_id user_id db) (\<lambda>_ db.
     attempt (\<lambda>e. Internal (''Failed to remove machine: '' @ show_database_error e))
       (remove_machine q' machine_id db) (\<lambda>b db. (db, Inr b))))"

definition get_machine_rpc ::
  "sqlite \<Rightarrow> (string \<Rightarrow> (string, string) hmap option) \<Rightarrow> claims option \<Rightarrow> string \<Rightarrow> relay_db \<Rightarrow> status + machine_info" where
  "get_machine_rpc q parse ext machine_id db =
     (case extract_user_id ext of
        Inl e \<Rightarrow> Inl e
      | Inr user_id \<Rightarrow> map_sum id (machine_to_proto parse) (verify_owned_machine q machine_id user_id db))"

section \<open>Push devices\<close>

datatype device_platform = Android | Ios | UnspecifiedPlatform

definition platform_to_str :: "device_platform option \<Rightarrow> status + string" where
  "platform_to_str platform =
     (case platform of
        Some Android \<Rightarrow> Inr ''android''
      | Some Ios \<Rightarrow> Inr ''ios''
      | _ \<Rightarrow> Inl (InvalidArgument ''Platform must be ANDROID or IOS''))"

definition register_device ::
  "sqlite \<Rightarrow> int \<Rightarrow> string \<Rightarrow> string \<Rightarrow> string \<Rightarrow> device_platform option \<Rightarrow> relay_db \<Rightarrow> relay_db \<times> (status + bool)" where
  "register_device q now i user_id device_token platform db =
     (if device_token = [] then (db, Inl (InvalidArgument ''device_token is required''))
      else if user_id = [] then (db, Inl (InvalidArgument ''user_id is required''))
      else attempt id (db, platform_to_str platform) (\<lambda>p db.
        attempt (\<lambda>e. Internal (''Failed to register device token: '' @ show_database_error e))
          (upsert_device_token q now i user_id device_token p db) (\<lambda>_ db. (db, Inr True))))"

text \<open>
  \<^verbatim>\<open>&s[..n]\<close> panics when \<open>n\<close> is inside a character, which is the result \<open>None\<close>: the byte at \<open>n\<close> is then a
  continuation byte of the encoding. The log line takes such a slice of a token that was removed.
\<close>

definition str_prefix :: "string \<Rightarrow> nat \<Rightarrow> string option" where
  "str_prefix s n = (if n = length s \<or> (n < length s \<and> of_char (s ! n) div 64 \<noteq> (2 :: nat)) then Some (take n s) else None)"

definition unregister_device :: "sqlite \<Rightarrow> string \<Rightarrow> relay_db \<Rightarrow> relay_db \<times> (status + bool) option" where
  "unregister_device q device_token db =
     (if device_token = [] then (db, Some (Inl (InvalidArgument ''device_token is required'')))
      else case delete_device_token q device_token db of
        (db, Inl e) \<Rightarrow> (db, Some (Inl (Internal (''Failed to unregister device token: '' @ show_database_error e))))
      | (db, Inr removed) \<Rightarrow>
          if removed
          then (db, map_option (\<lambda>_. Inr removed) (str_prefix device_token (min (length device_token) 8)))
          else (db, Some (Inr removed)))"

section \<open>Who may call\<close>

lemma forward_unary_rpc_accepted:
  assumes "forward_unary_rpc q ext header rid mth enc s = (s', Inr w)"
  obtains c m buf where "ext = Some c" "header = Some m" "enc = Inr buf"
    "verify_machine_ownership q m (cl_sub c) (rl_db s) = Inr ()"
    "new_unary_call (cl_sub c) m rid mth buf s = (s', (Inr w :: status + nat))"
  using assms unfolding forward_unary_rpc_def attempt_Inr extract_claims_def extract_machine_id_def
  by (auto split: option.splits)

text \<open>
  C16. A unary call is forwarded exactly on behalf of the owner: when the interceptor admitted the
  request and the call is accepted, the request carried a token that the JWT library accepts at that
  time and that is an access token, and the machine it names belongs to the subject of the token;
  the call is registered for this user and machine and is a step of the relay. A call that is not
  accepted changes nothing.
\<close>

theorem forwarded_only_for_owner:
  assumes "jwt_interceptor j now authorization = Inr c"
    and "forward_unary_rpc q (Some c) header rid mth enc s = (s', r)"
  shows "(\<forall>e. r = Inl e \<longrightarrow> s' = s) \<and> (\<forall>w. r = Inr w \<longrightarrow>
    (\<exists>token m. authorization = Some (''Bearer '' @ token) \<and> jw_decode j now token = Inr c \<and> is_access c
      \<and> header = Some m \<and> (m, cl_sub c) \<in> owners s \<and> relay_step removal s s'
      \<and> uc_user (rl_call s' w) = cl_sub c \<and> uc_machine_id (rl_call s' w) = m \<and> uc_phase (rl_call s' w) = UChecked))"
proof (intro conjI allI impI)
  fix e assume "r = Inl e"
  with assms(2) show "s' = s"
    by (auto simp: forward_unary_rpc_def attempt_def new_unary_call_def split: sum.splits)
next
  fix w assume "r = Inr w"
  with assms(2) obtain m buf where m: "header = Some m" "verify_machine_ownership q m (cl_sub c) (rl_db s) = Inr ()"
      "new_unary_call (cl_sub c) m rid mth buf s = (s', (Inr w :: status + nat))"
    by (auto elim: forward_unary_rpc_accepted)
  have "unary_check q (cl_sub c) m rid mth buf s = (s', Inr w)" using m(2,3) by (simp add: unary_check_def)
  then have "relay_step removal s s'" using rs_unary_check [of removal s q "cl_sub c" m rid mth buf] by simp
  moreover have "uc_user (rl_call s' w) = cl_sub c \<and> uc_machine_id (rl_call s' w) = m \<and> uc_phase (rl_call s' w) = UChecked"
    using m(3) by (auto simp: new_unary_call_def)
  moreover have "(m, cl_sub c) \<in> owners s" using m(2) by (rule verified_owner)
  moreover obtain token where "authorization = Some (''Bearer '' @ token)" "jw_decode j now token = Inr c" "is_access c"
    using assms(1) by (auto simp only: interceptor_access)
  ultimately show "\<exists>token m. authorization = Some (''Bearer '' @ token) \<and> jw_decode j now token = Inr c \<and> is_access c
      \<and> header = Some m \<and> (m, cl_sub c) \<in> owners s \<and> relay_step removal s s'
      \<and> uc_user (rl_call s' w) = cl_sub c \<and> uc_machine_id (rl_call s' w) = m \<and> uc_phase (rl_call s' w) = UChecked"
    using m(1) by blast
qed

definition demo_claims :: claims where
  "demo_claims = \<lparr> cl_jti = ''1'', cl_sub = ''u'', cl_username = ''user'', cl_iat = 0, cl_exp = 1000, cl_token_type = ''access'' \<rparr>"

theorem forwarded_only_for_owner_witness:
  "(''m'', ''u'') \<in> owners demo_connected
   \<and> snd (forward_unary_rpc (True, []) (Some demo_claims) (Some ''m'') ''r'' ''M'' (Inr []) demo_connected) = Inr 1
   \<and> relay_step False demo_connected
       (fst (forward_unary_rpc (True, []) (Some demo_claims) (Some ''m'') ''r'' ''M'' (Inr []) demo_connected))"
proof -
  let ?r = "forward_unary_rpc (True, []) (Some demo_claims) (Some ''m'') ''r'' ''M'' (Inr []) demo_connected"
  have a: "jwt_interceptor demo_jwt 5 (Some ''Bearer a1'') = Inr demo_claims" by code_simp
  have b: "snd ?r = Inr 1" "cl_sub demo_claims = ''u''" by code_simp+
  then have "?r = (fst ?r, Inr 1)" by (metis prod.collapse)
  from forwarded_only_for_owner [OF a this, of False] b show ?thesis by auto
qed

section \<open>What clients see\<close>

text \<open>When a tunnel ends in the middle of a stream, the stream loses its sender without an error
  frame, and the client's stream ends like one that is complete.\<close>

lemma proxy_stream_no_error:
  "\<forall>f \<in> set fs. tf_frame_type f \<noteq> FtError \<Longrightarrow> list_all (\<lambda>x. \<not> isl x) (proxy_stream decode fs)"
  by (induction fs)
     (auto simp: decode_stream_frame_def split: frame_type.splits option.splits frame_payload.splits sum.splits)

lemma cancel_all_pending_stream:
  assumes "hm_get (tc_stream_pending (rl_conn s c)) rid = Some w"
  shows "\<not> sc_sender (rl_stream (cancel_all_pending c s) w)
    \<and> sc_frames (rl_stream (cancel_all_pending c s) w) = sc_frames (rl_stream s w)"
proof -
  have p: "rl_stream (foldr (\<lambda>(_, w). drop_sender (Some w)) ps s) = rl_stream s" for ps :: "(string \<times> nat) list"
    by (induction ps) auto
  have f: "sc_frames (rl_stream (foldr (\<lambda>(_, w). drop_stream_sender (Some w)) ps t) w) = sc_frames (rl_stream t w)"
    for t and ps :: "(string \<times> nat) list" by (induction ps) auto
  have d: "w \<in> snd ` set ps \<Longrightarrow> \<not> sc_sender (rl_stream (foldr (\<lambda>(_, w). drop_stream_sender (Some w)) ps t) w)"
    for t and ps :: "(string \<times> nat) list" by (induction ps) (auto simp: drop_stream_sender_def image_iff split: if_splits, force)
  have "w \<in> snd ` set (tc_stream_pending (rl_conn s c))" using map_of_SomeD [OF assms] by force
  with d p f show ?thesis by (simp add: cancel_all_pending_def)
qed

theorem lost_tunnel_ends_stream_normally:
  assumes "hm_get (tc_stream_pending (rl_conn s c)) rid = Some w" and "rl_task s c = TpServing"
    and "\<forall>f \<in> set (sc_frames (rl_stream s w)). tf_frame_type f \<noteq> FtError"
  shows "\<exists>s'. tunnel_end_step q now c s = Some s' \<and> \<not> sc_sender (rl_stream s' w)
    \<and> list_all (\<lambda>x. \<not> isl x) (proxy_stream decode (sc_frames (rl_stream s' w)))"
  using cancel_all_pending_stream [OF assms(1)] assms(2,3)
  by (simp add: tunnel_end_step_def Let_def proxy_stream_no_error)

text \<open>A request for an offline machine whose buffer is full is answered like any other request for
  an offline machine.\<close>

theorem full_buffer_reported_as_offline:
  assumes "get_connection (uc_machine_id (rl_call s w)) s = None" and "fst q"
    and "int (bc_max_per_machine bc) \<le>
      int (length (filter (\<lambda>r. bm_machine_id r = uc_machine_id (rl_call s w)) (message_buffer (rl_db s))))"
  shows "forward_begin bc q q' now json w s =
      upd_call w (\<lambda>k. k\<lparr>uc_phase := UReturned (Inl (MachineOffline (uc_machine_id k)))\<rparr>) s
    \<and> router_error_to_status (MachineOffline m) = Unavailable (''Machine offline: '' @ m)"
  using assms
  by (simp add: forward_begin_def buffer_request_def count_buffered_messages_def router_error_to_status_def)

text \<open>A call that cannot be sent leaves its entry in the table of waiters.\<close>

theorem failed_send_leaves_waiter:
  assumes "get_connection (uc_machine_id (rl_call s w)) s = Some c" and "\<not> tc_receiver (rl_conn s c)"
    and "s1 = forward_begin bc q q' now json w s" and "uc_phase (rl_call s1 w) = USending f" and "forward_send w f s1 = Some s2"
  shows "uc_phase (rl_call s2 w) = UReturned (Inl (SendFailed (uc_machine_id (rl_call s w))))
    \<and> hm_get (tc_pending (rl_conn s2 c)) (uc_request_id (rl_call s w)) = Some w"
proof -
  have c: "uc_conn (rl_call s1 w) = c" "rl_conn s1 c = (rl_conn s c)\<lparr>tc_pending :=
      hm_insert (uc_request_id (rl_call s w)) w (tc_pending (rl_conn s c))\<rparr>"
    using assms(1,3) by (simp_all add: forward_begin_def register_pending_def Let_def)
  have m: "uc_machine_id (rl_call s1 w) = uc_machine_id (rl_call s w)"
    using assms(1,3) by (auto simp: forward_begin_def register_pending_def drop_sender_def Let_def split: option.split)
  have "send_frame c f s1 = Some (s1, False)" using assms(2) by (simp add: send_frame_def c Let_def)
  then show ?thesis using assms(5) by (auto simp: forward_send_def c m Let_def)
qed

text \<open>Unregistering a device whose token has a character across the eighth byte removes it and then
  panics.\<close>

theorem unregister_device_panics:
  "let token = ''abcdefg'' @ [CHR 0xC3, CHR 0xA9];
       db = fst (register_device (True, []) 0 ''d'' ''u'' token (Some Android) empty_relay_db)
   in map dt_device_token (device_tokens db) = [token]
    \<and> snd (unregister_device (True, []) token db) = None
    \<and> device_tokens (fst (unregister_device (True, []) token db)) = []"
  by code_simp

end
