(* ===== verification/Text.thy ===== *)
theory Text
  imports Prelude
begin

text \<open>
  The operations of Rust's standard library on strings and slices that the terminal and crypto
  components use: \<^verbatim>\<open>join\<close>, \<^verbatim>\<open>split\<close> at a character, \<^verbatim>\<open>lines\<close>, \<^verbatim>\<open>chunks\<close>, and
  the test of a byte position for a character boundary. A string is its UTF-8 byte sequence.
\<close>

fun join_str :: "string \<Rightarrow> string list \<Rightarrow> string" where
  "join_str sep [] = []"
| "join_str sep [x] = x"
| "join_str sep (x # y # zs) = x @ sep @ join_str sep (y # zs)"

fun split_char :: "char \<Rightarrow> string \<Rightarrow> string list" where
  "split_char c [] = [[]]"
| "split_char c (d # s) =
     (if d = c then [] # split_char c s
      else (case split_char c s of [] \<Rightarrow> [[d]] | x # xs \<Rightarrow> (d # x) # xs))"

text \<open>\<^verbatim>\<open>split_inclusive('\n')\<close>: every piece but possibly the last ends with the newline.\<close>

fun split_inclusive :: "char \<Rightarrow> string \<Rightarrow> string list" where
  "split_inclusive c [] = []"
| "split_inclusive c (d # s) =
     (if d = c then [d] # split_inclusive c s
      else (case split_inclusive c s of [] \<Rightarrow> [[d]] | x # xs \<Rightarrow> (d # x) # xs))"

definition strip_line_end :: "string \<Rightarrow> string" where
  "strip_line_end l = (case strip_suffix l [CHR 0x0A] of
      None \<Rightarrow> l
    | Some l' \<Rightarrow> (case strip_suffix l' [CHR 0x0D] of None \<Rightarrow> l' | Some l'' \<Rightarrow> l''))"

definition str_lines :: "string \<Rightarrow> string list" where
  "str_lines s = map strip_line_end (split_inclusive (CHR 0x0A) s)"

function chunks :: "nat \<Rightarrow> 'a list \<Rightarrow> 'a list list" where
  "chunks n xs = (if n = 0 \<or> xs = [] then [] else take n xs # chunks n (drop n xs))"
  by pat_completeness auto
termination by (relation "measure (\<lambda>(n, xs). length xs)") auto

declare chunks.simps [simp del]

definition continuation_byte :: "char \<Rightarrow> bool" where
  "continuation_byte c \<longleftrightarrow> (128::nat) \<le> of_char c \<and> (of_char c :: nat) < 192"

definition is_char_boundary :: "string \<Rightarrow> nat \<Rightarrow> bool" where
  "is_char_boundary s i \<longleftrightarrow> i = 0 \<or> i = length s \<or> i < length s \<and> \<not> continuation_byte (s ! i)"

section \<open>Laws\<close>

lemma split_char_not_Nil [simp]: "split_char c s \<noteq> []"
  by (induction s) (auto split: list.split)

lemma join_str_Cons: "xs \<noteq> [] \<Longrightarrow> join_str sep (x # xs) = x @ sep @ join_str sep xs"
  by (cases xs) auto

lemma join_split [simp]: "join_str [c] (split_char c s) = s"
proof (induction s)
  case (Cons d s)
  then show ?case
    by (cases "split_char c s"; cases "tl (split_char c s)") (auto simp: join_str_Cons)
qed simp

lemma join_str_append:
  "xs \<noteq> [] \<Longrightarrow> ys \<noteq> [] \<Longrightarrow> join_str sep (xs @ ys) = join_str sep xs @ sep @ join_str sep ys"
proof (induction xs)
  case (Cons x xs)
  then show ?case by (cases "xs = []") (simp_all add: join_str_Cons)
qed simp

lemma concat_chunks: "0 < n \<Longrightarrow> concat (chunks n xs) = xs"
  by (induction n xs rule: chunks.induct) (subst chunks.simps, auto)

lemma chunks_Nil_iff: "0 < n \<Longrightarrow> chunks n xs = [] \<longleftrightarrow> xs = []"
  by (subst chunks.simps) simp

lemma chunks_length: "ys \<in> set (chunks n xs) \<Longrightarrow> 0 < length ys \<and> length ys \<le> n"
  by (induction n xs rule: chunks.induct)
     (subst (asm) (2) chunks.simps, auto split: if_splits)

lemma split_inclusive_free: "c \<notin> set s \<Longrightarrow> s \<noteq> [] \<Longrightarrow> split_inclusive c s = [s]"
proof (induction s)
  case (Cons d s)
  then show ?case by (cases s) auto
qed simp

lemma split_inclusive_append: "c \<notin> set s \<Longrightarrow> split_inclusive c (s @ c # t) = (s @ [c]) # split_inclusive c t"
  by (induction s) auto

lemma split_inclusive_join:
  assumes "\<And>l. l \<in> set ls \<Longrightarrow> c \<notin> set l \<and> l \<noteq> []" and "ls \<noteq> []"
  shows "split_inclusive c (join_str [c] ls) = map (\<lambda>l. l @ [c]) (butlast ls) @ [last ls]"
  using assms
proof (induction ls)
  case (Cons l ls)
  show ?case
  proof (cases ls)
    case Nil
    then show ?thesis using Cons.prems split_inclusive_free [of c l] by simp
  next
    case (Cons k ks)
    then show ?thesis using Cons.prems Cons.IH split_inclusive_append [of c l] by simp
  qed
qed simp

lemma strip_line_end_plain:
  assumes "CHR 0x0A \<notin> set l" "CHR 0x0D \<notin> set l"
  shows "strip_line_end l = l" "strip_line_end (l @ [CHR 0x0A]) = l"
  using assms by (auto simp: strip_line_end_def strip_suffix_def suffix_def split: option.split)

text \<open>Lines without line ends of their own that are joined by newlines are the lines again.\<close>

lemma lines_join:
  assumes "\<And>l. l \<in> set ls \<Longrightarrow> CHR 0x0A \<notin> set l \<and> CHR 0x0D \<notin> set l \<and> l \<noteq> []"
  shows "str_lines (join_str [CHR 0x0A] ls) = ls"
proof (cases "ls = []")
  case False
  then have "str_lines (join_str [CHR 0x0A] ls)
      = map strip_line_end (map (\<lambda>l. l @ [CHR 0x0A]) (butlast ls) @ [last ls])"
    unfolding str_lines_def using assms by (subst split_inclusive_join) auto
  also have "\<dots> = butlast ls @ [last ls]"
    using assms False by (auto simp: strip_line_end_plain in_set_butlastD cong: map_cong intro: map_idI)
  finally show ?thesis using False by simp
qed (simp add: str_lines_def)

end
