(* ===== verification/Crypto.thy ===== *)
theory Crypto
  imports CoreDb Text
begin

unbundle bit_operations_syntax

text \<open>
  End-to-end encryption, \<^verbatim>\<open>crates/betcode-crypto/src/\<close>: the errors (\<^verbatim>\<open>error.rs\<close>), sessions
  with their nonces (\<^verbatim>\<open>session.rs\<close>), identity keys (\<^verbatim>\<open>identity.rs\<close>) and the key exchange
  (\<^verbatim>\<open>exchange.rs\<close>). The primitives (X25519, HKDF-SHA256, ChaCha20-Poly1305, SHA-256, the comparison in constant time) come from
  other packages: they are the fields of a \<open>crypto_lib\<close> that every definition takes, and
  \<open>crypto_laws\<close> states what their documentation promises. Random bytes are arguments.
  The theory proves that concurrent calls never hand out a nonce twice, and that what one side of a key
  exchange encrypts the other side decrypts.
\<close>

section \<open>Errors and primitives\<close>

datatype crypto_error =
    EncryptionFailed string
  | DecryptionFailed string
  | InvalidKeyLength nat nat
  | InvalidNonceLength nat nat
  | KeyDerivationFailed string
  | SerializationError string
  | NonceExhausted
  | CryptoIo string

definition em_dash :: string where
  "em_dash = [CHR 0xE2, CHR 0x80, CHR 0x94]"

definition show_crypto_error :: "crypto_error \<Rightarrow> string" where
  "show_crypto_error e = (case e of
      EncryptionFailed s \<Rightarrow> ''Encryption failed: '' @ s
    | DecryptionFailed s \<Rightarrow> ''Decryption failed: '' @ s
    | InvalidKeyLength x a \<Rightarrow> ''Invalid key length: expected '' @ show_nat x @ '', got '' @ show_nat a
    | InvalidNonceLength x a \<Rightarrow> ''Invalid nonce length: expected '' @ show_nat x @ '', got '' @ show_nat a
    | KeyDerivationFailed s \<Rightarrow> ''Key derivation failed: '' @ s
    | SerializationError s \<Rightarrow> ''Serialization error: '' @ s
    | NonceExhausted \<Rightarrow> ''Nonce counter exhausted '' @ em_dash @ '' session must be rekeyed''
    | CryptoIo s \<Rightarrow> ''IO error: '' @ s)"

text \<open>
  The packages: \<open>lib_hkdf\<close> takes salt, input and info; \<open>lib_seal\<close> and \<open>lib_open\<close> take key, nonce and
  data; \<open>lib_dh\<close> takes our secret and their public key; \<open>lib_ct_eq\<close> compares strings of one length.
\<close>

record crypto_lib =
  lib_hkdf :: "byte list \<Rightarrow> byte list \<Rightarrow> byte list \<Rightarrow> string + byte list"
  lib_seal :: "byte list \<Rightarrow> byte list \<Rightarrow> byte list \<Rightarrow> string + byte list"
  lib_open :: "byte list \<Rightarrow> byte list \<Rightarrow> byte list \<Rightarrow> string + byte list"
  lib_dh :: "byte list \<Rightarrow> byte list \<Rightarrow> byte list"
  lib_public :: "byte list \<Rightarrow> byte list"
  lib_sha256 :: "byte list \<Rightarrow> byte list"
  lib_ct_eq :: "string \<Rightarrow> string \<Rightarrow> bool"

definition crypto_laws :: "crypto_lib \<Rightarrow> bool" where
  "crypto_laws L \<longleftrightarrow>
     (\<forall>k n p c. lib_seal L k n p = Inr c \<longrightarrow> lib_open L k n c = Inr p) \<and>
     (\<forall>a b. lib_dh L a (lib_public L b) = lib_dh L b (lib_public L a)) \<and>
     (\<forall>a. length (lib_public L a) = 32) \<and>
     (\<forall>d. length (lib_sha256 L d) = 32) \<and>
     (\<forall>a b. length a = length b \<longrightarrow> lib_ct_eq L a b = (a = b))"

section \<open>Sessions\<close>

definition bytes_of :: "string \<Rightarrow> byte list" where
  "bytes_of s = map (\<lambda>c. of_nat (of_char c)) s"

definition HKDF_INFO :: "byte list" where
  "HKDF_INFO = bytes_of ''betcode-e2e-session-v1''"

definition HKDF_SALT :: "byte list" where
  "HKDF_SALT = bytes_of ''betcode-e2e-hkdf-salt-v1''"

definition NONCE_SIZE :: nat where
  "NONCE_SIZE = 12"

record encrypted_data =
  ed_ciphertext :: "byte list"
  ed_nonce :: "byte list"

record crypto_session =
  cs_key :: "byte list"
  cs_nonce_prefix :: "byte list"
  cs_nonce_counter :: "32 word"

definition hkdf_derive :: "crypto_lib \<Rightarrow> byte list \<Rightarrow> crypto_error + byte list" where
  "hkdf_derive L shared_secret = (case lib_hkdf L HKDF_SALT shared_secret HKDF_INFO of
      Inl e \<Rightarrow> Inl (KeyDerivationFailed e)
    | Inr key \<Rightarrow> Inr key)"

definition from_shared_secret :: "crypto_lib \<Rightarrow> byte list \<Rightarrow> byte list \<Rightarrow> crypto_error + crypto_session" where
  "from_shared_secret L random shared_secret = (case hkdf_derive L shared_secret of
      Inl e \<Rightarrow> Inl e
    | Inr key \<Rightarrow> Inr \<lparr> cs_key = key, cs_nonce_prefix = random, cs_nonce_counter = 0 \<rparr>)"

definition from_keypairs ::
  "crypto_lib \<Rightarrow> byte list \<Rightarrow> byte list \<Rightarrow> byte list \<Rightarrow> crypto_error + crypto_session" where
  "from_keypairs L random local_secret remote_public =
     from_shared_secret L random (lib_dh L local_secret remote_public)"

text \<open>\<^verbatim>\<open>u32::to_be_bytes\<close>, and the bytes of a nonce.\<close>

definition to_be_bytes :: "32 word \<Rightarrow> byte list" where
  "to_be_bytes w = [ucast (drop_bit 24 w), ucast (drop_bit 16 w), ucast (drop_bit 8 w), ucast w]"

definition nonce_bytes :: "byte list \<Rightarrow> 32 word \<Rightarrow> byte list" where
  "nonce_bytes prefix_bytes prev = to_be_bytes prev @ prefix_bytes"

text \<open>
  \<^verbatim>\<open>next_nonce\<close> one atomic access at a time. A call is before the load, or before the
  compare-and-swap with the loaded value, or has returned. A relaxed load sees the value the counter has
  or had (\<open>seen\<close>), and a weak exchange may fail without a reason (\<open>weak\<close>).
\<close>

datatype nonce_pc = NLoad | NCas "32 word" | NRet "crypto_error + byte list"

definition nonce_step ::
  "32 word \<Rightarrow> bool \<Rightarrow> crypto_session \<Rightarrow> nonce_pc \<Rightarrow> crypto_session \<times> nonce_pc" where
  "nonce_step seen weak s pc = (case pc of
      NLoad \<Rightarrow> (s, if seen = - 1 then NRet (Inl NonceExhausted) else NCas seen)
    | NCas current \<Rightarrow>
        if cs_nonce_counter s = current \<and> \<not> weak
        then (s\<lparr>cs_nonce_counter := current + 1\<rparr>, NRet (Inr (nonce_bytes (cs_nonce_prefix s) current)))
        else (s, NLoad)
    | NRet r \<Rightarrow> (s, NRet r))"

text \<open>The same call when no other call takes a nonce between its load and its exchange.\<close>

definition next_nonce :: "crypto_session \<Rightarrow> crypto_session \<times> (crypto_error + byte list)" where
  "next_nonce s = (let current = cs_nonce_counter s in
     if current = - 1 then (s, Inl NonceExhausted)
     else (s\<lparr>cs_nonce_counter := current + 1\<rparr>, Inr (nonce_bytes (cs_nonce_prefix s) current)))"

definition encrypt ::
  "crypto_lib \<Rightarrow> crypto_session \<Rightarrow> byte list \<Rightarrow> crypto_session \<times> (crypto_error + encrypted_data)" where
  "encrypt L s plaintext = (case next_nonce s of
      (s', Inl e) \<Rightarrow> (s', Inl e)
    | (s', Inr nonce) \<Rightarrow> (s', (case lib_seal L (cs_key s') nonce plaintext of
          Inl e \<Rightarrow> Inl (EncryptionFailed e)
        | Inr ciphertext \<Rightarrow> Inr \<lparr> ed_ciphertext = ciphertext, ed_nonce = nonce \<rparr>)))"

definition decrypt :: "crypto_lib \<Rightarrow> crypto_session \<Rightarrow> byte list \<Rightarrow> byte list \<Rightarrow> crypto_error + byte list" where
  "decrypt L s ciphertext nonce =
     (if length nonce \<noteq> NONCE_SIZE then Inl (InvalidNonceLength NONCE_SIZE (length nonce))
      else (case lib_open L (cs_key s) nonce ciphertext of
          Inl e \<Rightarrow> Inl (DecryptionFailed e)
        | Inr plaintext \<Rightarrow> Inr plaintext))"

section \<open>Identity keys\<close>

record identity_keypair =
  id_secret :: "byte list"
  id_public :: "byte list"

definition generate_identity :: "crypto_lib \<Rightarrow> byte list \<Rightarrow> identity_keypair" where
  "generate_identity L random = \<lparr> id_secret = random, id_public = lib_public L random \<rparr>"

definition from_secret_bytes :: "crypto_lib \<Rightarrow> byte list \<Rightarrow> crypto_error + identity_keypair" where
  "from_secret_bytes L bytes =
     (if length bytes \<noteq> 32 then Inl (InvalidKeyLength 32 (length bytes))
      else Inr \<lparr> id_secret = bytes, id_public = lib_public L bytes \<rparr>)"

definition hex_digit :: "nat \<Rightarrow> char" where
  "hex_digit n = (if n < 10 then char_of (48 + n) else char_of (87 + n))"

definition hex_byte :: "byte \<Rightarrow> string" where
  "hex_byte b = [hex_digit (unat b div 16), hex_digit (unat b mod 16)]"

definition fingerprint_of :: "crypto_lib \<Rightarrow> byte list \<Rightarrow> string" where
  "fingerprint_of L pubkey = join_str '':'' (map hex_byte (lib_sha256 L pubkey))"

definition identity_fingerprint_of :: "crypto_lib \<Rightarrow> identity_keypair \<Rightarrow> string" where
  "identity_fingerprint_of L kp = fingerprint_of L (id_public kp)"

text \<open>
  The key file, \<open>None\<close> where it does not exist. The arguments of type \<open>string option\<close> are the
  errors the operating system reports: \<open>rd\<close> for opening or reading, \<open>wr\<close> for a write that does not
  create the file, \<open>ch\<close> for setting the permissions; \<open>umode\<close> are the permissions a new file gets.
  Reading fills a buffer of 32 bytes, so a shorter file is an error and a longer one is read up to there.
\<close>

record key_file =
  kf_mode :: nat
  kf_bytes :: "byte list"

definition octal :: "nat \<Rightarrow> string" where
  "octal m = (if m < 8 then [char_of (48 + m)]
     else if m < 64 then [char_of (48 + m div 8), char_of (48 + m mod 8)]
     else [char_of (48 + m div 64), char_of (48 + m div 8 mod 8), char_of (48 + m mod 8)])"

definition load_from_file ::
  "crypto_lib \<Rightarrow> string option \<Rightarrow> string \<Rightarrow> key_file \<Rightarrow> crypto_error + identity_keypair" where
  "load_from_file L rd eof f = (let md = kf_mode f mod 512 in
     if md \<noteq> 384 then Inl (CryptoIo (''Identity key file has insecure permissions: '' @ octal md @ '' (expected 600)''))
     else (case rd of
         Some e \<Rightarrow> Inl (CryptoIo e)
       | None \<Rightarrow>
           if length (kf_bytes f) < 32 then Inl (CryptoIo eof)
           else from_secret_bytes L (take 32 (kf_bytes f))))"

definition save_to_file ::
  "nat \<Rightarrow> string option \<Rightarrow> string option \<Rightarrow> identity_keypair \<Rightarrow> key_file option \<Rightarrow> key_file option \<times> (crypto_error + unit)" where
  "save_to_file umode wr ch kp f = (case wr of
      Some e \<Rightarrow> (f, Inl (CryptoIo e))
    | None \<Rightarrow>
        let written = \<lparr> kf_mode = (case f of None \<Rightarrow> umode | Some k \<Rightarrow> kf_mode k), kf_bytes = id_secret kp \<rparr> in
        (case ch of
           Some e \<Rightarrow> (Some written, Inl (CryptoIo e))
         | None \<Rightarrow> (Some (written\<lparr>kf_mode := 384\<rparr>), Inr ())))"

definition load_or_generate ::
  "crypto_lib \<Rightarrow> string option \<Rightarrow> string \<Rightarrow> nat \<Rightarrow> string option \<Rightarrow> string option \<Rightarrow> byte list \<Rightarrow> key_file option
     \<Rightarrow> key_file option \<times> (crypto_error + identity_keypair)" where
  "load_or_generate L rd eof umode wr ch random f = (case f of
      Some kf \<Rightarrow> (f, load_from_file L rd eof kf)
    | None \<Rightarrow>
        let kp = generate_identity L random in
        (case save_to_file umode wr ch kp f of
           (f', Inl e) \<Rightarrow> (f', Inl e)
         | (f', Inr _) \<Rightarrow> (f', Inr kp)))"

section \<open>The key exchange\<close>

record key_exchange_state =
  kx_secret :: "byte list"
  kx_public :: "byte list"
  kx_identity :: "identity_keypair option"

definition with_identity_opt :: "crypto_lib \<Rightarrow> byte list \<Rightarrow> identity_keypair option \<Rightarrow> key_exchange_state" where
  "with_identity_opt L random identity =
     \<lparr> kx_secret = random, kx_public = lib_public L random, kx_identity = identity \<rparr>"

definition kx_complete ::
  "crypto_lib \<Rightarrow> byte list \<Rightarrow> key_exchange_state \<Rightarrow> byte list \<Rightarrow> crypto_error + crypto_session" where
  "kx_complete L random st peer_public =
     (if length peer_public \<noteq> 32 then Inl (InvalidKeyLength 32 (length peer_public))
      else from_keypairs L random (kx_secret st) peer_public)"

definition constant_time_str_eq :: "crypto_lib \<Rightarrow> string \<Rightarrow> string \<Rightarrow> bool" where
  "constant_time_str_eq L a b = (if length a \<noteq> length b then False else lib_ct_eq L a b)"

definition verify_fingerprint :: "crypto_lib \<Rightarrow> byte list \<Rightarrow> string \<Rightarrow> bool" where
  "verify_fingerprint L pubkey expected = constant_time_str_eq L (fingerprint_of L pubkey) expected"

section \<open>Basic laws\<close>

lemma constant_time_str_eq_iff: "crypto_laws L \<Longrightarrow> constant_time_str_eq L a b \<longleftrightarrow> a = b"
  by (auto simp: constant_time_str_eq_def crypto_laws_def)

lemma length_to_be_bytes [simp]: "length (to_be_bytes w) = 4"
  by (simp add: to_be_bytes_def)

lemma bit_byte_at:
  "n < 8 \<Longrightarrow> bit (ucast (drop_bit k w) :: byte) n = bit (w :: 32 word) (k + n)"
  by (simp add: bit_simps)

lemma to_be_bytes_inj: "to_be_bytes v = to_be_bytes w \<Longrightarrow> v = w"
proof (rule bit_word_eqI)
  fix n
  assume eq: "to_be_bytes v = to_be_bytes w" and "n < LENGTH(32)"
  then consider "n < 8" | "8 \<le> n" "n < 16" | "16 \<le> n" "n < 24" | "24 \<le> n" "n < 32" by fastforce
  then show "bit v n = bit w n"
    using eq bit_byte_at [of n 0 v] bit_byte_at [of n 0 w] bit_byte_at [of "n - 8" 8 v] bit_byte_at [of "n - 8" 8 w]
      bit_byte_at [of "n - 16" 16 v] bit_byte_at [of "n - 16" 16 w]
      bit_byte_at [of "n - 24" 24 v] bit_byte_at [of "n - 24" 24 w]
    by cases (simp_all add: to_be_bytes_def)
qed

lemma nonce_bytes_inj: "nonce_bytes p v = nonce_bytes q w \<longleftrightarrow> v = w \<and> p = q"
  using to_be_bytes_inj [of v w] by (auto simp: nonce_bytes_def)

lemma next_nonce_solo:
  "next_nonce s = (case nonce_step (cs_nonce_counter s) False s NLoad of
     (t, NRet r) \<Rightarrow> (t, r)
   | (t, pc) \<Rightarrow> (case nonce_step (cs_nonce_counter t) False t pc of (u, NRet r) \<Rightarrow> (u, r) | (u, pc') \<Rightarrow> (u, Inl NonceExhausted)))"
  by (simp add: next_nonce_def nonce_step_def Let_def)

section \<open>Nonces under concurrent calls\<close>

text \<open>
  The calls in progress on one session, and the nonces returned so far. A call starts, makes one
  access, or ends; the accesses of different calls interleave in any order.
\<close>

record nonce_sys =
  ns_session :: crypto_session
  ns_calls :: "(nat, nonce_pc) hmap"
  ns_out :: "byte list list"

definition handed_out :: "nonce_pc \<Rightarrow> byte list list" where
  "handed_out pc = (case pc of NRet (Inr n) \<Rightarrow> [n] | _ \<Rightarrow> [])"

fun returned :: "nonce_pc \<Rightarrow> bool" where
  "returned (NRet r) = True"
| "returned _ = False"

definition call_access :: "nat \<Rightarrow> 32 word \<Rightarrow> bool \<Rightarrow> nonce_pc \<Rightarrow> nonce_sys \<Rightarrow> nonce_sys" where
  "call_access t seen weak pc s = (case nonce_step seen weak (ns_session s) pc of
      (cs, pc') \<Rightarrow> s\<lparr>ns_session := cs, ns_calls := hm_insert t pc' (ns_calls s), ns_out := ns_out s @ handed_out pc'\<rparr>)"

inductive nonce_sys_step :: "nonce_sys \<Rightarrow> nonce_sys \<Rightarrow> bool" where
  call_start: "hm_get (ns_calls s) t = None \<Longrightarrow>
    nonce_sys_step s (s\<lparr>ns_calls := hm_insert t NLoad (ns_calls s)\<rparr>)"
| call_run: "hm_get (ns_calls s) t = Some pc \<Longrightarrow> \<not> returned pc \<Longrightarrow> seen \<le> cs_nonce_counter (ns_session s) \<Longrightarrow>
    nonce_sys_step s (call_access t seen weak pc s)"
| call_end: "hm_get (ns_calls s) t = Some (NRet r) \<Longrightarrow>
    nonce_sys_step s (s\<lparr>ns_calls := hm_remove t (ns_calls s)\<rparr>)"

definition fresh_session :: "crypto_session \<Rightarrow> nonce_sys \<Rightarrow> bool" where
  "fresh_session cs s \<longleftrightarrow> cs_nonce_counter cs = 0 \<and> s = \<lparr> ns_session = cs, ns_calls = [], ns_out = [] \<rparr>"

definition pc_ok :: "crypto_session \<Rightarrow> nonce_pc \<Rightarrow> bool" where
  "pc_ok cs pc = (case pc of
      NLoad \<Rightarrow> True
    | NCas current \<Rightarrow> current \<noteq> - 1
    | NRet (Inl e) \<Rightarrow> e = NonceExhausted \<and> cs_nonce_counter cs = - 1
    | NRet (Inr n) \<Rightarrow> True)"

definition nonce_inv :: "crypto_session \<Rightarrow> nonce_sys \<Rightarrow> bool" where
  "nonce_inv cs s \<longleftrightarrow>
     (\<exists>c. ns_session s = cs\<lparr>cs_nonce_counter := c\<rparr> \<and>
       ns_out s = map (\<lambda>i. nonce_bytes (cs_nonce_prefix cs) (of_nat i)) [0..<unat c]) \<and>
     (\<forall>t pc. hm_get (ns_calls s) t = Some pc \<longrightarrow> pc_ok (ns_session s) pc)"

lemma pc_ok_counter: "pc_ok cs pc \<Longrightarrow> cs_nonce_counter cs \<noteq> - 1 \<Longrightarrow> pc_ok ds pc"
  by (auto simp: pc_ok_def split: nonce_pc.splits sum.splits)

lemma unat_Suc: "c \<noteq> - 1 \<Longrightarrow> unat (c + 1 :: 32 word) = Suc (unat c)"
  by (metis add.commute add_eq_0_iff unatSuc)

lemma unat_max: "unat (- 1 :: 32 word) = 2 ^ 32 - 1"
  by (simp add: unsigned_minus_1_eq_mask mask_eq_exp_minus_1)

lemma nonce_inv_access:
  assumes inv: "nonce_inv cs s" and call: "hm_get (ns_calls s) t = Some pc" "\<not> returned pc"
    and seen: "seen \<le> cs_nonce_counter (ns_session s)"
  shows "nonce_inv cs (call_access t seen weak pc s)"
proof -
  obtain c where c: "ns_session s = cs\<lparr>cs_nonce_counter := c\<rparr>"
      "ns_out s = map (\<lambda>i. nonce_bytes (cs_nonce_prefix cs) (of_nat i)) [0..<unat c]"
    and calls: "\<And>u qc. hm_get (ns_calls s) u = Some qc \<Longrightarrow> pc_ok (ns_session s) qc"
    using inv unfolding nonce_inv_def by blast
  have pc: "pc_ok (ns_session s) pc" using calls call by blast
  have max: "x \<le> y \<Longrightarrow> x = - 1 \<Longrightarrow> y = - 1" for x y :: "32 word"
    using word_order.extremum_uniqueI by blast
  show ?thesis
  proof (cases "\<exists>current. pc = NCas current \<and> cs_nonce_counter (ns_session s) = current \<and> \<not> weak")
    case True
    then have "pc = NCas c" "\<not> weak" "c \<noteq> - 1" using c pc by (auto simp: pc_ok_def)
    then show ?thesis
      using c calls pc_ok_counter [of "ns_session s"]
      by (auto simp: nonce_inv_def call_access_def nonce_step_def handed_out_def unat_Suc pc_ok_def
          intro!: exI [of _ "c + 1"])
  next
    case False
    then obtain pc' where "nonce_step seen weak (ns_session s) pc = (ns_session s, pc')"
        "pc_ok (ns_session s) pc'" "handed_out pc' = []"
      using call(2) max [OF seen] by (cases pc) (auto simp: nonce_step_def pc_ok_def handed_out_def)
    then show ?thesis
      using c calls by (auto simp: nonce_inv_def call_access_def split: if_splits)
  qed
qed

interpretation nonce_calls: step_system "fresh_session cs" nonce_sys_step "nonce_inv cs" for cs
proof unfold_locales
  show "fresh_session cs s \<Longrightarrow> nonce_inv cs s" for s
    by (auto simp: fresh_session_def nonce_inv_def intro!: exI [of _ 0])
next
  fix s t assume inv: "nonce_inv cs s" and step: "nonce_sys_step s t"
  from step show "nonce_inv cs t"
  proof cases
    case (call_start u)
    then show ?thesis using inv by (auto simp: nonce_inv_def pc_ok_def)
  next
    case (call_run u pc seen weak)
    then show ?thesis using nonce_inv_access inv by blast
  next
    case (call_end u r)
    then show ?thesis using inv by (auto simp: nonce_inv_def)
  qed
qed

lemma nonce_inv_D:
  assumes "nonce_inv cs s"
  shows "ns_out s = map (\<lambda>i. nonce_bytes (cs_nonce_prefix cs) (of_nat i)) [0..<unat (cs_nonce_counter (ns_session s))]"
    and "hm_get (ns_calls s) t = Some (NRet (Inl e)) \<Longrightarrow> e = NonceExhausted \<and> cs_nonce_counter (ns_session s) = - 1"
  using assms unfolding nonce_inv_def by (force, force simp: pc_ok_def)

text \<open>Two calls that load the same value: one exchange succeeds, the other call loads again.\<close>

definition demo_crypto_session :: crypto_session where
  "demo_crypto_session = \<lparr> cs_key = [7], cs_nonce_prefix = [1, 2, 3, 4, 5, 6, 7, 8], cs_nonce_counter = 0 \<rparr>"

definition demo_nonce_run :: "nonce_sys list" where
  "demo_nonce_run =
     (let s0 = \<lparr> ns_session = demo_crypto_session, ns_calls = [], ns_out = [] \<rparr>;
          s1 = s0\<lparr>ns_calls := hm_insert 1 NLoad (ns_calls s0)\<rparr>;
          s2 = s1\<lparr>ns_calls := hm_insert 2 NLoad (ns_calls s1)\<rparr>;
          s3 = call_access 1 0 False NLoad s2;
          s4 = call_access 2 0 False NLoad s3;
          s5 = call_access 2 0 False (NCas 0) s4;
          s6 = call_access 1 0 False (NCas 0) s5;
          s7 = call_access 1 1 False NLoad s6;
          s8 = call_access 1 1 False (NCas 1) s7
      in [s0, s1, s2, s3, s4, s5, s6, s7, s8])"

lemma demo_nonce_reach: "reach (fresh_session demo_crypto_session) nonce_sys_step (demo_nonce_run ! 8)"
proof -
  have start: "hm_get (ns_calls s) t = None \<Longrightarrow> u = s\<lparr>ns_calls := hm_insert t NLoad (ns_calls s)\<rparr> \<Longrightarrow>
      nonce_sys_step s u" for s t u
    by (auto intro: nonce_sys_step.intros)
  have run: "hm_get (ns_calls s) t = Some pc \<Longrightarrow> \<not> returned pc \<Longrightarrow> seen \<le> cs_nonce_counter (ns_session s) \<Longrightarrow>
      u = call_access t seen weak pc s \<Longrightarrow> nonce_sys_step s u" for s t pc seen weak u
    by (auto intro: nonce_sys_step.intros)
  have "reach (fresh_session demo_crypto_session) nonce_sys_step (demo_nonce_run ! 0)"
    by (rule reach_init) (simp add: fresh_session_def demo_nonce_run_def Let_def demo_crypto_session_def)
  then have "reach (fresh_session demo_crypto_session) nonce_sys_step (demo_nonce_run ! 1)"
    by (rule reach_step) (rule start [where t = 1]; code_simp)
  then have "reach (fresh_session demo_crypto_session) nonce_sys_step (demo_nonce_run ! 2)"
    by (rule reach_step) (rule start [where t = 2]; code_simp)
  then have "reach (fresh_session demo_crypto_session) nonce_sys_step (demo_nonce_run ! 3)"
    by (rule reach_step) (rule run [where t = 1 and pc = NLoad and seen = 0 and weak = False]; code_simp)
  then have "reach (fresh_session demo_crypto_session) nonce_sys_step (demo_nonce_run ! 4)"
    by (rule reach_step) (rule run [where t = 2 and pc = NLoad and seen = 0 and weak = False]; code_simp)
  then have "reach (fresh_session demo_crypto_session) nonce_sys_step (demo_nonce_run ! 5)"
    by (rule reach_step) (rule run [where t = 2 and pc = "NCas 0" and seen = 0 and weak = False]; code_simp)
  then have "reach (fresh_session demo_crypto_session) nonce_sys_step (demo_nonce_run ! 6)"
    by (rule reach_step) (rule run [where t = 1 and pc = "NCas 0" and seen = 0 and weak = False]; code_simp)
  then have "reach (fresh_session demo_crypto_session) nonce_sys_step (demo_nonce_run ! 7)"
    by (rule reach_step) (rule run [where t = 1 and pc = NLoad and seen = 1 and weak = False]; code_simp)
  then show ?thesis
    by (rule reach_step) (rule run [where t = 1 and pc = "NCas 1" and seen = 1 and weak = False]; code_simp)
qed

text \<open>
  C17. However the calls of \<^verbatim>\<open>next_nonce\<close> on a session interleave, with stale loads and spuriously failing
  exchanges included, no nonce is returned twice: the nonces returned so far are as many as the counter
  says and pairwise different, and a call reports exhaustion only when all of the first \<open>2^32 - 1\<close> counter
  values have been handed out.
\<close>

theorem nonces_never_repeat:
  assumes "reach (fresh_session cs) nonce_sys_step s"
  shows "distinct (ns_out s) \<and> length (ns_out s) = unat (cs_nonce_counter (ns_session s)) \<and>
    (\<forall>t e. hm_get (ns_calls s) t = Some (NRet (Inl e)) \<longrightarrow> e = NonceExhausted \<and> length (ns_out s) = 2 ^ 32 - 1)"
proof -
  have inv: "nonce_inv cs s" by (rule nonce_calls.reach_inv [OF assms])
  let ?c = "cs_nonce_counter (ns_session s)"
  have small: "i < unat ?c \<Longrightarrow> i < 2 ^ LENGTH(32)" for i
    using unsigned_less [of ?c] by (metis dual_order.strict_trans)
  have "inj_on (\<lambda>i. nonce_bytes (cs_nonce_prefix cs) (of_nat i)) {0..<unat ?c}"
  proof (rule inj_onI)
    fix i j
    assume "i \<in> {0..<unat ?c}" "j \<in> {0..<unat ?c}"
      and "nonce_bytes (cs_nonce_prefix cs) (of_nat i) = nonce_bytes (cs_nonce_prefix cs) (of_nat j)"
    then have "unat (of_nat i :: 32 word) = unat (of_nat j :: 32 word)" "i < 2 ^ LENGTH(32)" "j < 2 ^ LENGTH(32)"
      using small by (auto simp: nonce_bytes_inj)
    then show "i = j" by (simp add: unat_of_nat)
  qed
  then have "distinct (ns_out s)" by (simp add: nonce_inv_D(1) [OF inv] distinct_map)
  moreover have len: "length (ns_out s) = unat ?c" by (simp add: nonce_inv_D(1) [OF inv])
  moreover have "e = NonceExhausted \<and> length (ns_out s) = 2 ^ 32 - 1" if "hm_get (ns_calls s) t = Some (NRet (Inl e))" for t e
    using nonce_inv_D(2) [OF inv that] by (simp add: len unat_max)
  ultimately show ?thesis by blast
qed

theorem nonces_never_repeat_witness:
  "ns_out (demo_nonce_run ! 8) = [[0, 0, 0, 0, 1, 2, 3, 4, 5, 6, 7, 8], [0, 0, 0, 1, 1, 2, 3, 4, 5, 6, 7, 8]] \<and>
   distinct (ns_out (demo_nonce_run ! 8)) \<and>
   length (ns_out (demo_nonce_run ! 8)) = unat (cs_nonce_counter (ns_session (demo_nonce_run ! 8)))"
proof (intro conjI)
  show "ns_out (demo_nonce_run ! 8) = [[0, 0, 0, 0, 1, 2, 3, 4, 5, 6, 7, 8], [0, 0, 0, 1, 1, 2, 3, 4, 5, 6, 7, 8]]"
    by code_simp
qed (use nonces_never_repeat [OF demo_nonce_reach] in blast)+

section \<open>Key exchange and encryption\<close>

lemma encrypt_Inr:
  assumes "encrypt L s p = (s', Inr e)"
  shows "s' = s\<lparr>cs_nonce_counter := cs_nonce_counter s + 1\<rparr>"
    and "cs_nonce_counter s \<noteq> - 1"
    and "ed_nonce e = nonce_bytes (cs_nonce_prefix s) (cs_nonce_counter s)"
    and "lib_seal L (cs_key s) (ed_nonce e) p = Inr (ed_ciphertext e)"
  using assms by (auto simp: encrypt_def next_nonce_def Let_def split: if_splits sum.splits)

lemma encrypt_frame:
  "cs_key (fst (encrypt L s p)) = cs_key s" "cs_nonce_prefix (fst (encrypt L s p)) = cs_nonce_prefix s"
  by (auto simp: encrypt_def next_nonce_def Let_def split: prod.splits sum.splits if_splits)

text \<open>Two sessions are paired when they hold one key and their nonces have the length the cipher takes.\<close>

definition paired :: "crypto_session \<Rightarrow> crypto_session \<Rightarrow> bool" where
  "paired s t \<longleftrightarrow> cs_key s = cs_key t \<and> length (cs_nonce_prefix s) = 8 \<and> length (cs_nonce_prefix t) = 8"

lemma paired_sym: "paired s t \<Longrightarrow> paired t s"
  by (auto simp: paired_def)

lemma paired_encrypt [simp]:
  "paired (fst (encrypt L s p)) t \<longleftrightarrow> paired s t" "paired s (fst (encrypt L t p)) \<longleftrightarrow> paired s t"
  by (simp_all add: paired_def encrypt_frame)

lemma decrypt_encrypt:
  assumes "crypto_laws L" "paired s t" "encrypt L s p = (s', Inr e)"
  shows "decrypt L t (ed_ciphertext e) (ed_nonce e) = Inr p"
  using assms(1,2) encrypt_Inr(3,4) [OF assms(3)]
  by (auto simp: decrypt_def crypto_laws_def paired_def NONCE_SIZE_def nonce_bytes_def)

lemma kx_complete_Inr:
  assumes "kx_complete L r st peer = Inr s"
  shows "cs_nonce_prefix s = r" "cs_nonce_counter s = 0" "length peer = 32"
    and "hkdf_derive L (lib_dh L (kx_secret st) peer) = Inr (cs_key s)"
  using assms by (auto simp: kx_complete_def from_keypairs_def from_shared_secret_def split: if_splits sum.splits)

lemma kx_paired:
  assumes "crypto_laws L" "length r = 8" "length q = 8"
    and "kx_complete L r (with_identity_opt L a i) (kx_public (with_identity_opt L b j)) = Inr s"
    and "kx_complete L q (with_identity_opt L b j) (kx_public (with_identity_opt L a i)) = Inr t"
  shows "paired s t"
  using kx_complete_Inr [OF assms(4)] kx_complete_Inr [OF assms(5)] assms(1-3)
  by (auto simp: paired_def with_identity_opt_def crypto_laws_def)

text \<open>The identity of a machine survives: what was generated and saved is what is loaded afterwards.\<close>

lemma load_or_generate_stable:
  assumes "load_or_generate L rd eof umode wr ch random f = (f', Inr kp)" "length random = 32"
  shows "load_or_generate L None eof umode' wr' ch' random' f' = (f', Inr kp)"
  using assms
  by (auto simp: load_or_generate_def load_from_file_def save_to_file_def generate_identity_def from_secret_bytes_def
      Let_def split: option.splits if_splits prod.splits sum.splits)

end
