(* ===== verification/Fingerprints.thy ===== *)
theory Fingerprints
  imports Crypto
begin

unbundle bit_operations_syntax

text \<open>
  Fingerprints of daemons, \<^verbatim>\<open>crates/betcode-crypto/src/\<close>: the store of known fingerprints
  (\<^verbatim>\<open>fingerprint_store.rs\<close>) and their pictures (\<^verbatim>\<open>fingerprint_visual.rs\<close>). The store's file goes through
  \<^verbatim>\<open>serde_json\<close>, which is an argument. The theory proves that a recorded fingerprint stays the one that
  matches until it is replaced or removed, that the walk of the picture stays in its field and the picture has its
  shape, and that the grouped display of a fingerprint loses nothing.
\<close>

section \<open>The store\<close>

record known_daemon =
  kd_machine_id :: string
  kd_fingerprint :: string
  kd_first_seen :: int
  kd_last_seen :: int
  kd_verified :: bool

type_synonym fingerprint_store = "(string, known_daemon) hmap"

datatype fingerprint_check = TrustOnFirstUse | Matched | Mismatch string string

definition check :: "crypto_lib \<Rightarrow> fingerprint_store \<Rightarrow> string \<Rightarrow> string \<Rightarrow> fingerprint_check" where
  "check L daemons machine_id fp = (case hm_get daemons machine_id of
      None \<Rightarrow> TrustOnFirstUse
    | Some known \<Rightarrow>
        if constant_time_str_eq L (kd_fingerprint known) fp then Matched
        else Mismatch (kd_fingerprint known) fp)"

definition record_fp :: "string \<Rightarrow> string \<Rightarrow> int \<Rightarrow> fingerprint_store \<Rightarrow> fingerprint_store" where
  "record_fp machine_id fp now daemons =
     hm_entry machine_id
       \<lparr> kd_machine_id = machine_id, kd_fingerprint = fp, kd_first_seen = now, kd_last_seen = now, kd_verified = False \<rparr>
       (\<lambda>entry. entry\<lparr>kd_last_seen := now\<rparr>) daemons"

definition mark_verified :: "string \<Rightarrow> fingerprint_store \<Rightarrow> fingerprint_store \<times> bool" where
  "mark_verified machine_id daemons = (case hm_get daemons machine_id of
      Some entry \<Rightarrow> (hm_insert machine_id (entry\<lparr>kd_verified := True\<rparr>) daemons, True)
    | None \<Rightarrow> (daemons, False))"

definition update_fingerprint :: "string \<Rightarrow> string \<Rightarrow> int \<Rightarrow> fingerprint_store \<Rightarrow> fingerprint_store \<times> bool" where
  "update_fingerprint machine_id new_fp now daemons = (case hm_get daemons machine_id of
      Some entry \<Rightarrow> (hm_insert machine_id
        (entry\<lparr>kd_fingerprint := new_fp, kd_first_seen := now, kd_last_seen := now, kd_verified := False\<rparr>) daemons, True)
    | None \<Rightarrow> (daemons, False))"

definition remove_daemon :: "string \<Rightarrow> fingerprint_store \<Rightarrow> fingerprint_store \<times> bool" where
  "remove_daemon machine_id daemons = (hm_remove machine_id daemons, hm_get daemons machine_id \<noteq> None)"

text \<open>
  The file, \<open>None\<close> where it does not exist. \<open>from_str\<close> and \<open>to_string_pretty\<close> are the package's; \<open>io\<close> is the error
  of the operating system, if any, and a failing write leaves the file as it was.
\<close>

definition load_store :: "(string \<Rightarrow> string + fingerprint_store) \<Rightarrow> string option \<Rightarrow> string option \<Rightarrow> crypto_error + fingerprint_store" where
  "load_store from_str io file = (case file of
      None \<Rightarrow> Inr []
    | Some data \<Rightarrow> (case io of
          Some e \<Rightarrow> Inl (CryptoIo e)
        | None \<Rightarrow> (case from_str data of
              Inl e \<Rightarrow> Inl (SerializationError (''Failed to parse fingerprint store: '' @ e))
            | Inr st \<Rightarrow> Inr st)))"

definition save_store ::
  "(fingerprint_store \<Rightarrow> string + string) \<Rightarrow> string option \<Rightarrow> fingerprint_store \<Rightarrow> string option \<Rightarrow> string option \<times> (crypto_error + unit)" where
  "save_store to_string_pretty io st file = (case to_string_pretty st of
      Inl e \<Rightarrow> (file, Inl (SerializationError (''Failed to serialize fingerprint store: '' @ e)))
    | Inr json \<Rightarrow> (case io of
          Some e \<Rightarrow> (file, Inl (CryptoIo e))
        | None \<Rightarrow> (Some json, Inr ())))"

section \<open>Pinning\<close>

definition pin :: "fingerprint_store \<Rightarrow> string \<Rightarrow> string option" where
  "pin daemons machine_id = map_option kd_fingerprint (hm_get daemons machine_id)"

datatype store_change =
    Record string string int
  | MarkVerified string
  | Update string string int
  | Remove string

definition change :: "store_change \<Rightarrow> fingerprint_store \<Rightarrow> fingerprint_store" where
  "change c daemons = (case c of
      Record m fp now \<Rightarrow> record_fp m fp now daemons
    | MarkVerified m \<Rightarrow> fst (mark_verified m daemons)
    | Update m fp now \<Rightarrow> fst (update_fingerprint m fp now daemons)
    | Remove m \<Rightarrow> fst (remove_daemon m daemons))"

text \<open>What a change does to the pins, machine by machine.\<close>

definition change_pin :: "store_change \<Rightarrow> string \<Rightarrow> string option \<Rightarrow> string option" where
  "change_pin c m p = (case c of
      Record m' fp now \<Rightarrow> if m' = m \<and> p = None then Some fp else p
    | MarkVerified m' \<Rightarrow> p
    | Update m' fp now \<Rightarrow> if m' = m \<and> p \<noteq> None then Some fp else p
    | Remove m' \<Rightarrow> if m' = m then None else p)"

lemma pin_change: "pin (change c daemons) m = change_pin c m (pin daemons m)"
  by (cases c) (auto simp: pin_def change_def change_pin_def record_fp_def mark_verified_def update_fingerprint_def
      remove_daemon_def hm_entry_def split: option.split)

lemma check_pin:
  "crypto_laws L \<Longrightarrow> check L daemons m fp = (case pin daemons m of
     None \<Rightarrow> TrustOnFirstUse | Some known \<Rightarrow> if known = fp then Matched else Mismatch known fp)"
  by (simp add: check_def pin_def constant_time_str_eq_iff split: option.split)

fun repins :: "string \<Rightarrow> store_change \<Rightarrow> bool" where
  "repins m (Update m' fp now) = (m' = m)"
| "repins m (Remove m') = (m' = m)"
| "repins m _ = False"

lemma pin_kept:
  "pin daemons m = Some fp \<Longrightarrow> list_all (\<lambda>c. \<not> repins m c) cs \<Longrightarrow> pin (fold change cs daemons) m = Some fp"
proof (induction cs arbitrary: daemons)
  case (Cons c cs)
  have "change_pin c m (Some fp) = Some fp" using Cons.prems(2) by (cases c) (auto simp: change_pin_def)
  then show ?case using Cons by (simp add: pin_change)
qed simp

text \<open>
  The fingerprint of the first contact is pinned: after it is recorded for an unknown machine, and whatever is recorded or
  verified afterwards for any machine, exactly this fingerprint matches, and every other one is reported with both values,
  until the pin of this machine is updated or removed.
\<close>

theorem first_use_pins:
  assumes laws: "crypto_laws L" and new: "hm_get daemons m = None" and keep: "list_all (\<lambda>c. \<not> repins m c) cs"
  shows "check L (fold change (Record m fp now # cs) daemons) m fp' = (if fp' = fp then Matched else Mismatch fp fp')"
proof -
  have "pin (change (Record m fp now) daemons) m = Some fp" using new by (subst pin_change) (simp add: change_pin_def pin_def)
  then have "pin (fold change cs (change (Record m fp now) daemons)) m = Some fp" using pin_kept keep by blast
  then show ?thesis using laws by (simp add: check_pin)
qed

lemma load_saved:
  assumes "from_str json = Inr st" "to_string_pretty st = Inr json" "save_store to_string_pretty io st file = (file', Inr ())"
  shows "load_store from_str None file' = Inr st"
  using assms by (auto simp: save_store_def load_store_def split: option.splits)

section \<open>Pictures\<close>

definition WIDTH :: nat where "WIDTH = 17"

definition HEIGHT :: nat where "HEIGHT = 9"

definition CHARS :: string where "CHARS = '' .o+=*BOX@%&#/^SE''"

definition START_MARKER_IDX :: byte where "START_MARKER_IDX = of_nat (length CHARS) - 2"

definition END_MARKER_IDX :: byte where "END_MARKER_IDX = of_nat (length CHARS) - 1"

definition MAX_VISIT_IDX :: byte where "MAX_VISIT_IDX = START_MARKER_IDX - 1"

type_synonym bishop = "byte list list \<times> nat \<times> nat"

definition clamp :: "int \<Rightarrow> int \<Rightarrow> int \<Rightarrow> int" where
  "clamp lo hi v = (if v < lo then lo else if v > hi then hi else v)"

definition cell_get :: "byte list list \<Rightarrow> nat \<Rightarrow> nat \<Rightarrow> byte" where
  "cell_get field y x = field ! y ! x"

definition cell_set :: "nat \<Rightarrow> nat \<Rightarrow> byte \<Rightarrow> byte list list \<Rightarrow> byte list list" where
  "cell_set y x v field = field[y := (field ! y)[x := v]]"

text \<open>One move of the bishop, with \<open>shift\<close> the position of its two bits in the byte.\<close>

definition bishop_move :: "byte \<Rightarrow> nat \<Rightarrow> bishop \<Rightarrow> bishop" where
  "bishop_move b shift st = (case st of (field, x, y) \<Rightarrow>
     let bits = drop_bit shift b AND 3;
         dx = (if bits AND 1 = 0 then - 1 else 1);
         dy = (if bits AND 2 = 0 then - 1 else 1);
         x' = nat (clamp 0 (int (WIDTH - 1)) (int x + dx));
         y' = nat (clamp 0 (int (HEIGHT - 1)) (int y + dy))
     in (if cell_get field y' x' < MAX_VISIT_IDX then cell_set y' x' (cell_get field y' x' + 1) field else field, x', y'))"

definition bishop_walk :: "byte list \<Rightarrow> bishop" where
  "bishop_walk hash = fold (\<lambda>b. fold (bishop_move b) [0, 2, 4, 6]) hash
     (replicate HEIGHT (replicate WIDTH 0), WIDTH div 2, HEIGHT div 2)"

definition cell_char :: "byte \<Rightarrow> char" where
  "cell_char c = CHARS ! min (unat c) (length CHARS - 1)"

definition art_row :: "byte list \<Rightarrow> string" where
  "art_row row = ''|'' @ map cell_char row @ ''|''"

text \<open>A title that is longer than the box is cut at the width; \<open>None\<close> is the panic when that is not a character boundary.\<close>

definition title_display :: "string \<Rightarrow> string option" where
  "title_display title =
     (if length title > WIDTH then (if is_char_boundary title WIDTH then Some (take WIDTH title) else None)
      else Some title)"

definition art_top :: "string \<Rightarrow> string" where
  "art_top title = (let pad_left = (WIDTH - length title) div 2;
                        pad_right = WIDTH - length title - pad_left
     in ''+'' @ replicate pad_left (CHR ''-'') @ title @ replicate pad_right (CHR ''-'') @ ''+'')"

definition art_field :: "byte list \<Rightarrow> byte list list" where
  "art_field hash = (case bishop_walk hash of (field, x, y) \<Rightarrow>
     cell_set y x END_MARKER_IDX (cell_set (HEIGHT div 2) (WIDTH div 2) START_MARKER_IDX field))"

definition art_lines :: "byte list \<Rightarrow> string \<Rightarrow> string list" where
  "art_lines hash title = art_top title # map art_row (art_field hash) @ [''+'' @ replicate WIDTH (CHR ''-'') @ ''+'']"

definition newline :: string where "newline = [CHR 0x0A]"

definition fingerprint_randomart :: "crypto_lib \<Rightarrow> string \<Rightarrow> string \<Rightarrow> string option" where
  "fingerprint_randomart L fp title = (case title_display title of
      None \<Rightarrow> None
    | Some shown \<Rightarrow> Some (join_str newline (art_lines (lib_sha256 L (bytes_of fp)) shown)))"

definition format_fingerprint_display :: "string \<Rightarrow> string" where
  "format_fingerprint_display fp = join_str newline (map (join_str '':'') (chunks 8 (split_char (CHR '':'') fp)))"

fun side_by_side :: "string list \<Rightarrow> string list \<Rightarrow> string" where
  "side_by_side [] [] = []"
| "side_by_side (l # ls) [] = l @ ''  '' @ newline @ side_by_side ls []"
| "side_by_side [] (r # rs) = ''  '' @ r @ newline @ side_by_side [] rs"
| "side_by_side (l # ls) (r # rs) = l @ ''  '' @ r @ newline @ side_by_side ls rs"

definition compare_fingerprints ::
  "crypto_lib \<Rightarrow> string \<Rightarrow> string \<Rightarrow> string \<Rightarrow> string \<Rightarrow> (string \<times> bool) option" where
  "compare_fingerprints L local_fp local_label remote_fp remote_label =
     (case fingerprint_randomart L local_fp local_label of None \<Rightarrow> None
      | Some local_art \<Rightarrow> (case fingerprint_randomart L remote_fp remote_label of None \<Rightarrow> None
      | Some remote_art \<Rightarrow>
          let verdict = local_fp = remote_fp in
          Some (side_by_side (str_lines local_art) (str_lines remote_art) @ newline @
            (if verdict then ''Fingerprints MATCH''
             else ''Fingerprints DO NOT MATCH '' @ em_dash @ '' possible MITM attack!''), verdict)))"

section \<open>The shape of a picture\<close>

definition in_box :: "bishop \<Rightarrow> bool" where
  "in_box st = (case st of (field, x, y) \<Rightarrow>
     x < WIDTH \<and> y < HEIGHT \<and> length field = HEIGHT \<and> list_all (\<lambda>row. length row = WIDTH) field)"

lemma clamp_index: "0 < n \<Longrightarrow> nat (clamp 0 (int (n - 1)) v) < n"
  by (auto simp: clamp_def)

lemma cell_set_shape:
  "length (cell_set y x v field) = length field"
  "y < length field \<Longrightarrow> list_all (\<lambda>row. length row = n) field \<Longrightarrow> list_all (\<lambda>row. length row = n) (cell_set y x v field)"
  by (auto simp: cell_set_def list_all_length nth_list_update)

lemma bishop_move_box: "in_box st \<Longrightarrow> in_box (bishop_move b shift st)"
  by (cases st)
     (auto simp: in_box_def bishop_move_def Let_def WIDTH_def HEIGHT_def clamp_def cell_set_shape)

lemma fold_box: "in_box st \<Longrightarrow> (\<And>a s. in_box s \<Longrightarrow> in_box (f a s)) \<Longrightarrow> in_box (fold f as st)"
  by (induction as arbitrary: st) auto

lemma bishop_walk_box: "in_box (bishop_walk hash)"
proof -
  have "in_box (replicate HEIGHT (replicate WIDTH 0), WIDTH div 2, HEIGHT div 2)"
    by (simp add: in_box_def WIDTH_def HEIGHT_def list_all_length)
  then show ?thesis unfolding bishop_walk_def
    by (rule fold_box) (rule fold_box, assumption, rule bishop_move_box)
qed

lemma art_field_shape: "length (art_field hash) = HEIGHT \<and> list_all (\<lambda>row. length row = WIDTH) (art_field hash)"
  using bishop_walk_box [of hash]
  by (auto simp: art_field_def in_box_def cell_set_shape HEIGHT_def split: prod.splits)

lemma set_CHARS: "CHR 0x0A \<notin> set CHARS" "CHR 0x0D \<notin> set CHARS"
  by (simp_all add: CHARS_def)

lemma cell_char_CHARS: "cell_char c \<in> set CHARS"
  unfolding cell_char_def by (rule nth_mem) (simp add: CHARS_def)

lemma title_display_length: "title_display title = Some t \<Longrightarrow> length t \<le> WIDTH \<and> set t \<subseteq> set title"
  by (auto simp: title_display_def split: if_splits dest: in_set_takeD)

lemma art_lines_shape:
  assumes "length t \<le> WIDTH" and l: "l \<in> set (art_lines hash t)"
  shows "length l = WIDTH + 2" and "CHR 0x0A \<notin> set t \<Longrightarrow> CHR 0x0D \<notin> set t \<Longrightarrow> CHR 0x0A \<notin> set l \<and> CHR 0x0D \<notin> set l"
proof -
  consider "l = art_top t" | row where "row \<in> set (art_field hash)" "l = art_row row"
    | "l = ''+'' @ replicate WIDTH (CHR ''-'') @ ''+''"
    using l by (auto simp: art_lines_def)
  then have "length l = WIDTH + 2 \<and>
    (CHR 0x0A \<notin> set t \<longrightarrow> CHR 0x0D \<notin> set t \<longrightarrow> CHR 0x0A \<notin> set l \<and> CHR 0x0D \<notin> set l)"
  proof cases
    case 1
    then show ?thesis using assms(1) by (auto simp: art_top_def Let_def)
  next
    case (2 row)
    have "length row = WIDTH" using art_field_shape [of hash] 2(1) by (auto simp: list_all_iff)
    moreover have "c \<notin> cell_char ` set row" if "c \<notin> set CHARS" for c
      using that cell_char_CHARS by auto
    ultimately show ?thesis using 2(2) set_CHARS by (simp add: art_row_def)
  qed simp
  then show "length l = WIDTH + 2" and
    "CHR 0x0A \<notin> set t \<Longrightarrow> CHR 0x0D \<notin> set t \<Longrightarrow> CHR 0x0A \<notin> set l \<and> CHR 0x0D \<notin> set l" by blast+
qed

text \<open>
  A picture is a box: for a title without line ends the output has eleven lines of nineteen bytes each, whatever the
  hash of the fingerprint is; the bishop never leaves the field, and no index is out of range. The only input that
  fails is a title longer than the box whose cut falls inside a character.
\<close>

theorem randomart_box:
  assumes "CHR 0x0A \<notin> set title" "CHR 0x0D \<notin> set title"
  shows "(case fingerprint_randomart L fp title of
      None \<Rightarrow> WIDTH < length title \<and> \<not> is_char_boundary title WIDTH
    | Some art \<Rightarrow> length (str_lines art) = HEIGHT + 2 \<and> list_all (\<lambda>l. length l = WIDTH + 2) (str_lines art))"
proof (cases "title_display title")
  case None
  then show ?thesis by (auto simp: fingerprint_randomart_def title_display_def split: if_splits)
next
  case (Some t)
  let ?ls = "art_lines (lib_sha256 L (bytes_of fp)) t"
  have t: "length t \<le> WIDTH" "CHR 0x0A \<notin> set t" "CHR 0x0D \<notin> set t"
    using title_display_length [OF Some] assms by auto
  have "str_lines (join_str newline ?ls) = ?ls"
    unfolding newline_def by (rule lines_join) (use art_lines_shape [OF t(1)] t(2,3) in fastforce)
  then show ?thesis
    using art_lines_shape(1) [OF t(1)] art_field_shape
    by (auto simp: fingerprint_randomart_def Some list_all_iff art_lines_def)
qed

lemma compare_fingerprints_verdict:
  "compare_fingerprints L a la b lb = Some (out, v) \<Longrightarrow> v \<longleftrightarrow> a = b"
  by (auto simp: compare_fingerprints_def Let_def split: option.splits)

lemma join_map_join:
  "concat xss \<noteq> [] \<Longrightarrow> list_all (\<lambda>xs. xs \<noteq> []) xss \<Longrightarrow>
   map f sep = map f sep' \<Longrightarrow> map f (join_str sep (map (join_str sep') xss)) = map f (join_str sep' (concat xss))"
proof (induction xss)
  case (Cons xs xss)
  show ?case
  proof (cases "xss = []")
    case False
    then have "concat xss \<noteq> []" using Cons.prems(2) by (cases xss) auto
    then show ?thesis using False Cons by (simp add: join_str_Cons join_str_append)
  qed simp
qed simp

text \<open>Reading the line breaks of the grouped display as colons gives the fingerprint back.\<close>

lemma format_display_roundtrip:
  assumes "CHR 0x0A \<notin> set fp"
  shows "map (\<lambda>c. if c = CHR 0x0A then CHR '':'' else c) (format_fingerprint_display fp) = fp"
proof -
  let ?f = "\<lambda>c. if c = CHR 0x0A then CHR '':'' else c"
  let ?ps = "split_char (CHR '':'') fp"
  have "list_all (\<lambda>xs. xs \<noteq> []) (chunks 8 ?ps)" using chunks_length by (fastforce simp: list_all_iff)
  then have "map ?f (format_fingerprint_display fp) = map ?f (join_str '':'' (concat (chunks 8 ?ps)))"
    unfolding format_fingerprint_display_def by (intro join_map_join) (simp_all add: concat_chunks newline_def)
  also have "\<dots> = map ?f fp" by (simp add: concat_chunks)
  also have "\<dots> = fp" using assms by (auto intro: map_idI)
  finally show ?thesis .
qed

end
