(* ===== verification/TunnelHandler.thy ===== *)
theory TunnelHandler
  imports AgentService Frames Fingerprints
begin

text \<open>
  The daemon's end of the tunnel, \<^verbatim>\<open>crates/betcode-daemon/src/tunnel/handler.rs\<close> and the loop of
  \<^verbatim>\<open>client.rs\<close> that calls it: frames from the relay are decrypted, dispatched by method to the handlers of the agent
  service or to another service, and answered with frames. A crypto session is shared between the handler and the
  tasks it spawned, so sessions are cells with addresses. The codec of the generated messages, the reply of a
  service that is a component of its own, and random bytes are arguments. One handler runs as one step; the tasks
  that forward events and replay histories take one step per event.
\<close>

section \<open>Messages and arguments\<close>

datatype tunnel_error_code = TecInternal | TecNotFound | TecInvalidArgument

datatype tunnel_service =
    CommandSvc | GitLabSvc | RepoSvc | WorktreeSvc | ConfigSvc | VersionSvc | SubagentSvc

record key_exchange_request =
  kr_machine_id :: string
  kr_identity_pubkey :: "byte list"
  kr_fingerprint :: string
  kr_ephemeral_pubkey :: "byte list"

record key_exchange_response =
  kp_identity_pubkey :: "byte list"
  kp_fingerprint :: string
  kp_ephemeral_pubkey :: "byte list"

text \<open>The replies of unary calls; \<open>OtherResp\<close> is a message of another service, given by its bytes.\<close>

datatype tunnel_response =
    ListSessionsResp "session_summary list" "32 word"
  | CompactResp compact_session_response
  | CancelTurnResp bool
  | InputLockResp bool string
  | ListGrantsResp "(string \<times> bool) list"
  | ClearGrantsResp
  | SetGrantResp
  | RenameResp
  | DeleteResp bool
  | KeyExchangeResp key_exchange_response
  | OtherResp "byte list"

record tunnel_codec =
  tc_list_sessions :: "byte list \<Rightarrow> string + string \<times> 32 word \<times> 32 word"
  tc_compact :: "byte list \<Rightarrow> string + string"
  tc_cancel :: "byte list \<Rightarrow> string + string"
  tc_input_lock :: "byte list \<Rightarrow> string + string"
  tc_list_grants :: "byte list \<Rightarrow> string + string"
  tc_clear_grants :: "byte list \<Rightarrow> string + string \<times> string"
  tc_set_grant :: "byte list \<Rightarrow> string + string \<times> string \<times> bool"
  tc_rename :: "byte list \<Rightarrow> string + string \<times> string"
  tc_delete :: "byte list \<Rightarrow> string + string"
  tc_resume :: "byte list \<Rightarrow> string + string \<times> 64 word"
  tc_key_exchange :: "byte list \<Rightarrow> string + key_exchange_request"
  tc_agent_request :: "byte list \<Rightarrow> string + agent_request"
  tc_response :: "tunnel_response \<Rightarrow> string + byte list"
  tc_event :: "agent_event \<Rightarrow> string + byte list"

text \<open>
  The arguments of one call: the packages, the codec, the numbers of the error codes, the arguments of the agent
  service, random bytes for a key exchange with the address of the session it makes, a new client identifier, and the reply of another
  service (its decoder's error, or the message of its status, or its response).
\<close>

datatype rpc_outcome = RpcDecode string | RpcStatus string | RpcOk tunnel_response

datatype stream_outcome = StreamDecode string | StreamStatus string | StreamOk "(string + byte list) list"

record tunnel_env =
  tv_lib :: crypto_lib
  tv_codec :: tunnel_codec
  tv_code :: "tunnel_error_code \<Rightarrow> int"
  tv_rq :: request_env
  tv_secret :: "byte list"
  tv_prefix :: "byte list"
  tv_addr :: nat
  tv_uuid :: string
  tv_service :: "string \<Rightarrow> byte list \<Rightarrow> rpc_outcome"
  tv_stream :: "string \<Rightarrow> byte list \<Rightarrow> stream_outcome"

section \<open>State\<close>

definition DEFAULT_LIST_SESSIONS_LIMIT :: "32 word" where
  "DEFAULT_LIST_SESSIONS_LIMIT = 50"

definition X25519_PUBKEY_LEN :: nat where
  "X25519_PUBKEY_LEN = 32"

definition TUNNEL_CLIENT_ID_PREFIX :: string where
  "TUNNEL_CLIENT_ID_PREFIX = ''tunnel''"

definition generate_tunnel_client_id :: "string \<Rightarrow> string" where
  "generate_tunnel_client_id uuid = TUNNEL_CLIENT_ID_PREFIX @ ''-'' @ uuid"

record active_stream =
  as_session_id :: string
  as_pending_config :: "relay_session_config option"

text \<open>A task that forwards the events of a session, and one that replays stored messages.\<close>

record forwarder =
  fw_request_id :: string
  fw_session_id :: string
  fw_client_id :: string
  fw_crypto :: "nat option"
  fw_relay_forwarded :: bool
  fw_seq :: "64 word"

record replay =
  rp_request_id :: string
  rp_messages :: "message_row list"
  rp_crypto :: "nat option"
  rp_relay_forwarded :: bool
  rp_seq :: "64 word"

record tunnel_handler =
  th_machine_id :: string
  th_relay :: session_relay
  th_open :: bool
  th_out :: "tunnel_frame list"
  th_streams :: "(string, active_stream) hmap"
  th_crypto :: "nat option"
  th_cells :: "(nat, crypto_session) hmap"
  th_identity :: "identity_keypair option"
  th_services :: "tunnel_service list"
  th_forwarders :: "(nat, forwarder) hmap"
  th_replays :: "(nat, replay) hmap"

definition new_handler ::
  "string \<Rightarrow> session_relay \<Rightarrow> (nat \<times> crypto_session) option \<Rightarrow> identity_keypair option \<Rightarrow> tunnel_service list \<Rightarrow> tunnel_handler" where
  "new_handler machine_id rel crypto identity services =
     \<lparr> th_machine_id = machine_id, th_relay = rel, th_open = True, th_out = [], th_streams = [],
       th_crypto = map_option fst crypto, th_cells = (case crypto of None \<Rightarrow> [] | Some c \<Rightarrow> [c]),
       th_identity = identity, th_services = services, th_forwarders = [], th_replays = [] \<rparr>"

text \<open>Sending on the outbound channel, which fails when its receiver is gone.\<close>

definition send_out :: "tunnel_frame \<Rightarrow> tunnel_handler \<Rightarrow> tunnel_handler" where
  "send_out f h = (if th_open h then h\<lparr>th_out := th_out h @ [f]\<rparr> else h)"

definition error_response :: "tunnel_env \<Rightarrow> string \<Rightarrow> tunnel_error_code \<Rightarrow> string \<Rightarrow> tunnel_frame" where
  "error_response e request_id code message =
     \<lparr> tf_request_id = request_id, tf_frame_type = FtError,
       tf_payload = Some (PError \<lparr> te_code = tv_code e code, te_message = message, te_details = [] \<rparr>) \<rparr>"

section \<open>Encryption of the tunnel\<close>

definition the_session :: "nat \<Rightarrow> tunnel_handler \<Rightarrow> crypto_session" where
  "the_session a h = (case hm_get (th_cells h) a of
     Some s \<Rightarrow> s | None \<Rightarrow> \<lparr> cs_key = [], cs_nonce_prefix = [], cs_nonce_counter = 0 \<rparr>)"

definition set_session :: "nat \<Rightarrow> crypto_session \<Rightarrow> tunnel_handler \<Rightarrow> tunnel_handler" where
  "set_session a s h = h\<lparr>th_cells := hm_insert a s (th_cells h)\<rparr>"

definition make_encrypted_payload ::
  "tunnel_env \<Rightarrow> nat option \<Rightarrow> byte list \<Rightarrow> tunnel_handler \<Rightarrow> tunnel_handler \<times> (string + encrypted_payload)" where
  "make_encrypted_payload e crypto data h = (case crypto of
      Some a \<Rightarrow> (case encrypt (tv_lib e) (the_session a h) data of
          (s, Inl er) \<Rightarrow> (set_session a s h, Inl (''Encryption failed: '' @ show_crypto_error er))
        | (s, Inr enc) \<Rightarrow> (set_session a s h,
            Inr \<lparr> ep_ciphertext = ed_ciphertext enc, ep_nonce = ed_nonce enc, ep_ephemeral_pubkey = [] \<rparr>))
    | None \<Rightarrow> (h, Inr \<lparr> ep_ciphertext = data, ep_nonce = [], ep_ephemeral_pubkey = [] \<rparr>))"

definition decrypt_payload :: "tunnel_env \<Rightarrow> encrypted_payload \<Rightarrow> tunnel_handler \<Rightarrow> string + byte list" where
  "decrypt_payload e enc h =
     (if ep_nonce enc = [] then Inr (ep_ciphertext enc)
      else (case th_crypto h of
          None \<Rightarrow> Inr (ep_ciphertext enc)
        | Some a \<Rightarrow> (case decrypt (tv_lib e) (the_session a h) (ep_ciphertext enc) (ep_nonce enc) of
              Inl er \<Rightarrow> Inl (''decryption failed: '' @ show_crypto_error er)
            | Inr d \<Rightarrow> Inr d)))"

definition encrypt_payload ::
  "tunnel_env \<Rightarrow> byte list \<Rightarrow> tunnel_handler \<Rightarrow> tunnel_handler \<times> (string + encrypted_payload)" where
  "encrypt_payload e data h = make_encrypted_payload e (th_crypto h) data h"

text \<open>The frame of a response or of one item of a stream.\<close>

definition data_frame :: "string \<Rightarrow> frame_type \<Rightarrow> 64 word \<Rightarrow> encrypted_payload \<Rightarrow> tunnel_frame" where
  "data_frame request_id ft seq enc =
     \<lparr> tf_request_id = request_id, tf_frame_type = ft,
       tf_payload = Some (PStreamData \<lparr> sp_method = [], sp_encrypted = Some enc, sp_sequence = seq, sp_metadata = [] \<rparr>) \<rparr>"

definition end_frame :: "string \<Rightarrow> tunnel_frame" where
  "end_frame request_id = \<lparr> tf_request_id = request_id, tf_frame_type = FtStreamEnd, tf_payload = None \<rparr>"

definition response_frame ::
  "tunnel_env \<Rightarrow> string \<Rightarrow> tunnel_response \<Rightarrow> tunnel_handler \<Rightarrow> tunnel_handler \<times> (string + tunnel_frame)" where
  "response_frame e request_id msg h = (case tc_response (tv_codec e) msg of
      Inl er \<Rightarrow> (h, Inl (''Prost encode failed: '' @ er))
    | Inr buf \<Rightarrow> (case encrypt_payload e buf h of
          (h', Inl er) \<Rightarrow> (h', Inl er)
        | (h', Inr enc) \<Rightarrow> (h', Inr (data_frame request_id FtResponse 0 enc))))"

definition response_frame_or_error ::
  "tunnel_env \<Rightarrow> string \<Rightarrow> tunnel_response \<Rightarrow> tunnel_handler \<Rightarrow> tunnel_handler \<times> tunnel_frame" where
  "response_frame_or_error e request_id msg h = (case response_frame e request_id msg h of
      (h', Inl er) \<Rightarrow> (h', error_response e request_id TecInternal er)
    | (h', Inr f) \<Rightarrow> (h', f))"

definition plaintext_response_frame :: "tunnel_env \<Rightarrow> string \<Rightarrow> tunnel_response \<Rightarrow> string + tunnel_frame" where
  "plaintext_response_frame e request_id msg = (case tc_response (tv_codec e) msg of
      Inl er \<Rightarrow> Inl (''encode failed: '' @ er)
    | Inr buf \<Rightarrow> Inr (data_frame request_id FtResponse 0
        \<lparr> ep_ciphertext = buf, ep_nonce = [], ep_ephemeral_pubkey = [] \<rparr>))"

definition unary_response_frame ::
  "tunnel_env \<Rightarrow> string \<Rightarrow> tunnel_response \<Rightarrow> bool \<Rightarrow> tunnel_handler \<Rightarrow> tunnel_handler \<times> tunnel_frame" where
  "unary_response_frame e request_id msg relay_forwarded h =
     (if relay_forwarded
      then (h, (case plaintext_response_frame e request_id msg of
          Inl er \<Rightarrow> error_response e request_id TecInternal er
        | Inr f \<Rightarrow> f))
      else response_frame_or_error e request_id msg h)"

section \<open>Unary calls of the agent service\<close>

definition reply ::
  "tunnel_env \<Rightarrow> string \<Rightarrow> bool \<Rightarrow> tunnel_response \<Rightarrow> tunnel_handler \<Rightarrow> tunnel_handler \<times> tunnel_frame list" where
  "reply e request_id relay_forwarded msg h =
     (case unary_response_frame e request_id msg relay_forwarded h of (h', f) \<Rightarrow> (h', [f]))"

definition refuse ::
  "tunnel_env \<Rightarrow> string \<Rightarrow> tunnel_error_code \<Rightarrow> string \<Rightarrow> tunnel_handler \<Rightarrow> tunnel_handler \<times> tunnel_frame list" where
  "refuse e request_id code message h = (h, [error_response e request_id code message])"

text \<open>Decoding a request, the first statement of every handler.\<close>

definition decoded ::
  "tunnel_env \<Rightarrow> string \<Rightarrow> (byte list \<Rightarrow> string + 'r) \<Rightarrow> byte list \<Rightarrow>
    ('r \<Rightarrow> tunnel_handler \<Rightarrow> tunnel_handler \<times> tunnel_frame list) \<Rightarrow> tunnel_handler \<Rightarrow> tunnel_handler \<times> tunnel_frame list" where
  "decoded e request_id dec data k h = (case dec data of
      Inl er \<Rightarrow> refuse e request_id TecInternal (''Decode error: '' @ er) h
    | Inr req \<Rightarrow> k req h)"

definition set_db :: "daemon_db \<Rightarrow> tunnel_handler \<Rightarrow> tunnel_handler" where
  "set_db db h = h\<lparr>th_relay := (th_relay h)\<lparr>rl_db := db\<rparr>\<rparr>"

definition handle_list_sessions ::
  "tunnel_env \<Rightarrow> string \<Rightarrow> byte list \<Rightarrow> bool \<Rightarrow> tunnel_handler \<Rightarrow> tunnel_handler \<times> tunnel_frame list" where
  "handle_list_sessions e request_id data fwd = decoded e request_id (tc_list_sessions (tv_codec e)) data
     (\<lambda>(wd, lim, off) h.
        let working_dir = (if wd = [] then None else Some wd);
            limit = (if lim = 0 then DEFAULT_LIST_SESSIONS_LIMIT else lim)
        in case list_sessions (rq_sql (tv_rq e) 0) working_dir limit off (rl_db (th_relay h)) of
             Inr rows \<Rightarrow>
               reply e request_id fwd (ListSessionsResp (map summary_from rows) (of_nat (length rows))) h
           | Inl er \<Rightarrow> refuse e request_id TecInternal (''ListSessions failed: '' @ show_database_error er) h)"

definition handle_compact_frames ::
  "tunnel_env \<Rightarrow> string \<Rightarrow> byte list \<Rightarrow> bool \<Rightarrow> tunnel_handler \<Rightarrow> tunnel_handler \<times> tunnel_frame list" where
  "handle_compact_frames e request_id data fwd h =
     (case handle_compact_session (tc_compact (tv_codec e)) (rq_sql (tv_rq e) 0) (rq_sql (tv_rq e) 1) (rq_sql (tv_rq e) 2)
             (rq_sql (tv_rq e) 3) (rq_now (tv_rq e)) data (rl_db (th_relay h)) of
        (db, Inl er) \<Rightarrow> refuse e request_id TecInternal er (set_db db h)
      | (db, Inr resp) \<Rightarrow> reply e request_id fwd (CompactResp resp) (set_db db h))"

definition handle_cancel_turn ::
  "tunnel_env \<Rightarrow> string \<Rightarrow> byte list \<Rightarrow> bool \<Rightarrow> tunnel_handler \<Rightarrow> tunnel_handler \<times> tunnel_frame list" where
  "handle_cancel_turn e request_id data fwd = decoded e request_id (tc_cancel (tv_codec e)) data
     (\<lambda>sid h. case cancel_session (rq_sql (tv_rq e) 0) (rq_now (tv_rq e)) sid (th_relay h) of
        (r, res) \<Rightarrow> reply e request_id fwd (CancelTurnResp (case res of Inl _ \<Rightarrow> False | Inr b \<Rightarrow> b)) (h\<lparr>th_relay := r\<rparr>))"

definition handle_request_input_lock ::
  "tunnel_env \<Rightarrow> string \<Rightarrow> byte list \<Rightarrow> bool \<Rightarrow> tunnel_handler \<Rightarrow> tunnel_handler \<times> tunnel_frame list" where
  "handle_request_input_lock e request_id data fwd = decoded e request_id (tc_input_lock (tv_codec e)) data
     (\<lambda>sid h.
        let client_id = generate_tunnel_client_id (tv_uuid e)
        in case acquire_input_lock (rq_sql (tv_rq e) 0) (rq_now (tv_rq e)) sid client_id (rl_db (th_relay h)) of
             (db, Inr previous) \<Rightarrow> reply e request_id fwd (InputLockResp True (unwrap_or [] previous)) (set_db db h)
           | (db, Inl er) \<Rightarrow>
               refuse e request_id TecInternal (''InputLock failed: '' @ show_database_error er) (set_db db h))"

text \<open>The handle of an active session, or the error frame.\<close>

definition with_handle ::
  "tunnel_env \<Rightarrow> string \<Rightarrow> string \<Rightarrow> (relay_handle \<Rightarrow> tunnel_handler \<Rightarrow> tunnel_handler \<times> tunnel_frame list) \<Rightarrow>
    tunnel_handler \<Rightarrow> tunnel_handler \<times> tunnel_frame list" where
  "with_handle e request_id sid k h = (case get_handle sid (th_relay h) of
      None \<Rightarrow> refuse e request_id TecNotFound (''Session '' @ sid @ '' not active'') h
    | Some rh \<Rightarrow> k rh h)"

definition set_cells :: "nat \<Rightarrow> relay_cells \<Rightarrow> tunnel_handler \<Rightarrow> tunnel_handler" where
  "set_cells a c h = h\<lparr>th_relay := (th_relay h)\<lparr>rl_cells := hm_insert a c (rl_cells (th_relay h))\<rparr>\<rparr>"

definition handle_list_session_grants ::
  "tunnel_env \<Rightarrow> string \<Rightarrow> byte list \<Rightarrow> bool \<Rightarrow> tunnel_handler \<Rightarrow> tunnel_handler \<times> tunnel_frame list" where
  "handle_list_session_grants e request_id data fwd = decoded e request_id (tc_list_grants (tv_codec e)) data
     (\<lambda>sid. with_handle e request_id sid
        (\<lambda>rh h. reply e request_id fwd (ListGrantsResp (list_grants (the_cells (rh_cells rh) (th_relay h)))) h))"

definition handle_clear_session_grants ::
  "tunnel_env \<Rightarrow> string \<Rightarrow> byte list \<Rightarrow> bool \<Rightarrow> tunnel_handler \<Rightarrow> tunnel_handler \<times> tunnel_frame list" where
  "handle_clear_session_grants e request_id data fwd = decoded e request_id (tc_clear_grants (tv_codec e)) data
     (\<lambda>(sid, tool). with_handle e request_id sid
        (\<lambda>rh h. reply e request_id fwd ClearGrantsResp
           (set_cells (rh_cells rh) (clear_grants tool (the_cells (rh_cells rh) (th_relay h))) h)))"

definition handle_set_session_grant ::
  "tunnel_env \<Rightarrow> string \<Rightarrow> byte list \<Rightarrow> bool \<Rightarrow> tunnel_handler \<Rightarrow> tunnel_handler \<times> tunnel_frame list" where
  "handle_set_session_grant e request_id data fwd = decoded e request_id (tc_set_grant (tv_codec e)) data
     (\<lambda>(sid, tool, v) h.
        if tool = [] then refuse e request_id TecInvalidArgument ''tool_name must not be empty'' h
        else with_handle e request_id sid
          (\<lambda>rh h. reply e request_id fwd SetGrantResp
             (set_cells (rh_cells rh) (set_grant tool v (the_cells (rh_cells rh) (th_relay h))) h)) h)"

definition handle_rename_session ::
  "tunnel_env \<Rightarrow> string \<Rightarrow> byte list \<Rightarrow> bool \<Rightarrow> tunnel_handler \<Rightarrow> tunnel_handler \<times> tunnel_frame list" where
  "handle_rename_session e request_id data fwd = decoded e request_id (tc_rename (tv_codec e)) data
     (\<lambda>(sid, name) h.
        case update_session_name (rq_sql (tv_rq e) 0) (rq_now (tv_rq e)) sid name (rl_db (th_relay h)) of
          (db, Inr _) \<Rightarrow> reply e request_id fwd RenameResp (set_db db h)
        | (db, Inl (DbNotFound _)) \<Rightarrow>
            refuse e request_id TecNotFound (''Session '' @ sid @ '' not found'') (set_db db h)
        | (db, Inl er) \<Rightarrow>
            refuse e request_id TecInternal (''RenameSession failed: '' @ show_database_error er) (set_db db h))"

definition handle_delete_session ::
  "tunnel_env \<Rightarrow> string \<Rightarrow> byte list \<Rightarrow> bool \<Rightarrow> tunnel_handler \<Rightarrow> tunnel_handler \<times> tunnel_frame list" where
  "handle_delete_session e request_id data fwd = decoded e request_id (tc_delete (tv_codec e)) data
     (\<lambda>sid h.
        let r = fst (cancel_session (rq_sql (tv_rq e) 0) (rq_now (tv_rq e)) sid (th_relay h));
            h1 = h\<lparr>th_relay := r\<rparr>
        in case delete_session (rq_sql (tv_rq e) 1) sid (rl_db r) of
             (db, Inr deleted) \<Rightarrow> reply e request_id fwd (DeleteResp deleted) (set_db db h1)
           | (db, Inl er) \<Rightarrow>
               refuse e request_id TecInternal (''DeleteSession failed: '' @ show_database_error er) (set_db db h1))"

section \<open>The key exchange\<close>

definition identity_info :: "crypto_lib \<Rightarrow> identity_keypair option \<Rightarrow> byte list \<times> string" where
  "identity_info L identity = (case identity of
     None \<Rightarrow> ([], []) | Some kp \<Rightarrow> (id_public kp, identity_fingerprint_of L kp))"

definition handle_exchange_keys ::
  "tunnel_env \<Rightarrow> string \<Rightarrow> byte list \<Rightarrow> tunnel_handler \<Rightarrow> tunnel_handler \<times> tunnel_frame list" where
  "handle_exchange_keys e request_id data h = (case tc_key_exchange (tv_codec e) data of
      Inl er \<Rightarrow> refuse e request_id TecInternal ''Invalid key exchange request'' h
    | Inr req \<Rightarrow>
        if length (kr_ephemeral_pubkey req) \<noteq> X25519_PUBKEY_LEN
        then refuse e request_id TecInternal ''Invalid ephemeral public key length'' h
        else if kr_identity_pubkey req \<noteq> [] \<and> length (kr_identity_pubkey req) \<noteq> X25519_PUBKEY_LEN
        then refuse e request_id TecInternal ''Invalid identity public key length'' h
        else
          let st = with_identity_opt (tv_lib e) (tv_secret e) (th_identity h)
          in case kx_complete (tv_lib e) (tv_prefix e) st (kr_ephemeral_pubkey req) of
               Inl er \<Rightarrow> refuse e request_id TecInternal ''Key exchange failed'' h
             | Inr session \<Rightarrow>
                 let h1 = (set_session (tv_addr e) session h)\<lparr>th_crypto := Some (tv_addr e)\<rparr>;
                     (pub, fp) = identity_info (tv_lib e) (th_identity h)
                 in case plaintext_response_frame e request_id (KeyExchangeResp
                           \<lparr> kp_identity_pubkey = pub, kp_fingerprint = fp, kp_ephemeral_pubkey = kx_public st \<rparr>) of
                      Inr frame \<Rightarrow> (h1, [frame])
                    | Inl er \<Rightarrow> refuse e request_id TecInternal er h1)"

section \<open>Conversations\<close>

text \<open>
  What the handlers do with the request of a client before they look at it: with a crypto session only an envelope
  that decrypts to a request is accepted; without one the request is taken as it is.
\<close>

datatype envelope_error = InnerDecode string | InnerDecrypt | PlaintextRefused

definition open_request :: "tunnel_env \<Rightarrow> agent_request \<Rightarrow> tunnel_handler \<Rightarrow> envelope_error + agent_request" where
  "open_request e outer h = (case th_crypto h of
      None \<Rightarrow> Inr outer
    | Some a \<Rightarrow> (case outer of
          EncryptedReq ciphertext nonce \<Rightarrow>
            (case decrypt (tv_lib e) (the_session a h) ciphertext nonce of
               Inl _ \<Rightarrow> Inl InnerDecrypt
             | Inr plaintext \<Rightarrow> (case tc_agent_request (tv_codec e) plaintext of
                   Inl er \<Rightarrow> Inl (InnerDecode er)
                 | Inr inner \<Rightarrow> Inr inner))
        | _ \<Rightarrow> Inl PlaintextRefused))"

definition send_error :: "tunnel_env \<Rightarrow> string \<Rightarrow> string \<Rightarrow> tunnel_handler \<Rightarrow> tunnel_handler" where
  "send_error e request_id message h = send_out (error_response e request_id TecInternal message) h"

definition envelope_message :: "envelope_error \<Rightarrow> string" where
  "envelope_message er = (case er of
      InnerDecode _ \<Rightarrow> ''Failed to decode decrypted StartConversation''
    | InnerDecrypt \<Rightarrow> ''Failed to decrypt StartConversation''
    | PlaintextRefused \<Rightarrow> ''E2E encryption required'')"

text \<open>The session row of a conversation: looked up, or created. The result is the working directory and the session to resume.\<close>

definition find_or_create ::
  "tunnel_env \<Rightarrow> string \<Rightarrow> string option \<Rightarrow> string \<Rightarrow> daemon_db \<Rightarrow> daemon_db \<times> (string + string \<times> string option)" where
  "find_or_create e sid model wd db = (case get_session (rq_sql (tv_rq e) 0) sid db of
      Inr existing \<Rightarrow>
        (db, Inr (if wd = [] \<and> ss_working_directory existing \<noteq> [] then ss_working_directory existing else wd,
                  case ss_claude_session_id existing of Some c \<Rightarrow> if c = [] then None else Some c | None \<Rightarrow> None))
    | Inl _ \<Rightarrow>
        (case create_session (rq_sql (tv_rq e) 1) (rq_sql (tv_rq e) 2) (rq_now (tv_rq e)) sid (unwrap_or ''default'' model) wd db of
           (db', Inl er) \<Rightarrow> (db', Inl (''Create session failed: '' @ show_database_error er))
         | (db', Inr _) \<Rightarrow> (db', Inr (wd, None))))"

text \<open>The part of \<^verbatim>\<open>handle_converse\<close> after the request has been opened; \<open>k\<close> is the identifier of the new task.\<close>

definition start_converse ::
  "tunnel_env \<Rightarrow> nat \<Rightarrow> string \<Rightarrow> bool \<Rightarrow> start_conversation \<Rightarrow> tunnel_handler \<Rightarrow> tunnel_handler" where
  "start_converse e k request_id fwd sc h =
     (let sid = (if st_session_id sc = [] then rq_uuid (tv_rq e) else st_session_id sc);
          model = (if st_model sc = [] then None else Some (st_model sc))
      in case find_or_create e sid model (st_working_directory sc) (rl_db (th_relay h)) of
           (db, Inl er) \<Rightarrow> send_error e request_id er (set_db db h)
         | (db, Inr (wd, resume)) \<Rightarrow>
             let h1 = set_db (fst (update_session_status (rq_sql (tv_rq e) 3) (rq_now (tv_rq e)) sid Active db)) h;
                 client_id = generate_tunnel_client_id (tv_uuid e)
             in case subscribe (rq_mux_config (tv_rq e)) (rq_instant (tv_rq e)) sid client_id ''tunnel'' (rl_mux (th_relay h1)) of
                  (mx, Inl er) \<Rightarrow>
                    send_error e request_id (''Subscribe failed: '' @ show_multiplexer_error er)
                      (h1\<lparr>th_relay := (th_relay h1)\<lparr>rl_mux := mx\<rparr>\<rparr>)
                | (mx, Inr _) \<Rightarrow>
                    h1\<lparr>th_relay := (th_relay h1)\<lparr>rl_mux := mx\<rparr>,
                       th_streams := hm_insert request_id
                         \<lparr> as_session_id = sid,
                           as_pending_config = Some \<lparr> rs_session_id = sid, rs_working_directory = wd, rs_model = model,
                             rs_resume_session = resume, rs_worktree_id = st_worktree_id sc \<rparr> \<rparr> (th_streams h1),
                       th_forwarders := hm_insert k
                         \<lparr> fw_request_id = request_id, fw_session_id = sid, fw_client_id = client_id,
                           fw_crypto = th_crypto h1, fw_relay_forwarded = fwd, fw_seq = 0 \<rparr> (th_forwarders h1)\<rparr>)"

definition handle_converse ::
  "tunnel_env \<Rightarrow> nat \<Rightarrow> string \<Rightarrow> byte list \<Rightarrow> bool \<Rightarrow> tunnel_handler \<Rightarrow> tunnel_handler" where
  "handle_converse e k request_id data fwd h = (case tc_agent_request (tv_codec e) data of
      Inl er \<Rightarrow> send_error e request_id (''Decode error: '' @ er) h
    | Inr outer \<Rightarrow> (case open_request e outer h of
          Inl er \<Rightarrow> send_error e request_id (envelope_message er) h
        | Inr req \<Rightarrow> (case req of
              StartReq sc \<Rightarrow> start_converse e k request_id fwd sc h
            | _ \<Rightarrow> send_error e request_id ''First Converse message must be StartConversation'' h)))"

text \<open>
  An incoming request of a running conversation. The first message starts the subprocess with the message as its
  prompt; everything else is passed to the relay, whose errors are logged.
\<close>

definition take_pending_config :: "string \<Rightarrow> agent_request \<Rightarrow> tunnel_handler \<Rightarrow> tunnel_handler \<times> (relay_session_config \<times> string) option" where
  "take_pending_config request_id req h = (case hm_get (th_streams h) request_id of
      None \<Rightarrow> (h, None)
    | Some active \<Rightarrow> (case (as_pending_config active, req) of
          (Some config, MessageReq content _) \<Rightarrow>
            (h\<lparr>th_streams := hm_insert request_id (active\<lparr>as_pending_config := None\<rparr>) (th_streams h)\<rparr>, Some (config, content))
        | _ \<Rightarrow> (h, None)))"

definition on_relay :: "(session_relay \<Rightarrow> session_relay \<times> 'a) \<Rightarrow> tunnel_handler \<Rightarrow> tunnel_handler" where
  "on_relay f h = h\<lparr>th_relay := fst (f (th_relay h))\<rparr>"

definition route_request :: "tunnel_env \<Rightarrow> string \<Rightarrow> agent_request \<Rightarrow> tunnel_handler \<Rightarrow> tunnel_handler" where
  "route_request e sid req h = (case req of
      MessageReq content agent_id \<Rightarrow>
        on_relay (send_user_message (rq_env (tv_rq e)) (rq_sql (tv_rq e) 1) (rq_now (tv_rq e)) (rq_ts (tv_rq e))
          (rq_stdin_open (tv_rq e)) sid content (if agent_id = [] then None else Some agent_id)) h
    | PermissionReq rid raw _ _ \<Rightarrow> on_relay (handle_permission (tv_rq e) sid rid raw) h
    | QuestionReq qid answers \<Rightarrow> on_relay (handle_question (tv_rq e) sid qid answers) h
    | CancelReq _ \<Rightarrow> on_relay (cancel_session (rq_sql (tv_rq e) 1) (rq_now (tv_rq e)) sid) h
    | _ \<Rightarrow> h)"

definition handle_incoming_stream_data ::
  "tunnel_env \<Rightarrow> string \<Rightarrow> byte list \<Rightarrow> tunnel_handler \<Rightarrow> tunnel_handler" where
  "handle_incoming_stream_data e request_id data h = (case hm_get (th_streams h) request_id of
      None \<Rightarrow> h
    | Some active \<Rightarrow> (case tc_agent_request (tv_codec e) data of
          Inl _ \<Rightarrow> h
        | Inr outer \<Rightarrow> (case open_request e outer h of
              Inl _ \<Rightarrow> h
            | Inr req \<Rightarrow> (case take_pending_config request_id req h of
                  (h1, None) \<Rightarrow> route_request e (as_session_id active) req h1
                | (h1, Some (config, prompt)) \<Rightarrow>
                    (case start_session (rq_launch (tv_rq e)) (rq_sql (tv_rq e) 0) (rq_address (tv_rq e)) config (Some prompt)
                            (th_relay h1) of
                       (r, Inl er) \<Rightarrow>
                         let h2 = send_error e request_id (''Start session failed: '' @ show_relay_error er) (h1\<lparr>th_relay := r\<rparr>)
                         in h2\<lparr>th_streams := hm_remove request_id (th_streams h2)\<rparr>
                     | (r, Inr _) \<Rightarrow> h1\<lparr>th_relay := r\<rparr>)))))"

section \<open>Tasks that send events\<close>

text \<open>An event as it goes over the wire: with a session it is sealed and wrapped in an event that carries the envelope.\<close>

definition envelope_event :: "64 word \<Rightarrow> timestamp option \<Rightarrow> encrypted_data \<Rightarrow> agent_event" where
  "envelope_event seq ts ed = \<lparr> ev_sequence = seq, ev_timestamp = ts, ev_parent_tool_use_id = [],
     ev_event = Some (Encrypted (ed_ciphertext ed) (ed_nonce ed)) \<rparr>"

definition seal_event ::
  "tunnel_env \<Rightarrow> nat option \<Rightarrow> 64 word \<Rightarrow> timestamp option \<Rightarrow> byte list \<Rightarrow> tunnel_handler \<Rightarrow> tunnel_handler \<times> byte list option" where
  "seal_event e crypto seq ts plain h = (case crypto of
      None \<Rightarrow> (h, Some plain)
    | Some a \<Rightarrow> (case encrypt (tv_lib e) (the_session a h) plain of
          (s, Inl _) \<Rightarrow> (set_session a s h, None)
        | (s, Inr ed) \<Rightarrow> (set_session a s h, (case tc_event (tv_codec e) (envelope_event seq ts ed) of
              Inl _ \<Rightarrow> None | Inr buf \<Rightarrow> Some buf))))"

text \<open>The tunnel layer around it: the key of the tunnel is used only when there is no session, that is never.\<close>

definition tunnel_crypto :: "bool \<Rightarrow> nat option \<Rightarrow> nat option" where
  "tunnel_crypto relay_forwarded crypto = (if relay_forwarded \<or> crypto \<noteq> None then None else crypto)"

text \<open>What the broadcast channel gives a receiver.\<close>

datatype 'e recv = RecvOk 'e | RecvLagged nat | RecvClosed

definition forwarder_end :: "nat \<Rightarrow> forwarder \<Rightarrow> tunnel_handler \<Rightarrow> tunnel_handler" where
  "forwarder_end k f h =
     (let h1 = send_out (end_frame (fw_request_id f)) h
      in h1\<lparr>th_streams := hm_remove (fw_request_id f) (th_streams h1),
            th_relay := (th_relay h1)\<lparr>rl_mux := unsubscribe (fw_session_id f) (fw_client_id f) (rl_mux (th_relay h1))\<rparr>,
            th_forwarders := hm_remove k (th_forwarders h1)\<rparr>)"

definition forward_one :: "tunnel_env \<Rightarrow> nat \<Rightarrow> forwarder \<Rightarrow> agent_event \<Rightarrow> tunnel_handler \<Rightarrow> tunnel_handler" where
  "forward_one e k f ev h = (case tc_event (tv_codec e) ev of
      Inl _ \<Rightarrow> h
    | Inr plain \<Rightarrow> (case seal_event e (fw_crypto f) (ev_sequence ev) (ev_timestamp ev) plain h of
          (h1, None) \<Rightarrow> h1
        | (h1, Some wire) \<Rightarrow>
            (case make_encrypted_payload e (tunnel_crypto (fw_relay_forwarded f) (fw_crypto f)) wire h1 of
               (h2, Inl _) \<Rightarrow> h2
             | (h2, Inr enc) \<Rightarrow>
                 let f' = f\<lparr>fw_seq := fw_seq f + 1\<rparr>;
                     h3 = send_out (data_frame (fw_request_id f) FtStreamData (fw_seq f) enc) h2
                 in if th_open h2 then h3\<lparr>th_forwarders := hm_insert k f' (th_forwarders h3)\<rparr>
                    else forwarder_end k f' h2)))"

definition forwarder_step :: "tunnel_env \<Rightarrow> nat \<Rightarrow> agent_event recv \<Rightarrow> tunnel_handler \<Rightarrow> tunnel_handler" where
  "forwarder_step e k rv h = (case hm_get (th_forwarders h) k of
      None \<Rightarrow> h
    | Some f \<Rightarrow> (case rv of
          RecvOk ev \<Rightarrow> forward_one e k f ev h
        | RecvLagged _ \<Rightarrow> h
        | RecvClosed \<Rightarrow> forwarder_end k f h))"

text \<open>Replaying stored messages: the handler reads them, the task sends one frame per step and ends the stream.\<close>

definition handle_resume_session ::
  "tunnel_env \<Rightarrow> nat \<Rightarrow> string \<Rightarrow> byte list \<Rightarrow> bool \<Rightarrow> tunnel_handler \<Rightarrow> tunnel_handler \<times> tunnel_frame list" where
  "handle_resume_session e k request_id data fwd = decoded e request_id (tc_resume (tv_codec e)) data
     (\<lambda>(sid, from_sequence) h.
        case get_messages_from_sequence (rq_sql (tv_rq e) 0) sid (sint from_sequence) (rl_db (th_relay h)) of
          Inl er \<Rightarrow> refuse e request_id TecInternal (''Resume failed: '' @ show_database_error er) h
        | Inr ms \<Rightarrow>
            (h\<lparr>th_replays := hm_insert k \<lparr> rp_request_id = request_id, rp_messages = ms, rp_crypto = th_crypto h,
                 rp_relay_forwarded = fwd, rp_seq = 0 \<rparr> (th_replays h)\<rparr>, []))"

definition replay_end :: "nat \<Rightarrow> replay \<Rightarrow> tunnel_handler \<Rightarrow> tunnel_handler" where
  "replay_end k p h = (let h1 = send_out (end_frame (rp_request_id p)) h in h1\<lparr>th_replays := hm_remove k (th_replays h1)\<rparr>)"

definition replay_one ::
  "tunnel_env \<Rightarrow> nat \<Rightarrow> replay \<Rightarrow> message_row \<Rightarrow> message_row list \<Rightarrow> tunnel_handler \<Rightarrow> tunnel_handler" where
  "replay_one e k p row rest h =
     (let skip = (\<lambda>h. h\<lparr>th_replays := hm_insert k (p\<lparr>rp_messages := rest\<rparr>) (th_replays h)\<rparr>)
      in case base64_decode (ms_payload row) of
           Inl _ \<Rightarrow> skip h
         | Inr raw \<Rightarrow> (case seal_event e (rp_crypto p) (rp_seq p) None raw h of
               (h1, None) \<Rightarrow> skip h1
             | (h1, Some wire) \<Rightarrow>
                 (case make_encrypted_payload e (tunnel_crypto (rp_relay_forwarded p) (rp_crypto p)) wire h1 of
                    (h2, Inl _) \<Rightarrow> skip h2
                  | (h2, Inr enc) \<Rightarrow>
                      let p' = p\<lparr>rp_messages := rest, rp_seq := rp_seq p + 1\<rparr>;
                          h3 = send_out (data_frame (rp_request_id p) FtStreamData (rp_seq p) enc) h2
                      in if th_open h2 then h3\<lparr>th_replays := hm_insert k p' (th_replays h3)\<rparr>
                         else replay_end k p' h2)))"

definition replay_step :: "tunnel_env \<Rightarrow> nat \<Rightarrow> tunnel_handler \<Rightarrow> tunnel_handler" where
  "replay_step e k h = (case hm_get (th_replays h) k of
      None \<Rightarrow> h
    | Some p \<Rightarrow> (case rp_messages p of
          [] \<Rightarrow> replay_end k p h
        | row # rest \<Rightarrow> replay_one e k p row rest h))"

section \<open>Dispatch\<close>

text \<open>The method names of \<^verbatim>\<open>betcode-proto/src/methods.rs\<close> that belong to the other services.\<close>

definition service_of :: "string \<Rightarrow> tunnel_service option" where
  "service_of mth = map_of (
     map (\<lambda>n. (''CommandService/'' @ n, CommandSvc))
       [''GetCommandRegistry'', ''ListAgents'', ''ListPath'', ''ListPlugins'', ''GetPluginStatus'', ''AddPlugin'',
        ''RemovePlugin'', ''EnablePlugin'', ''DisablePlugin''] @
     map (\<lambda>n. (''GitLabService/'' @ n, GitLabSvc))
       [''ListMergeRequests'', ''GetMergeRequest'', ''ListPipelines'', ''GetPipeline'', ''ListIssues'', ''GetIssue''] @
     map (\<lambda>n. (''GitRepoService/'' @ n, RepoSvc))
       [''RegisterRepo'', ''UnregisterRepo'', ''ListRepos'', ''GetRepo'', ''UpdateRepo'', ''ScanRepos'', ''ListBranches'',
        ''CreateBranch'', ''DeleteBranch'', ''GetBranch''] @
     map (\<lambda>n. (''WorktreeService/'' @ n, WorktreeSvc))
       [''CreateWorktree'', ''RemoveWorktree'', ''ListWorktrees'', ''GetWorktree''] @
     map (\<lambda>n. (''ConfigService/'' @ n, ConfigSvc))
       [''GetSettings'', ''UpdateSettings'', ''ListMcpServers'', ''GetPermissions''] @
     map (\<lambda>n. (''VersionService/'' @ n, VersionSvc)) [''GetVersion'', ''NegotiateCapabilities''] @
     map (\<lambda>n. (''SubagentService/'' @ n, SubagentSvc))
       [''SpawnSubagent'', ''SendToSubagent'', ''CancelSubagent'', ''ListSubagents'', ''CreateOrchestration'',
        ''RevokeAutoApprove'']) mth"

definition service_name :: "tunnel_service \<Rightarrow> string" where
  "service_name svc = (case svc of
      CommandSvc \<Rightarrow> ''CommandService'' | GitLabSvc \<Rightarrow> ''GitLabService'' | RepoSvc \<Rightarrow> ''GitRepoService''
    | WorktreeSvc \<Rightarrow> ''WorktreeService'' | ConfigSvc \<Rightarrow> ''ConfigService'' | VersionSvc \<Rightarrow> ''VersionService''
    | SubagentSvc \<Rightarrow> ''SubagentService'')"

definition dispatch_rpc ::
  "tunnel_env \<Rightarrow> string \<Rightarrow> bool \<Rightarrow> rpc_outcome \<Rightarrow> tunnel_handler \<Rightarrow> tunnel_handler \<times> tunnel_frame list" where
  "dispatch_rpc e request_id fwd outcome h = (case outcome of
      RpcDecode er \<Rightarrow> refuse e request_id TecInternal (''Decode error: '' @ er) h
    | RpcOk resp \<Rightarrow> reply e request_id fwd resp h
    | RpcStatus message \<Rightarrow> refuse e request_id TecInternal message h)"

definition dispatch_service ::
  "tunnel_env \<Rightarrow> tunnel_service \<Rightarrow> string \<Rightarrow> string \<Rightarrow> byte list \<Rightarrow> bool \<Rightarrow> tunnel_handler \<Rightarrow> tunnel_handler \<times> tunnel_frame list" where
  "dispatch_service e svc request_id mth data fwd h =
     (if svc \<notin> set (th_services h)
      then refuse e request_id TecInternal (service_name svc @ '' not available in tunnel handler'') h
      else dispatch_rpc e request_id fwd (tv_service e mth data) h)"

text \<open>
  The streams of other services (\<^verbatim>\<open>ExecuteServiceCommand\<close>, \<^verbatim>\<open>WatchSubagent\<close>, \<^verbatim>\<open>WatchOrchestration\<close>): \<open>items\<close> is
  what the service's stream yields until it ends, each item the bytes of a message or an error.
\<close>

fun send_stream ::
  "tunnel_env \<Rightarrow> string \<Rightarrow> nat option \<Rightarrow> 64 word \<Rightarrow> (string + byte list) list \<Rightarrow> tunnel_handler \<Rightarrow> tunnel_handler" where
  "send_stream e request_id crypto seq [] h = send_out (end_frame request_id) h"
| "send_stream e request_id crypto seq (Inl er # items) h =
     send_out (end_frame request_id) (send_error e request_id (''Stream error: '' @ er) h)"
| "send_stream e request_id crypto seq (Inr buf # items) h =
     (case make_encrypted_payload e crypto buf h of
        (h1, Inl _) \<Rightarrow> send_stream e request_id crypto seq items h1
      | (h1, Inr enc) \<Rightarrow>
          if th_open h1
          then send_stream e request_id crypto (seq + 1) items (send_out (data_frame request_id FtStreamData seq enc) h1)
          else send_out (end_frame request_id) h1)"

definition handle_service_stream ::
  "tunnel_env \<Rightarrow> tunnel_service \<Rightarrow> string \<Rightarrow> string \<Rightarrow> string \<Rightarrow> byte list \<Rightarrow> bool \<Rightarrow> tunnel_handler \<Rightarrow> tunnel_handler" where
  "handle_service_stream e svc call request_id mth data fwd h =
     (if svc \<notin> set (th_services h)
      then send_error e request_id (service_name svc @ '' not available in tunnel handler'') h
      else (case tv_stream e mth data of
          StreamDecode er \<Rightarrow> send_error e request_id (''Decode error: '' @ er) h
        | StreamStatus message \<Rightarrow> send_error e request_id (call @ '' failed: '' @ message) h
        | StreamOk items \<Rightarrow> send_stream e request_id (if fwd then None else th_crypto h) 0 items h))"

definition dispatch_method ::
  "tunnel_env \<Rightarrow> nat \<Rightarrow> string \<Rightarrow> string \<Rightarrow> byte list \<Rightarrow> bool \<Rightarrow> tunnel_handler \<Rightarrow> tunnel_handler \<times> tunnel_frame list" where
  "dispatch_method e k request_id mth data fwd h =
     (if mth = ''AgentService/ListSessions'' then handle_list_sessions e request_id data fwd h
      else if mth = ''AgentService/CompactSession'' then handle_compact_frames e request_id data fwd h
      else if mth = ''AgentService/CancelTurn'' then handle_cancel_turn e request_id data fwd h
      else if mth = ''AgentService/RequestInputLock'' then handle_request_input_lock e request_id data fwd h
      else if mth = ''AgentService/Converse'' then (handle_converse e k request_id data fwd h, [])
      else if mth = ''AgentService/ResumeSession'' then handle_resume_session e k request_id data fwd h
      else if mth = ''CommandService/ExecuteServiceCommand''
        then (handle_service_stream e CommandSvc ''ExecuteServiceCommand'' request_id mth data fwd h, [])
      else if mth = ''AgentService/ListSessionGrants'' then handle_list_session_grants e request_id data fwd h
      else if mth = ''AgentService/ClearSessionGrants'' then handle_clear_session_grants e request_id data fwd h
      else if mth = ''AgentService/SetSessionGrant'' then handle_set_session_grant e request_id data fwd h
      else if mth = ''AgentService/RenameSession'' then handle_rename_session e request_id data fwd h
      else if mth = ''AgentService/DeleteSession'' then handle_delete_session e request_id data fwd h
      else if mth = ''SubagentService/WatchSubagent''
        then (handle_service_stream e SubagentSvc ''WatchSubagent'' request_id mth data fwd h, [])
      else if mth = ''SubagentService/WatchOrchestration''
        then (handle_service_stream e SubagentSvc ''WatchOrchestration'' request_id mth data fwd h, [])
      else (case service_of mth of
          Some svc \<Rightarrow> dispatch_service e svc request_id mth data fwd h
        | None \<Rightarrow> refuse e request_id TecNotFound (''Unknown method: '' @ mth) h))"

definition handle_request ::
  "tunnel_env \<Rightarrow> nat \<Rightarrow> string \<Rightarrow> tunnel_frame \<Rightarrow> tunnel_handler \<Rightarrow> tunnel_handler \<times> tunnel_frame list" where
  "handle_request e k request_id frame h = (case tf_payload frame of
      Some (PStreamData payload) \<Rightarrow>
        if sp_method payload = ''AgentService/ExchangeKeys''
        then handle_exchange_keys e request_id (payload_data payload) h
        else (case sp_encrypted payload of
            None \<Rightarrow> dispatch_method e k request_id (sp_method payload) [] True h
          | Some enc \<Rightarrow> (case decrypt_payload e enc h of
                Inl er \<Rightarrow> refuse e request_id TecInternal er h
              | Inr data \<Rightarrow> dispatch_method e k request_id (sp_method payload) data (ep_nonce enc = []) h))
    | _ \<Rightarrow> refuse e request_id TecInternal ''Missing StreamPayload'' h)"

text \<open>The debug names of the frame types that are not handled; a number outside the enumeration is the other case.\<close>

definition handle_frame ::
  "tunnel_env \<Rightarrow> nat \<Rightarrow> tunnel_frame \<Rightarrow> tunnel_handler \<Rightarrow> tunnel_handler \<times> tunnel_frame list" where
  "handle_frame e k frame h = (let request_id = tf_request_id frame in
     case tf_frame_type frame of
       FtRequest \<Rightarrow> handle_request e k request_id frame h
     | FtControl \<Rightarrow> (h, [])
     | FtError \<Rightarrow> (h, [])
     | FtStreamData \<Rightarrow>
         (case tf_payload frame of
            Some (PStreamData p) \<Rightarrow>
              (case sp_encrypted p of
                 None \<Rightarrow> (handle_incoming_stream_data e request_id [] h, [])
               | Some enc \<Rightarrow> (case decrypt_payload e enc h of
                     Inl _ \<Rightarrow> (h, [])
                   | Inr data \<Rightarrow> (handle_incoming_stream_data e request_id data h, [])))
          | _ \<Rightarrow> (h, []))
     | FtResponse \<Rightarrow> refuse e request_id TecInternal ''Unexpected frame type: Response'' h
     | FtStreamEnd \<Rightarrow> refuse e request_id TecInternal ''Unexpected frame type: StreamEnd'' h
     | FtOther _ \<Rightarrow> refuse e request_id TecInternal ''Unknown frame type'' h)"

section \<open>The loop\<close>

text \<open>
  \<^verbatim>\<open>tunnel_loop\<close> starts a task for every frame it receives; the tasks run in any order.
  A task handles its frame and sends the responses. The loop sends pings, and ends with the stream or at
  shutdown; the tasks go on.
\<close>

datatype tunnel_client_error = TcConnection string | TcAuth string | TcRegistration string | TcStream string

record tunnel_loop =
  tl_handler :: tunnel_handler
  tl_inbound :: "tunnel_frame list"
  tl_tasks :: "(nat \<times> tunnel_frame) list"
  tl_next :: nat
  tl_result :: "(tunnel_client_error + unit) option"

definition machine_control :: "int \<Rightarrow> string \<Rightarrow> tunnel_frame" where
  "machine_control ctype machine_id = \<lparr> tf_request_id = [], tf_frame_type = FtControl,
     tf_payload = Some (PControl \<lparr> tl_control_type = ctype, tl_params = [(''machine_id'', machine_id)] \<rparr>) \<rparr>"

definition loop_receive :: "tunnel_loop \<Rightarrow> tunnel_loop" where
  "loop_receive l = (case tl_inbound l of
      [] \<Rightarrow> l
    | f # fs \<Rightarrow> l\<lparr>tl_inbound := fs, tl_tasks := tl_tasks l @ [(tl_next l, f)], tl_next := Suc (tl_next l)\<rparr>)"

definition loop_ping :: "int \<Rightarrow> tunnel_loop \<Rightarrow> tunnel_loop" where
  "loop_ping ping l = (let h = tl_handler l in
     if th_open h then l\<lparr>tl_handler := send_out (machine_control ping (th_machine_id h)) h\<rparr>
     else l\<lparr>tl_result := Some (Inl (TcConnection ''Outbound channel closed during heartbeat''))\<rparr>)"

definition loop_finish :: "string option option \<Rightarrow> tunnel_loop \<Rightarrow> tunnel_loop" where
  "loop_finish ending l = l\<lparr>tl_result := Some (case ending of
      None \<Rightarrow> Inr ()
    | Some None \<Rightarrow> Inl (TcConnection ''Stream ended by relay'')
    | Some (Some er) \<Rightarrow> Inl (TcStream er))\<rparr>"

definition run_task :: "tunnel_env \<Rightarrow> nat \<Rightarrow> tunnel_frame \<Rightarrow> tunnel_handler \<Rightarrow> tunnel_handler" where
  "run_task e k f h = (case handle_frame e k f h of (h', responses) \<Rightarrow> fold send_out responses h')"

inductive tunnel_step :: "tunnel_loop \<Rightarrow> tunnel_loop \<Rightarrow> bool" where
  receive: "tl_result l = None \<Longrightarrow> tl_inbound l \<noteq> [] \<Longrightarrow> tunnel_step l (loop_receive l)"
| arrive: "tl_result l = None \<Longrightarrow> tunnel_step l (l\<lparr>tl_inbound := tl_inbound l @ [f]\<rparr>)"
| ping: "tl_result l = None \<Longrightarrow> tunnel_step l (loop_ping n l)"
| finish: "tl_result l = None \<Longrightarrow> tunnel_step l (loop_finish ending l)"
| task: "(k, f) \<in> set (tl_tasks l) \<Longrightarrow>
    tunnel_step l (l\<lparr>tl_handler := run_task e k f (tl_handler l), tl_tasks := remove1 (k, f) (tl_tasks l)\<rparr>)"
| forward: "hm_get (th_forwarders (tl_handler l)) k \<noteq> None \<Longrightarrow>
    tunnel_step l (l\<lparr>tl_handler := forwarder_step e k rv (tl_handler l)\<rparr>)"
| replay_send: "hm_get (th_replays (tl_handler l)) k \<noteq> None \<Longrightarrow>
    tunnel_step l (l\<lparr>tl_handler := replay_step e k (tl_handler l)\<rparr>)"

end
