(* ===== verification/ClientConnection.thy ===== *)
theory ClientConnection
  imports TunnelHandler
begin

text \<open>
  The client's end of a connection, \<^verbatim>\<open>crates/betcode-cli/src/connection.rs\<close>: connecting, the key exchange with the
  check of the daemon's fingerprint, the two tasks of a conversation that encrypt requests and decrypt events, replaying a
  history, and the unary calls of the agent service. The transport is an argument: a call is given the
  reply it gets. Sessions are cells with addresses, shared between the connection and its tasks.
\<close>

section \<open>State\<close>

record connection_config =
  cc_auth_token :: "string option"
  cc_machine_id :: "string option"

definition config_is_relay :: "connection_config \<Rightarrow> bool" where
  "config_is_relay c \<longleftrightarrow> cc_auth_token c \<noteq> None \<and> cc_machine_id c \<noteq> None"

datatype connection_state = Disconnected | Connecting | Connected | Reconnecting

datatype connection_error =
    InvalidAddress string
  | ConnectFailed string
  | NotConnected
  | RpcFailed string
  | KeyExchangeRequired
  | FingerprintRejected
  | FingerprintMismatch string string

record daemon_connection =
  dc_config :: connection_config
  dc_client :: bool
  dc_state :: connection_state
  dc_crypto :: "nat option"
  dc_cells :: "(nat, crypto_session) hmap"
  dc_identity :: "identity_keypair option"
  dc_store :: fingerprint_store
  dc_store_file :: "string option"

text \<open>The arguments of a key exchange: packages, random bytes, the new session's address, the clock and the file system.\<close>

record client_env =
  ce_lib :: crypto_lib
  ce_secret :: "byte list"
  ce_prefix :: "byte list"
  ce_addr :: nat
  ce_now :: int
  ce_to_json :: "fingerprint_store \<Rightarrow> string + string"
  ce_io :: "string option"

definition new_daemon_connection ::
  "(string \<Rightarrow> string + fingerprint_store) \<Rightarrow> string option \<Rightarrow> connection_config \<Rightarrow> identity_keypair option \<Rightarrow> string option
    \<Rightarrow> daemon_connection" where
  "new_daemon_connection parse io config identity file =
     \<lparr> dc_config = config, dc_client = False, dc_state = Disconnected, dc_crypto = None, dc_cells = [],
       dc_identity = identity,
       dc_store = (case load_store parse io file of Inl _ \<Rightarrow> [] | Inr st \<Rightarrow> st),
       dc_store_file = file \<rparr>"

text \<open>Only a relay connection has an identity; a key that cannot be loaded is logged and left out.\<close>

definition load_client_identity ::
  "connection_config \<Rightarrow> crypto_error + identity_keypair \<Rightarrow> identity_keypair option" where
  "load_client_identity config loaded =
     (if \<not> config_is_relay config then None
      else (case loaded of Inr kp \<Rightarrow> Some kp | Inl _ \<Rightarrow> None))"

text \<open>Where connecting stops: at the address, at the certificate, at the transport, or not at all.\<close>

datatype connect_outcome = BadAddress string | BadCertificate string | ChannelFailed string | ChannelOpen

definition connect :: "connect_outcome \<Rightarrow> daemon_connection \<Rightarrow> daemon_connection \<times> (connection_error + unit)" where
  "connect outcome c = (let c1 = c\<lparr>dc_state := Connecting\<rparr> in
     case outcome of
       BadAddress er \<Rightarrow> (c1, Inl (InvalidAddress er))
     | BadCertificate er \<Rightarrow> (c1, Inl (ConnectFailed er))
     | ChannelFailed er \<Rightarrow> (c1\<lparr>dc_state := Disconnected\<rparr>, Inl (ConnectFailed er))
     | ChannelOpen \<Rightarrow> (c1\<lparr>dc_client := True, dc_state := Connected\<rparr>, Inr ()))"

section \<open>The key exchange\<close>

definition save_fingerprints :: "client_env \<Rightarrow> daemon_connection \<Rightarrow> daemon_connection" where
  "save_fingerprints e c = c\<lparr>dc_store_file := fst (save_store (ce_to_json e) (ce_io e) (dc_store c) (dc_store_file c))\<rparr>"

definition record_fingerprint :: "client_env \<Rightarrow> string \<Rightarrow> string \<Rightarrow> daemon_connection \<Rightarrow> daemon_connection" where
  "record_fingerprint e machine_id fp c =
     save_fingerprints e (c\<lparr>dc_store := record_fp machine_id fp (ce_now e) (dc_store c)\<rparr>)"

definition accept_fingerprint_change :: "client_env \<Rightarrow> string \<Rightarrow> string \<Rightarrow> daemon_connection \<Rightarrow> daemon_connection" where
  "accept_fingerprint_change e machine_id new_fp c =
     save_fingerprints e (c\<lparr>dc_store := fst (update_fingerprint machine_id new_fp (ce_now e) (dc_store c))\<rparr>)"

definition mark_fingerprint_verified :: "client_env \<Rightarrow> string \<Rightarrow> daemon_connection \<Rightarrow> daemon_connection" where
  "mark_fingerprint_verified e machine_id c =
     save_fingerprints e (c\<lparr>dc_store := fst (mark_verified machine_id (dc_store c))\<rparr>)"

definition exchange_request :: "client_env \<Rightarrow> string \<Rightarrow> daemon_connection \<Rightarrow> key_exchange_request" where
  "exchange_request e machine_id c =
     (let (pub, fp) = identity_info (ce_lib e) (dc_identity c)
      in \<lparr> kr_machine_id = machine_id, kr_identity_pubkey = pub, kr_fingerprint = fp,
           kr_ephemeral_pubkey = kx_public (with_identity_opt (ce_lib e) (ce_secret e) (dc_identity c)) \<rparr>)"

text \<open>\<open>rpc\<close> is the reply of the transport to the request.\<close>

definition client_exchange_keys ::
  "client_env \<Rightarrow> (key_exchange_request \<Rightarrow> string + key_exchange_response) \<Rightarrow> string \<Rightarrow> daemon_connection
    \<Rightarrow> daemon_connection \<times> (connection_error + string \<times> fingerprint_check)" where
  "client_exchange_keys e rpc machine_id c =
     (if \<not> dc_client c then (c, Inl NotConnected)
      else (case rpc (exchange_request e machine_id c) of
          Inl er \<Rightarrow> (c, Inl (RpcFailed (''Key exchange failed: '' @ er)))
        | Inr resp \<Rightarrow>
            (case kx_complete (ce_lib e) (ce_prefix e) (with_identity_opt (ce_lib e) (ce_secret e) (dc_identity c))
                    (kp_ephemeral_pubkey resp) of
               Inl er \<Rightarrow> (c, Inl (RpcFailed (''Key derivation failed: '' @ show_crypto_error er)))
             | Inr session \<Rightarrow>
                 let fp = kp_fingerprint resp;
                     fp_check = check (ce_lib e) (dc_store c) machine_id fp
                 in case fp_check of
                      Mismatch expected actual \<Rightarrow> (c, Inr (fp, fp_check))
                    | _ \<Rightarrow>
                        let c1 = record_fingerprint e machine_id fp c
                        in (c1\<lparr>dc_cells := hm_insert (ce_addr e) session (dc_cells c1), dc_crypto := Some (ce_addr e)\<rparr>,
                            Inr (fp, fp_check)))))"

definition ensure_relay_key_exchange ::
  "client_env \<Rightarrow> (key_exchange_request \<Rightarrow> string + key_exchange_response) \<Rightarrow> daemon_connection
    \<Rightarrow> daemon_connection \<times> (connection_error + unit)" where
  "ensure_relay_key_exchange e rpc c =
     (if \<not> config_is_relay (dc_config c) then (c, Inr ())
      else (case client_exchange_keys e rpc (unwrap_or ''unknown'' (cc_machine_id (dc_config c))) c of
          (c', Inl er) \<Rightarrow> (c', Inl er)
        | (c', Inr (fp, Mismatch expected actual)) \<Rightarrow> (c', Inl (FingerprintMismatch expected actual))
        | (c', Inr _) \<Rightarrow> (c', Inr ())))"

section \<open>Requests and events\<close>

text \<open>The codec of the two messages: encoding may fail, decoding may fail.\<close>

record client_codec =
  cl_encode_request :: "agent_request \<Rightarrow> string + byte list"
  cl_decode_event :: "byte list \<Rightarrow> string + agent_event"

definition encrypt_agent_request ::
  "crypto_lib \<Rightarrow> client_codec \<Rightarrow> crypto_session \<Rightarrow> agent_request \<Rightarrow> crypto_session \<times> (string + agent_request)" where
  "encrypt_agent_request L cd s req = (case cl_encode_request cd req of
      Inl er \<Rightarrow> (s, Inl (''encode failed: '' @ er))
    | Inr buf \<Rightarrow> (case encrypt L s buf of
          (s', Inl er) \<Rightarrow> (s', Inl (''encrypt failed: '' @ show_crypto_error er))
        | (s', Inr ed) \<Rightarrow> (s', Inr (EncryptedReq (ed_ciphertext ed) (ed_nonce ed)))))"

definition decrypt_agent_event ::
  "crypto_lib \<Rightarrow> client_codec \<Rightarrow> crypto_session \<Rightarrow> agent_event \<Rightarrow> string + agent_event" where
  "decrypt_agent_event L cd s ev = (case ev_event ev of
      Some (Encrypted ciphertext nonce) \<Rightarrow>
        (case decrypt L s ciphertext nonce of
           Inl er \<Rightarrow> Inl (''decrypt failed: '' @ show_crypto_error er)
         | Inr plaintext \<Rightarrow> (case cl_decode_event cd plaintext of
               Inl er \<Rightarrow> Inl (''decode failed: '' @ er)
             | Inr inner \<Rightarrow> Inr inner))
    | _ \<Rightarrow> Inl ''rejected plaintext event: E2E encryption active'')"

definition decrypt_resume_events ::
  "crypto_lib \<Rightarrow> client_codec \<Rightarrow> crypto_session option \<Rightarrow> agent_event list \<Rightarrow> agent_event list" where
  "decrypt_resume_events L cd crypto evs = (case crypto of
      None \<Rightarrow> evs
    | Some s \<Rightarrow> List.map_filter (\<lambda>ev. case decrypt_agent_event L cd s ev of Inr d \<Rightarrow> Some d | Inl _ \<Rightarrow> None) evs)"

text \<open>Before a conversation starts: a relay connection without a session is refused.\<close>

definition converse_guard :: "daemon_connection \<Rightarrow> connection_error + unit" where
  "converse_guard c =
     (if config_is_relay (dc_config c) \<and> dc_crypto c = None then Inl KeyExchangeRequired
      else if \<not> dc_client c then Inl NotConnected
      else Inr ())"

text \<open>
  The task between the user's requests and the stream: it encrypts until a request fails (the error is passed to
  the receiver of events) or the stream is closed (\<open>open_chan\<close> is false for the send that fails).
\<close>

fun encrypt_adapter ::
  "crypto_lib \<Rightarrow> client_codec \<Rightarrow> crypto_session \<Rightarrow> (bool \<times> agent_request) list
    \<Rightarrow> crypto_session \<times> agent_request list \<times> string option" where
  "encrypt_adapter L cd s [] = (s, [], None)"
| "encrypt_adapter L cd s ((open_chan, req) # reqs) = (case encrypt_agent_request L cd s req of
      (s', Inl er) \<Rightarrow> (s', [], Some (''Encryption failed: '' @ er))
    | (s', Inr sealed) \<Rightarrow>
        if open_chan then (case encrypt_adapter L cd s' reqs of (s'', out, er) \<Rightarrow> (s'', sealed # out, er))
        else (s', [], None))"

text \<open>The task that reads the stream of events; the fifth failure in a row ends it.\<close>

datatype 'e stream_item = StreamEvent 'e | StreamFault string

definition MAX_CONSECUTIVE_DECRYPT_FAILURES :: nat where
  "MAX_CONSECUTIVE_DECRYPT_FAILURES = 5"

fun read_events ::
  "crypto_lib \<Rightarrow> client_codec \<Rightarrow> crypto_session option \<Rightarrow> nat \<Rightarrow> agent_event stream_item list \<Rightarrow> (string + agent_event) list" where
  "read_events L cd crypto n [] = []"
| "read_events L cd crypto n (StreamFault er # items) = [Inl er]"
| "read_events L cd crypto n (StreamEvent ev # items) = (case crypto of
      None \<Rightarrow> Inr ev # read_events L cd crypto n items
    | Some s \<Rightarrow> (case decrypt_agent_event L cd s ev of
          Inr d \<Rightarrow> Inr d # read_events L cd crypto 0 items
        | Inl _ \<Rightarrow>
            if Suc n \<ge> MAX_CONSECUTIVE_DECRYPT_FAILURES
            then [Inl (''Persistent decryption failures '' @ em_dash @ '' possible key mismatch'')]
            else read_events L cd crypto (Suc n) items))"

section \<open>Calls\<close>

text \<open>A unary call with its metadata: only a value that is a legal header is attached (\<open>legal\<close>).\<close>

definition apply_relay_meta ::
  "(string \<Rightarrow> bool) \<Rightarrow> string option \<Rightarrow> string option \<Rightarrow> (string, string) hmap \<Rightarrow> (string, string) hmap" where
  "apply_relay_meta legal auth_token machine_id md =
     (let md1 = (case auth_token of
            Some t \<Rightarrow> if legal (''Bearer '' @ t) then hm_insert ''authorization'' (''Bearer '' @ t) md else md
          | None \<Rightarrow> md)
      in case machine_id of
           Some m \<Rightarrow> if legal m then hm_insert ''x-machine-id'' m md1 else md1
         | None \<Rightarrow> md1)"

definition client_call ::
  "(string \<Rightarrow> bool) \<Rightarrow> ((string, string) hmap \<Rightarrow> 'req \<Rightarrow> string + 'resp) \<Rightarrow> 'req \<Rightarrow> daemon_connection \<Rightarrow> connection_error + 'resp" where
  "client_call legal rpc req c =
     (if \<not> dc_client c then Inl NotConnected
      else (case rpc (apply_relay_meta legal (cc_auth_token (dc_config c)) (cc_machine_id (dc_config c)) []) req of
          Inl er \<Rightarrow> Inl (RpcFailed er) | Inr resp \<Rightarrow> Inr resp))"

record list_sessions_request =
  lr_working_directory :: string
  lr_worktree_id :: string
  lr_limit :: "32 word"
  lr_offset :: "32 word"

definition client_list_sessions ::
  "(string \<Rightarrow> bool) \<Rightarrow> ((string, string) hmap \<Rightarrow> list_sessions_request \<Rightarrow> string + 'resp) \<Rightarrow> string option \<Rightarrow> daemon_connection
    \<Rightarrow> connection_error + 'resp" where
  "client_list_sessions legal rpc wd = client_call legal rpc
     \<lparr> lr_working_directory = unwrap_or [] wd, lr_worktree_id = [], lr_limit = 50, lr_offset = 0 \<rparr>"

definition list_sessions_filtered ::
  "(string \<Rightarrow> bool) \<Rightarrow> ((string, string) hmap \<Rightarrow> list_sessions_request \<Rightarrow> string + 'resp) \<Rightarrow> string option \<Rightarrow> string option
    \<Rightarrow> 32 word \<Rightarrow> 32 word \<Rightarrow> daemon_connection \<Rightarrow> connection_error + 'resp" where
  "list_sessions_filtered legal rpc wd wt limit off = client_call legal rpc
     \<lparr> lr_working_directory = unwrap_or [] wd, lr_worktree_id = unwrap_or [] wt, lr_limit = limit, lr_offset = off \<rparr>"

text \<open>Replaying a history: the stream is read to its end before anything is decrypted, and a fault loses all of it.\<close>

fun collect_stream :: "'e stream_item list \<Rightarrow> string + 'e list" where
  "collect_stream [] = Inr []"
| "collect_stream (StreamFault er # items) = Inl er"
| "collect_stream (StreamEvent ev # items) = (case collect_stream items of Inl er \<Rightarrow> Inl er | Inr evs \<Rightarrow> Inr (ev # evs))"

definition client_session :: "daemon_connection \<Rightarrow> crypto_session option" where
  "client_session c = Option.bind (dc_crypto c) (hm_get (dc_cells c))"

definition client_resume_session ::
  "crypto_lib \<Rightarrow> client_codec \<Rightarrow> (string \<Rightarrow> bool) \<Rightarrow> ((string, string) hmap \<Rightarrow> string \<times> 64 word \<Rightarrow> string + agent_event stream_item list)
    \<Rightarrow> string \<Rightarrow> 64 word \<Rightarrow> daemon_connection \<Rightarrow> connection_error + agent_event list" where
  "client_resume_session L cd legal rpc sid from_sequence c = (case client_call legal rpc (sid, from_sequence) c of
      Inl er \<Rightarrow> Inl er
    | Inr items \<Rightarrow> (case collect_stream items of
          Inl er \<Rightarrow> Inl (RpcFailed er)
        | Inr evs \<Rightarrow> Inr (decrypt_resume_events L cd (client_session c) evs)))"

end
