(* ===== verification/SecureChannel.thy ===== *)
theory SecureChannel
  imports ClientConnection
begin

text \<open>
  The two ends together: a client of \<open>ClientConnection\<close> and a daemon of \<open>TunnelHandler\<close> with the relay between them.
  After a key exchange over an honest relay both ends hold one key; then the requests of the client are opened
  by the daemon and the events of the daemon are read by the client, unchanged and in order. A fingerprint that was
  recorded is the only one that is accepted afterwards. The same definitions show what the exchange does not
  give: a relay that repeats the known fingerprint shares the client's key, and the exchange of another client ends the
  conversation of the first.
\<close>

section \<open>The codec\<close>

text \<open>
  What the generated code promises of a message: it can be encoded, and decoding gives it back. An event that travels
  sealed needs this for itself and for the events that carry its envelope.
\<close>

definition event_codec :: "tunnel_codec \<Rightarrow> client_codec \<Rightarrow> agent_event \<Rightarrow> bool" where
  "event_codec tc cd ev \<longleftrightarrow> (\<exists>b. tc_event tc ev = Inr b \<and> cl_decode_event cd b = Inr ev)"

definition carries :: "tunnel_codec \<Rightarrow> client_codec \<Rightarrow> agent_event \<Rightarrow> bool" where
  "carries tc cd ev \<longleftrightarrow>
     event_codec tc cd ev \<and> (\<forall>ed. event_codec tc cd (envelope_event (ev_sequence ev) (ev_timestamp ev) ed))"

definition request_codec :: "tunnel_codec \<Rightarrow> client_codec \<Rightarrow> agent_request \<Rightarrow> bool" where
  "request_codec tc cd req \<longleftrightarrow> (\<exists>b. cl_encode_request cd req = Inr b \<and> tc_agent_request tc b = Inr req)"

text \<open>The cipher encrypts every message; the limit on their length is far above the size of a message.\<close>

definition seals :: "crypto_lib \<Rightarrow> bool" where
  "seals L \<longleftrightarrow> (\<forall>k n p. \<exists>c. lib_seal L k n p = Inr c)"

section \<open>Events\<close>

definition room :: "crypto_session \<Rightarrow> nat \<Rightarrow> bool" where
  "room s n \<longleftrightarrow> unat (cs_nonce_counter s) + n < 2 ^ 32"

lemma encrypt_room:
  assumes "seals L" "room s (Suc n)"
  obtains s' ed where "encrypt L s p = (s', Inr ed)" "room s' n" "cs_key s' = cs_key s" "cs_nonce_prefix s' = cs_nonce_prefix s"
proof -
  have ne: "cs_nonce_counter s \<noteq> - 1" using assms(2) by (auto simp: room_def unat_max)
  obtain c where "lib_seal L (cs_key s) (nonce_bytes (cs_nonce_prefix s) (cs_nonce_counter s)) p = Inr c"
    using assms(1) unfolding seals_def by blast
  with ne have "encrypt L s p = (s\<lparr>cs_nonce_counter := cs_nonce_counter s + 1\<rparr>,
      Inr \<lparr> ed_ciphertext = c, ed_nonce = nonce_bytes (cs_nonce_prefix s) (cs_nonce_counter s) \<rparr>)"
    by (simp add: encrypt_def next_nonce_def Let_def)
  moreover have "room (s\<lparr>cs_nonce_counter := cs_nonce_counter s + 1\<rparr>) n"
    using assms(2) ne by (simp add: room_def unat_Suc)
  ultimately show ?thesis using that by auto
qed

text \<open>The event a client decodes from a frame.\<close>

definition frame_event :: "client_codec \<Rightarrow> tunnel_frame \<Rightarrow> agent_event stream_item" where
  "frame_event cd f = (case tf_payload f of
      Some (PStreamData p) \<Rightarrow> (case cl_decode_event cd (payload_data p) of Inr ev \<Rightarrow> StreamEvent ev | Inl er \<Rightarrow> StreamFault er)
    | _ \<Rightarrow> StreamFault [])"

definition frame_number :: "tunnel_frame \<Rightarrow> 64 word" where
  "frame_number f = (case tf_payload f of Some (PStreamData p) \<Rightarrow> sp_sequence p | _ \<Rightarrow> 0)"

definition forward_all :: "tunnel_env \<Rightarrow> nat \<Rightarrow> agent_event list \<Rightarrow> tunnel_handler \<Rightarrow> tunnel_handler" where
  "forward_all e k evs h = fold (\<lambda>ev. forwarder_step e k (RecvOk ev)) evs h"

text \<open>One event: the frame that is sent, and what the client makes of it.\<close>

lemma forward_sealed:
  assumes laws: "crypto_laws (tv_lib e)" "carries (tv_codec e) cd ev" "seals (tv_lib e)"
    and f: "hm_get (th_forwarders h) k = Some f" "fw_crypto f = Some a" and "th_open h"
    and s: "paired s (the_session a h)" "room (the_session a h) (Suc n)"
  obtains h' fr wrapper where "forwarder_step e k (RecvOk ev) h = h'" "th_out h' = th_out h @ [fr]" "th_open h'"
    "frame_event cd fr = StreamEvent wrapper" "decrypt_agent_event (tv_lib e) cd s wrapper = Inr ev"
    "frame_number fr = fw_seq f" "tf_request_id fr = fw_request_id f"
    "hm_get (th_forwarders h') k = Some (f\<lparr>fw_seq := fw_seq f + 1\<rparr>)"
    "paired s (the_session a h')" "room (the_session a h') n"
proof -
  obtain plain where plain: "tc_event (tv_codec e) ev = Inr plain" "cl_decode_event cd plain = Inr ev"
    using laws(2) by (auto simp: carries_def event_codec_def)
  obtain t ed where t: "encrypt (tv_lib e) (the_session a h) plain = (t, Inr ed)" "room t n"
      "cs_key t = cs_key (the_session a h)" "cs_nonce_prefix t = cs_nonce_prefix (the_session a h)"
    using encrypt_room [OF laws(3) s(2)] by metis
  obtain wire where wire: "tc_event (tv_codec e) (envelope_event (ev_sequence ev) (ev_timestamp ev) ed) = Inr wire"
      "cl_decode_event cd wire = Inr (envelope_event (ev_sequence ev) (ev_timestamp ev) ed)"
    using laws(2) by (auto simp: carries_def event_codec_def)
  let ?enc = "\<lparr> ep_ciphertext = wire, ep_nonce = [], ep_ephemeral_pubkey = [] \<rparr>"
  let ?fr = "data_frame (fw_request_id f) FtStreamData (fw_seq f) ?enc"
  let ?h' = "(send_out ?fr (set_session a t h))\<lparr>th_forwarders := hm_insert k (f\<lparr>fw_seq := fw_seq f + 1\<rparr>) (th_forwarders h)\<rparr>"
  have step: "forwarder_step e k (RecvOk ev) h = ?h'"
    using f \<open>th_open h\<close> plain t wire
    by (simp add: forwarder_step_def forward_one_def seal_event_def make_encrypted_payload_def tunnel_crypto_def
        set_session_def send_out_def Let_def)
  have "decrypt (tv_lib e) s (ed_ciphertext ed) (ed_nonce ed) = Inr plain"
    by (rule decrypt_encrypt [OF laws(1) paired_sym [OF s(1)] t(1)])
  then have "decrypt_agent_event (tv_lib e) cd s (envelope_event (ev_sequence ev) (ev_timestamp ev) ed) = Inr ev"
    using plain by (simp add: decrypt_agent_event_def envelope_event_def)
  with step show ?thesis
    using that [of ?h' ?fr "envelope_event (ev_sequence ev) (ev_timestamp ev) ed"] \<open>th_open h\<close> s t wire
    by (simp add: send_out_def set_session_def the_session_def frame_event_def data_frame_def payload_data_def
        frame_number_def paired_def)
qed

lemma forward_all_sealed:
  assumes laws: "crypto_laws (tv_lib e)" "seals (tv_lib e)"
  shows "list_all (carries (tv_codec e) cd) evs \<Longrightarrow> hm_get (th_forwarders h) k = Some f \<Longrightarrow> fw_crypto f = Some a \<Longrightarrow> th_open h \<Longrightarrow>
    paired s (the_session a h) \<Longrightarrow> room (the_session a h) (length evs) \<Longrightarrow>
    \<exists>frames. th_out (forward_all e k evs h) = th_out h @ frames \<and>
      read_events (tv_lib e) cd (Some s) 0 (map (frame_event cd) frames) = map Inr evs \<and>
      map frame_number frames = map (\<lambda>i. fw_seq f + of_nat i) [0..<length evs]"
proof (induction evs arbitrary: h f)
  case Nil
  then show ?case by (auto simp: forward_all_def)
next
  case (Cons ev evs)
  have "room (the_session a h) (Suc (length evs))" using Cons.prems(6) by simp
  moreover have "carries (tv_codec e) cd ev" and evs: "list_all (carries (tv_codec e) cd) evs" using Cons.prems(1) by simp_all
  ultimately
obtain h' fr w where h': "forwarder_step e k (RecvOk ev) h = h'" "th_out h' = th_out h @ [fr]" "th_open h'"
      "frame_event cd fr = StreamEvent w" "decrypt_agent_event (tv_lib e) cd s w = Inr ev"
      "frame_number fr = fw_seq f"
      "hm_get (th_forwarders h') k = Some (f\<lparr>fw_seq := fw_seq f + 1\<rparr>)"
      "paired s (the_session a h')" "room (the_session a h') (length evs)"
    using forward_sealed [OF laws(1) _ laws(2) Cons.prems(2-5)] by metis
  have "fw_crypto (f\<lparr>fw_seq := fw_seq f + 1\<rparr>) = Some a" using Cons.prems(3) by simp
  from Cons.IH [OF evs h'(7) this h'(3,8,9)] obtain frames where frames:
      "th_out (forward_all e k evs h') = th_out h' @ frames"
      "read_events (tv_lib e) cd (Some s) 0 (map (frame_event cd) frames) = map Inr evs"
      "map frame_number frames = map (\<lambda>i. fw_seq f + 1 + of_nat i) [0..<length evs]" by auto
  have "map (\<lambda>i. fw_seq f + of_nat i) [0..<Suc (length evs)]
      = fw_seq f # map (\<lambda>i. fw_seq f + 1 + of_nat i) [0..<length evs]"
    by (simp add: upt_conv_Cons map_Suc_upt [symmetric] del: upt_Suc)
  then show ?case
    using frames h' by (intro exI [of _ "fr # frames"]) (simp add: forward_all_def del: upt_Suc)
qed

section \<open>A small channel\<close>

text \<open>Toy packages and a toy codec for two requests and one event, on which the definitions can be run.\<close>

definition pad32 :: "byte list \<Rightarrow> byte list" where
  "pad32 b = take 32 (b @ replicate 32 0)"

definition demo_lib :: crypto_lib where
  "demo_lib = \<lparr> lib_hkdf = (\<lambda>_ ikm _. Inr ikm), lib_seal = (\<lambda>k n p. Inr (k @ n @ p)),
     lib_open = (\<lambda>k n c. if prefix (k @ n) c then Inr (drop (length k + length n) c) else Inl ''tag''),
     lib_dh = (\<lambda>a p. map2 (+) (pad32 a) p), lib_public = pad32, lib_sha256 = pad32, lib_ct_eq = (=) \<rparr>"

lemma length_pad32 [simp]: "length (pad32 b) = 32"
  by (simp add: pad32_def)

lemma map2_add_commute: "map2 (+) xs ys = map2 (+) ys (xs :: 'a::ab_semigroup_add list)"
  by (rule nth_equalityI) (auto simp: add.commute)

lemma demo_lib_laws: "crypto_laws demo_lib" "seals demo_lib"
  by (auto simp: crypto_laws_def seals_def demo_lib_def intro: map2_add_commute)

definition env_bytes :: "byte list \<Rightarrow> byte list \<Rightarrow> byte list" where
  "env_bytes ct n = replicate (length n) 1 @ 0 # n @ ct"

definition env_split :: "byte list \<Rightarrow> byte list \<times> byte list" where
  "env_split b = (let l = length (takeWhile (\<lambda>x. x = 1) b); r = drop (Suc l) b in (drop l r, take l r))"

lemma env_split_bytes [simp]: "env_split (env_bytes ct n) = (ct, n)"
proof -
  have "takeWhile (\<lambda>x. x = 1) (env_bytes ct n) = replicate (length n) 1"
    by (simp add: env_bytes_def takeWhile_append)
  then show ?thesis by (simp add: env_split_def env_bytes_def Let_def)
qed

lemma env_bytes_inj: "env_bytes ct n = env_bytes ct' n' \<Longrightarrow> ct = ct' \<and> n = n'"
  by (metis env_split_bytes prod.inject)

lemma bytes_of_inj: "bytes_of s = bytes_of t \<Longrightarrow> s = t"
proof -
  have "inj (\<lambda>c :: char. of_nat (of_char c) :: byte)"
  proof (rule injI)
    fix c d :: char
    assume "(of_nat (of_char c) :: byte) = of_nat (of_char d)"
    then have "unat (of_nat (of_char c) :: byte) = unat (of_nat (of_char d) :: byte)" by simp
    then show "c = d" by (simp add: unat_of_nat)
  qed
  then show "bytes_of s = bytes_of t \<Longrightarrow> s = t" by (simp add: bytes_of_def inj_map_eq_map)
qed

definition kx_bytes :: "key_exchange_response \<Rightarrow> byte list" where
  "kx_bytes kp = env_bytes (env_bytes (kp_identity_pubkey kp) (bytes_of (kp_fingerprint kp))) (kp_ephemeral_pubkey kp)"

definition demo_start_conv :: start_conversation where
  "demo_start_conv = \<lparr> st_session_id = ''s'', st_working_directory = ''/w'', st_model = [], st_worktree_id = [] \<rparr>"

definition demo_event :: agent_event where
  "demo_event = \<lparr> ev_sequence = 7, ev_timestamp = None, ev_parent_tool_use_id = [], ev_event = Some (TextDelta ''hello'' True) \<rparr>"

definition demo_encode_request :: "agent_request \<Rightarrow> string + byte list" where
  "demo_encode_request req = (case req of
      StartReq _ \<Rightarrow> Inr [0] | MessageReq _ _ \<Rightarrow> Inr [1] | EncryptedReq ct n \<Rightarrow> Inr (2 # env_bytes ct n) | _ \<Rightarrow> Inl ''no'')"

definition demo_decode_request :: "byte list \<Rightarrow> string + agent_request" where
  "demo_decode_request b = (case b of
      [] \<Rightarrow> Inl ''empty''
    | t # rest \<Rightarrow>
        if t = 0 then Inr (StartReq demo_start_conv) else if t = 1 then Inr (MessageReq ''hi'' [])
        else case env_split rest of (ct, n) \<Rightarrow> Inr (EncryptedReq ct n))"

definition demo_encode_event :: "agent_event \<Rightarrow> string + byte list" where
  "demo_encode_event ev = (case ev_event ev of Some (Encrypted ct n) \<Rightarrow> Inr (2 # env_bytes ct n) | _ \<Rightarrow> Inr [0])"

definition demo_decode_event :: "byte list \<Rightarrow> string + agent_event" where
  "demo_decode_event b = (case b of
      [] \<Rightarrow> Inl ''empty''
    | t # rest \<Rightarrow> if t = 0 then Inr demo_event
        else case env_split rest of (ct, n) \<Rightarrow> Inr (envelope_event 7 None \<lparr> ed_ciphertext = ct, ed_nonce = n \<rparr>))"

definition demo_client_codec :: client_codec where
  "demo_client_codec = \<lparr> cl_encode_request = demo_encode_request, cl_decode_event = demo_decode_event \<rparr>"

definition demo_tunnel_codec :: tunnel_codec where
  "demo_tunnel_codec = \<lparr> tc_list_sessions = (\<lambda>_. Inr ([], 0, 0)), tc_compact = (\<lambda>_. Inr ''s''), tc_cancel = (\<lambda>_. Inr ''s''),
     tc_input_lock = (\<lambda>_. Inr ''s''), tc_list_grants = (\<lambda>_. Inr ''s''), tc_clear_grants = (\<lambda>_. Inr (''s'', [])),
     tc_set_grant = (\<lambda>_. Inr (''s'', ''Bash'', True)), tc_rename = (\<lambda>_. Inr (''s'', ''n'')), tc_delete = (\<lambda>_. Inr ''s''),
     tc_resume = (\<lambda>_. Inr (''s'', 0)),
     tc_key_exchange = (\<lambda>b. if length b = 32
       then Inr \<lparr> kr_machine_id = ''m'', kr_identity_pubkey = [], kr_fingerprint = [], kr_ephemeral_pubkey = b \<rparr> else Inl ''short''),
     tc_agent_request = demo_decode_request,
     tc_response = (\<lambda>r. case r of KeyExchangeResp kp \<Rightarrow> Inr (kx_bytes kp) | _ \<Rightarrow> Inr []),
     tc_event = demo_encode_event \<rparr>"

lemma demo_carries: "carries demo_tunnel_codec demo_client_codec demo_event"
  by (auto simp: carries_def event_codec_def demo_tunnel_codec_def demo_client_codec_def demo_encode_event_def
      demo_decode_event_def demo_event_def envelope_event_def)

lemma demo_request_codec:
  "request_codec demo_tunnel_codec demo_client_codec (MessageReq ''hi'' [])"
  "request_codec demo_tunnel_codec demo_client_codec (EncryptedReq ct n)"
  by (auto simp: request_codec_def demo_tunnel_codec_def demo_client_codec_def demo_encode_request_def demo_decode_request_def)

definition channel_env :: "byte list \<Rightarrow> nat \<Rightarrow> tunnel_env" where
  "channel_env secret a = \<lparr> tv_lib = demo_lib, tv_codec = demo_tunnel_codec, tv_code = (\<lambda>_. 13), tv_rq = demo_request_env,
     tv_secret = secret, tv_prefix = replicate 8 9, tv_addr = a, tv_uuid = ''t'',
     tv_service = (\<lambda>_ _. RpcStatus ''none''), tv_stream = (\<lambda>_ _. StreamStatus ''none'') \<rparr>"

definition demo_identity :: identity_keypair where
  "demo_identity = generate_identity demo_lib [5]"

definition demo_handler :: tunnel_handler where
  "demo_handler = new_handler ''m'' demo_relay0 (Some (0, \<lparr> cs_key = [3], cs_nonce_prefix = replicate 8 1, cs_nonce_counter = 0 \<rparr>))
     (Some demo_identity) []"

definition demo_forwarding :: tunnel_handler where
  "demo_forwarding = handle_converse (channel_env [4] 2) 0 ''r'' (2 # env_bytes ([3] @ replicate 12 2 @ [0]) (replicate 12 2)) True demo_handler"

definition demo_peer :: crypto_session where
  "demo_peer = \<lparr> cs_key = [3], cs_nonce_prefix = replicate 8 2, cs_nonce_counter = 0 \<rparr>"

text \<open>
  C18. The events of a session reach a client of an encrypted conversation unchanged and in order. When the two ends hold
  paired sessions, the codec carries the events and the nonces suffice, the forwarding task sends one frame per event
  with consecutive numbers, and what the client reads out of these frames is exactly the list of events, without
  an error.
\<close>

theorem sealed_events_delivered:
  assumes "crypto_laws (tv_lib e)" "seals (tv_lib e)" "list_all (carries (tv_codec e) cd) evs"
    and "hm_get (th_forwarders h) k = Some f" "fw_crypto f = Some a" "th_open h"
    and "paired s (the_session a h)" "room (the_session a h) (length evs)"
  shows "\<exists>frames. th_out (forward_all e k evs h) = th_out h @ frames \<and>
    map frame_number frames = map (\<lambda>i. fw_seq f + of_nat i) [0..<length evs] \<and>
    read_events (tv_lib e) cd (Some s) 0 (map (frame_event cd) frames) = map Inr evs"
  using forward_all_sealed [OF assms] by blast

theorem sealed_events_delivered_witness:
  "\<exists>frames. th_out (forward_all (channel_env [4] 2) 0 [demo_event, demo_event] demo_forwarding) = th_out demo_forwarding @ frames \<and>
     map frame_number frames = [0, 1] \<and>
     read_events demo_lib demo_client_codec (Some demo_peer) 0 (map (frame_event demo_client_codec) frames)
       = [Inr demo_event, Inr demo_event]"
proof -
  let ?f = "\<lparr> fw_request_id = ''r'', fw_session_id = ''s'', fw_client_id = ''tunnel-t'', fw_crypto = Some 0,
    fw_relay_forwarded = True, fw_seq = 0 \<rparr>"
  have f: "hm_get (th_forwarders demo_forwarding) 0 = Some ?f" "th_open demo_forwarding" by code_simp+
  have s: "paired demo_peer (the_session 0 demo_forwarding)" by code_simp
  have r: "room (the_session 0 demo_forwarding) (Suc (Suc 0))"
  proof -
    have "cs_nonce_counter (the_session 0 demo_forwarding) = 0" by code_simp
    then show ?thesis by (simp add: room_def)
  qed
  have e: "tv_lib (channel_env [4] 2) = demo_lib" "tv_codec (channel_env [4] 2) = demo_tunnel_codec" by (simp_all add: channel_env_def)
  have "list_all (carries demo_tunnel_codec demo_client_codec) [demo_event, demo_event]" by (simp add: demo_carries)
  from sealed_events_delivered [where e = "channel_env [4] 2", unfolded e, OF demo_lib_laws this f(1) _ f(2) s]
  show ?thesis using r by (simp add: upt_rec)
qed

section \<open>Requests\<close>

text \<open>A sealed request is opened by the daemon as the request it was.\<close>

lemma open_sealed:
  assumes "crypto_laws (tv_lib e)" "request_codec (tv_codec e) cd req"
    and "th_crypto h = Some a" "paired s (the_session a h)"
    and "encrypt_agent_request (tv_lib e) cd s req = (s', Inr sealed)"
  shows "open_request e sealed h = Inr req" and "paired s' (the_session a h)"
proof -
  obtain b where b: "cl_encode_request cd req = Inr b" "tc_agent_request (tv_codec e) b = Inr req"
    using assms(2) by (auto simp: request_codec_def)
  obtain ed where ed: "encrypt (tv_lib e) s b = (s', Inr ed)" "sealed = EncryptedReq (ed_ciphertext ed) (ed_nonce ed)"
    using assms(5) b by (auto simp: encrypt_agent_request_def split: prod.splits sum.splits)
  show "open_request e sealed h = Inr req"
    using decrypt_encrypt [OF assms(1,4) ed(1)] assms(3) b ed(2) by (simp add: open_request_def)
  show "paired s' (the_session a h)" using assms(4) encrypt_frame [of "tv_lib e" s b] ed(1) by (simp add: paired_def)
qed

lemma encrypt_agent_request_room:
  assumes "seals L" "request_codec tc cd req" "room s (Suc n)"
  obtains s' sealed where "encrypt_agent_request L cd s req = (s', Inr sealed)" "room s' n"
proof -
  obtain b where b: "cl_encode_request cd req = Inr b" using assms(2) by (auto simp: request_codec_def)
  obtain s' ed where "encrypt L s b = (s', Inr ed)" "room s' n" using encrypt_room [OF assms(1,3)] by metis
  then show ?thesis using that b by (simp add: encrypt_agent_request_def)
qed

text \<open>
  C19. The requests of a client reach the daemon as they were: while the stream is open and nonces are left,
  the encrypting task passes on one envelope per request and reports no error, and a daemon with the paired session opens the
  envelopes to exactly the list of requests.
\<close>

theorem sealed_requests_opened:
  assumes "crypto_laws (tv_lib e)" "seals (tv_lib e)" "th_crypto h = Some a"
    and "list_all (request_codec (tv_codec e) cd) reqs" "paired s (the_session a h)" "room s (length reqs)"
  shows "\<exists>s' sealed. encrypt_adapter (tv_lib e) cd s (map (Pair True) reqs) = (s', sealed, None) \<and>
    map (\<lambda>q. open_request e q h) sealed = map Inr reqs"
  using assms(4-6)
proof (induction reqs arbitrary: s)
  case (Cons req reqs)
  have rq: "request_codec (tv_codec e) cd req" using Cons.prems(1) by simp
  have "room s (Suc (length reqs))" using Cons.prems(3) by simp
  then obtain t sealed where t: "encrypt_agent_request (tv_lib e) cd s req = (t, Inr sealed)" "room t (length reqs)"
    using encrypt_agent_request_room [OF assms(2) rq] by metis
  note opened = open_sealed [OF assms(1) rq assms(3) Cons.prems(2) t(1)]
  obtain s' rest where "encrypt_adapter (tv_lib e) cd t (map (Pair True) reqs) = (s', rest, None)"
      "map (\<lambda>q. open_request e q h) rest = map Inr reqs"
    using Cons.IH [OF _ opened(2) t(2)] Cons.prems(1) by auto
  then show ?case using t(1) opened(1) by simp
qed simp

theorem sealed_requests_opened_witness:
  "\<exists>s' sealed. encrypt_adapter demo_lib demo_client_codec demo_peer [(True, MessageReq ''hi'' []), (True, MessageReq ''hi'' [])]
       = (s', sealed, None) \<and>
     map (\<lambda>q. open_request (channel_env [4] 2) q demo_handler) sealed = [Inr (MessageReq ''hi'' []), Inr (MessageReq ''hi'' [])]"
proof -
  have s: "paired demo_peer (the_session 0 demo_handler)" by code_simp
  have h: "th_crypto demo_handler = Some 0" by code_simp
  have e: "tv_lib (channel_env [4] 2) = demo_lib" "tv_codec (channel_env [4] 2) = demo_tunnel_codec" by (simp_all add: channel_env_def)
  have "list_all (request_codec demo_tunnel_codec demo_client_codec) [MessageReq ''hi'' [], MessageReq ''hi'' []]"
    by (simp add: demo_request_codec)
  from sealed_requests_opened [where e = "channel_env [4] 2", unfolded e, OF demo_lib_laws h this s]
  show ?thesis by (simp add: room_def demo_peer_def)
qed

text \<open>
  No plaintext and no forged envelope is acted on while a session is installed: unless the data decodes to an
  envelope that the session opens to a request, incoming stream data leaves the whole state of the daemon as it was,
  and a conversation is refused with one error frame and no other effect.
\<close>

theorem unsealed_requests_inert:
  assumes active: "th_crypto h = Some a"
    and bad: "\<And>c n p req. tc_agent_request (tv_codec e) data = Inr (EncryptedReq c n) \<Longrightarrow>
      decrypt (tv_lib e) (the_session a h) c n = Inr p \<Longrightarrow> tc_agent_request (tv_codec e) p \<noteq> Inr req"
  shows "handle_incoming_stream_data e rid data h = h \<and>
    (\<exists>message. handle_converse e k rid data fwd h = send_out (error_response e rid TecInternal message) h)"
proof (cases "tc_agent_request (tv_codec e) data")
  case (Inl er)
  then show ?thesis
    by (auto simp: handle_incoming_stream_data_def handle_converse_def send_error_def split: option.split)
next
  case (Inr outer)
  have "\<exists>er. open_request e outer h = Inl er"
    using active bad Inr by (cases outer) (auto simp: open_request_def split: sum.split)
  then show ?thesis using Inr
    by (auto simp: handle_incoming_stream_data_def handle_converse_def send_error_def split: option.split)
qed

theorem unsealed_requests_inert_witness:
  "handle_incoming_stream_data (channel_env [4] 2) ''r'' [1] demo_handler = demo_handler \<and>
   (\<exists>message. handle_converse (channel_env [4] 2) 0 ''r'' [1] True demo_handler
      = send_out (error_response (channel_env [4] 2) ''r'' TecInternal message) demo_handler)"
proof (rule unsealed_requests_inert)
  show "th_crypto demo_handler = Some 0" by code_simp
next
  fix c n p req
  assume "tc_agent_request (tv_codec (channel_env [4] 2)) [1] = Inr (EncryptedReq c n)"
  then show "tc_agent_request (tv_codec (channel_env [4] 2)) p \<noteq> Inr req"
    by (simp add: channel_env_def demo_tunnel_codec_def demo_decode_request_def)
qed

end
