(* ===== verification/KeyExchange.thy ===== *)
theory KeyExchange
  imports SecureChannel
begin

text \<open>
  The key exchange between client and daemon through the relay. An honest relay gives both ends paired sessions. The
  pin of a machine is enforced over any sequence of exchanges. Two theorems show the limits: the fingerprint is not bound to the
  exchanged keys, and a daemon has one session for all its clients.
\<close>

section \<open>An honest relay\<close>

text \<open>The reply of a daemon to an exchange, as the relay forwards it: the response whose encoding is the data of the frame.\<close>

definition relayed_reply :: "tunnel_env \<Rightarrow> tunnel_frame list \<Rightarrow> key_exchange_response \<Rightarrow> bool" where
  "relayed_reply te frames resp \<longleftrightarrow> (\<exists>rid b. tc_response (tv_codec te) (KeyExchangeResp resp) = Inr b \<and>
     frames = [data_frame rid FtResponse 0 \<lparr> ep_ciphertext = b, ep_nonce = [], ep_ephemeral_pubkey = [] \<rparr>])"

lemma exchange_refused:
  assumes "tc_key_exchange (tv_codec te) data = Inr req"
  shows "length (kr_ephemeral_pubkey req) \<noteq> X25519_PUBKEY_LEN \<Longrightarrow>
      handle_exchange_keys te rid data h = refuse te rid TecInternal ''Invalid ephemeral public key length'' h"
    and "length (kr_ephemeral_pubkey req) = X25519_PUBKEY_LEN \<Longrightarrow> kr_identity_pubkey req \<noteq> [] \<Longrightarrow>
      length (kr_identity_pubkey req) \<noteq> X25519_PUBKEY_LEN \<Longrightarrow>
      handle_exchange_keys te rid data h = refuse te rid TecInternal ''Invalid identity public key length'' h"
  using assms by (simp_all add: handle_exchange_keys_def)

lemma exchange_daemon:
  assumes "handle_exchange_keys te rid data h = (h', frames)" "relayed_reply te frames resp"
    and "tc_key_exchange (tv_codec te) data = Inr req"
    and inj: "\<And>x y. tc_response (tv_codec te) (KeyExchangeResp x) = tc_response (tv_codec te) (KeyExchangeResp y) \<Longrightarrow> x = y"
  obtains t where "kx_complete (tv_lib te) (tv_prefix te) (with_identity_opt (tv_lib te) (tv_secret te) (th_identity h))
      (kr_ephemeral_pubkey req) = Inr t"
    and "h' = (set_session (tv_addr te) t h)\<lparr>th_crypto := Some (tv_addr te)\<rparr>"
    and "kp_ephemeral_pubkey resp = kx_public (with_identity_opt (tv_lib te) (tv_secret te) (th_identity h))"
    and "kp_fingerprint resp = snd (identity_info (tv_lib te) (th_identity h))"
proof -
  have no_err: "frames \<noteq> [error_response te rid c m]" for c m
    using assms(2) by (auto simp: relayed_reply_def error_response_def data_frame_def)
  let ?st = "with_identity_opt (tv_lib te) (tv_secret te) (th_identity h)"
  obtain pub fp where id: "identity_info (tv_lib te) (th_identity h) = (pub, fp)" by fastforce
  let ?r = "\<lparr> kp_identity_pubkey = pub, kp_fingerprint = fp, kp_ephemeral_pubkey = kx_public ?st \<rparr>"
  have refused: False if "handle_exchange_keys te rid data h = refuse te rid code m g" for code m g
    using that assms(1) no_err by (simp add: refuse_def)
  have lens: "length (kr_ephemeral_pubkey req) = X25519_PUBKEY_LEN"
      "\<not> (kr_identity_pubkey req \<noteq> [] \<and> length (kr_identity_pubkey req) \<noteq> X25519_PUBKEY_LEN)"
    using refused exchange_refused [OF assms(3)] by blast+
  have body: "handle_exchange_keys te rid data h = (case kx_complete (tv_lib te) (tv_prefix te) ?st (kr_ephemeral_pubkey req) of
      Inl er \<Rightarrow> refuse te rid TecInternal ''Key exchange failed'' h
    | Inr t \<Rightarrow> (case plaintext_response_frame te rid (KeyExchangeResp ?r) of
          Inr frame \<Rightarrow> ((set_session (tv_addr te) t h)\<lparr>th_crypto := Some (tv_addr te)\<rparr>, [frame])
        | Inl er \<Rightarrow> refuse te rid TecInternal er ((set_session (tv_addr te) t h)\<lparr>th_crypto := Some (tv_addr te)\<rparr>)))"
    using assms(3) lens id
    by (cases "kr_identity_pubkey req = []") (simp_all add: handle_exchange_keys_def Let_def split: sum.split)
  obtain t where t: "kx_complete (tv_lib te) (tv_prefix te) ?st (kr_ephemeral_pubkey req) = Inr t"
    using refused body by (cases "kx_complete (tv_lib te) (tv_prefix te) ?st (kr_ephemeral_pubkey req)") auto
  obtain f where f: "plaintext_response_frame te rid (KeyExchangeResp ?r) = Inr f"
    using refused body t by (cases "plaintext_response_frame te rid (KeyExchangeResp ?r)") auto
  have h': "h' = (set_session (tv_addr te) t h)\<lparr>th_crypto := Some (tv_addr te)\<rparr>" and fs: "frames = [f]"
    using body t f assms(1) by simp_all
  have "tc_response (tv_codec te) (KeyExchangeResp ?r) = tc_response (tv_codec te) (KeyExchangeResp resp)"
    using f fs assms(2) by (auto simp: plaintext_response_frame_def relayed_reply_def data_frame_def split: sum.splits)
  then have "?r = resp" by (rule inj)
  then show ?thesis using that [OF t h'] id by auto
qed

lemma client_exchange_accepts:
  assumes "client_exchange_keys ce rpc mid c = (c', Inr (fp, chk))" "\<And>x a. chk \<noteq> Mismatch x a"
    and "rpc (exchange_request ce mid c) = Inr resp"
  obtains s where "kx_complete (ce_lib ce) (ce_prefix ce) (with_identity_opt (ce_lib ce) (ce_secret ce) (dc_identity c))
      (kp_ephemeral_pubkey resp) = Inr s"
    and "client_session c' = Some s" "fp = kp_fingerprint resp" "chk = check (ce_lib ce) (dc_store c) mid fp"
  using assms
  by (auto simp: client_exchange_keys_def client_session_def Let_def split: if_splits sum.splits fingerprint_check.splits)
     metis

text \<open>
  C20. Over a relay that forwards the two messages of a key exchange unchanged, an exchange that the client accepts leaves
  both ends with paired sessions: one key, each with nonces of its own. This is what the delivery of events and requests
  rests on.
\<close>

theorem exchange_pairs_sessions:
  assumes "crypto_laws (ce_lib ce)" "tv_lib te = ce_lib ce" "length (ce_prefix ce) = 8" "length (tv_prefix te) = 8"
    and "tc_key_exchange (tv_codec te) data = Inr (exchange_request ce mid c)"
    and "\<And>x y. tc_response (tv_codec te) (KeyExchangeResp x) = tc_response (tv_codec te) (KeyExchangeResp y) \<Longrightarrow> x = y"
    and "handle_exchange_keys te rid data h = (h', frames)" "relayed_reply te frames resp"
    and "client_exchange_keys ce (\<lambda>_. Inr resp) mid c = (c', Inr (fp, chk))" "\<And>x a. chk \<noteq> Mismatch x a"
  shows "\<exists>s a. client_session c' = Some s \<and> th_crypto h' = Some a \<and> paired s (the_session a h') \<and>
    fp = snd (identity_info (tv_lib te) (th_identity h))"
proof -
  obtain t where t: "kx_complete (tv_lib te) (tv_prefix te) (with_identity_opt (tv_lib te) (tv_secret te) (th_identity h))
      (kr_ephemeral_pubkey (exchange_request ce mid c)) = Inr t"
      "h' = (set_session (tv_addr te) t h)\<lparr>th_crypto := Some (tv_addr te)\<rparr>"
      "kp_ephemeral_pubkey resp = kx_public (with_identity_opt (tv_lib te) (tv_secret te) (th_identity h))"
      "kp_fingerprint resp = snd (identity_info (tv_lib te) (th_identity h))"
    using exchange_daemon [OF assms(7,8,5,6)] by metis
  obtain s where s: "kx_complete (ce_lib ce) (ce_prefix ce) (with_identity_opt (ce_lib ce) (ce_secret ce) (dc_identity c))
      (kp_ephemeral_pubkey resp) = Inr s" "client_session c' = Some s" "fp = kp_fingerprint resp"
    using client_exchange_accepts [OF assms(9,10)] by blast
  have "paired s t"
    using kx_paired [OF assms(1,3,4)] s(1) t(1,3) assms(2)
    by (simp add: exchange_request_def split: prod.splits)
  then show ?thesis using s t by (auto simp: set_session_def the_session_def)
qed

definition demo_client_env :: client_env where
  "demo_client_env = \<lparr> ce_lib = demo_lib, ce_secret = [8], ce_prefix = replicate 8 2, ce_addr = 0, ce_now = 100,
     ce_to_json = (\<lambda>_. Inr ''json''), ce_io = None \<rparr>"

definition demo_connection :: daemon_connection where
  "demo_connection = \<lparr> dc_config = \<lparr> cc_auth_token = Some ''t'', cc_machine_id = Some ''m'' \<rparr>, dc_client = True,
     dc_state = Connected, dc_crypto = None, dc_cells = [], dc_identity = None, dc_store = [], dc_store_file = None \<rparr>"

definition demo_kx_response :: key_exchange_response where
  "demo_kx_response = \<lparr> kp_identity_pubkey = id_public demo_identity, kp_fingerprint = identity_fingerprint_of demo_lib demo_identity,
     kp_ephemeral_pubkey = pad32 [4] \<rparr>"

lemma demo_response_inj:
  "tc_response demo_tunnel_codec (KeyExchangeResp x) = tc_response demo_tunnel_codec (KeyExchangeResp y) \<Longrightarrow> x = y"
  by (cases x; cases y) (auto simp: demo_tunnel_codec_def kx_bytes_def dest!: env_bytes_inj bytes_of_inj)

theorem exchange_pairs_sessions_witness:
  "\<exists>s a. client_session (fst (client_exchange_keys demo_client_env (\<lambda>_. Inr demo_kx_response) ''m'' demo_connection)) = Some s \<and>
     th_crypto (fst (handle_exchange_keys (channel_env [4] 2) ''r'' (pad32 [8]) demo_handler)) = Some a \<and>
     paired s (the_session a (fst (handle_exchange_keys (channel_env [4] 2) ''r'' (pad32 [8]) demo_handler))) \<and>
     identity_fingerprint_of demo_lib demo_identity = snd (identity_info demo_lib (Some demo_identity))"
proof -
  let ?d = "handle_exchange_keys (channel_env [4] 2) ''r'' (pad32 [8]) demo_handler"
  let ?c = "client_exchange_keys demo_client_env (\<lambda>_. Inr demo_kx_response) ''m'' demo_connection"
  let ?fp = "identity_fingerprint_of demo_lib demo_identity"
  have e: "tv_lib (channel_env [4] 2) = demo_lib" "tv_codec (channel_env [4] 2) = demo_tunnel_codec" "ce_lib demo_client_env = demo_lib"
    by (simp_all add: channel_env_def demo_client_env_def)
  have req: "tc_key_exchange (tv_codec (channel_env [4] 2)) (pad32 [8]) = Inr (exchange_request demo_client_env ''m'' demo_connection)"
    by (simp add: channel_env_def demo_tunnel_codec_def exchange_request_def demo_client_env_def demo_connection_def
        identity_info_def with_identity_opt_def demo_lib_def)
  have c: "?c = (fst ?c, Inr (?fp, TrustOnFirstUse))"
    by (simp add: client_exchange_keys_def demo_connection_def demo_client_env_def demo_kx_response_def kx_complete_def
        from_keypairs_def from_shared_secret_def hkdf_derive_def demo_lib_def check_def Let_def)
  have "snd ?d = [data_frame ''r'' FtResponse 0 \<lparr> ep_ciphertext = kx_bytes demo_kx_response, ep_nonce = [], ep_ephemeral_pubkey = [] \<rparr>]"
    by code_simp
  moreover have "tc_response demo_tunnel_codec (KeyExchangeResp demo_kx_response) = Inr (kx_bytes demo_kx_response)"
    by (simp add: demo_tunnel_codec_def)
  ultimately have d: "relayed_reply (channel_env [4] 2) (snd ?d) demo_kx_response"
    by (auto simp: relayed_reply_def e)
  have id: "th_identity demo_handler = Some demo_identity" by (simp add: demo_handler_def new_handler_def)
  show ?thesis
    by (rule exchange_pairs_sessions [OF _ _ _ _ req _ prod.collapse [symmetric, of ?d] d c, unfolded e id])
       (simp_all add: demo_lib_laws demo_client_env_def channel_env_def demo_response_inj)
qed

section \<open>Pins\<close>

text \<open>What a user does with a connection: exchange keys with some machine, verify or accept a fingerprint.\<close>

datatype client_op =
    ExchangeOp client_env "key_exchange_request \<Rightarrow> string + key_exchange_response" string
  | VerifyOp client_env string
  | AcceptOp client_env string string

definition client_do :: "client_op \<Rightarrow> daemon_connection \<Rightarrow> daemon_connection" where
  "client_do op c = (case op of
      ExchangeOp e rpc m \<Rightarrow> fst (client_exchange_keys e rpc m c)
    | VerifyOp e m \<Rightarrow> mark_fingerprint_verified e m c
    | AcceptOp e m fp \<Rightarrow> accept_fingerprint_change e m fp c)"

fun accepts :: "string \<Rightarrow> client_op \<Rightarrow> bool" where
  "accepts m (AcceptOp e m' fp) = (m' = m)"
| "accepts m _ = False"

lemma exchange_store:
  "dc_store (fst (client_exchange_keys e rpc m c)) = dc_store c \<or>
   (\<exists>fp. dc_store (fst (client_exchange_keys e rpc m c)) = change (Record m fp (ce_now e)) (dc_store c))"
  by (auto simp: client_exchange_keys_def record_fingerprint_def save_fingerprints_def change_def Let_def
      split: sum.split fingerprint_check.split)

lemma client_do_store:
  obtains cs where "dc_store (client_do op c) = fold change cs (dc_store c)" "\<not> accepts m op \<Longrightarrow> list_all (\<lambda>x. \<not> repins m x) cs"
proof (cases op)
  case (ExchangeOp e rpc m')
  then show ?thesis using exchange_store [of e rpc m' c] that [of "[]"] that [of "[Record m' _ (ce_now e)]"]
    by (fastforce simp: client_do_def)
next
  case (VerifyOp e m')
  then show ?thesis using that [of "[MarkVerified m']"]
    by (simp add: client_do_def mark_fingerprint_verified_def save_fingerprints_def change_def)
next
  case (AcceptOp e m' fp)
  then show ?thesis using that [of "[Update m' fp (ce_now e)]"]
    by (simp add: client_do_def accept_fingerprint_change_def save_fingerprints_def change_def)
qed

lemma client_pin_kept:
  "pin (dc_store c) m = Some fp \<Longrightarrow> list_all (\<lambda>op. \<not> accepts m op) ops \<Longrightarrow> pin (dc_store (fold client_do ops c)) m = Some fp"
proof (induction ops arbitrary: c)
  case (Cons op ops)
  obtain cs where "dc_store (client_do op c) = fold change cs (dc_store c)" "list_all (\<lambda>x. \<not> repins m x) cs"
    using client_do_store [of op c m] Cons.prems(2) by auto
  then have "pin (dc_store (client_do op c)) m = Some fp" using pin_kept Cons.prems(1) by simp
  then show ?case using Cons.IH Cons.prems(2) by simp
qed simp

text \<open>
  C21. A client uses a session only with the fingerprint it knows. Once a machine is pinned to a fingerprint, then after any exchanges
  with any machines and any verifications, as long as the user has not accepted a change for this machine, an exchange with it
  whose reply shows another fingerprint changes nothing of the connection and is reported with both fingerprints.
\<close>

theorem pinned_fingerprint_enforced:
  assumes laws: "crypto_laws (ce_lib e)" and pinned: "pin (dc_store c) m = Some fp"
    and ops: "list_all (\<lambda>op. \<not> accepts m op) ops" and c': "fold client_do ops c = c'"
    and reply: "rpc (exchange_request e m c') = Inr resp" "kp_fingerprint resp \<noteq> fp"
    and res: "client_exchange_keys e rpc m c' = (c'', Inr (fp', chk))"
  shows "c'' = c' \<and> chk = Mismatch fp (kp_fingerprint resp)"
proof -
  have "check (ce_lib e) (dc_store c') m (kp_fingerprint resp) = Mismatch fp (kp_fingerprint resp)"
    using client_pin_kept [OF pinned ops] c' reply(2) by (simp add: check_pin [OF laws])
  then show ?thesis using res reply(1) by (auto simp: client_exchange_keys_def Let_def split: if_splits sum.splits)
qed

definition demo_pinned :: daemon_connection where
  "demo_pinned = demo_connection\<lparr>dc_store := record_fp ''m'' ''aa'' 1 []\<rparr>"

theorem pinned_fingerprint_enforced_witness:
  "client_exchange_keys demo_client_env (\<lambda>_. Inr demo_kx_response) ''m'' (client_do (VerifyOp demo_client_env ''m'') demo_pinned)
     = (client_do (VerifyOp demo_client_env ''m'') demo_pinned,
        Inr (kp_fingerprint demo_kx_response, Mismatch ''aa'' (kp_fingerprint demo_kx_response)))"
proof -
  let ?c = "client_do (VerifyOp demo_client_env ''m'') demo_pinned"
  let ?r = "client_exchange_keys demo_client_env (\<lambda>_. Inr demo_kx_response) ''m'' ?c"
  have ne: "kp_fingerprint demo_kx_response \<noteq> ''aa''" by code_simp
  have pin: "pin (dc_store demo_pinned) ''m'' = Some ''aa''" by code_simp
  have lib: "ce_lib demo_client_env = demo_lib" by (simp add: demo_client_env_def)
  obtain chk where r: "?r = (fst ?r, Inr (kp_fingerprint demo_kx_response, chk))"
  proof -
    have "dc_client ?c"
      by (simp add: client_do_def mark_fingerprint_verified_def save_fingerprints_def demo_pinned_def demo_connection_def)
    then show ?thesis using that
      by (cases "check demo_lib (dc_store ?c) ''m'' (kp_fingerprint demo_kx_response)")
         (auto simp: client_exchange_keys_def kx_complete_def from_keypairs_def from_shared_secret_def hkdf_derive_def
          demo_client_env_def demo_kx_response_def demo_lib_def Let_def)
  qed
  have "fst ?r = ?c \<and> chk = Mismatch ''aa'' (kp_fingerprint demo_kx_response)"
    by (rule pinned_fingerprint_enforced [OF _ pin, where ops = "[VerifyOp demo_client_env ''m'']", OF _ _ _ _ ne r])
       (simp_all add: lib demo_lib_laws)
  then show ?thesis using r by (metis (no_types, lifting))
qed

section \<open>What the exchange does not give\<close>

text \<open>
  C22. The fingerprint does not authenticate the exchange. A relay that answers the client's exchange with an
  ephemeral key of its own and repeats the fingerprint the client knows is accepted as matching, and holds the session that is
  paired with the client's: it reads and writes everything of the conversation.
\<close>

theorem relay_takes_over_exchange:
  assumes laws: "crypto_laws (ce_lib e)" and derives: "\<And>x. \<exists>key. hkdf_derive (ce_lib e) x = Inr key"
    and client: "dc_client c" "pin (dc_store c) m = Some fp" and lens: "length (ce_prefix e) = 8" "length r = 8"
    and rpc: "rpc (exchange_request e m c) = Inr \<lparr> kp_identity_pubkey = ident, kp_fingerprint = fp,
      kp_ephemeral_pubkey = lib_public (ce_lib e) x \<rparr>"
  shows "\<exists>c' s t. client_exchange_keys e rpc m c = (c', Inr (fp, Matched)) \<and> client_session c' = Some s \<and>
    kx_complete (ce_lib e) r (with_identity_opt (ce_lib e) x None) (kr_ephemeral_pubkey (exchange_request e m c)) = Inr t \<and>
    paired s t"
proof -
  let ?L = "ce_lib e"
  have len: "length (lib_public ?L a) = 32" for a using laws by (simp add: crypto_laws_def)
  have ex: "\<exists>s. kx_complete ?L q (with_identity_opt ?L a i) (lib_public ?L b) = Inr s" for q a i b
    using derives [of "lib_dh ?L a (lib_public ?L b)"]
    by (auto simp: kx_complete_def from_keypairs_def from_shared_secret_def with_identity_opt_def len)
  obtain s where s: "kx_complete ?L (ce_prefix e) (with_identity_opt ?L (ce_secret e) (dc_identity c)) (lib_public ?L x) = Inr s"
    using ex by blast
  obtain t where t: "kx_complete ?L r (with_identity_opt ?L x None) (lib_public ?L (ce_secret e)) = Inr t"
    using ex by blast
  have "paired s t"
    using kx_paired [OF laws lens, of "ce_secret e" "dc_identity c" x None s t] s t by (simp add: with_identity_opt_def)
  moreover have "check ?L (dc_store c) m fp = Matched" using client(2) by (simp add: check_pin [OF laws])
  moreover have "kr_ephemeral_pubkey (exchange_request e m c) = lib_public ?L (ce_secret e)"
    by (simp add: exchange_request_def with_identity_opt_def split: prod.split)
  ultimately show ?thesis using s t rpc client(1)
    by (simp add: client_exchange_keys_def client_session_def Let_def)
qed

theorem relay_takes_over_exchange_witness:
  "\<exists>c' s t. client_exchange_keys demo_client_env (\<lambda>_. Inr \<lparr> kp_identity_pubkey = [], kp_fingerprint = ''aa'',
       kp_ephemeral_pubkey = lib_public demo_lib [66] \<rparr>) ''m'' demo_pinned = (c', Inr (''aa'', Matched)) \<and>
     client_session c' = Some s \<and>
     kx_complete demo_lib (replicate 8 6) (with_identity_opt demo_lib [66] None)
       (kr_ephemeral_pubkey (exchange_request demo_client_env ''m'' demo_pinned)) = Inr t \<and> paired s t"
proof -
  have e: "ce_lib demo_client_env = demo_lib" by (simp add: demo_client_env_def)
  have pin: "pin (dc_store demo_pinned) ''m'' = Some ''aa''" by code_simp
  show ?thesis
    by (rule relay_takes_over_exchange [where e = demo_client_env and ident = "[]", unfolded e, OF demo_lib_laws(1) _ _ pin])
       (simp_all add: hkdf_derive_def demo_lib_def demo_pinned_def demo_connection_def demo_client_env_def)
qed

text \<open>
  A daemon has one session. When another client has exchanged keys, a request of the first client that the daemon
  could open before is dropped without a reply, because the cipher does not open it with the new key.
\<close>

theorem second_exchange_silences_first:
  assumes before: "open_request e (EncryptedReq c n) h = Inr req" and active: "hm_get (th_streams h) rid = Some st"
    and exchange: "handle_exchange_keys e rid2 data2 h = (h2, frames)" "th_crypto h2 = Some b"
    and other_key: "lib_open (tv_lib e) (cs_key (the_session b h2)) n c = Inl er"
    and wire: "tc_agent_request (tv_codec e) data = Inr (EncryptedReq c n)"
  shows "handle_incoming_stream_data e rid data h2 = h2"
proof -
  have "\<exists>er. decrypt (tv_lib e) (the_session b h2) c n = Inl er"
    using other_key by (simp add: decrypt_def)
  then obtain er2 where "open_request e (EncryptedReq c n) h2 = Inl er2"
    using exchange(2) by (auto simp: open_request_def)
  then show ?thesis using wire by (simp add: handle_incoming_stream_data_def split: option.split)
qed

end
