(* ===== verification/TunnelRuns.thy ===== *)
theory TunnelRuns
  imports KeyExchange
begin

text \<open>
  Runs of the tunnel loop, and the handlers against the direct service. A session that was installed stays installed
  or is replaced, so a run never falls back to plaintext conversations. The grants and cancellations
  give the same result through the tunnel as over the direct connection. Because every frame has its own task, frames of one
  conversation can overtake each other, and calls outside conversations are accepted unencrypted.
\<close>

section \<open>The session through every step\<close>

lemma send_out_crypto [simp]: "th_crypto (send_out f h) = th_crypto h"
  by (simp add: send_out_def)

lemma send_error_crypto [simp]: "th_crypto (send_error e rid m h) = th_crypto h"
  by (simp add: send_error_def)

lemma set_db_crypto [simp]: "th_crypto (set_db db h) = th_crypto h"
  by (simp add: set_db_def)

lemma set_cells_crypto [simp]: "th_crypto (set_cells a c h) = th_crypto h"
  by (simp add: set_cells_def)

lemma set_session_crypto [simp]: "th_crypto (set_session a s h) = th_crypto h"
  by (simp add: set_session_def)

lemma make_encrypted_payload_crypto: "make_encrypted_payload e a d h = (h', res) \<Longrightarrow> th_crypto h' = th_crypto h"
  by (auto simp: make_encrypted_payload_def split: option.splits prod.splits sum.splits)

lemma reply_crypto [simp]: "th_crypto (fst (reply e rid fwd msg h)) = th_crypto h"
proof -
  have "th_crypto (fst (response_frame e rid msg h)) = th_crypto h"
    by (auto simp: response_frame_def encrypt_payload_def split: sum.split prod.split dest: make_encrypted_payload_crypto)
  then have "th_crypto (fst (response_frame_or_error e rid msg h)) = th_crypto h"
    by (auto simp: response_frame_or_error_def split: prod.splits sum.splits)
  then show ?thesis by (auto simp: reply_def unary_response_frame_def split: prod.splits if_splits)
qed

lemma refuse_crypto [simp]: "th_crypto (fst (refuse e rid code m h)) = th_crypto h"
  by (simp add: refuse_def)

lemma decoded_crypto:
  "(\<And>req. th_crypto (fst (k req h)) = th_crypto h) \<Longrightarrow> th_crypto (fst (decoded e rid dec data k h)) = th_crypto h"
  by (simp add: decoded_def split: sum.split)

lemma with_handle_crypto:
  "(\<And>rh. th_crypto (fst (k rh h)) = th_crypto h) \<Longrightarrow> th_crypto (fst (with_handle e rid sid k h)) = th_crypto h"
  by (simp add: with_handle_def split: option.split)

lemma unary_crypto:
  "th_crypto (fst (handle_list_sessions e rid data fwd h)) = th_crypto h"
  "th_crypto (fst (handle_compact_frames e rid data fwd h)) = th_crypto h"
  "th_crypto (fst (handle_cancel_turn e rid data fwd h)) = th_crypto h"
  "th_crypto (fst (handle_request_input_lock e rid data fwd h)) = th_crypto h"
  "th_crypto (fst (handle_list_session_grants e rid data fwd h)) = th_crypto h"
  "th_crypto (fst (handle_clear_session_grants e rid data fwd h)) = th_crypto h"
  "th_crypto (fst (handle_set_session_grant e rid data fwd h)) = th_crypto h"
  "th_crypto (fst (handle_rename_session e rid data fwd h)) = th_crypto h"
  "th_crypto (fst (handle_delete_session e rid data fwd h)) = th_crypto h"
  "th_crypto (fst (handle_resume_session e k rid data fwd h)) = th_crypto h"
  unfolding handle_list_sessions_def handle_compact_frames_def handle_cancel_turn_def handle_request_input_lock_def
    handle_list_session_grants_def handle_clear_session_grants_def handle_set_session_grant_def handle_rename_session_def
    handle_delete_session_def handle_resume_session_def
  by (auto intro!: decoded_crypto with_handle_crypto simp: Let_def split: prod.split sum.split database_error.split)

lemma handle_converse_crypto [simp]: "th_crypto (handle_converse e k rid data fwd h) = th_crypto h"
  by (auto simp: handle_converse_def start_converse_def Let_def split: sum.split agent_request.split prod.split)

lemma stream_data_crypto [simp]: "th_crypto (handle_incoming_stream_data e rid data h) = th_crypto h"
proof -
  have "th_crypto (route_request e sid req g) = th_crypto g" for sid req g
    by (simp add: route_request_def on_relay_def split: agent_request.split)
  moreover have "th_crypto (fst (take_pending_config rid req h)) = th_crypto h" for req
    by (auto simp: take_pending_config_def split: option.split agent_request.split)
  ultimately show ?thesis
    by (auto simp: handle_incoming_stream_data_def Let_def split: option.split sum.split prod.split)
       (metis fst_conv)+
qed

lemma send_stream_crypto [simp]: "th_crypto (send_stream e rid a seq items h) = th_crypto h"
proof (induction e rid a seq items h rule: send_stream.induct)
  case (3 e rid a seq buf items h)
  then show ?case by (auto split: prod.split sum.split dest: make_encrypted_payload_crypto)
qed simp_all

lemma exchange_keeps_crypto:
  "th_crypto (fst (handle_exchange_keys e rid data h)) \<in> {th_crypto h, Some (tv_addr e)}"
  by (auto simp: handle_exchange_keys_def refuse_def Let_def split: sum.split prod.split)

lemma dispatch_crypto: "th_crypto (fst (dispatch_method e k rid mth data fwd h)) = th_crypto h"
proof -
  have "th_crypto (handle_service_stream e svc call rid mth data fwd h) = th_crypto h" for svc call mth
    by (simp add: handle_service_stream_def split: stream_outcome.split)
  moreover have "th_crypto (fst (dispatch_service e svc rid mth data fwd h)) = th_crypto h" for svc
    by (simp add: dispatch_service_def dispatch_rpc_def split: rpc_outcome.split)
  ultimately show ?thesis
    unfolding dispatch_method_def by (simp add: unary_crypto split: option.split)
qed

lemma handle_frame_crypto:
  "th_crypto (fst (handle_frame e k f h)) \<in> {th_crypto h, Some (tv_addr e)}"
proof -
  have "th_crypto (fst (handle_request e k rid f h)) \<in> {th_crypto h, Some (tv_addr e)}" for rid
    using exchange_keeps_crypto by (auto simp: handle_request_def dispatch_crypto split: option.split frame_payload.split sum.split)
  then show ?thesis
    by (auto simp: handle_frame_def Let_def split: frame_type.split option.split frame_payload.split sum.split)
qed

lemma run_task_crypto: "th_crypto h \<noteq> None \<Longrightarrow> th_crypto (run_task e k f h) \<noteq> None"
proof -
  have "th_crypto (fold send_out fs g) = th_crypto g" for fs g by (induction fs arbitrary: g) auto
  then show "th_crypto h \<noteq> None \<Longrightarrow> th_crypto (run_task e k f h) \<noteq> None"
    using handle_frame_crypto [of e k f h] by (auto simp: run_task_def split: prod.splits)
qed

lemma seal_event_crypto: "seal_event e a seq ts plain h = (h', r) \<Longrightarrow> th_crypto h' = th_crypto h"
  by (auto simp: seal_event_def split: option.splits prod.splits sum.splits)

lemma forwarder_step_crypto: "th_crypto (forwarder_step e k rv h) = th_crypto h"
  by (auto simp: forwarder_step_def forward_one_def forwarder_end_def Let_def
      split: option.split recv.split sum.split prod.split dest!: seal_event_crypto make_encrypted_payload_crypto)

lemma replay_step_crypto: "th_crypto (replay_step e k h) = th_crypto h"
  by (auto simp: replay_step_def replay_one_def replay_end_def Let_def
      split: option.split list.split sum.split prod.split dest!: seal_event_crypto make_encrypted_payload_crypto)

lemma tunnel_step_crypto:
  "tunnel_step l l' \<Longrightarrow> th_crypto (tl_handler l) \<noteq> None \<Longrightarrow> th_crypto (tl_handler l') \<noteq> None"
proof (induction rule: tunnel_step.induct)
  case (task k f l e)
  then show ?case by (simp add: run_task_crypto)
qed (simp_all add: loop_receive_def loop_ping_def loop_finish_def forwarder_step_crypto replay_step_crypto Let_def
      split: list.split)

lemma loop_run_crypto:
  "tunnel_step\<^sup>*\<^sup>* l l' \<Longrightarrow> th_crypto (tl_handler l) \<noteq> None \<Longrightarrow> th_crypto (tl_handler l') \<noteq> None"
  by (induction rule: rtranclp_induct) (blast dest: tunnel_step_crypto)+

lemma plaintext_opens_not:
  assumes "th_crypto h \<noteq> None" "\<And>c n. outer \<noteq> EncryptedReq c n"
  shows "\<exists>er. open_request e outer h = Inl er"
  using assms by (cases outer) (auto simp: open_request_def)

text \<open>
  C23. A tunnel never falls back to plaintext. In every run of the loop after a session has been installed, through any
  interleaving of tasks, pings, forwarded events, replays and further key exchanges, the task of a stream-data frame
  whose data is not an envelope has no effect at all.
\<close>

theorem tunnel_never_downgrades:
  assumes run: "tunnel_step\<^sup>*\<^sup>* l l'" and installed: "th_crypto (tl_handler l) \<noteq> None"
    and frame: "tf_frame_type f = FtStreamData" "tf_payload f = Some (PStreamData p)"
    and forwarded: "sp_encrypted p = Some enc" "ep_nonce enc = []"
    and plain: "\<And>c n. tc_agent_request (tv_codec e) (ep_ciphertext enc) \<noteq> Inr (EncryptedReq c n)"
  shows "run_task e k f (tl_handler l') = tl_handler l'"
proof -
  let ?h = "tl_handler l'"
  have active: "th_crypto ?h \<noteq> None" by (rule loop_run_crypto [OF run installed])
  have "handle_incoming_stream_data e rid (ep_ciphertext enc) ?h = ?h" for rid
  proof (cases "tc_agent_request (tv_codec e) (ep_ciphertext enc)")
    case (Inr outer)
    then have "\<exists>er. open_request e outer ?h = Inl er" using plain by (intro plaintext_opens_not [OF active]) auto
    then show ?thesis using Inr by (auto simp: handle_incoming_stream_data_def split: option.split)
  qed (auto simp: handle_incoming_stream_data_def split: option.split)
  then show ?thesis
    using frame forwarded by (simp add: run_task_def handle_frame_def decrypt_payload_def Let_def)
qed

definition plain_frame :: "string \<Rightarrow> byte list \<Rightarrow> tunnel_frame" where
  "plain_frame rid data = data_frame rid FtStreamData 0 \<lparr> ep_ciphertext = data, ep_nonce = [], ep_ephemeral_pubkey = [] \<rparr>"

definition demo_loop :: tunnel_loop where
  "demo_loop = \<lparr> tl_handler = demo_forwarding, tl_inbound = [plain_frame ''r'' [1]], tl_tasks = [], tl_next = 5, tl_result = None \<rparr>"

text \<open>A conversation is active; the relay injects a message of its own.\<close>

theorem tunnel_never_downgrades_witness:
  "tunnel_step demo_loop (loop_receive demo_loop) \<and> (5, plain_frame ''r'' [1]) \<in> set (tl_tasks (loop_receive demo_loop)) \<and>
   run_task (channel_env [4] 2) 5 (plain_frame ''r'' [1]) (tl_handler (loop_receive demo_loop)) = tl_handler (loop_receive demo_loop)"
proof (intro conjI)
  let ?enc = "\<lparr> ep_ciphertext = [1], ep_nonce = [], ep_ephemeral_pubkey = [] \<rparr>"
  show step: "tunnel_step demo_loop (loop_receive demo_loop)" by (rule tunnel_step.receive) (simp_all add: demo_loop_def)
  show "(5, plain_frame ''r'' [1]) \<in> set (tl_tasks (loop_receive demo_loop))" by (simp add: loop_receive_def demo_loop_def)
  show "run_task (channel_env [4] 2) 5 (plain_frame ''r'' [1]) (tl_handler (loop_receive demo_loop)) = tl_handler (loop_receive demo_loop)"
  proof (rule tunnel_never_downgrades [OF r_into_rtranclp [of tunnel_step, OF step],
      where p = "\<lparr> sp_method = [], sp_encrypted = Some ?enc, sp_sequence = 0, sp_metadata = [] \<rparr>" and enc = ?enc])
    show "th_crypto (tl_handler demo_loop) \<noteq> None" by code_simp
  qed (simp_all add: plain_frame_def data_frame_def channel_env_def demo_tunnel_codec_def demo_decode_request_def)
qed

section \<open>Overtaking\<close>

text \<open>
  The frames of a conversation can overtake each other. When the start of a conversation and its first message have
  both arrived, there is a run in which the task of the message is executed before that of the start: the message
  is dropped, the state of the handler is as before, and only the start is left.
\<close>

theorem message_overtakes_start:
  assumes "tl_result l = None" "tl_inbound l = [start, msg]" "tl_tasks l = []"
    and "tf_frame_type msg = FtStreamData" "hm_get (th_streams (tl_handler l)) (tf_request_id msg) = None"
  shows "\<exists>l'. tunnel_step\<^sup>*\<^sup>* l l' \<and> tl_handler l' = tl_handler l \<and> tl_inbound l' = [] \<and> tl_tasks l' = [(tl_next l, start)]"
proof -
  let ?l1 = "loop_receive l"
  let ?l2 = "loop_receive ?l1"
  let ?l3 = "?l2\<lparr>tl_handler := run_task undefined (Suc (tl_next l)) msg (tl_handler ?l2),
    tl_tasks := remove1 (Suc (tl_next l), msg) (tl_tasks ?l2)\<rparr>"
  have l1: "?l1 = l\<lparr>tl_inbound := [msg], tl_tasks := [(tl_next l, start)], tl_next := Suc (tl_next l)\<rparr>"
    using assms(2,3) by (simp add: loop_receive_def)
  have l2: "?l2 = l\<lparr>tl_inbound := [], tl_tasks := [(tl_next l, start), (Suc (tl_next l), msg)], tl_next := Suc (Suc (tl_next l))\<rparr>"
    by (simp add: l1, simp add: loop_receive_def)
  have inert: "run_task e k msg (tl_handler l) = tl_handler l" for e k
    using assms(4,5)
    by (auto simp: run_task_def handle_frame_def handle_incoming_stream_data_def Let_def
        split: option.split frame_payload.split sum.split)
  have "tunnel_step l ?l1" using assms(1,2) by (intro tunnel_step.receive) simp_all
  moreover have "tunnel_step ?l1 ?l2" using assms(1) l1 by (intro tunnel_step.receive) simp_all
  moreover have "tunnel_step ?l2 ?l3" using l2 by (intro tunnel_step.task) simp
  ultimately have "tunnel_step\<^sup>*\<^sup>* l ?l3" by (meson rtranclp.rtrancl_refl rtranclp.rtrancl_into_rtrancl)
  moreover have "tl_handler ?l3 = tl_handler l" "tl_inbound ?l3 = []" "tl_tasks ?l3 = [(tl_next l, start)]"
    using inert l2 by simp_all
  ultimately show ?thesis by blast
qed

definition demo_arrivals :: tunnel_loop where
  "demo_arrivals = \<lparr> tl_handler = demo_handler,
     tl_inbound = [build_request_frame ''r'' ''AgentService/Converse'' [0] [], plain_frame ''r'' [1]],
     tl_tasks = [], tl_next = 0, tl_result = None \<rparr>"

theorem message_overtakes_start_witness:
  "\<exists>l'. tunnel_step\<^sup>*\<^sup>* demo_arrivals l' \<and> tl_handler l' = tl_handler demo_arrivals \<and> tl_inbound l' = [] \<and>
     tl_tasks l' = [(tl_next demo_arrivals, build_request_frame ''r'' ''AgentService/Converse'' [0] [])]"
proof (rule message_overtakes_start)
  show "tf_frame_type (plain_frame ''r'' [1]) = FtStreamData" by (simp add: plain_frame_def data_frame_def)
  show "hm_get (th_streams (tl_handler demo_arrivals)) (tf_request_id (plain_frame ''r'' [1])) = None" by code_simp
qed (simp_all add: demo_arrivals_def)

section \<open>Calls outside conversations\<close>

text \<open>The code of a status and its text, as the tunnel reports them.\<close>

fun tunnel_status :: "status \<Rightarrow> tunnel_error_code \<times> string" where
  "tunnel_status (NotFound m) = (TecNotFound, m)"
| "tunnel_status (InvalidArgument m) = (TecInvalidArgument, m)"
| "tunnel_status st = (TecInternal, [])"

definition answer ::
  "tunnel_env \<Rightarrow> string \<Rightarrow> bool \<Rightarrow> tunnel_handler \<Rightarrow> session_relay \<times> (status + tunnel_response) \<Rightarrow> tunnel_handler \<times> tunnel_frame list" where
  "answer e rid fwd h res = (case res of
      (r, Inr resp) \<Rightarrow> reply e rid fwd resp (h\<lparr>th_relay := r\<rparr>)
    | (r, Inl st) \<Rightarrow> refuse e rid (fst (tunnel_status st)) (snd (tunnel_status st)) (h\<lparr>th_relay := r\<rparr>))"

lemmas grant_defs = decoded_def with_handle_def answer_def require_session_handle_def set_cells_def refuse_def

text \<open>
  A call about grants or a cancellation gives the same through the tunnel as over the direct connection: the relay is
  left in the state that the direct service leaves, and the frame carries the response or the error of that service.
\<close>

theorem tunnel_agrees_with_service:
  "(tc_list_grants (tv_codec e) d = Inr s1 \<longrightarrow> handle_list_session_grants e rid d fwd h =
      answer e rid fwd h (th_relay h, map_sum id ListGrantsResp (list_session_grants s1 (th_relay h)))) \<and>
   (tc_clear_grants (tv_codec e) d = Inr (s2, t2) \<longrightarrow> handle_clear_session_grants e rid d fwd h =
      answer e rid fwd h (map_prod id (map_sum id (\<lambda>_. ClearGrantsResp)) (clear_session_grants s2 t2 (th_relay h)))) \<and>
   (tc_set_grant (tv_codec e) d = Inr (s3, t3, v) \<longrightarrow> handle_set_session_grant e rid d fwd h =
      answer e rid fwd h (map_prod id (map_sum id (\<lambda>_. SetGrantResp)) (set_session_grant s3 t3 v (th_relay h)))) \<and>
   (tc_cancel (tv_codec e) d = Inr s4 \<longrightarrow> handle_cancel_turn e rid d fwd h =
      answer e rid fwd h (map_prod id (\<lambda>b. Inr (CancelTurnResp b))
        (cancel_turn (rq_sql (tv_rq e) 0) (rq_now (tv_rq e)) s4 (th_relay h))))"
  by (auto simp: handle_list_session_grants_def list_session_grants_def handle_clear_session_grants_def clear_session_grants_def
      handle_set_session_grant_def set_session_grant_def handle_cancel_turn_def cancel_turn_def grant_defs
      split: option.split prod.split sum.split)

definition demo_running :: tunnel_handler where
  "demo_running = demo_handler\<lparr>th_relay := demo_relay\<rparr>"

theorem tunnel_agrees_with_service_witness:
  "handle_list_session_grants (channel_env [4] 2) ''r'' [] True demo_running =
     answer (channel_env [4] 2) ''r'' True demo_running
       (th_relay demo_running, map_sum id ListGrantsResp (list_session_grants ''s'' (th_relay demo_running))) \<and>
   handle_set_session_grant (channel_env [4] 2) ''r'' [] True demo_running =
     answer (channel_env [4] 2) ''r'' True demo_running
       (map_prod id (map_sum id (\<lambda>_. SetGrantResp)) (set_session_grant ''s'' ''Bash'' True (th_relay demo_running))) \<and>
   is_active ''s'' (th_relay demo_running)"
proof -
  have "tc_list_grants (tv_codec (channel_env [4] 2)) [] = Inr ''s''" "tc_set_grant (tv_codec (channel_env [4] 2)) [] = Inr (''s'', ''Bash'', True)"
    by (simp_all add: channel_env_def demo_tunnel_codec_def)
  moreover have "is_active ''s'' (th_relay demo_running)" by code_simp
  ultimately show ?thesis using tunnel_agrees_with_service by blast
qed

text \<open>
  Calls outside conversations are not protected by the session. Whatever session is installed, a request frame without
  a nonce, as any relay can send it, sets a grant of an active session: from then on the tool is answered without asking
  the client.
\<close>

theorem plaintext_grant_accepted:
  assumes "tc_set_grant (tv_codec e) data = Inr (sid, tool, v)" "tool \<noteq> []"
    and "get_handle sid (th_relay h) = Some rh"
    and "handle_frame e k (build_request_frame rid ''AgentService/SetSessionGrant'' data md) h = (h', frames)"
  shows "hm_get (rc_grants (the_cells (rh_cells rh) (th_relay h'))) tool = Some v \<and> th_crypto h' = th_crypto h"
proof -
  have run: "handle_set_session_grant e rid data True h = (h', frames)"
    using assms(4)
    by (simp add: handle_frame_def build_request_frame_def handle_request_def decrypt_payload_def dispatch_method_def Let_def)
  have "th_relay (fst (reply e rid fwd m g)) = th_relay g" if fwd for fwd m g
    using that by (simp add: reply_def unary_response_frame_def)
  then have "th_relay h' = th_relay (set_cells (rh_cells rh) (set_grant tool v (the_cells (rh_cells rh) (th_relay h))) h)"
    using run assms(1-3) by (simp add: handle_set_session_grant_def decoded_def with_handle_def) (metis fst_conv)
  moreover have "th_crypto h' = th_crypto h" using unary_crypto(7) run by (metis fst_conv)
  ultimately show ?thesis by (simp add: set_cells_def the_cells_def set_grant_def)
qed

theorem plaintext_grant_accepted_witness:
  "hm_get (rc_grants (the_cells 0 (th_relay (fst (handle_frame (channel_env [4] 2) 0
      (build_request_frame ''r'' ''AgentService/SetSessionGrant'' [] []) demo_running))))) ''Bash'' = Some True \<and>
   th_crypto (fst (handle_frame (channel_env [4] 2) 0
      (build_request_frame ''r'' ''AgentService/SetSessionGrant'' [] []) demo_running)) = Some 0"
proof -
  let ?h = "handle_frame (channel_env [4] 2) 0 (build_request_frame ''r'' ''AgentService/SetSessionGrant'' [] []) demo_running"
  let ?rh = "\<lparr> rh_process_id = ''p'', rh_session_id = ''s'', rh_stdin_tx = 0, rh_cells = 0 \<rparr>"
  have "tc_set_grant (tv_codec (channel_env [4] 2)) [] = Inr (''s'', ''Bash'', True)"
    by (simp add: channel_env_def demo_tunnel_codec_def)
  moreover have "get_handle ''s'' (th_relay demo_running) = Some ?rh" by code_simp
  moreover have "th_crypto demo_running = Some 0" by code_simp
  ultimately show ?thesis
    using plaintext_grant_accepted [of "channel_env [4] 2" "[]" "''s''" "''Bash''" True demo_running ?rh 0 "''r''" "[]" "fst ?h" "snd ?h"]
    by simp
qed

end
