(* ===== verification/TermText.thy ===== *)
theory TermText
  imports Text
begin

text \<open>
  UTF-8 text as the terminal client edits it: the characters of a string, character boundaries,
  and the methods of \<^verbatim>\<open>String\<close> and \<^verbatim>\<open>str\<close> that panic when a byte position is not on a boundary.
  A panic is \<open>None\<close>. A character is the string of its UTF-8 bytes.
\<close>

named_theorems text_simps \<open>character boundaries and the edits at them\<close>

section \<open>Characters\<close>

definition is_ascii :: "string \<Rightarrow> bool" where
  "is_ascii s \<longleftrightarrow> list_all (\<lambda>c. (of_char c :: nat) < 128) s"

text \<open>The UTF-8 encoding of one character: an ASCII byte, or a lead byte and one to three continuation bytes.\<close>

definition utf8_char :: "string \<Rightarrow> bool" where
  "utf8_char c = (case c of
      [] \<Rightarrow> False
    | b # bs \<Rightarrow> if bs = [] then (of_char b :: nat) < 128
                else (192::nat) \<le> of_char b \<and> length bs \<le> 3 \<and> list_all continuation_byte bs)"

text \<open>No string starts with a continuation byte.\<close>

definition text_start :: "string \<Rightarrow> bool" where
  "text_start s = (case s of [] \<Rightarrow> True | b # _ \<Rightarrow> \<not> continuation_byte b)"

function utf8_chars :: "string \<Rightarrow> string list" where
  "utf8_chars [] = []"
| "utf8_chars (b # s) = (b # takeWhile continuation_byte s) # utf8_chars (dropWhile continuation_byte s)"
  by pat_completeness auto
termination by (relation "measure length") (auto simp: less_Suc_eq_le length_dropWhile_le)

text \<open>\<^verbatim>\<open>char::is_whitespace\<close>: the white space of Unicode, by its encodings.\<close>

definition utf8_bytes :: "nat list \<Rightarrow> string" where
  "utf8_bytes = map char_of"

definition ws_char :: "string \<Rightarrow> bool" where
  "ws_char c \<longleftrightarrow> c \<in> set (map utf8_bytes
     ([[9], [10], [11], [12], [13], [32], [0xC2, 0x85], [0xC2, 0xA0], [0xE1, 0x9A, 0x80],
       [0xE2, 0x80, 0xA8], [0xE2, 0x80, 0xA9], [0xE2, 0x80, 0xAF], [0xE2, 0x81, 0x9F], [0xE3, 0x80, 0x80]]
      @ map (\<lambda>b. [0xE2, 0x80, b]) [0x80 ..< 0x8B]))"

definition trim_start :: "string \<Rightarrow> string" where
  "trim_start s = concat (dropWhile ws_char (utf8_chars s))"

definition trim :: "string \<Rightarrow> string" where
  "trim s = concat (rev (dropWhile ws_char (rev (dropWhile ws_char (utf8_chars s)))))"

text \<open>The pieces between white space: all of them, or the first piece and what follows it.\<close>

fun split_ws :: "string list \<Rightarrow> string list" where
  "split_ws [] = [[]]"
| "split_ws (c # cs) = (if ws_char c then [] # split_ws cs
     else (case split_ws cs of [] \<Rightarrow> [c] | x # xs \<Rightarrow> (c @ x) # xs))"

definition split_whitespace :: "string \<Rightarrow> string list" where
  "split_whitespace s = filter (\<lambda>w. w \<noteq> []) (split_ws (utf8_chars s))"

definition split_first_ws :: "string \<Rightarrow> string \<times> string option" where
  "split_first_ws s = (let cs = utf8_chars s; w = takeWhile (\<lambda>c. \<not> ws_char c) cs
     in (concat w, case drop (length w) cs of [] \<Rightarrow> None | _ # r \<Rightarrow> Some (concat r)))"

section \<open>Positions\<close>

text \<open>\<^verbatim>\<open>char_indices().next_back()\<close> before a position and \<^verbatim>\<open>nth(1)\<close> after it.\<close>

definition prev_char :: "string \<Rightarrow> nat \<Rightarrow> nat" where
  "prev_char s i = length (concat (butlast (utf8_chars (take i s))))"

definition next_char :: "string \<Rightarrow> nat \<Rightarrow> nat" where
  "next_char s i = (case utf8_chars (drop i s) of c # _ # _ \<Rightarrow> i + length c | _ \<Rightarrow> length s)"

text \<open>The bytes of the token before a position, and where it starts.\<close>

definition token_start :: "string \<Rightarrow> nat" where
  "token_start s = length (concat (dropWhile (\<lambda>c. \<not> ws_char c) (rev (utf8_chars s))))"

definition token_len :: "string \<Rightarrow> nat" where
  "token_len s = length (concat (takeWhile (\<lambda>c. \<not> ws_char c) (utf8_chars s)))"

section \<open>Operations that can panic\<close>

definition slice_to :: "string \<Rightarrow> nat \<Rightarrow> string option" where
  "slice_to s i = (if is_char_boundary s i then Some (take i s) else None)"

definition slice_from :: "string \<Rightarrow> nat \<Rightarrow> string option" where
  "slice_from s i = (if is_char_boundary s i then Some (drop i s) else None)"

definition str_insert :: "nat \<Rightarrow> string \<Rightarrow> string \<Rightarrow> string option" where
  "str_insert i c s = (if is_char_boundary s i then Some (take i s @ c @ drop i s) else None)"

definition str_remove :: "nat \<Rightarrow> string \<Rightarrow> string option" where
  "str_remove i s = (if is_char_boundary s i \<and> i < length s
     then Some (take i s @ dropWhile continuation_byte (drop (Suc i) s)) else None)"

definition replace_range :: "nat \<Rightarrow> nat \<Rightarrow> string \<Rightarrow> string \<Rightarrow> string option" where
  "replace_range i j r s = (if i \<le> j \<and> is_char_boundary s i \<and> is_char_boundary s j
     then Some (take i s @ r @ drop j s) else None)"

section \<open>Laws of characters\<close>

lemma concat_utf8_chars [simp]: "concat (utf8_chars s) = s"
  by (induction s rule: utf8_chars.induct) auto

lemma utf8_chars_Nil_iff [simp]: "utf8_chars s = [] \<longleftrightarrow> s = []"
  by (cases s) auto

lemma ascii_not_continuation: "(of_char c :: nat) < 128 \<Longrightarrow> \<not> continuation_byte c"
  by (simp add: continuation_byte_def)

lemma is_ascii_simps [simp]:
  "is_ascii []" "is_ascii (c # s) \<longleftrightarrow> (of_char c :: nat) < 128 \<and> is_ascii s"
  "is_ascii (s @ t) \<longleftrightarrow> is_ascii s \<and> is_ascii t"
  by (auto simp: is_ascii_def)

lemma is_ascii_parts [simp, intro]: "is_ascii s \<Longrightarrow> is_ascii (take n s)" "is_ascii s \<Longrightarrow> is_ascii (drop n s)"
  by (auto simp: is_ascii_def list_all_iff dest: in_set_takeD in_set_dropD)

lemma is_ascii_concat: "is_ascii (concat ss) \<longleftrightarrow> list_all is_ascii ss"
  by (induction ss) auto

lemma ascii_boundary [text_simps]: "is_ascii s \<Longrightarrow> is_char_boundary s i \<longleftrightarrow> i \<le> length s"
  by (auto simp: is_char_boundary_def is_ascii_def list_all_length ascii_not_continuation)

lemma ascii_dropWhile: "is_ascii s \<Longrightarrow> dropWhile continuation_byte s = s"
  by (cases s) (auto simp: ascii_not_continuation)

lemma ascii_takeWhile: "is_ascii s \<Longrightarrow> takeWhile continuation_byte s = []"
  by (cases s) (auto simp: ascii_not_continuation)

lemma ascii_utf8_chars: "is_ascii s \<Longrightarrow> utf8_chars s = map (\<lambda>c. [c]) s"
  by (induction s rule: utf8_chars.induct) (auto simp: ascii_takeWhile ascii_dropWhile)

lemma utf8_char_cases:
  assumes "utf8_char c"
  obtains b where "c = [b]" "(of_char b :: nat) < 128"
  | b d bs where "c = b # d # bs" "\<not> continuation_byte b" "list_all continuation_byte (d # bs)"
proof (cases c)
  case (Cons b bs)
  show ?thesis
  proof (cases bs)
    case Nil
    then show ?thesis using that(1) assms Cons by (simp add: utf8_char_def)
  next
    case (Cons d ds)
    then show ?thesis using that(2) [of b d ds] assms \<open>c = b # bs\<close>
      by (auto simp: utf8_char_def continuation_byte_def)
  qed
qed (use assms in \<open>simp add: utf8_char_def\<close>)

lemma utf8_char_ascii: "utf8_char c \<Longrightarrow> length c = 1 \<longleftrightarrow> is_ascii c"
  by (erule utf8_char_cases) (auto simp: continuation_byte_def)

lemma utf8_char_length: "utf8_char c \<Longrightarrow> 0 < length c"
  by (erule utf8_char_cases) auto

section \<open>Laws of boundaries\<close>

lemma boundary_ends [simp]: "is_char_boundary s 0" "is_char_boundary s (length s)"
  by (simp_all add: is_char_boundary_def)

lemma boundary_le: "is_char_boundary s i \<Longrightarrow> i \<le> length s"
  by (auto simp: is_char_boundary_def)

text \<open>Between two texts there is a boundary when the second starts a character.\<close>

lemma boundary_between: "text_start t \<Longrightarrow> is_char_boundary (s @ t) (length s)"
  by (cases t) (auto simp: is_char_boundary_def text_start_def nth_append)

lemma text_start_drop: "text_start s \<Longrightarrow> is_char_boundary s i \<Longrightarrow> text_start (drop i s)"
proof (cases "i < length s")
  case True
  assume "text_start s" "is_char_boundary s i"
  moreover have "drop i s = s ! i # drop (Suc i) s" using True by (simp add: Cons_nth_drop_Suc)
  ultimately show ?thesis by (cases s) (auto simp: text_start_def is_char_boundary_def)
qed (simp add: text_start_def)

lemma text_start_char: "utf8_char c \<Longrightarrow> text_start (c @ t)"
  by (erule utf8_char_cases) (auto simp: text_start_def ascii_not_continuation)

lemma text_start_append: "text_start s \<Longrightarrow> text_start t \<Longrightarrow> text_start (s @ t)"
  by (cases s) (auto simp: text_start_def)

lemma text_start_take: "text_start s \<Longrightarrow> text_start (take i s)"
  by (cases s; cases i) (auto simp: text_start_def)

lemma text_start_dropWhile: "text_start (dropWhile continuation_byte s)"
  by (induction s) (auto simp: text_start_def)

text \<open>An insertion at a boundary keeps the text, and the position after the inserted character is a boundary.\<close>

lemma insert_ok [text_simps]:
  assumes "text_start s" "is_char_boundary s i" "utf8_char c"
  shows "\<exists>s'. str_insert i c s = Some s' \<and> text_start s' \<and> is_char_boundary s' (i + length c)"
proof -
  have i: "length (take i s @ c) = i + length c" using boundary_le [OF assms(2)] by simp
  have "text_start (drop i s)" using assms text_start_drop by blast
  then have "is_char_boundary ((take i s @ c) @ drop i s) (i + length c)"
    using boundary_between [of "drop i s" "take i s @ c"] unfolding i by blast
  moreover have "text_start (take i s @ c @ drop i s)"
    using assms text_start_char text_start_append text_start_take by blast
  ultimately show ?thesis using assms(2) by (simp add: str_insert_def)
qed

text \<open>One byte into a character of several bytes there is no boundary.\<close>

lemma inside_not_boundary:
  assumes "utf8_char c" "\<not> is_ascii c"
  shows "\<not> is_char_boundary (s @ c @ t) (Suc (length s))"
  using assms
  by (cases rule: utf8_char_cases) (auto simp: is_char_boundary_def nth_append)

lemma utf8_chars_start: "text_start s \<Longrightarrow> c \<in> set (utf8_chars s) \<Longrightarrow> c \<noteq> [] \<and> text_start c"
  by (induction s rule: utf8_chars.induct) (auto simp: text_start_dropWhile, auto simp: text_start_def)

lemma prev_char_boundary:
  assumes "text_start s" "is_char_boundary s i" "0 < i"
  shows "is_char_boundary s (prev_char s i)" "prev_char s i < i"
proof -
  define cs where "cs = utf8_chars (take i s)"
  have ne: "cs \<noteq> []" using assms boundary_le [OF assms(2)] by (auto simp: cs_def)
  then have last: "last cs \<noteq> [] \<and> text_start (last cs)"
    using utf8_chars_start [OF text_start_take [OF assms(1)]] last_in_set unfolding cs_def by blast
  have "concat cs = concat (butlast cs) @ last cs"
    using arg_cong [OF append_butlast_last_id [OF ne], of concat] by simp
  then have whole: "take i s = concat (butlast cs) @ last cs" by (simp add: cs_def)
  show "prev_char s i < i"
    using arg_cong [OF whole, of length] last boundary_le [OF assms(2)]
    by (cases "last cs") (auto simp: prev_char_def cs_def)
  have "s = concat (butlast cs) @ (last cs @ drop i s)"
    using whole by (metis append.assoc append_take_drop_id)
  moreover have "text_start (last cs @ drop i s)"
    using last by (cases "last cs") (auto simp: text_start_def)
  ultimately show "is_char_boundary s (prev_char s i)"
    unfolding prev_char_def cs_def [symmetric] using boundary_between by metis
qed

lemma next_char_boundary:
  assumes "is_char_boundary s i" "i < length s"
  shows "is_char_boundary s (next_char s i)" "i < next_char s i"
proof -
  obtain b t where d: "drop i s = b # t" using assms(2) by (cases "drop i s") auto
  have s: "s = (take i s @ b # takeWhile continuation_byte t) @ dropWhile continuation_byte t"
    using d by (metis append.assoc append_Cons append_take_drop_id takeWhile_dropWhile_id)
  have "is_char_boundary s (length (take i s @ b # takeWhile continuation_byte t))"
    using boundary_between [OF text_start_dropWhile] s by metis
  then show "is_char_boundary s (next_char s i)" "i < next_char s i"
    using assms by (auto simp: next_char_def d split: list.split)
qed

text \<open>Removing the character at a boundary keeps the boundary.\<close>

lemma remove_ok [text_simps]:
  assumes "text_start s" "is_char_boundary s i" "i < length s"
  shows "\<exists>s'. str_remove i s = Some s' \<and> text_start s' \<and> is_char_boundary s' i \<and> length s' < length s"
proof -
  let ?t = "dropWhile continuation_byte (drop (Suc i) s)"
  have l: "length ?t \<le> length s - Suc i" by (metis length_drop length_dropWhile_le)
  have "is_char_boundary (take i s @ ?t) i"
    using boundary_between [OF text_start_dropWhile, of "take i s"] assms(3) by simp
  moreover have "text_start (take i s @ ?t)"
    using assms text_start_append text_start_take text_start_dropWhile by blast
  ultimately show ?thesis using assms(2,3) l by (simp add: str_remove_def)
qed

section \<open>Laws of tokens\<close>

lemma token_start_le: "token_start s \<le> length s"
proof -
  have "length (concat (dropWhile P xs)) \<le> length (concat xs)" for P and xs :: "string list"
    by (induction xs) auto
  from this [of "\<lambda>c. \<not> ws_char c" "rev (utf8_chars s)"] show ?thesis
    unfolding token_start_def by (metis concat_utf8_chars length_concat rev_map sum_list_rev)
qed

lemma token_len_le: "token_len s \<le> length s"
proof -
  have "length (concat (takeWhile P xs)) \<le> length (concat xs)" for P and xs :: "string list"
    by (induction xs) auto
  from this [of "\<lambda>c. \<not> ws_char c" "utf8_chars s"] show ?thesis by (simp add: token_len_def)
qed

lemma trim_ascii [simp]: "is_ascii s \<Longrightarrow> is_ascii (trim s)"
proof -
  assume "is_ascii s"
  then have "list_all is_ascii (utf8_chars s)" by (simp flip: is_ascii_concat)
  then show ?thesis
    unfolding trim_def is_ascii_concat by (auto simp: list_all_iff dest!: set_dropWhileD)
qed

end
