(* ===== verification/Completion.thy ===== *)
theory Completion
  imports Commands TermText
begin

text \<open>
  Completion in the terminal client: \<^verbatim>\<open>crates/betcode-cli/src/completion/\<close> and the command cache
  \<^verbatim>\<open>commands/cache.rs\<close>. The score of the matching package and the Unicode tables beyond ASCII are
  arguments. The theory proves that a search returns entries of the cache and that the popup always shows
  the selected item, and where the preview of a completion panics.
\<close>

text \<open>The result of the matching package, as in the fuzzy search.\<close>

type_synonym matcher = "string \<Rightarrow> string \<Rightarrow> (16 word \<times> 32 word list) option"

section \<open>The command cache\<close>

datatype cached_command_category = ServiceCat | ClaudeCodeCat | SkillCat | McpCat | PluginCat | UnknownCat

record cached_command =
  ch_name :: string
  ch_description :: string
  ch_category :: cached_command_category
  ch_source :: string

type_synonym command_cache = "cached_command list"

definition find_by_name :: "string \<Rightarrow> command_cache \<Rightarrow> cached_command option" where
  "find_by_name name entries = find (\<lambda>e. ch_name e = name) entries"

definition search :: "matcher \<Rightarrow> string \<Rightarrow> nat \<Rightarrow> command_cache \<Rightarrow> cached_command list" where
  "search indices query max_results entries =
     (if query = [] then take max_results entries
      else List.map_filter (\<lambda>r. find (\<lambda>e. ch_name e = mr_text r) entries)
             (fuzzy_match indices query (map ch_name entries) max_results))"

section \<open>Triggers\<close>

datatype completion_trigger =
    CommandTrigger string
  | AgentTrigger string bool
  | FileTrigger string
  | BashTrigger string

definition ascii_alnum :: "char \<Rightarrow> bool" where
  "ascii_alnum c = (let n = (of_char c :: nat) in
     48 \<le> n \<and> n < 58 \<or> 65 \<le> n \<and> n < 91 \<or> 97 \<le> n \<and> n < 123)"

text \<open>\<^verbatim>\<open>char::is_alphanumeric\<close>; \<open>alnum\<close> is the table for the characters beyond ASCII.\<close>

definition is_alphanumeric :: "(string \<Rightarrow> bool) \<Rightarrow> string \<Rightarrow> bool" where
  "is_alphanumeric alnum c = (case c of [b] \<Rightarrow> ascii_alnum b | _ \<Rightarrow> alnum c)"

definition looks_like_path :: "(string \<Rightarrow> bool) \<Rightarrow> string \<Rightarrow> bool" where
  "looks_like_path alnum text =
     (if text = [] then False
      else if starts_with text ''./'' \<or> starts_with text ''../'' then True
      else if CHR ''/'' \<in> set text then True
      else if CHR ''.'' \<in> set text then
        (let ext = rev (takeWhile (\<lambda>c. c \<noteq> CHR ''.'') (rev text))
         in ext \<noteq> [] \<and> list_all (is_alphanumeric alnum) (utf8_chars ext))
      else False)"

definition classify_token :: "(string \<Rightarrow> bool) \<Rightarrow> string \<Rightarrow> completion_trigger option" where
  "classify_token alnum token =
     (if token = [] then None
      else case strip_prefix token ''/'' of
        Some query \<Rightarrow> Some (CommandTrigger query)
      | None \<Rightarrow>
          (case strip_prefix token ''@'' of
             None \<Rightarrow> None
           | Some after \<Rightarrow>
               (case strip_prefix after ''@'' of
                  Some rest \<Rightarrow> Some (AgentTrigger rest True)
                | None \<Rightarrow>
                    if starts_with after ''/'' \<or> starts_with after ''./'' \<or> starts_with after ''../''
                    then Some (FileTrigger after)
                    else if looks_like_path alnum after then Some (FileTrigger after)
                    else Some (AgentTrigger after False))))"

text \<open>The outer option is \<open>None\<close> when the slice at the cursor panics.\<close>

definition detect_trigger :: "(string \<Rightarrow> bool) \<Rightarrow> string \<Rightarrow> nat \<Rightarrow> completion_trigger option option" where
  "detect_trigger alnum input cursor_pos =
     map_option (\<lambda>before_cursor.
       case strip_prefix (trim_start before_cursor) ''!'' of
         Some cmd \<Rightarrow> Some (BashTrigger cmd)
       | None \<Rightarrow> classify_token alnum (drop (token_start before_cursor) before_cursor))
     (slice_to input (min cursor_pos (length input)))"

section \<open>Ghost text\<close>

definition to_lower :: "char \<Rightarrow> char" where
  "to_lower c = (let n = (of_char c :: nat) in if 65 \<le> n \<and> n < 91 then char_of (n + 32) else c)"

text \<open>\<^verbatim>\<open>ghost_suffix\<close>; the outer option is \<open>None\<close> when the slice of the completion panics.\<close>

definition ghost_suffix :: "string \<Rightarrow> string \<Rightarrow> string option option" where
  "ghost_suffix typed completion =
     (if typed = [] \<and> completion \<noteq> [] then Some (Some completion)
      else if length completion \<le> length typed then Some None
      else map_option (\<lambda>pre.
             if map to_lower pre = map to_lower typed then Some (drop (length typed) completion) else None)
           (slice_to completion (length typed)))"

section \<open>The popup\<close>

text \<open>\<^verbatim>\<open>PopupState\<close> of \<^verbatim>\<open>popup.rs\<close>; the text of an item stands for the item.\<close>

record popup_state =
  po_items :: "string list"
  po_selected :: nat
  po_visible_count :: nat
  po_scroll_offset :: nat

definition scroll_to :: "nat \<Rightarrow> nat \<Rightarrow> nat \<Rightarrow> nat" where
  "scroll_to visible selected offset =
     (if selected < offset then selected
      else if offset + visible \<le> selected then selected + 1 - visible else offset)"

definition new_popup :: "string list \<Rightarrow> nat \<Rightarrow> popup_state" where
  "new_popup items visible = \<lparr> po_items = items, po_selected = 0, po_visible_count = visible, po_scroll_offset = 0 \<rparr>"

definition popup_adjust_scroll :: "popup_state \<Rightarrow> popup_state" where
  "popup_adjust_scroll p = p\<lparr>po_scroll_offset := scroll_to (po_visible_count p) (po_selected p) (po_scroll_offset p)\<rparr>"

definition move_up :: "popup_state \<Rightarrow> popup_state" where
  "move_up p = (if po_items p = [] then p else popup_adjust_scroll
     (p\<lparr>po_selected := (if po_selected p = 0 then length (po_items p) - 1 else po_selected p - 1)\<rparr>))"

definition move_down :: "popup_state \<Rightarrow> popup_state" where
  "move_down p = (if po_items p = [] then p else popup_adjust_scroll
     (p\<lparr>po_selected := (po_selected p + 1) mod length (po_items p)\<rparr>))"

text \<open>A slice whose start is behind its end panics, as does the index of an item that does not exist.\<close>

definition visible_items :: "popup_state \<Rightarrow> string list option" where
  "visible_items p = (let e = min (po_scroll_offset p + po_visible_count p) (length (po_items p))
     in if po_scroll_offset p \<le> e then Some (drop (po_scroll_offset p) (take e (po_items p))) else None)"

definition accept_item :: "popup_state \<Rightarrow> string option" where
  "accept_item p = (if po_selected p < length (po_items p) then Some (po_items p ! po_selected p) else None)"

section \<open>Properties\<close>

text \<open>The window of a list that shows the selected item.\<close>

definition window_ok :: "nat \<Rightarrow> 'a list \<Rightarrow> nat \<Rightarrow> nat \<Rightarrow> bool" where
  "window_ok visible items selected offset \<longleftrightarrow>
     (if items = [] then selected = 0 \<and> offset = 0
      else selected < length items \<and> offset \<le> selected \<and> selected < offset + visible)"

lemma window_scroll:
  "0 < visible \<Longrightarrow> items \<noteq> [] \<Longrightarrow> selected < length items
    \<Longrightarrow> window_ok visible items selected (scroll_to visible selected offset)"
  by (auto simp: window_ok_def scroll_to_def)

lemma window_reset [simp]: "0 < visible \<Longrightarrow> window_ok visible items 0 0"
  by (simp add: window_ok_def)

definition popup_ok :: "popup_state \<Rightarrow> bool" where
  "popup_ok p \<longleftrightarrow> 0 < po_visible_count p
     \<and> window_ok (po_visible_count p) (po_items p) (po_selected p) (po_scroll_offset p)"

text \<open>Every navigation of a popup keeps the selected item in the visible window, so that drawing and
  accepting it never panic.\<close>

theorem popup_shows_selection:
  assumes "0 < visible" and "p = fold (\<lambda>up. if up then move_up else move_down) moves (new_popup items visible)"
  shows "po_items p = items
    \<and> (items \<noteq> [] \<longrightarrow> (\<exists>i vis. accept_item p = Some i \<and> visible_items p = Some vis \<and> i \<in> set vis
         \<and> length vis \<le> visible))"
proof -
  have step: "popup_ok (if up then move_up q else move_down q) \<and> po_items (if up then move_up q else move_down q) = po_items q"
    if "popup_ok q" for up q
    using that window_scroll [of "po_visible_count q" "po_items q"]
    by (auto simp: popup_ok_def move_up_def move_down_def popup_adjust_scroll_def window_ok_def Let_def)
  have "popup_ok q \<Longrightarrow> popup_ok (fold (\<lambda>up. if up then move_up else move_down) moves q)
      \<and> po_items (fold (\<lambda>up. if up then move_up else move_down) moves q) = po_items q" for q
  proof (induction moves arbitrary: q)
    case (Cons up moves)
    then show ?case using step [of q up] by (cases up) simp_all
  qed simp
  moreover have "popup_ok (new_popup items visible)"
    using assms(1) by (simp add: popup_ok_def new_popup_def)
  moreover have "po_visible_count (fold (\<lambda>up. if up then move_up else move_down) moves q) = po_visible_count q" for q
    by (induction moves arbitrary: q) (auto simp: move_up_def move_down_def popup_adjust_scroll_def)
  ultimately have ok: "popup_ok p" "po_items p = items" "po_visible_count p = visible"
    using assms(2) by (auto simp: new_popup_def)
  show ?thesis
  proof (intro conjI impI ok(2))
    assume ne: "items \<noteq> []"
    let ?e = "min (po_scroll_offset p + visible) (length items)"
    have sel: "po_selected p < ?e" "po_scroll_offset p \<le> po_selected p" "po_selected p < length items"
      using ok ne by (auto simp: popup_ok_def window_ok_def)
    then have "items ! po_selected p \<in> set (drop (po_scroll_offset p) (take ?e items))"
      by (auto simp: in_set_conv_nth intro!: exI [of _ "po_selected p - po_scroll_offset p"])
    then show "\<exists>i vis. accept_item p = Some i \<and> visible_items p = Some vis \<and> i \<in> set vis \<and> length vis \<le> visible"
      using sel ok by (auto simp: accept_item_def visible_items_def Let_def)
  qed
qed

text \<open>A search returns entries of the cache, at most as many as asked for.\<close>

lemma search_sound:
  "set (search indices query n entries) \<subseteq> set entries \<and> length (search indices query n entries) \<le> n"
proof -
  have found: "e \<in> set entries" if "find P entries = Some e" for P e
    using that by (auto simp: find_Some_iff)
  have "length (List.map_filter f (take n xs)) \<le> n" for f :: "match_result \<Rightarrow> cached_command option" and xs
    by (simp add: List.map_filter_def order_trans [OF length_filter_le])
  then show ?thesis
    using found by (auto simp: search_def fuzzy_match_def List.map_filter_def dest: in_set_takeD)
qed

text \<open>The preview of a completion panics when the typed text ends inside a character of it.\<close>

theorem ghost_suffix_panics:
  assumes "typed \<noteq> []" "is_ascii typed" "utf8_char c" "\<not> is_ascii c"
  shows "ghost_suffix typed (butlast typed @ c @ rest) = None"
proof -
  have "length typed = Suc (length (butlast typed))" using assms(1) by simp
  moreover have "2 \<le> length c" using utf8_char_ascii [OF assms(3)] utf8_char_length [OF assms(3)] assms(4) by linarith
  ultimately show ?thesis
    using inside_not_boundary [OF assms(3,4), of "butlast typed" rest] assms(1)
    by (simp add: ghost_suffix_def slice_to_def)
qed

end
