(* ===== verification/ClientApp.thy ===== *)
theory ClientApp
  imports AgentService Fingerprints Completion
begin

text \<open>
  The state of the terminal client, \<^verbatim>\<open>crates/betcode-cli/src/app/state.rs\<close>, and the prompt of
  \<^verbatim>\<open>tui/fingerprint_panel.rs\<close>: scrolling, the detail panel, the live handling of events and the replay of a
  history, the input history, and the helpers of the permission and question dialogs. An operation
  that can panic returns \<open>None\<close> then. The clock, the debug format, the JSON printer and parser, the
  numbering of the generated enumerations and the fuzzy matcher are arguments; the optional inputs of
  tool calls and permission requests are present, as the daemon sends them. The theory proves that the live view and the replay of
  a session agree, that streamed text is shown complete, and what a tool result changes.
\<close>

section \<open>Types\<close>

datatype app_mode =
    Normal
  | PermissionPrompt
  | PermissionEditInput
  | PermissionComment
  | PermissionDenyMessage
  | UserQuestionMode
  | SessionListMode
  | FingerprintVerification

datatype message_role = UserRole | AssistantRole | SystemRole | ToolRole | CompactionDivider

record display_message =
  dm_role :: message_role
  dm_content :: string
  dm_streaming :: bool
  dm_is_tool_result :: bool
  dm_agent_label :: "string option"

record pending_perm =
  pq_request_id :: string
  pq_tool_name :: string
  pq_description :: string
  pq_original_input :: "json option"
  pq_edit_buffer :: string
  pq_edit_cursor :: nat
  pq_deny_interrupt :: bool

record option_display =
  od_label :: string
  od_description :: string

record pending_user_question =
  uq_question_id :: string
  uq_question :: string
  uq_options :: "option_display list"
  uq_multi_select :: bool
  uq_highlight :: nat
  uq_selected :: "nat list"

definition COMPLETION_VISIBLE_COUNT :: nat where
  "COMPLETION_VISIBLE_COUNT = 8"

record completion_state =
  cs_popup_visible :: bool
  cs_items :: "string list"
  cs_selected_index :: nat
  cs_scroll_offset :: nat
  cs_ghost_text :: "string option"

definition adjust_scroll :: "completion_state \<Rightarrow> completion_state" where
  "adjust_scroll c =
     (if cs_selected_index c < cs_scroll_offset c then c\<lparr>cs_scroll_offset := cs_selected_index c\<rparr>
      else if cs_scroll_offset c + COMPLETION_VISIBLE_COUNT \<le> cs_selected_index c
      then c\<lparr>cs_scroll_offset := cs_selected_index c + 1 - COMPLETION_VISIBLE_COUNT\<rparr>
      else c)"

record detail_panel_state =
  dp_visible :: bool
  dp_selected_tool_index :: "nat option"
  dp_scroll_offset :: "16 word"

record token_usage =
  tu_input_tokens :: "32 word"
  tu_output_tokens :: "32 word"
  tu_cost_usd :: f64

datatype tool_call_status = ToolRunning | ToolDone | ToolError

record tool_call_entry =
  te_tool_id :: string
  te_tool_name :: string
  te_description :: string
  te_input_json :: "string option"
  te_output :: "string option"
  te_status :: tool_call_status
  te_duration_ms :: "32 word option"
  te_finished_at :: "int option"
  te_message_index :: nat

datatype client_command = CompactCmd | ClearCmd | ModelSwitch string

datatype completion_fetch_kind = FetchAgents | FetchFiles | FetchMixed

record completion_request =
  cq_kind :: completion_fetch_kind
  cq_query :: string

record service_command_exec =
  se_command :: string
  se_args :: "string list"
  se_session_id :: string

text \<open>The sender of a bounded channel of 16 places: whether the receiver exists, and the messages not yet received.\<close>

type_synonym 'a sender = "bool \<times> 'a list"

definition try_send :: "'a \<Rightarrow> 'a sender \<Rightarrow> 'a sender" where
  "try_send x tx = (case tx of (is_open, q) \<Rightarrow> if is_open \<and> length q < 16 then (is_open, q @ [x]) else tx)"

datatype fingerprint_decision = AcceptFp | RejectFp

record fingerprint_prompt =
  fq_machine_id :: string
  fq_daemon_fingerprint :: string
  fq_randomart :: string
  fq_fingerprint_display :: string
  fq_check :: fingerprint_check
  fq_decision :: "fingerprint_decision option"

definition new_fingerprint_prompt ::
  "crypto_lib \<Rightarrow> string \<Rightarrow> string \<Rightarrow> fingerprint_check \<Rightarrow> fingerprint_prompt option" where
  "new_fingerprint_prompt L machine_id fp chk = map_option (\<lambda>art.
     \<lparr> fq_machine_id = machine_id, fq_daemon_fingerprint = fp, fq_randomart = art,
       fq_fingerprint_display = format_fingerprint_display fp, fq_check = chk, fq_decision = None \<rparr>)
     (fingerprint_randomart L fp machine_id)"

definition needs_action :: "fingerprint_prompt \<Rightarrow> bool" where
  "needs_action p = (case fq_check p of Mismatch _ _ \<Rightarrow> True | _ \<Rightarrow> False)"

record app =
  ap_mode :: app_mode
  ap_session_id :: "string option"
  ap_model :: string
  ap_messages :: "display_message list"
  ap_input :: string
  ap_cursor_pos :: nat
  ap_input_history :: "string list"
  ap_history_index :: "nat option"
  ap_scroll_offset :: "16 word"
  ap_scroll_pinned :: bool
  ap_viewport_height :: "16 word"
  ap_total_lines :: "16 word"
  ap_should_quit :: bool
  ap_status :: string
  ap_token_usage :: "token_usage option"
  ap_pending_permission :: "pending_perm option"
  ap_pending_question :: "pending_user_question option"
  ap_pending_fingerprint :: "fingerprint_prompt option"
  ap_agent_busy :: bool
  ap_completion_state :: completion_state
  ap_show_status_panel :: bool
  ap_detail_panel :: detail_panel_state
  ap_connection_type :: string
  ap_tool_calls :: "tool_call_entry list"
  ap_spinner_tick :: "64 word"
  ap_command_cache :: command_cache
  ap_completion_request_tx :: "completion_request sender option"
  ap_service_command_tx :: "service_command_exec sender option"
  ap_pending_client_command :: "client_command option"
  ap_compaction_summary :: "string option"

definition new_app :: app where
  "new_app = \<lparr> ap_mode = Normal, ap_session_id = None, ap_model = [], ap_messages = [], ap_input = [],
     ap_cursor_pos = 0, ap_input_history = [], ap_history_index = None, ap_scroll_offset = 0,
     ap_scroll_pinned = True, ap_viewport_height = 0, ap_total_lines = 0, ap_should_quit = False,
     ap_status = ''Connecting...'', ap_token_usage = None, ap_pending_permission = None,
     ap_pending_question = None, ap_pending_fingerprint = None, ap_agent_busy = False,
     ap_completion_state = \<lparr> cs_popup_visible = False, cs_items = [], cs_selected_index = 0,
       cs_scroll_offset = 0, cs_ghost_text = None \<rparr>,
     ap_show_status_panel = False,
     ap_detail_panel = \<lparr> dp_visible = False, dp_selected_tool_index = None, dp_scroll_offset = 0 \<rparr>,
     ap_connection_type = ''local'', ap_tool_calls = [], ap_spinner_tick = 0, ap_command_cache = [],
     ap_completion_request_tx = None, ap_service_command_tx = None, ap_pending_client_command = None,
     ap_compaction_summary = None \<rparr>"

record app_env =
  ae_indices :: matcher
  ae_alnum :: "string \<Rightarrow> bool"
  ae_debug_struct :: "(string \<times> prost_value) list \<Rightarrow> string"
  ae_status_number :: "agent_status \<Rightarrow> int"
  ae_decision_number :: "permission_decision \<Rightarrow> int"
  ae_pretty :: "json \<Rightarrow> string option"
  ae_parse :: "string \<Rightarrow> json option"
  ae_as_f64 :: "json_number \<Rightarrow> f64 option"

section \<open>Structs and JSON\<close>

text \<open>\<^verbatim>\<open>json!\<close> of a double is null for infinities and values that are not numbers, whose exponent bits are all set.\<close>

definition f64_finite :: "f64 \<Rightarrow> bool" where
  "f64_finite x \<longleftrightarrow> uint x div 2 ^ 52 mod 2 ^ 11 \<noteq> 2 ^ 11 - 1"

fun value_to_json :: "prost_value \<Rightarrow> json" where
  "value_to_json NullValue = JNull"
| "value_to_json (NumberValue n) = (if f64_finite n then JNumber (Float n) else JNull)"
| "value_to_json (StringValue s) = JString s"
| "value_to_json (BoolValue b) = JBool b"
| "value_to_json (StructValue m) = JObject (map (\<lambda>(k, v). (k, value_to_json v)) m)"
| "value_to_json (ListValue vs) = JArray (map value_to_json vs)"

definition struct_to_json :: "(string \<times> prost_value) list \<Rightarrow> json" where
  "struct_to_json m = JObject (map (\<lambda>(k, v). (k, value_to_json v)) m)"

fun json_to_value :: "(json_number \<Rightarrow> f64 option) \<Rightarrow> json \<Rightarrow> prost_value" where
  "json_to_value f JNull = NullValue"
| "json_to_value f (JBool b) = BoolValue b"
| "json_to_value f (JNumber n) = NumberValue (unwrap_or 0 (f n))"
| "json_to_value f (JString s) = StringValue s"
| "json_to_value f (JArray xs) = ListValue (map (json_to_value f) xs)"
| "json_to_value f (JObject m) = StructValue (map (\<lambda>(k, v). (k, json_to_value f v)) m)"

definition json_to_struct_cli :: "(json_number \<Rightarrow> f64 option) \<Rightarrow> json \<Rightarrow> (string \<times> prost_value) list" where
  "json_to_struct_cli f v = (case v of JObject m \<Rightarrow> map (\<lambda>(k, v). (k, json_to_value f v)) m | _ \<Rightarrow> [])"

section \<open>Completion\<close>

definition set_items :: "string list \<Rightarrow> completion_state \<Rightarrow> completion_state" where
  "set_items items c = c\<lparr>cs_items := items, cs_selected_index := 0, cs_scroll_offset := 0,
     cs_ghost_text := (case items of [] \<Rightarrow> None | i # _ \<Rightarrow> Some i), cs_popup_visible := (items \<noteq> [])\<rparr>"

definition request_completion :: "completion_fetch_kind \<Rightarrow> string \<Rightarrow> app \<Rightarrow> app" where
  "request_completion kind query a =
     (let c = ap_completion_state a in
      a\<lparr>ap_completion_request_tx := map_option (try_send \<lparr> cq_kind = kind, cq_query = query \<rparr>) (ap_completion_request_tx a),
        ap_completion_state := c\<lparr>cs_ghost_text := (case cs_items c of [] \<Rightarrow> None | i # _ \<Rightarrow> Some i)\<rparr>\<rparr>)"

definition update_completion_state :: "app_env \<Rightarrow> app \<Rightarrow> app option" where
  "update_completion_state e a = map_option (\<lambda>trigger.
     let c = ap_completion_state a in
     case trigger of
       Some (CommandTrigger query) \<Rightarrow>
         a\<lparr>ap_completion_state := set_items (map ch_name (search (ae_indices e) query 50 (ap_command_cache a))) c\<rparr>
     | Some (AgentTrigger query forced) \<Rightarrow> request_completion (if forced then FetchAgents else FetchMixed) query a
     | Some (FileTrigger query) \<Rightarrow> request_completion FetchFiles query a
     | Some (BashTrigger _) \<Rightarrow> a\<lparr>ap_completion_state := c\<lparr>cs_ghost_text := None\<rparr>\<rparr>
     | None \<Rightarrow> a\<lparr>ap_completion_state := c\<lparr>cs_ghost_text := None, cs_popup_visible := False, cs_items := [],
                   cs_selected_index := 0, cs_scroll_offset := 0\<rparr>\<rparr>)
     (detect_trigger (ae_alnum e) (ap_input a) (ap_cursor_pos a))"

section \<open>Scrolling and the detail panel\<close>

definition sat_add :: "16 word \<Rightarrow> 16 word \<Rightarrow> 16 word" where
  "sat_add x y = (if unat x + unat y < 2 ^ 16 then x + y else - 1)"

definition sat_sub :: "16 word \<Rightarrow> 16 word \<Rightarrow> 16 word" where
  "sat_sub x y = (if y \<le> x then x - y else 0)"

definition scroll_up :: "16 word \<Rightarrow> app \<Rightarrow> app" where
  "scroll_up n a =
     (let max_scroll = sat_sub (ap_total_lines a) (ap_viewport_height a);
          off = min (sat_add (ap_scroll_offset a) n) max_scroll;
          a1 = a\<lparr>ap_scroll_offset := off\<rparr>
      in if 0 < off then a1\<lparr>ap_scroll_pinned := False\<rparr> else a1)"

definition scroll_down :: "16 word \<Rightarrow> app \<Rightarrow> app" where
  "scroll_down n a =
     (let off = sat_sub (ap_scroll_offset a) n; a1 = a\<lparr>ap_scroll_offset := off\<rparr>
      in if off = 0 then a1\<lparr>ap_scroll_pinned := True\<rparr> else a1)"

definition scroll_to_bottom :: "app \<Rightarrow> app" where
  "scroll_to_bottom a = a\<lparr>ap_scroll_offset := 0, ap_scroll_pinned := True\<rparr>"

definition scroll_detail_panel :: "int \<Rightarrow> app \<Rightarrow> app" where
  "scroll_detail_panel delta a =
     (let d = ap_detail_panel a;
          off = (if 0 < delta then sat_add (dp_scroll_offset d) (word_of_int delta)
                 else sat_sub (dp_scroll_offset d) (word_of_int (abs delta)))
      in a\<lparr>ap_detail_panel := d\<lparr>dp_scroll_offset := off\<rparr>\<rparr>)"

definition toggle_detail_panel :: "app \<Rightarrow> app" where
  "toggle_detail_panel a =
     (let d = ap_detail_panel a; d1 = d\<lparr>dp_visible := \<not> dp_visible d\<rparr>
      in a\<lparr>ap_detail_panel :=
           (if dp_visible d1 \<and> dp_selected_tool_index d1 = None \<and> ap_tool_calls a \<noteq> []
            then d1\<lparr>dp_selected_tool_index := Some (length (ap_tool_calls a) - 1)\<rparr> else d1)\<rparr>)"

definition select_next_tool :: "app \<Rightarrow> app" where
  "select_next_tool a =
     (if ap_tool_calls a = [] then a
      else let n = length (ap_tool_calls a); d = ap_detail_panel a
           in a\<lparr>ap_detail_panel := d\<lparr>dp_selected_tool_index :=
                  Some (case dp_selected_tool_index d of None \<Rightarrow> 0 | Some i \<Rightarrow> (i + 1) mod n),
                  dp_scroll_offset := 0\<rparr>\<rparr>)"

definition select_prev_tool :: "app \<Rightarrow> app" where
  "select_prev_tool a =
     (if ap_tool_calls a = [] then a
      else let n = length (ap_tool_calls a); d = ap_detail_panel a
           in a\<lparr>ap_detail_panel := d\<lparr>dp_selected_tool_index :=
                  Some (case dp_selected_tool_index d of None \<Rightarrow> n - 1 | Some i \<Rightarrow> if i = 0 then n - 1 else i - 1),
                  dp_scroll_offset := 0\<rparr>\<rparr>)"

section \<open>Messages\<close>

definition update_last :: "('a \<Rightarrow> 'a) \<Rightarrow> 'a list \<Rightarrow> 'a list" where
  "update_last f xs = (if xs = [] then [] else butlast xs @ [f (last xs)])"

fun update_first :: "('a \<Rightarrow> bool) \<Rightarrow> ('a \<Rightarrow> 'a) \<Rightarrow> 'a list \<Rightarrow> 'a list" where
  "update_first p f [] = []"
| "update_first p f (x # xs) = (if p x then f x # xs else x # update_first p f xs)"

definition plain_message :: "message_role \<Rightarrow> string \<Rightarrow> display_message" where
  "plain_message role content = \<lparr> dm_role = role, dm_content = content, dm_streaming = False,
     dm_is_tool_result = False, dm_agent_label = None \<rparr>"

definition push_message :: "display_message \<Rightarrow> app \<Rightarrow> app" where
  "push_message msg a = a\<lparr>ap_messages := ap_messages a @ [msg]\<rparr>"

definition modify_last :: "(display_message \<Rightarrow> display_message) \<Rightarrow> app \<Rightarrow> app" where
  "modify_last f a = a\<lparr>ap_messages := update_last f (ap_messages a)\<rparr>"

definition add_user_message :: "string \<Rightarrow> app \<Rightarrow> app" where
  "add_user_message content = push_message (plain_message UserRole content)"

definition start_assistant_message :: "app \<Rightarrow> app" where
  "start_assistant_message = push_message ((plain_message AssistantRole [])\<lparr>dm_streaming := True\<rparr>)"

definition append_text :: "string \<Rightarrow> app \<Rightarrow> app" where
  "append_text t = modify_last (\<lambda>msg. if dm_streaming msg then msg\<lparr>dm_content := dm_content msg @ t\<rparr> else msg)"

definition finish_streaming :: "app \<Rightarrow> app" where
  "finish_streaming = modify_last (\<lambda>msg. msg\<lparr>dm_streaming := False\<rparr>)"

definition add_system_message :: "message_role \<Rightarrow> string \<Rightarrow> app \<Rightarrow> app" where
  "add_system_message role content = push_message (plain_message role content)"

definition set_label :: "string option \<Rightarrow> app \<Rightarrow> app" where
  "set_label l = modify_last (\<lambda>msg. msg\<lparr>dm_agent_label := l\<rparr>)"

text \<open>Whether the last message is streaming.\<close>

definition streaming_last :: "display_message list \<Rightarrow> bool" where
  "streaming_last ms \<longleftrightarrow> ms \<noteq> [] \<and> dm_streaming (last ms)"

definition apply_compaction :: "app \<Rightarrow> app" where
  "apply_compaction a =
     (let summary = (case find (\<lambda>msg. dm_role msg = AssistantRole) (rev (ap_messages a)) of
            None \<Rightarrow> ''Context compacted.'' | Some msg \<Rightarrow> dm_content msg)
      in scroll_to_bottom (a\<lparr>ap_messages := [plain_message CompactionDivider ''[context compacted]''],
           ap_tool_calls := [], ap_compaction_summary := Some summary\<rparr>))"

definition execute_pending_client_command :: "app \<Rightarrow> app" where
  "execute_pending_client_command a =
     (let a1 = a\<lparr>ap_pending_client_command := None\<rparr> in
      case ap_pending_client_command a of
        None \<Rightarrow> a
      | Some CompactCmd \<Rightarrow> apply_compaction a1
      | Some ClearCmd \<Rightarrow> a1\<lparr>ap_messages := [], ap_tool_calls := []\<rparr>
      | Some (ModelSwitch model) \<Rightarrow> a1\<lparr>ap_model := model\<rparr>)"

section \<open>Events\<close>

definition agent_label :: "agent_event \<Rightarrow> string option" where
  "agent_label ev = (if ev_parent_tool_use_id ev = [] then None else Some ''subagent'')"

definition tool_line :: "string \<Rightarrow> string \<Rightarrow> string" where
  "tool_line name desc = (if desc = [] then ''[Tool: '' @ name @ '']'' else ''[Tool: '' @ name @ '' - '' @ desc @ '']'')"

text \<open>The slice at byte 200 panics inside a character.\<close>

definition tool_preview :: "string \<Rightarrow> string option" where
  "tool_preview output = (if 200 < length output then map_option (\<lambda>p. p @ ''...'') (slice_to output 200) else Some output)"

definition start_tool :: "app_env \<Rightarrow> string option \<Rightarrow> string \<Rightarrow> string \<Rightarrow> (string \<times> prost_value) list \<Rightarrow> string \<Rightarrow> app \<Rightarrow> app" where
  "start_tool e label tool_id name input desc a =
     (let a1 = set_label label (add_system_message ToolRole (tool_line name desc) (finish_streaming a))
      in a1\<lparr>ap_tool_calls := ap_tool_calls a1 @ [\<lparr> te_tool_id = tool_id, te_tool_name = name, te_description = desc,
            te_input_json = Some (ae_debug_struct e input), te_output = None, te_status = ToolRunning,
            te_duration_ms = None, te_finished_at = None, te_message_index = length (ap_messages a1) - 1 \<rparr>]\<rparr>)"

definition tool_result_line :: "bool \<Rightarrow> string \<Rightarrow> string" where
  "tool_result_line is_error preview = ''[Tool Result ('' @ (if is_error then ''ERROR'' else ''OK'') @ ''): '' @ preview @ '']''"

definition finish_tool :: "int option \<Rightarrow> string option \<Rightarrow> string \<Rightarrow> string \<Rightarrow> bool \<Rightarrow> 32 word \<Rightarrow> app \<Rightarrow> app option" where
  "finish_tool finished label tool_id output is_error duration a = map_option (\<lambda>preview.
     let a1 = modify_last (\<lambda>msg. msg\<lparr>dm_is_tool_result := True, dm_agent_label := label\<rparr>)
           (add_system_message ToolRole (tool_result_line is_error preview) a)
     in a1\<lparr>ap_tool_calls := rev (update_first (\<lambda>en. te_tool_id en = tool_id)
            (\<lambda>en. en\<lparr>te_status := (if is_error then ToolError else ToolDone), te_output := Some output,
                    te_duration_ms := Some duration, te_finished_at := finished\<rparr>)
            (rev (ap_tool_calls a1)))\<rparr>)
     (tool_preview output)"

definition show_error :: "string option \<Rightarrow> string \<Rightarrow> string \<Rightarrow> app \<Rightarrow> app" where
  "show_error label code message a =
     set_label label (add_system_message SystemRole (''[Error: '' @ code @ '' - '' @ message @ '']'') a)"

definition live_delta :: "string option \<Rightarrow> string \<Rightarrow> bool \<Rightarrow> app \<Rightarrow> app" where
  "live_delta label text is_complete a =
     (let a1 = (if text = [] then a
                else append_text text (if streaming_last (ap_messages a) then a else set_label label (start_assistant_message a)))
      in if is_complete then finish_streaming a1 else a1)"

definition handle_event :: "app_env \<Rightarrow> int \<Rightarrow> agent_event \<Rightarrow> app \<Rightarrow> app option" where
  "handle_event e now ev a =
     (let label = agent_label ev in
      case ev_event ev of
        Some (TextDelta text is_complete) \<Rightarrow> Some (live_delta label text is_complete a)
      | Some (ToolCallStart tool_id name input desc) \<Rightarrow> Some (start_tool e label tool_id name input desc a)
      | Some (ToolCallResult tool_id output is_error duration) \<Rightarrow>
          finish_tool (Some now) label tool_id output is_error duration a
      | Some (PermissionRequest rid name desc input) \<Rightarrow>
          Some (a\<lparr>ap_mode := PermissionPrompt, ap_pending_permission := Some
            \<lparr> pq_request_id = rid, pq_tool_name = name, pq_description = desc,
              pq_original_input = Some (struct_to_json input), pq_edit_buffer = [], pq_edit_cursor = 0,
              pq_deny_interrupt = True \<rparr>\<rparr>)
      | Some (UserQuestion qid question opts multi) \<Rightarrow>
          Some (a\<lparr>ap_mode := UserQuestionMode, ap_pending_question := Some
            \<lparr> uq_question_id = qid, uq_question = question,
              uq_options = map (\<lambda>opt. \<lparr> od_label = qo_label opt, od_description = qo_description opt \<rparr>) opts,
              uq_multi_select = multi, uq_highlight = 0, uq_selected = [] \<rparr>\<rparr>)
      | Some (SessionInfoEv info) \<Rightarrow>
          Some (a\<lparr>ap_session_id := Some (in_session_id info), ap_model := in_model info,
                  ap_status := ''Session: '' @ in_session_id info @ '' | Model: '' @ in_model info\<rparr>)
      | Some (StatusChange st message) \<Rightarrow>
          (let a1 = (if message = [] then a else a\<lparr>ap_status := message\<rparr>)
           in Some (a1\<lparr>ap_agent_busy := (ae_status_number e st = 1)\<rparr>))
      | Some (Usage u) \<Rightarrow>
          Some (a\<lparr>ap_token_usage := Some \<lparr> tu_input_tokens = ur_input_tokens u,
            tu_output_tokens = ur_output_tokens u, tu_cost_usd = ur_cost_usd u \<rparr>\<rparr>)
      | Some (TurnComplete _) \<Rightarrow>
          Some (execute_pending_client_command ((finish_streaming a)\<lparr>ap_agent_busy := False\<rparr>))
      | Some (ErrorEv code message is_fatal _) \<Rightarrow>
          (let a1 = show_error label code message a
           in Some (if is_fatal then a1\<lparr>ap_status := ''Fatal error: '' @ message\<rparr> else a1))
      | _ \<Rightarrow> Some a)"

definition history_delta :: "string option \<Rightarrow> string \<Rightarrow> bool \<Rightarrow> app \<Rightarrow> app" where
  "history_delta label text is_complete a =
     (if text = [] then a
      else let should_create = (ap_messages a = [] \<or> dm_role (last (ap_messages a)) \<noteq> AssistantRole
                 \<or> \<not> dm_streaming (last (ap_messages a)));
               a1 = (if should_create
                     then push_message \<lparr> dm_role = AssistantRole, dm_content = text, dm_streaming = True,
                            dm_is_tool_result = False, dm_agent_label = label \<rparr> a
                     else modify_last (\<lambda>msg. msg\<lparr>dm_content := dm_content msg @ text\<rparr>) a)
           in if is_complete then finish_streaming a1 else a1)"

definition load_history_event :: "app_env \<Rightarrow> agent_event \<Rightarrow> app \<Rightarrow> app option" where
  "load_history_event e ev a =
     (let label = agent_label ev in
      case ev_event ev of
        Some (TextDelta text is_complete) \<Rightarrow> Some (history_delta label text is_complete a)
      | Some (ToolCallStart tool_id name input desc) \<Rightarrow> Some (start_tool e label tool_id name input desc a)
      | Some (ToolCallResult tool_id output is_error duration) \<Rightarrow> finish_tool None label tool_id output is_error duration a
      | Some (SessionInfoEv info) \<Rightarrow> Some (a\<lparr>ap_session_id := Some (in_session_id info), ap_model := in_model info\<rparr>)
      | Some (ErrorEv code message _ _) \<Rightarrow> Some (show_error label code message a)
      | Some (UserInput content) \<Rightarrow> Some (add_user_message content a)
      | Some (TurnComplete _) \<Rightarrow> Some (finish_streaming a)
      | _ \<Rightarrow> Some a)"

definition finish_history_load :: "app \<Rightarrow> app" where
  "finish_history_load a = a\<lparr>ap_messages := map (\<lambda>msg. msg\<lparr>dm_streaming := False\<rparr>) (ap_messages a)\<rparr>"

section \<open>The input history\<close>

definition submit_input :: "app \<Rightarrow> app \<times> string option" where
  "submit_input a =
     (if ap_input a = [] then (a, None)
      else let text = ap_input a; hist = text # ap_input_history a;
               hist1 = (if 100 < length hist then butlast hist else hist)
           in (add_user_message text (a\<lparr>ap_input_history := hist1, ap_input := [], ap_cursor_pos := 0,
                 ap_history_index := None\<rparr>), Some text))"

text \<open>An index out of range panics.\<close>

definition recall :: "nat \<Rightarrow> app \<Rightarrow> app option" where
  "recall i a = (if i < length (ap_input_history a)
     then Some (a\<lparr>ap_history_index := Some i, ap_input := ap_input_history a ! i,
                  ap_cursor_pos := length (ap_input_history a ! i)\<rparr>)
     else None)"

definition history_up :: "app \<Rightarrow> app option" where
  "history_up a =
     (if ap_input_history a = [] then Some a
      else recall (case ap_history_index a of None \<Rightarrow> 0 | Some i \<Rightarrow> min (i + 1) (length (ap_input_history a) - 1)) a)"

definition history_down :: "app \<Rightarrow> app option" where
  "history_down a = (case ap_history_index a of
      None \<Rightarrow> Some a
    | Some i \<Rightarrow> if i = 0 then Some (a\<lparr>ap_history_index := None, ap_input := [], ap_cursor_pos := 0\<rparr>)
               else recall (i - 1) a)"

section \<open>Dialogs\<close>

definition start_permission_edit :: "app_env \<Rightarrow> app \<Rightarrow> app" where
  "start_permission_edit e a =
     a\<lparr>ap_pending_permission := map_option (\<lambda>p.
          let buf = unwrap_or [] (Option.bind (pq_original_input p) (ae_pretty e))
          in p\<lparr>pq_edit_buffer := buf, pq_edit_cursor := length buf\<rparr>) (ap_pending_permission a),
       ap_mode := PermissionEditInput\<rparr>"

definition start_permission_text :: "app_mode \<Rightarrow> bool \<Rightarrow> app \<Rightarrow> app" where
  "start_permission_text mode interrupt a =
     a\<lparr>ap_pending_permission := map_option (\<lambda>p.
          p\<lparr>pq_edit_buffer := [], pq_edit_cursor := 0, pq_deny_interrupt := interrupt\<rparr>) (ap_pending_permission a),
       ap_mode := mode\<rparr>"

definition move_question_highlight :: "int \<Rightarrow> app \<Rightarrow> app" where
  "move_question_highlight delta a = a\<lparr>ap_pending_question := map_option (\<lambda>q.
     if uq_options q = [] then q
     else q\<lparr>uq_highlight := nat (min (max (int (uq_highlight q) + delta) 0) (int (length (uq_options q)) - 1))\<rparr>)
     (ap_pending_question a)\<rparr>"

definition select_question_option :: "nat \<Rightarrow> app \<Rightarrow> app" where
  "select_question_option i a = a\<lparr>ap_pending_question := map_option (\<lambda>q.
     if length (uq_options q) \<le> i then q
     else q\<lparr>uq_highlight := i,
            uq_selected := (if uq_multi_select q
              then (if i \<in> set (uq_selected q) then remove1 i (uq_selected q) else uq_selected q @ [i])
              else [i])\<rparr>)
     (ap_pending_question a)\<rparr>"

end
