(* ===== verification/ClientView.thy ===== *)
theory ClientView
  imports ClientApp
begin

text \<open>
  What the terminal client shows of a session. The handlers of live events and of replayed events
  agree on messages and tool calls; the text of an answer is shown complete; every tool call
  points to its line. The conversion of tool inputs to JSON and back loses nothing.
\<close>

section \<open>Frame laws\<close>

named_theorems app_simps \<open>what the operations on messages change\<close>

lemma push_message_simps [app_simps, simp]:
  "ap_messages (push_message msg a) = ap_messages a @ [msg]"
  "ap_tool_calls (push_message msg a) = ap_tool_calls a"
  by (simp_all add: push_message_def)

lemma modify_last_simps [app_simps, simp]:
  "ap_messages (modify_last f a) = update_last f (ap_messages a)"
  "ap_tool_calls (modify_last f a) = ap_tool_calls a"
  by (simp_all add: modify_last_def)

lemma update_last_simps [simp]:
  "update_last f [] = []" "update_last f [x] = [f x]" "update_last f (x # y # ys) = x # update_last f (y # ys)"
  "update_last f (xs @ z # zs) = xs @ update_last f (z # zs)" "length (update_last f xs) = length xs"
  "update_last f xs = [] \<longleftrightarrow> xs = []"
  by (simp_all add: update_last_def butlast_append)

lemma update_last_nth:
  "i < length xs \<Longrightarrow> update_last f xs ! i = (if Suc i = length xs then f (xs ! i) else xs ! i)"
  by (cases xs rule: rev_cases) (auto simp: nth_append)

text \<open>What a user sees: the session, the model, the messages and the tool calls without the times at which they ended.\<close>

definition forget_time :: "tool_call_entry \<Rightarrow> tool_call_entry" where
  "forget_time en = en\<lparr>te_finished_at := None\<rparr>"

definition view :: "app \<Rightarrow> string option \<times> string \<times> display_message list \<times> tool_call_entry list" where
  "view a = (ap_session_id a, ap_model a, ap_messages a, map forget_time (ap_tool_calls a))"

lemma view_messages:
  "view a = view b \<Longrightarrow> view (push_message msg a) = view (push_message msg b)"
  "view a = view b \<Longrightarrow> view (modify_last f a) = view (modify_last f b)"
  by (simp_all add: view_def push_message_def modify_last_def)

section \<open>Live and replayed\<close>

datatype view_step = Happened int agent_event | Typed string

text \<open>Live, a user's message is submitted from the input line; in a history it is an event.\<close>

definition live_step :: "app_env \<Rightarrow> view_step \<Rightarrow> app \<Rightarrow> app option" where
  "live_step e st a = (case st of
      Happened now ev \<Rightarrow> handle_event e now ev a
    | Typed t \<Rightarrow> Some (fst (submit_input (a\<lparr>ap_input := t, ap_cursor_pos := length t\<rparr>))))"

definition replay_event :: "view_step \<Rightarrow> agent_event" where
  "replay_event st = (case st of
      Happened _ ev \<Rightarrow> ev
    | Typed t \<Rightarrow> \<lparr> ev_sequence = 0, ev_timestamp = None, ev_parent_tool_use_id = [], ev_event = Some (UserInput t) \<rparr>)"

fun steps_opt :: "('x \<Rightarrow> 'a \<Rightarrow> 'a option) \<Rightarrow> 'x list \<Rightarrow> 'a \<Rightarrow> 'a option" where
  "steps_opt f [] a = Some a"
| "steps_opt f (x # xs) a = Option.bind (f x a) (steps_opt f xs)"

text \<open>Steps of a session as the daemon's bridge produces them: no empty final delta, and the inputs of the user where they were typed.\<close>

definition bridge_step :: "view_step \<Rightarrow> bool" where
  "bridge_step st = (case st of
      Happened _ ev \<Rightarrow> (case ev_event ev of
          Some (TextDelta t c) \<Rightarrow> t \<noteq> [] | Some (UserInput _) \<Rightarrow> False | _ \<Rightarrow> True)
    | Typed t \<Rightarrow> t \<noteq> [])"

definition assistant_streams :: "display_message list \<Rightarrow> bool" where
  "assistant_streams ms \<longleftrightarrow> list_all (\<lambda>msg. dm_streaming msg \<longrightarrow> dm_role msg = AssistantRole) ms"

definition live_ok :: "app \<Rightarrow> bool" where
  "live_ok a \<longleftrightarrow> assistant_streams (ap_messages a) \<and> ap_pending_client_command a = None"

lemma assistant_streams_simps [simp]:
  "assistant_streams []"
  "assistant_streams (ms @ [msg]) \<longleftrightarrow> assistant_streams ms \<and> (dm_streaming msg \<longrightarrow> dm_role msg = AssistantRole)"
  by (auto simp: assistant_streams_def)

lemma assistant_streams_update [intro]:
  "assistant_streams ms \<Longrightarrow> (\<And>msg. dm_streaming (f msg) \<longrightarrow> dm_streaming msg \<and> dm_role (f msg) = dm_role msg)
    \<Longrightarrow> assistant_streams (update_last f ms)"
  by (cases ms rule: rev_cases) auto

lemmas message_ops = add_user_message_def add_system_message_def start_assistant_message_def append_text_def
  finish_streaming_def set_label_def plain_message_def

lemma live_ok_modify:
  "live_ok a \<Longrightarrow> (\<And>msg. dm_streaming (f msg) \<longrightarrow> dm_streaming msg \<and> dm_role (f msg) = dm_role msg)
    \<Longrightarrow> live_ok (modify_last f a)"
  by (auto simp: live_ok_def modify_last_def)

lemma live_ok_push:
  "live_ok a \<Longrightarrow> (dm_streaming msg \<longrightarrow> dm_role msg = AssistantRole) \<Longrightarrow> live_ok (push_message msg a)"
  by (simp add: live_ok_def push_message_def)

lemma live_ok_ops [simp, intro]:
  assumes "live_ok a"
  shows "live_ok (add_user_message c a)" "live_ok (add_system_message r c a)" "live_ok (start_assistant_message a)"
    "live_ok (append_text t a)" "live_ok (finish_streaming a)" "live_ok (set_label l a)"
    "live_ok (a\<lparr>ap_tool_calls := ts\<rparr>)"
  using assms by (simp_all add: message_ops live_ok_modify live_ok_push, simp add: live_ok_def)

lemma live_ok_handlers [simp, intro]:
  assumes "live_ok a"
  shows "live_ok (live_delta l t c a)" "live_ok (start_tool e l i n inp d a)" "live_ok (show_error l code msg a)"
    "finish_tool tm l i out er dur a = Some a' \<Longrightarrow> live_ok a'"
  using assms by (auto simp: live_delta_def start_tool_def show_error_def finish_tool_def Let_def live_ok_modify)

lemma live_ok_step:
  assumes "live_ok a" "live_step e st a = Some a'"
  shows "live_ok a'"
proof (cases st)
  case (Typed t)
  then show ?thesis using assms
    by (auto simp: live_step_def submit_input_def Let_def add_user_message_def plain_message_def live_ok_def push_message_def)
next
  case (Happened now ev)
  have frame: "live_ok (x\<lparr>ap_mode := m, ap_pending_permission := p\<rparr>)" "live_ok (x\<lparr>ap_mode := m, ap_pending_question := q\<rparr>)"
    "live_ok (x\<lparr>ap_session_id := i, ap_model := md, ap_status := s\<rparr>)" "live_ok (x\<lparr>ap_status := s\<rparr>)"
    "live_ok (x\<lparr>ap_agent_busy := bz\<rparr>)" "live_ok (x\<lparr>ap_token_usage := u\<rparr>)"
    "execute_pending_client_command x = x"
    if "live_ok x" for x m p q i md s bz u
    using that by (simp_all add: live_ok_def execute_pending_client_command_def)
  show ?thesis
  proof (cases "ev_event ev")
    case None
    then show ?thesis using assms Happened by (simp add: live_step_def handle_event_def)
  next
    case (Some x)
    then show ?thesis
      using assms Happened
      by (cases x) (auto simp: live_step_def handle_event_def Let_def frame split: if_splits)
  qed
qed

text \<open>The same step of a view.\<close>

lemma view_parts:
  "view a = view b \<longleftrightarrow> ap_session_id a = ap_session_id b \<and> ap_model a = ap_model b \<and> ap_messages a = ap_messages b
     \<and> map forget_time (ap_tool_calls a) = map forget_time (ap_tool_calls b)"
  by (auto simp: view_def)

lemma forget_update_first:
  assumes "map forget_time xs = map forget_time ys"
    and "\<And>x y. forget_time x = forget_time y \<Longrightarrow> p x = q y \<and> forget_time (f x) = forget_time (g y)"
  shows "map forget_time (update_first p f xs) = map forget_time (update_first q g ys)"
  using assms(1)
proof (induction xs arbitrary: ys)
  case (Cons x xs)
  then obtain y ys' where "ys = y # ys'" by (cases ys) auto
  then show ?case using Cons assms(2) [of x y] by auto
qed simp

lemma forget_finished:
  assumes "forget_time x = forget_time y"
  shows "forget_time (x\<lparr>te_status := s, te_output := u, te_duration_ms := d, te_finished_at := t1\<rparr>)
    = forget_time (y\<lparr>te_status := s, te_output := u, te_duration_ms := d, te_finished_at := t2\<rparr>)"
    and "te_tool_id x = te_tool_id y"
  using assms by (cases x; cases y; simp add: forget_time_def)+

lemma finish_tool_view:
  assumes "view a = view b"
  shows "rel_option (\<lambda>x y. view x = view y)
    (finish_tool t1 l tid out er d a) (finish_tool t2 l tid out er d b)"
proof (cases "tool_preview out")
  case (Some preview)
  define f where "f t en = en\<lparr>te_status := (if er then ToolError else ToolDone), te_output := Some out,
    te_duration_ms := Some d, te_finished_at := t\<rparr>" for t and en :: tool_call_entry
  define msg where "msg = plain_message ToolRole (tool_result_line er preview)"
  have p: "forget_time x = forget_time y \<Longrightarrow> (te_tool_id x = tid) = (te_tool_id y = tid)" for x y
    using forget_finished(2) by metis
  have "map forget_time (update_first (\<lambda>en. te_tool_id en = tid) (f t1) (rev (ap_tool_calls a)))
      = map forget_time (update_first (\<lambda>en. te_tool_id en = tid) (f t2) (rev (ap_tool_calls b)))"
  proof (rule forget_update_first)
    show "map forget_time (rev (ap_tool_calls a)) = map forget_time (rev (ap_tool_calls b))"
      using assms by (simp add: view_parts rev_map [symmetric])
    show "(te_tool_id x = tid) = (te_tool_id y = tid) \<and> forget_time (f t1 x) = forget_time (f t2 y)"
      if "forget_time x = forget_time y" for x y
      unfolding f_def using p [OF that] forget_finished(1) [OF that] by (rule conjI)
  qed
  then show ?thesis using assms
    unfolding finish_tool_def Some Let_def f_def [symmetric] add_system_message_def msg_def [symmetric]
    by (simp add: view_parts rev_map [symmetric] push_message_def modify_last_def)
qed (simp add: finish_tool_def)

lemma view_step_agrees:
  assumes "view a = view b" "live_ok a" "bridge_step st"
  shows "rel_option (\<lambda>x y. view x = view y) (live_step e st a) (load_history_event e (replay_event st) b)"
proof (cases st)
  case (Typed t)
  then show ?thesis using assms
    by (auto simp: live_step_def submit_input_def bridge_step_def add_user_message_def Let_def push_message_def
        load_history_event_def replay_event_def view_parts)
next
  case (Happened now ev)
  have delta: "view (live_delta l t c a) = view (history_delta l t c b)" if "t \<noteq> []" for l t c
    using assms(1,2) that
    by (cases "ap_messages b" rule: rev_cases)
       (auto simp: live_delta_def history_delta_def view_parts live_ok_def streaming_last_def message_ops
          push_message_def modify_last_def Let_def)
  have start: "view (start_tool e l i n inp d a) = view (start_tool e l i n inp d b)" for l i n inp d
    using assms(1) by (simp add: start_tool_def view_parts message_ops Let_def push_message_def modify_last_def)
  have err: "view (show_error l c msg x) = view (show_error l c msg b)" if "view x = view b" for l c msg x
    using that unfolding show_error_def message_ops by (intro view_messages)
  have fin: "view (finish_streaming a) = view (finish_streaming b)"
    using assms(1) unfolding finish_streaming_def by (rule view_messages)
  have frame: "view (x\<lparr>ap_mode := m, ap_pending_permission := p\<rparr>) = view x" "view (x\<lparr>ap_mode := m, ap_pending_question := q\<rparr>) = view x"
    "view (x\<lparr>ap_status := s\<rparr>) = view x" "view (x\<lparr>ap_agent_busy := bz\<rparr>) = view x" "view (x\<lparr>ap_token_usage := u\<rparr>) = view x"
    "view (x\<lparr>ap_session_id := i, ap_model := md, ap_status := s\<rparr>) = view (x\<lparr>ap_session_id := i, ap_model := md\<rparr>)"
    for x m p q s bz u i md by (simp_all add: view_def)
  have info: "view (a\<lparr>ap_session_id := i, ap_model := md\<rparr>) = view (b\<lparr>ap_session_id := i, ap_model := md\<rparr>)" for i md
    using assms(1) by (simp add: view_parts)
  have none: "execute_pending_client_command ((finish_streaming a)\<lparr>ap_agent_busy := False\<rparr>)
      = (finish_streaming a)\<lparr>ap_agent_busy := False\<rparr>"
    using assms(2) by (simp add: live_ok_def execute_pending_client_command_def finish_streaming_def modify_last_def)
  show ?thesis
  proof (cases "ev_event ev")
    case None
    then show ?thesis using assms(1) Happened
      by (simp add: live_step_def handle_event_def load_history_event_def replay_event_def)
  next
    case (Some x)
    then show ?thesis
      using assms Happened delta start err [OF assms(1)] fin finish_tool_view [OF assms(1)] info
      by (cases x)
         (simp_all add: live_step_def handle_event_def load_history_event_def replay_event_def bridge_step_def Let_def none frame)
  qed
qed

text \<open>A session with a question, an answer that uses a tool, and a second message typed while the answer streams.\<close>

definition demo_app_env :: app_env where
  "demo_app_env = \<lparr> ae_indices = (\<lambda>_ _. None), ae_alnum = (\<lambda>_. False), ae_debug_struct = (\<lambda>_. ''Struct''),
     ae_status_number = (\<lambda>st. case st of Thinking \<Rightarrow> 1 | AgentIdle \<Rightarrow> 2),
     ae_decision_number = (\<lambda>d. case d of Unspecified \<Rightarrow> 0 | AllowOnce \<Rightarrow> 1 | AllowSession \<Rightarrow> 2 | Deny \<Rightarrow> 3
       | AllowWithEdit \<Rightarrow> 4 | DenyNoInterrupt \<Rightarrow> 5 | DenyWithInterrupt \<Rightarrow> 6), ae_pretty = (\<lambda>_. Some ''{}''), ae_parse = (\<lambda>_. None),
     ae_as_f64 = (\<lambda>n. case n of Float x \<Rightarrow> Some x | _ \<Rightarrow> None) \<rparr>"

definition demo_event :: "event \<Rightarrow> agent_event" where
  "demo_event x = \<lparr> ev_sequence = 0, ev_timestamp = None, ev_parent_tool_use_id = [], ev_event = Some x \<rparr>"

definition demo_steps :: "view_step list" where
  "demo_steps = [Typed ''hi'', Happened 2 (demo_event (TextDelta ''he'' False)), Typed ''wait'',
     Happened 3 (demo_event (TextDelta ''llo'' False)), Happened 4 (demo_event (ToolCallStart ''t'' ''Bash'' [] ''ls'')),
     Happened 5 (demo_event (ToolCallResult ''t'' ''ok'' False 7)), Happened 6 (demo_event (TurnComplete ''end_turn''))]"

section \<open>Streamed text\<close>

definition delta_text :: "agent_event \<Rightarrow> string" where
  "delta_text ev = (case ev_event ev of Some (TextDelta t _) \<Rightarrow> t | _ \<Rightarrow> [])"

text \<open>Events between the parts of an answer: more text, or events that show no message.\<close>

definition mid_answer :: "agent_event \<Rightarrow> bool" where
  "mid_answer ev = (case ev_event ev of
      Some (TextDelta _ c) \<Rightarrow> \<not> c
    | Some (ToolCallStart _ _ _ _) \<Rightarrow> False
    | Some (ToolCallResult _ _ _ _) \<Rightarrow> False
    | Some (TurnComplete _) \<Rightarrow> False
    | Some (ErrorEv _ _ _ _) \<Rightarrow> False
    | _ \<Rightarrow> True)"

abbreviation handle_events :: "app_env \<Rightarrow> (int \<times> agent_event) list \<Rightarrow> app \<Rightarrow> app option" where
  "handle_events e \<equiv> steps_opt (\<lambda>(now, ev). handle_event e now ev)"

lemma steps_opt_append: "steps_opt f (xs @ ys) a = Option.bind (steps_opt f xs a) (steps_opt f ys)"
proof (induction xs arbitrary: a)
  case (Cons x xs)
  then show ?case by (cases "f x a") auto
qed simp

lemma mid_answer_step:
  assumes "mid_answer ev"
  obtains a' where "handle_event e now ev a = Some a'"
    and "ap_pending_client_command a' = ap_pending_client_command a"
    and "ap_messages a' = (if delta_text ev = [] then ap_messages a
       else if streaming_last (ap_messages a)
       then update_last (\<lambda>msg. msg\<lparr>dm_content := dm_content msg @ delta_text ev\<rparr>) (ap_messages a)
       else ap_messages a @ [(plain_message AssistantRole (delta_text ev))\<lparr>dm_streaming := True, dm_agent_label := agent_label ev\<rparr>])"
proof -
  have msgs: "ap_messages (live_delta l t False a) = (if t = [] then ap_messages a
       else if streaming_last (ap_messages a)
       then update_last (\<lambda>msg. msg\<lparr>dm_content := dm_content msg @ t\<rparr>) (ap_messages a)
       else ap_messages a @ [(plain_message AssistantRole t)\<lparr>dm_streaming := True, dm_agent_label := l\<rparr>])" for l t
    by (cases "ap_messages a" rule: rev_cases)
       (auto simp: live_delta_def append_text_def streaming_last_def set_label_def start_assistant_message_def plain_message_def)
  have cmd: "ap_pending_client_command (live_delta l t False a) = ap_pending_client_command a" for l t
    by (simp add: live_delta_def append_text_def set_label_def start_assistant_message_def push_message_def modify_last_def)
  show ?thesis
  proof (cases "ev_event ev")
    case None
    then show ?thesis using that [of a] by (simp add: handle_event_def delta_text_def)
  next
    case (Some x)
    show ?thesis
    proof (cases x)
      case (TextDelta t c)
      then show ?thesis using assms Some msgs cmd that [of "live_delta (agent_label ev) t False a"]
        by (simp add: mid_answer_def handle_event_def delta_text_def)
    qed (use assms Some that in \<open>auto simp: mid_answer_def handle_event_def delta_text_def Let_def\<close>)
  qed
qed

lemma answer_grows:
  assumes "list_all (mid_answer \<circ> snd) evs" "ap_messages a = ms @ [msg]" "dm_streaming msg"
  shows "\<exists>a'. handle_events e evs a = Some a'
    \<and> ap_pending_client_command a' = ap_pending_client_command a
    \<and> ap_messages a' = ms @ [msg\<lparr>dm_content := dm_content msg @ concat (map (delta_text \<circ> snd) evs)\<rparr>]"
  using assms
proof (induction evs arbitrary: a msg)
  case (Cons x evs)
  obtain now ev where x: "x = (now, ev)" by fastforce
  let ?msg = "msg\<lparr>dm_content := dm_content msg @ delta_text ev\<rparr>"
  obtain a1 where a1: "handle_event e now ev a = Some a1"
    "ap_pending_client_command a1 = ap_pending_client_command a" "ap_messages a1 = ms @ [?msg]"
    using Cons.prems x by (auto elim!: mid_answer_step [of ev e now a] simp: streaming_last_def)
  obtain a' where "handle_events e evs a1 = Some a'" "ap_pending_client_command a' = ap_pending_client_command a1"
    "ap_messages a' = ms @ [?msg\<lparr>dm_content := dm_content ?msg @ concat (map (delta_text \<circ> snd) evs)\<rparr>]"
    using Cons.IH [OF _ a1(3)] Cons.prems by (auto simp: o_def)
  then show ?case using a1 x by (simp add: o_def)
qed simp

text \<open>
  An answer is shown complete. When no message is streaming, the text of an answer that
  arrives in any number of pieces, between which any events that show no message may come
  (status, usage, permission requests, questions), ends up as one new message of the assistant, finished by the end of
  the turn, whose text is all pieces in order.
\<close>

theorem streamed_answer_complete:
  assumes "\<not> streaming_last (ap_messages a)" and "ap_pending_client_command a = None"
    and "mid_answer ev" and "delta_text ev \<noteq> []" and "list_all (mid_answer \<circ> snd) evs"
    and "ev_event turn = Some (TurnComplete reason)"
  shows "\<exists>a'. handle_events e ((now, ev) # evs @ [(end_time, turn)]) a = Some a'
    \<and> ap_messages a' = ap_messages a @ [\<lparr> dm_role = AssistantRole,
         dm_content = delta_text ev @ concat (map (delta_text \<circ> snd) evs), dm_streaming = False,
         dm_is_tool_result = False, dm_agent_label = agent_label ev \<rparr>]
    \<and> \<not> ap_agent_busy a'"
proof -
  obtain a1 where a1: "handle_event e now ev a = Some a1" "ap_pending_client_command a1 = None"
    "ap_messages a1 = ap_messages a @ [(plain_message AssistantRole (delta_text ev))\<lparr>dm_streaming := True, dm_agent_label := agent_label ev\<rparr>]"
    using mid_answer_step [OF assms(3), of e now a] assms(1,2,4) by auto
  obtain a2 where a2: "handle_events e evs a1 = Some a2" "ap_pending_client_command a2 = None"
    "ap_messages a2 = ap_messages a @ [(plain_message AssistantRole (delta_text ev @ concat (map (delta_text \<circ> snd) evs)))
       \<lparr>dm_streaming := True, dm_agent_label := agent_label ev\<rparr>]"
    using answer_grows [OF assms(5) a1(3), of e] a1(2) by (auto simp: plain_message_def)
  show ?thesis
    using a1(1) a2 assms(6)
    by (simp add: steps_opt_append handle_event_def execute_pending_client_command_def finish_streaming_def
        modify_last_def plain_message_def)
qed

theorem streamed_answer_complete_witness:
  "\<exists>a'. handle_events demo_app_env [(2, demo_event (TextDelta ''he'' False)), (3, demo_event (Usage
      \<lparr> ur_input_tokens = 2, ur_output_tokens = 3, ur_cache_read_tokens = 0, ur_cache_creation_tokens = 0, ur_model = [],
        ur_cost_usd = 0, ur_duration_ms = 4 \<rparr>)), (4, demo_event (TextDelta ''llo'' False)),
      (5, demo_event (TurnComplete ''end_turn''))] new_app = Some a' \<and> map dm_content (ap_messages a') = [''hello'']"
  using streamed_answer_complete [where a = new_app and ev = "demo_event (TextDelta ''he'' False)" and now = 2
      and evs = "[(3, demo_event (Usage \<lparr> ur_input_tokens = 2, ur_output_tokens = 3, ur_cache_read_tokens = 0,
        ur_cache_creation_tokens = 0, ur_model = [], ur_cost_usd = 0, ur_duration_ms = 4 \<rparr>)), (4, demo_event (TextDelta ''llo'' False))]"
      and turn = "demo_event (TurnComplete ''end_turn'')" and end_time = 5 and e = demo_app_env]
  by (fastforce simp: new_app_def streaming_last_def mid_answer_def delta_text_def demo_event_def)

text \<open>An error, a tool result or a message typed by the user in the middle of an answer leaves the part before it marked as
  streaming for good, since only the last message is ever finished.\<close>

theorem interrupted_answer_keeps_streaming:
  "map_option (map (\<lambda>msg. (dm_content msg, dm_streaming msg)) \<circ> ap_messages)
     (handle_events demo_app_env [(2, demo_event (TextDelta ''he'' False)), (3, demo_event (ErrorEv ''E'' ''slow'' False [])),
        (4, demo_event (TextDelta ''llo'' False)), (5, demo_event (TurnComplete ''end_turn''))] new_app)
   = Some [(''he'', True), (''[Error: E - slow]'', False), (''llo'', False)]"
  by code_simp

section \<open>Tool calls\<close>

text \<open>A tool call points to its line, which is finished and is not the line of a result.\<close>

definition tool_shown :: "display_message list \<Rightarrow> tool_call_entry \<Rightarrow> bool" where
  "tool_shown ms en \<longleftrightarrow> te_message_index en < length ms \<and>
     (let msg = ms ! te_message_index en in dm_role msg = ToolRole \<and> \<not> dm_streaming msg \<and> \<not> dm_is_tool_result msg
        \<and> dm_content msg = tool_line (te_tool_name en) (te_description en))"

definition tools_ok :: "display_message list \<Rightarrow> tool_call_entry list \<Rightarrow> bool" where
  "tools_ok ms ts \<longleftrightarrow> list_all (tool_shown ms) ts \<and> sorted_wrt (<) (map te_message_index ts)
     \<and> list_all (\<lambda>en. te_status en = ToolRunning \<longleftrightarrow> te_output en = None) ts"

lemma tools_ok_Nil [simp]: "tools_ok ms []"
  by (simp add: tools_ok_def)

lemma tools_push [simp]: "tools_ok ms ts \<Longrightarrow> tools_ok (ms @ [msg]) ts"
  by (auto simp: tools_ok_def tool_shown_def list_all_iff nth_append)

lemma tools_update:
  assumes "tools_ok ms ts"
    and "\<And>msg. dm_role msg = ToolRole \<Longrightarrow> \<not> dm_streaming msg \<Longrightarrow> \<not> dm_is_tool_result msg \<Longrightarrow>
      dm_role (f msg) = ToolRole \<and> \<not> dm_streaming (f msg) \<and> \<not> dm_is_tool_result (f msg) \<and> dm_content (f msg) = dm_content msg"
  shows "tools_ok (update_last f ms) ts"
  using assms by (auto simp: tools_ok_def tool_shown_def list_all_iff update_last_nth Let_def)

lemma tools_start:
  assumes "tools_ok ms ts" "tool_shown (ms @ [msg]) en" "te_message_index en = length ms"
    "te_status en = ToolRunning" "te_output en = None"
  shows "tools_ok (ms @ [msg]) (ts @ [en])"
  using tools_push [OF assms(1), of msg] assms
  by (auto simp: tools_ok_def sorted_wrt_append tool_shown_def list_all_iff)

lemma tools_finish:
  assumes "tools_ok ms ts"
    and "\<And>en. te_message_index (f en) = te_message_index en \<and> te_tool_name (f en) = te_tool_name en
      \<and> te_description (f en) = te_description en \<and> te_status (f en) \<noteq> ToolRunning \<and> te_output (f en) \<noteq> None"
  shows "tools_ok ms (rev (update_first p f (rev ts)))"
proof -
  have idx: "map te_message_index (update_first p f xs) = map te_message_index xs" for xs
    using assms(2) by (induction xs) auto
  have mem: "en \<in> set (update_first p f xs) \<Longrightarrow> en \<in> set xs \<or> (\<exists>x\<in>set xs. en = f x)" for en xs
    by (induction xs) (auto split: if_splits)
  have "map te_message_index (rev (update_first p f (rev ts))) = map te_message_index ts"
    by (simp add: rev_map [symmetric] idx)
  moreover have "te_output (f en) \<noteq> None" "te_status (f en) \<noteq> ToolRunning" for en using assms(2) by blast+
  ultimately show ?thesis
    using assms unfolding tools_ok_def list_all_iff
    by (auto dest!: mem simp: tool_shown_def Let_def simp del: not_None_eq)
qed

text \<open>The entry that a result completes is the last one with its identifier; the others stay.\<close>

lemma update_first_split:
  "p y \<Longrightarrow> \<forall>x\<in>set xs. \<not> p x \<Longrightarrow> update_first p f (xs @ y # ys) = xs @ f y # ys"
  "\<forall>x\<in>set xs. \<not> p x \<Longrightarrow> update_first p f xs = xs"
  by (induction xs) auto

text \<open>
  A tool result completes exactly its call. When the call of tool \<open>tid\<close> that was shown last is
  followed by calls of other tools, the result sets its state, output and duration and leaves every
  other entry as it is; one line for the result is added. An output of more than 200 bytes whose
  byte 200 is inside a character panics instead.
\<close>

theorem tool_result_completes:
  assumes "ap_tool_calls a = before @ call # later" and "te_tool_id call = tid"
    and "list_all (\<lambda>en. te_tool_id en \<noteq> tid) later"
    and "ev_event ev = Some (ToolCallResult tid out er dur)"
  shows "handle_event e now ev a =
    (if length out \<le> 200 \<or> is_char_boundary out 200
     then Some (a\<lparr>ap_tool_calls := before @ call\<lparr>te_status := (if er then ToolError else ToolDone), te_output := Some out,
              te_duration_ms := Some dur, te_finished_at := Some now\<rparr> # later,
            ap_messages := ap_messages a @ [\<lparr> dm_role = ToolRole,
              dm_content = tool_result_line er (if length out \<le> 200 then out else take 200 out @ ''...''),
              dm_streaming = False, dm_is_tool_result = True, dm_agent_label = agent_label ev \<rparr>]\<rparr>)
     else None)"
proof -
  have later: "\<forall>en\<in>set (rev later). te_tool_id en \<noteq> tid" using assms(3) by (simp add: list_all_iff)
  have upd: "update_first (\<lambda>en. te_tool_id en = tid) f (rev (before @ call # later))
      = rev later @ f call # rev before" for f
    using update_first_split(1) [of "\<lambda>en. te_tool_id en = tid" call "rev later" f "rev before"] later assms(2) by simp
  show ?thesis
    using assms(1,4) upd
    by (auto simp: handle_event_def finish_tool_def tool_preview_def slice_to_def Let_def add_system_message_def
        push_message_def modify_last_def plain_message_def)
qed

text \<open>Two calls with the same identifier: the result belongs to the later one.\<close>

theorem tool_result_completes_witness:
  "map_option (map te_status \<circ> ap_tool_calls) (handle_event demo_app_env 9 (demo_event (ToolCallResult ''t'' ''ok'' True 7))
     (start_tool demo_app_env None ''u'' ''Read'' [] [] (start_tool demo_app_env None ''t'' ''Bash'' [] ''ls''
       (start_tool demo_app_env None ''t'' ''Bash'' [] ''ls'' new_app))))
   = Some [ToolRunning, ToolError, ToolRunning]"
proof -
  define a where "a = start_tool demo_app_env None ''u'' ''Read'' [] [] (start_tool demo_app_env None ''t'' ''Bash'' [] ''ls''
       (start_tool demo_app_env None ''t'' ''Bash'' [] ''ls'' new_app))"
  obtain x y z where t: "ap_tool_calls a = [x] @ y # [z]" "te_tool_id y = ''t''" "te_tool_id z = ''u''"
      "te_status x = ToolRunning" "te_status z = ToolRunning"
    by (simp add: a_def start_tool_def Let_def add_system_message_def set_label_def finish_streaming_def
        push_message_def modify_last_def new_app_def)
  show ?thesis
    using tool_result_completes [OF t(1,2), of "demo_event (ToolCallResult ''t'' ''ok'' True 7)" "''ok''" True 7 demo_app_env 9]
    unfolding a_def [symmetric] by (simp add: t demo_event_def)
qed

section \<open>Tool inputs\<close>

fun finite_value :: "prost_value \<Rightarrow> bool" where
  "finite_value (NumberValue n) = f64_finite n"
| "finite_value (ListValue vs) = list_all finite_value vs"
| "finite_value (StructValue m) = list_all (\<lambda>(k, v). finite_value v) m"
| "finite_value _ = True"

lemma value_roundtrip:
  "finite_value v \<Longrightarrow> (\<And>x. f (Float x) = Some x) \<Longrightarrow> json_to_value f (value_to_json v) = v"
proof (induction v)
  case (ListValue vs)
  then show ?case by (auto simp: list_all_iff intro!: map_idI)
next
  case (StructValue m)
  have "json_to_value f (value_to_json v) = v" if "(k, v) \<in> set m" for k v
    using StructValue that by (fastforce simp: list_all_iff)
  then show ?case by (auto intro!: map_idI)
qed auto

lemma json_to_value_bridge: "json_to_value f v = json_value_to_prost (\<lambda>n. unwrap_or 0 (f n)) v"
proof (induction v)
  case (JObject m)
  then show ?case by (fastforce intro!: map_cong)
qed auto

text \<open>
  An input that is not edited is sent back as it was: with finite numbers, the conversion to JSON for the
  editor and back to a struct is the identity, and it is the conversion that the daemon's bridge uses for tool inputs.
\<close>

theorem tool_input_roundtrip:
  assumes "list_all (\<lambda>(k, v). finite_value v) m" and "\<And>x. f (Float x) = Some x"
  shows "json_to_struct_cli f (struct_to_json m) = m
    \<and> json_to_struct_cli f v = json_to_struct (\<lambda>n. unwrap_or 0 (f n)) v"
proof
  have "json_to_value f (value_to_json w) = w" if "(k, w) \<in> set m" for k w
    using assms that by (intro value_roundtrip) (auto simp: list_all_iff)
  then show "json_to_struct_cli f (struct_to_json m) = m"
    by (auto simp: json_to_struct_cli_def struct_to_json_def intro!: map_idI)
  show "json_to_struct_cli f v = json_to_struct (\<lambda>n. unwrap_or 0 (f n)) v"
    by (simp add: json_to_struct_cli_def json_to_struct_def json_to_value_bridge split: json.split)
qed

theorem tool_input_roundtrip_witness:
  "json_to_struct_cli (ae_as_f64 demo_app_env) (struct_to_json [(''command'', StringValue ''ls''), (''n'', ListValue [NumberValue 4, NullValue])])
   = [(''command'', StringValue ''ls''), (''n'', ListValue [NumberValue 4, NullValue])]"
proof -
  have "ae_as_f64 demo_app_env (Float x) = Some x" for x by (simp add: demo_app_env_def)
  from tool_input_roundtrip [OF _ this, THEN conjunct1, of "[(''command'', StringValue ''ls''), (''n'', ListValue [NumberValue 4, NullValue])]"]
  show ?thesis by (simp add: f64_finite_def)
qed

end
