(* ===== verification/ClientInput.thy ===== *)
theory ClientInput
  imports ClientView
begin

text \<open>
  The keys of the terminal client, \<^verbatim>\<open>crates/betcode-cli/src/tui/input.rs\<close>, \<^verbatim>\<open>permission_input.rs\<close> and
  \<^verbatim>\<open>question_input.rs\<close>, and the loop of \<^verbatim>\<open>tui/mod.rs\<close>, which handles terminal events, agent events,
  completions and command output one after the other. A handler returns the new state and the requests it puts into the request
  channel, or \<open>None\<close> when it panics. The drawing is not modelled, but for the two heights it stores.
\<close>

section \<open>Terminal events\<close>

datatype key_code =
    KChar string | KEnter | KEsc | KTab | KBackspace | KLeft | KRight | KUp | KDown | KPageUp | KPageDown | KEnd | KOther

record key_event =
  ke_code :: key_code
  ke_shift :: bool
  ke_ctrl :: bool

datatype term_event = TermKey key_event | MouseScrollUp | MouseScrollDown | MouseOther | TermResize

datatype completion_action = NoAction | AcceptText string | Updated

type_synonym handled = "(app \<times> agent_request list) option"

abbreviation quiet :: "app \<Rightarrow> handled" where
  "quiet a \<equiv> Some (a, [])"

abbreviation quiet_opt :: "app option \<Rightarrow> handled" where
  "quiet_opt x \<equiv> map_option (\<lambda>a. (a, [])) x"

section \<open>Completion keys\<close>

definition nth_item :: "completion_state \<Rightarrow> string option" where
  "nth_item c = (if cs_selected_index c < length (cs_items c) then Some (cs_items c ! cs_selected_index c) else None)"

definition move_selection :: "(nat \<Rightarrow> nat \<Rightarrow> nat) \<Rightarrow> completion_state \<Rightarrow> completion_state" where
  "move_selection f c =
     (if cs_items c = [] then c
      else let c1 = adjust_scroll (c\<lparr>cs_selected_index := f (length (cs_items c)) (cs_selected_index c)\<rparr>)
           in c1\<lparr>cs_ghost_text := nth_item c1\<rparr>)"

definition handle_completion_key :: "key_event \<Rightarrow> app \<Rightarrow> app \<times> completion_action" where
  "handle_completion_key key a =
     (let c = ap_completion_state a; upd = (\<lambda>c'. (a\<lparr>ap_completion_state := c'\<rparr>, Updated)) in
      if ke_code key = KTab then upd (c\<lparr>cs_popup_visible := \<not> cs_popup_visible c\<rparr>)
      else if \<not> cs_popup_visible c then (a, NoAction)
      else case ke_code key of
        KEsc \<Rightarrow> upd (c\<lparr>cs_popup_visible := False\<rparr>)
      | KUp \<Rightarrow> upd (move_selection (\<lambda>n i. if i = 0 then n - 1 else i - 1) c)
      | KDown \<Rightarrow> upd (move_selection (\<lambda>n i. (i + 1) mod n) c)
      | KEnter \<Rightarrow>
          (let text = unwrap_or [] (nth_item c); a1 = a\<lparr>ap_completion_state := c\<lparr>cs_popup_visible := False\<rparr>\<rparr>
           in if text = [] then (a1, NoAction) else (a1, AcceptText text))
      | _ \<Rightarrow> (a, NoAction))"

text \<open>The clamp to a boundary steps back from the position.\<close>

fun clamp_boundary :: "string \<Rightarrow> nat \<Rightarrow> nat" where
  "clamp_boundary s 0 = 0"
| "clamp_boundary s (Suc i) = (if is_char_boundary s (Suc i) then Suc i else clamp_boundary s i)"

definition replace_token :: "string \<Rightarrow> app \<Rightarrow> app option" where
  "replace_token replacement a =
     (let pos = clamp_boundary (ap_input a) (min (ap_cursor_pos a) (length (ap_input a)));
          before = take pos (ap_input a);
          ts = token_start before;
          te = pos + token_len (drop pos (ap_input a))
      in map_option (\<lambda>s. a\<lparr>ap_input := s, ap_cursor_pos := ts + length replacement\<rparr>)
           (replace_range ts te replacement (ap_input a)))"

section \<open>Help\<close>

text \<open>Padding to a width in characters.\<close>

definition pad_right :: "nat \<Rightarrow> string \<Rightarrow> string" where
  "pad_right n s = s @ replicate (n - length (utf8_chars s)) CHR '' ''"

definition help_entry :: "cached_command \<Rightarrow> string" where
  "help_entry cmd = ''  /'' @ pad_right 20 (ch_name cmd) @ '' '' @ ch_description cmd"

definition help_group :: "string \<Rightarrow> (cached_command_category \<Rightarrow> bool) \<Rightarrow> command_cache \<Rightarrow> string list" where
  "help_group title p cache = (let cmds = map help_entry (filter (\<lambda>c. p (ch_category c)) cache)
     in if cmds = [] then [] else [[], title] @ cmds)"

definition show_help :: "app \<Rightarrow> app" where
  "show_help a =
     (let cache = ap_command_cache a;
          ls = [''BetCode CLI - Available Commands'', [], ''Built-in:'',
             ''  /exit                 Exit the CLI'', ''  /help                 Show this help message'',
             ''  /clear                Clear conversation and reset context'']
           @ help_group ''Service:'' (\<lambda>k. k = ServiceCat) cache
           @ help_group ''Claude Code:'' (\<lambda>k. k = ClaudeCodeCat) cache
           @ help_group ''MCP Tools:'' (\<lambda>k. k = McpCat) cache
           @ help_group ''Skills:'' (\<lambda>k. k = SkillCat) cache
           @ help_group ''Plugins:'' (\<lambda>k. k = PluginCat \<or> k = UnknownCat) cache
           @ [[], ''Keyboard shortcuts:'', ''  Ctrl+C               Quit'',
              ''  Ctrl+T               Toggle status panel'', ''  Ctrl+D               Toggle detail panel'',
              ''  Ctrl+Up/Down         Navigate tool calls (detail panel)'',
              ''  Tab                  Toggle completion popup'',
              ''  Shift+Up/Down        Scroll detail panel / messages'',
              ''  PageUp/PageDown      Scroll detail panel (10 lines) / messages (page)'']
      in scroll_to_bottom (add_system_message SystemRole (join_str [CHR 0x0A] ls) a))"

section \<open>The input line\<close>

definition accept_completion :: "app_env \<Rightarrow> string \<Rightarrow> app \<Rightarrow> handled" where
  "accept_completion e text a =
     (case detect_trigger (ae_alnum e) (ap_input a) (ap_cursor_pos a) of
        None \<Rightarrow> None
      | Some trigger \<Rightarrow>
          (let prefix = (case trigger of
               Some (CommandTrigger _) \<Rightarrow> ''/''
             | Some (AgentTrigger _ forced) \<Rightarrow> if forced then ''@@'' else ''@''
             | Some (FileTrigger _) \<Rightarrow> ''@''
             | Some (BashTrigger _) \<Rightarrow> []
             | None \<Rightarrow> [])
           in quiet_opt (Option.bind (replace_token (prefix @ text @ '' '') a) (update_completion_state e))))"

text \<open>A submitted line: the help, a command of the client, a command of the daemon, or a message for the agent.\<close>

definition submit_line :: "string \<Rightarrow> app \<Rightarrow> app \<times> agent_request list" where
  "submit_line text a =
     (let trimmed = trim text in
      if trimmed = ''?'' then (show_help a, [])
      else case strip_prefix trimmed ''/'' of
        None \<Rightarrow> (a\<lparr>ap_agent_busy := True\<rparr>, [MessageReq text []])
      | Some body \<Rightarrow>
          (let (command, rest) = split_first_ws body;
               args = unwrap_or [] (map_option split_whitespace rest);
               is_service = (case find_by_name command (ap_command_cache a) of
                  Some c \<Rightarrow> ch_category c = ServiceCat | None \<Rightarrow> False)
           in if command = ''exit'' then (a\<lparr>ap_should_quit := True\<rparr>, [])
              else if command = ''help'' then (show_help a, [])
              else if is_service then
                (a\<lparr>ap_service_command_tx := map_option (try_send \<lparr> se_command = command, se_args = args,
                     se_session_id = unwrap_or [] (ap_session_id a) \<rparr>) (ap_service_command_tx a)\<rparr>, [])
              else
                (let client_cmd =
                       (if command = ''compact'' then Some CompactCmd
                        else if command = ''clear'' then Some ClearCmd
                        else if command = ''model'' then (case args of [] \<Rightarrow> None | m # _ \<Rightarrow> Some (ModelSwitch m))
                        else None)
                 in (a\<lparr>ap_pending_client_command := client_cmd, ap_agent_busy := True\<rparr>, [MessageReq trimmed []]))))"

definition type_char :: "app_env \<Rightarrow> string \<Rightarrow> app \<Rightarrow> app option" where
  "type_char e c a = Option.bind (str_insert (ap_cursor_pos a) c (ap_input a))
     (\<lambda>s. update_completion_state e (a\<lparr>ap_input := s, ap_cursor_pos := ap_cursor_pos a + 1\<rparr>))"

definition backspace :: "app_env \<Rightarrow> app \<Rightarrow> app option" where
  "backspace e a =
     (if 0 < ap_cursor_pos a
      then Option.bind (str_remove (ap_cursor_pos a - 1) (ap_input a))
             (\<lambda>s. update_completion_state e (a\<lparr>ap_input := s, ap_cursor_pos := ap_cursor_pos a - 1\<rparr>))
      else update_completion_state e a)"

definition edit_key :: "app_env \<Rightarrow> key_event \<Rightarrow> app \<Rightarrow> handled" where
  "edit_key e key a =
     (let shift = ke_shift key; ctrl = ke_ctrl key; detail = dp_visible (ap_detail_panel a);
          page = max (ap_viewport_height a) 1
      in case ke_code key of
        KEnter \<Rightarrow>
          (case submit_input a of
             (_, None) \<Rightarrow> quiet a
           | (a1, Some text) \<Rightarrow> (case submit_line text a1 of (a2, rs) \<Rightarrow> Some (scroll_to_bottom a2, rs)))
      | KChar c \<Rightarrow> quiet_opt (type_char e c a)
      | KBackspace \<Rightarrow> quiet_opt (backspace e a)
      | KLeft \<Rightarrow> quiet (a\<lparr>ap_cursor_pos := ap_cursor_pos a - 1\<rparr>)
      | KRight \<Rightarrow> quiet (a\<lparr>ap_cursor_pos := min (ap_cursor_pos a + 1) (length (ap_input a))\<rparr>)
      | KUp \<Rightarrow>
          if ctrl \<and> detail then quiet (select_prev_tool a)
          else if shift \<and> detail then quiet (scroll_detail_panel (- 1) a)
          else if shift then quiet (scroll_up 1 a)
          else quiet_opt (history_up a)
      | KDown \<Rightarrow>
          if ctrl \<and> detail then quiet (select_next_tool a)
          else if shift \<and> detail then quiet (scroll_detail_panel 1 a)
          else if shift then quiet (scroll_down 1 a)
          else quiet_opt (history_down a)
      | KPageUp \<Rightarrow> if detail then quiet (scroll_detail_panel (- 10) a) else quiet (scroll_up page a)
      | KPageDown \<Rightarrow> if detail then quiet (scroll_detail_panel 10 a) else quiet (scroll_down page a)
      | KEnd \<Rightarrow> if shift then quiet (scroll_to_bottom a) else quiet a
      | _ \<Rightarrow> quiet a)"

definition handle_input_key :: "app_env \<Rightarrow> key_event \<Rightarrow> app \<Rightarrow> handled" where
  "handle_input_key e key a = (case handle_completion_key key a of
      (a1, AcceptText text) \<Rightarrow> accept_completion e text a1
    | (a1, Updated) \<Rightarrow> quiet a1
    | (a1, NoAction) \<Rightarrow> edit_key e key a1)"

section \<open>The permission dialog\<close>

definition send_permission ::
  "app_env \<Rightarrow> permission_decision \<Rightarrow> (string \<times> prost_value) list option \<Rightarrow> string \<Rightarrow> app \<Rightarrow> app \<times> agent_request list" where
  "send_permission e decision updated_input message a =
     (a\<lparr>ap_pending_permission := None, ap_mode := Normal\<rparr>,
      case ap_pending_permission a of
        None \<Rightarrow> []
      | Some p \<Rightarrow> [PermissionReq (pq_request_id p) (ae_decision_number e decision) updated_input message])"

definition handle_permission_key :: "app_env \<Rightarrow> key_code \<Rightarrow> app \<Rightarrow> app \<times> agent_request list" where
  "handle_permission_key e code a =
     (if code \<in> set (map KChar [''y'', ''Y'', ''1'']) then send_permission e AllowOnce None [] a
      else if code \<in> set (map KChar [''a'', ''A'', ''2'']) then send_permission e AllowSession None [] a
      else if code = KTab \<or> code = KChar ''3'' then (start_permission_edit e a, [])
      else if code \<in> set (map KChar [''e'', ''E'', ''4'']) then (start_permission_text PermissionComment False a, [])
      else if code \<in> set (map KChar [''n'', ''N'', ''5'']) then (start_permission_text PermissionDenyMessage False a, [])
      else if code \<in> set (map KChar [''x'', ''X'', ''6'']) then (start_permission_text PermissionDenyMessage True a, [])
      else if code = KEsc then send_permission e Deny None [] a
      else (a, []))"

definition submit_permission_edit :: "app_env \<Rightarrow> app \<Rightarrow> app \<times> agent_request list" where
  "submit_permission_edit e a =
     (let buffer = unwrap_or [] (map_option pq_edit_buffer (ap_pending_permission a)) in
      case ap_mode a of
        PermissionEditInput \<Rightarrow>
          send_permission e AllowWithEdit (map_option (json_to_struct_cli (ae_as_f64 e))
            (Option.bind (ap_pending_permission a) (\<lambda>p. ae_parse e (pq_edit_buffer p)))) [] a
      | PermissionComment \<Rightarrow>
          (case send_permission e AllowOnce None [] a of
             (a1, rs) \<Rightarrow> (a1, if buffer = [] then rs else rs @ [MessageReq buffer []]))
      | PermissionDenyMessage \<Rightarrow>
          (let interrupt = (case ap_pending_permission a of None \<Rightarrow> True | Some p \<Rightarrow> pq_deny_interrupt p)
           in send_permission e (if interrupt then DenyWithInterrupt else DenyNoInterrupt) None buffer a)
      | _ \<Rightarrow> (a, []))"

text \<open>The editor of the dialog; the cursor steps over whole characters.\<close>

definition edit_buffer :: "key_code \<Rightarrow> pending_perm \<Rightarrow> pending_perm option" where
  "edit_buffer code p = (case code of
      KChar c \<Rightarrow> map_option (\<lambda>s. p\<lparr>pq_edit_buffer := s, pq_edit_cursor := pq_edit_cursor p + length c\<rparr>)
                  (str_insert (pq_edit_cursor p) c (pq_edit_buffer p))
    | KBackspace \<Rightarrow>
        if 0 < pq_edit_cursor p
        then Option.bind (slice_to (pq_edit_buffer p) (pq_edit_cursor p)) (\<lambda>_.
               let prev = prev_char (pq_edit_buffer p) (pq_edit_cursor p)
               in map_option (\<lambda>s. p\<lparr>pq_edit_buffer := s, pq_edit_cursor := prev\<rparr>) (str_remove prev (pq_edit_buffer p)))
        else Some p
    | KLeft \<Rightarrow>
        if 0 < pq_edit_cursor p
        then map_option (\<lambda>_. p\<lparr>pq_edit_cursor := prev_char (pq_edit_buffer p) (pq_edit_cursor p)\<rparr>)
               (slice_to (pq_edit_buffer p) (pq_edit_cursor p))
        else Some p
    | KRight \<Rightarrow>
        if pq_edit_cursor p < length (pq_edit_buffer p)
        then map_option (\<lambda>_. p\<lparr>pq_edit_cursor := next_char (pq_edit_buffer p) (pq_edit_cursor p)\<rparr>)
               (slice_from (pq_edit_buffer p) (pq_edit_cursor p))
        else Some p
    | _ \<Rightarrow> Some p)"

definition handle_permission_edit_key :: "app_env \<Rightarrow> key_code \<Rightarrow> app \<Rightarrow> handled" where
  "handle_permission_edit_key e code a =
     (if code = KEnter then Some (submit_permission_edit e a)
      else if code = KEsc then quiet (a\<lparr>ap_mode := PermissionPrompt\<rparr>)
      else case ap_pending_permission a of
        None \<Rightarrow> quiet a
      | Some p \<Rightarrow> quiet_opt (map_option (\<lambda>p'. a\<lparr>ap_pending_permission := Some p'\<rparr>) (edit_buffer code p)))"

section \<open>The question dialog\<close>

definition submit_question :: "app \<Rightarrow> app \<times> agent_request list" where
  "submit_question a =
     (let closed = a\<lparr>ap_pending_question := None, ap_mode := Normal\<rparr> in
      case ap_pending_question a of
        None \<Rightarrow> (closed, [])
      | Some q \<Rightarrow>
          if uq_selected q = [] then (a, [])
          else (let labels = List.map_filter (\<lambda>i. if i < length (uq_options q) then Some (od_label (uq_options q ! i)) else None)
                      (uq_selected q)
                in (closed, [QuestionReq (uq_question_id q) [(uq_question q, join_str '', '' labels)]])))"

definition digit_index :: "string \<Rightarrow> nat option" where
  "digit_index c = (case c of [b] \<Rightarrow> (let n = (of_char b :: nat) in if 49 \<le> n \<and> n \<le> 57 then Some (n - 49) else None) | _ \<Rightarrow> None)"

definition handle_question_key :: "key_code \<Rightarrow> app \<Rightarrow> app \<times> agent_request list" where
  "handle_question_key code a = (case code of
      KUp \<Rightarrow> (move_question_highlight (- 1) a, [])
    | KDown \<Rightarrow> (move_question_highlight 1 a, [])
    | KChar c \<Rightarrow>
        if c = '' '' then
          (case ap_pending_question a of None \<Rightarrow> (a, []) | Some q \<Rightarrow> (select_question_option (uq_highlight q) a, []))
        else (case digit_index c of Some i \<Rightarrow> (select_question_option i a, []) | None \<Rightarrow> (a, []))
    | KEnter \<Rightarrow> submit_question a
    | KEsc \<Rightarrow> (a\<lparr>ap_pending_question := None, ap_mode := Normal\<rparr>, [])
    | _ \<Rightarrow> (a, []))"

section \<open>Terminal events and the loop\<close>

definition handle_fingerprint_key :: "key_code \<Rightarrow> app \<Rightarrow> app" where
  "handle_fingerprint_key key a =
     (if (case ap_pending_fingerprint a of None \<Rightarrow> False | Some fp \<Rightarrow> needs_action fp) then
        (if key \<in> {KChar ''y'', KChar ''Y''} then a\<lparr>ap_pending_fingerprint := None, ap_mode := Normal\<rparr>
         else if key \<in> {KChar ''n'', KChar ''N'', KEsc}
         then a\<lparr>ap_pending_fingerprint := map_option (\<lambda>fp. fp\<lparr>fq_decision := Some RejectFp\<rparr>) (ap_pending_fingerprint a),
                ap_should_quit := True\<rparr>
         else a)
      else a\<lparr>ap_pending_fingerprint := None, ap_mode := Normal\<rparr>)"

definition handle_key :: "app_env \<Rightarrow> key_event \<Rightarrow> app \<Rightarrow> handled" where
  "handle_key e key a =
     (if ke_ctrl key \<and> ke_code key = KChar ''t'' then quiet (a\<lparr>ap_show_status_panel := \<not> ap_show_status_panel a\<rparr>)
      else if ke_ctrl key \<and> ke_code key = KChar ''d'' then quiet (toggle_detail_panel a)
      else if ke_ctrl key \<and> ke_code key = KChar ''c'' then quiet (a\<lparr>ap_should_quit := True\<rparr>)
      else case ap_mode a of
        PermissionPrompt \<Rightarrow> Some (handle_permission_key e (ke_code key) a)
      | PermissionEditInput \<Rightarrow> handle_permission_edit_key e (ke_code key) a
      | PermissionComment \<Rightarrow> handle_permission_edit_key e (ke_code key) a
      | PermissionDenyMessage \<Rightarrow> handle_permission_edit_key e (ke_code key) a
      | UserQuestionMode \<Rightarrow> Some (handle_question_key (ke_code key) a)
      | FingerprintVerification \<Rightarrow> quiet (handle_fingerprint_key (ke_code key) a)
      | Normal \<Rightarrow> handle_input_key e key a
      | SessionListMode \<Rightarrow> handle_input_key e key a)"

definition handle_term_event :: "app_env \<Rightarrow> term_event \<Rightarrow> app \<Rightarrow> handled" where
  "handle_term_event e ev a = (case ev of
      TermKey key \<Rightarrow> handle_key e key a
    | MouseScrollUp \<Rightarrow> quiet (if dp_visible (ap_detail_panel a) then scroll_detail_panel (- 3) a else scroll_up 3 a)
    | MouseScrollDown \<Rightarrow> quiet (if dp_visible (ap_detail_panel a) then scroll_detail_panel 3 a else scroll_down 3 a)
    | MouseOther \<Rightarrow> quiet a
    | TermResize \<Rightarrow> quiet a)"

text \<open>One turn of the loop. A tick draws, which stores the heights of the message area. The tasks that fetch
  completions and execute commands empty their channels between the turns.\<close>

datatype loop_event =
    LoopTick "16 word" "16 word"
  | LoopTerm term_event
  | LoopRegistry "cached_command list"
  | LoopItems "string list"
  | LoopLine string
  | LoopAgent int agent_event
  | LoopStreamError string
  | LoopFetched
  | LoopExecuted

definition stream_error_status :: "string \<Rightarrow> string" where
  "stream_error_status msg =
     (if str_contains msg ''broken pipe'' \<or> str_contains msg ''connection reset'' \<or> str_contains msg ''h2 protocol error''
      then ''Disconnected: daemon connection lost'' else ''Error: '' @ msg)"

definition loop_turn :: "app_env \<Rightarrow> loop_event \<Rightarrow> app \<Rightarrow> handled" where
  "loop_turn e ev a = (case ev of
      LoopTick viewport rendered \<Rightarrow>
        quiet (a\<lparr>ap_spinner_tick := ap_spinner_tick a + 1, ap_viewport_height := viewport, ap_total_lines := rendered\<rparr>)
    | LoopTerm t \<Rightarrow> handle_term_event e t a
    | LoopRegistry cached \<Rightarrow> quiet (a\<lparr>ap_command_cache := cached\<rparr>)
    | LoopItems items \<Rightarrow> quiet (a\<lparr>ap_completion_state := set_items items (ap_completion_state a)\<rparr>)
    | LoopLine line \<Rightarrow> quiet (scroll_to_bottom (add_system_message SystemRole line a))
    | LoopAgent now x \<Rightarrow> quiet_opt (handle_event e now x a)
    | LoopStreamError msg \<Rightarrow> quiet (a\<lparr>ap_status := stream_error_status msg, ap_agent_busy := False\<rparr>)
    | LoopFetched \<Rightarrow> quiet (a\<lparr>ap_completion_request_tx := map_option (\<lambda>(is_open, _). (is_open, [])) (ap_completion_request_tx a)\<rparr>)
    | LoopExecuted \<Rightarrow> quiet (a\<lparr>ap_service_command_tx := map_option (\<lambda>(is_open, q). (is_open, tl q)) (ap_service_command_tx a)\<rparr>))"

fun tui_run :: "app_env \<Rightarrow> loop_event list \<Rightarrow> app \<Rightarrow> handled" where
  "tui_run e [] a = quiet a"
| "tui_run e (ev # evs) a = (case loop_turn e ev a of
     None \<Rightarrow> None
   | Some (a1, rs) \<Rightarrow> if ap_should_quit a1 then Some (a1, rs)
       else (case tui_run e evs a1 of None \<Rightarrow> None | Some (a2, rs2) \<Rightarrow> Some (a2, rs @ rs2)))"

end
