(* ===== verification/ClientRuns.thy ===== *)
theory ClientRuns
  imports ClientInput
begin

text \<open>
  Runs of the terminal client's loop over any sequence of keys, mouse and agent events,
  completions and command output. The state stays well formed in every run; with ASCII input no run panics,
  while every other character typed into the input line does; a permission request is answered at most once, and not at all
  once another dialog has covered it.
\<close>

section \<open>The invariant\<close>

definition editor_ok :: "pending_perm \<Rightarrow> bool" where
  "editor_ok p \<longleftrightarrow> text_start (pq_edit_buffer p) \<and> is_char_boundary (pq_edit_buffer p) (pq_edit_cursor p)"

definition question_ok :: "pending_user_question \<Rightarrow> bool" where
  "question_ok q \<longleftrightarrow> (if uq_options q = [] then uq_highlight q = 0 else uq_highlight q < length (uq_options q))
     \<and> distinct (uq_selected q) \<and> list_all (\<lambda>i. i < length (uq_options q)) (uq_selected q)
     \<and> (uq_multi_select q \<or> length (uq_selected q) \<le> 1)"

definition permission_mode :: "app_mode \<Rightarrow> bool" where
  "permission_mode m \<longleftrightarrow> m \<in> {PermissionPrompt, PermissionEditInput, PermissionComment, PermissionDenyMessage}"

definition comp_ok :: "completion_state \<Rightarrow> bool" where
  "comp_ok c \<longleftrightarrow> window_ok COMPLETION_VISIBLE_COUNT (cs_items c) (cs_selected_index c) (cs_scroll_offset c)"

definition app_inv :: "app \<Rightarrow> bool" where
  "app_inv a \<longleftrightarrow> length (ap_input_history a) \<le> 100
     \<and> (\<forall>i. ap_history_index a = Some i \<longrightarrow> i < length (ap_input_history a))
     \<and> comp_ok (ap_completion_state a)
     \<and> tools_ok (ap_messages a) (ap_tool_calls a)
     \<and> pred_option editor_ok (ap_pending_permission a)
     \<and> pred_option question_ok (ap_pending_question a)
     \<and> (permission_mode (ap_mode a) \<longrightarrow> ap_pending_permission a \<noteq> None)
     \<and> (ap_mode a = UserQuestionMode \<longrightarrow> ap_pending_question a \<noteq> None)
     \<and> (ap_scroll_pinned a \<longrightarrow> ap_scroll_offset a = 0)"

lemma permission_mode_simps [simp]:
  "permission_mode PermissionPrompt" "permission_mode PermissionEditInput" "permission_mode PermissionComment"
  "permission_mode PermissionDenyMessage" "\<not> permission_mode Normal" "\<not> permission_mode UserQuestionMode"
  "\<not> permission_mode SessionListMode" "\<not> permission_mode FingerprintVerification"
  by (simp_all add: permission_mode_def)

lemma comp_ok_ops [simp]:
  "comp_ok (set_items items c)"
  "comp_ok c \<Longrightarrow> comp_ok (c\<lparr>cs_ghost_text := g\<rparr>)"
  "comp_ok c \<Longrightarrow> comp_ok (c\<lparr>cs_popup_visible := v\<rparr>)"
  "comp_ok (c\<lparr>cs_ghost_text := g, cs_popup_visible := v, cs_items := [], cs_selected_index := 0, cs_scroll_offset := 0\<rparr>)"
  by (simp_all add: comp_ok_def set_items_def COMPLETION_VISIBLE_COUNT_def)

lemma comp_ok_move:
  assumes "comp_ok c" "\<And>n i. 0 < n \<Longrightarrow> i < n \<Longrightarrow> f n i < n"
  shows "comp_ok (move_selection f c)"
proof (cases "cs_items c = []")
  case False
  have scroll: "adjust_scroll x = x\<lparr>cs_scroll_offset := scroll_to COMPLETION_VISIBLE_COUNT (cs_selected_index x) (cs_scroll_offset x)\<rparr>" for x
    by (simp add: adjust_scroll_def scroll_to_def)
  have "f (length (cs_items c)) (cs_selected_index c) < length (cs_items c)"
    using assms False by (simp add: comp_ok_def window_ok_def)
  then show ?thesis
    using False window_scroll [of COMPLETION_VISIBLE_COUNT "cs_items c"]
    by (simp add: move_selection_def Let_def scroll comp_ok_def COMPLETION_VISIBLE_COUNT_def)
qed (use assms in \<open>simp add: move_selection_def\<close>)

section \<open>Operations keep the invariant\<close>

lemma inv_new_app [simp]: "app_inv new_app"
  by (simp add: app_inv_def new_app_def comp_ok_def COMPLETION_VISIBLE_COUNT_def)

lemma inv_push [simp]: "app_inv a \<Longrightarrow> app_inv (push_message msg a)"
  by (simp add: app_inv_def push_message_def)

lemma inv_modify:
  assumes "app_inv a"
    and "\<And>msg. dm_role msg = ToolRole \<Longrightarrow> \<not> dm_streaming msg \<Longrightarrow> \<not> dm_is_tool_result msg \<Longrightarrow>
      dm_role (f msg) = ToolRole \<and> \<not> dm_streaming (f msg) \<and> \<not> dm_is_tool_result (f msg) \<and> dm_content (f msg) = dm_content msg"
  shows "app_inv (modify_last f a)"
  using assms tools_update [OF _ assms(2)] by (simp add: app_inv_def modify_last_def)

lemma inv_messages [simp]:
  assumes "app_inv a"
  shows "app_inv (add_user_message c a)" "app_inv (add_system_message r c a)" "app_inv (start_assistant_message a)"
    "app_inv (append_text t a)" "app_inv (finish_streaming a)" "app_inv (set_label l a)" "app_inv (show_error l code c a)"
  using assms by (simp_all add: message_ops inv_modify show_error_def)

lemma inv_scroll [simp]:
  assumes "app_inv a"
  shows "app_inv (scroll_up n a)" "app_inv (scroll_down n a)" "app_inv (scroll_to_bottom a)" "app_inv (scroll_detail_panel d a)"
    "app_inv (toggle_detail_panel a)" "app_inv (select_next_tool a)" "app_inv (select_prev_tool a)"
proof -
  have "0 \<le> (x :: 16 word)" for x by simp
  then show "app_inv (scroll_up n a)" "app_inv (scroll_down n a)"
    using assms by (auto simp: app_inv_def scroll_up_def scroll_down_def sat_sub_def Let_def word_gt_0)
qed (use assms in \<open>simp_all add: app_inv_def scroll_to_bottom_def scroll_detail_panel_def toggle_detail_panel_def
    select_next_tool_def select_prev_tool_def Let_def\<close>)

lemma inv_fields [simp]:
  assumes "app_inv a"
  shows "app_inv (a\<lparr>ap_agent_busy := bz\<rparr>)" "app_inv (a\<lparr>ap_status := s\<rparr>)" "app_inv (a\<lparr>ap_should_quit := qt\<rparr>)"
    "app_inv (a\<lparr>ap_model := md\<rparr>)" "app_inv (a\<lparr>ap_session_id := i, ap_model := md, ap_status := s\<rparr>)" "app_inv (a\<lparr>ap_token_usage := u\<rparr>)"
    "app_inv (a\<lparr>ap_pending_client_command := pc\<rparr>)" "app_inv (a\<lparr>ap_pending_client_command := pc, ap_agent_busy := bz\<rparr>)"
    "app_inv (a\<lparr>ap_service_command_tx := stx\<rparr>)" "app_inv (a\<lparr>ap_completion_request_tx := ctx\<rparr>)" "app_inv (a\<lparr>ap_command_cache := cc\<rparr>)"
    "app_inv (a\<lparr>ap_cursor_pos := cp\<rparr>)" "app_inv (a\<lparr>ap_input := inp, ap_cursor_pos := cp\<rparr>)" "app_inv (a\<lparr>ap_show_status_panel := sp\<rparr>)"
    "app_inv (a\<lparr>ap_spinner_tick := tk, ap_viewport_height := vh, ap_total_lines := tl'\<rparr>)"
    "app_inv (a\<lparr>ap_status := s, ap_agent_busy := bz\<rparr>)"
    "comp_ok c \<Longrightarrow> app_inv (a\<lparr>ap_completion_state := c\<rparr>)"
    "comp_ok c \<Longrightarrow> app_inv (a\<lparr>ap_completion_request_tx := ctx, ap_completion_state := c\<rparr>)"
    "app_inv (a\<lparr>ap_pending_permission := None, ap_mode := Normal\<rparr>)"
    "app_inv (a\<lparr>ap_pending_question := None, ap_mode := Normal\<rparr>)"
    "app_inv (a\<lparr>ap_pending_fingerprint := f, ap_mode := Normal\<rparr>)" "app_inv (a\<lparr>ap_pending_fingerprint := f, ap_should_quit := qt\<rparr>)"
  using assms by (simp_all add: app_inv_def)

lemma inv_start_tool [simp]: "app_inv a \<Longrightarrow> app_inv (start_tool e l i n inp d a)"
proof -
  assume a: "app_inv a"
  let ?ms = "update_last (\<lambda>msg. msg\<lparr>dm_streaming := False\<rparr>) (ap_messages a)"
  have "tools_ok ?ms (ap_tool_calls a)" using a by (auto simp: app_inv_def intro: tools_update)
  then have "tools_ok (?ms @ [(plain_message ToolRole (tool_line n d))\<lparr>dm_agent_label := l\<rparr>])
      (ap_tool_calls a @ [\<lparr> te_tool_id = i, te_tool_name = n, te_description = d,
            te_input_json = Some (ae_debug_struct e inp), te_output = None, te_status = ToolRunning,
            te_duration_ms = None, te_finished_at = None, te_message_index = length (ap_messages a) \<rparr>])"
    by (rule tools_start) (simp_all add: tool_shown_def nth_append plain_message_def)
  then show ?thesis using a
    by (simp add: start_tool_def app_inv_def Let_def add_system_message_def set_label_def finish_streaming_def
        push_message_def modify_last_def)
qed

lemma inv_finish_tool:
  assumes "app_inv a" "finish_tool t l i out er d a = Some a'"
  shows "app_inv a'"
proof -
  define f where "f en = en\<lparr>te_status := (if er then ToolError else ToolDone), te_output := Some out,
    te_duration_ms := Some d, te_finished_at := t\<rparr>" for en :: tool_call_entry
  obtain msg where a': "a' = a\<lparr>ap_messages := ap_messages a @ [msg],
      ap_tool_calls := rev (update_first (\<lambda>en. te_tool_id en = i) f (rev (ap_tool_calls a)))\<rparr>"
    using assms(2) unfolding finish_tool_def Let_def f_def [abs_def]
    by (cases "tool_preview out") (auto simp: add_system_message_def push_message_def modify_last_def)
  have "tools_ok (ap_messages a @ [msg]) (rev (update_first (\<lambda>en. te_tool_id en = i) f (rev (ap_tool_calls a))))"
    using assms(1) by (intro tools_finish tools_push) (simp_all add: app_inv_def f_def)
  then show ?thesis using assms(1) unfolding a' by (simp add: app_inv_def)
qed

lemma inv_compaction [simp]: "app_inv a \<Longrightarrow> app_inv (execute_pending_client_command a)"
  by (auto simp: execute_pending_client_command_def apply_compaction_def scroll_to_bottom_def app_inv_def Let_def
      split: option.split client_command.split)

lemma inv_event:
  assumes "app_inv a" "handle_event e now ev a = Some a'"
  shows "app_inv a'"
proof (cases "ev_event ev")
  case None
  then show ?thesis using assms by (simp add: handle_event_def)
next
  case (Some x)
  have dialogs: "app_inv (a\<lparr>ap_mode := PermissionPrompt, ap_pending_permission := Some p\<rparr>)" if "editor_ok p" for p
    using assms(1) that by (simp add: app_inv_def)
  have question: "app_inv (a\<lparr>ap_mode := UserQuestionMode, ap_pending_question := Some q\<rparr>)" if "question_ok q" for q
    using assms(1) that by (simp add: app_inv_def)
  show ?thesis
    using assms Some inv_finish_tool [OF assms(1)]
    by (cases x) (auto simp: handle_event_def Let_def live_delta_def intro!: dialogs question
        simp: editor_ok_def question_ok_def text_start_def)
qed

lemma inv_submit: "app_inv a \<Longrightarrow> submit_input a = (a', r) \<Longrightarrow> app_inv a'"
  by (auto simp: submit_input_def Let_def app_inv_def add_user_message_def push_message_def split: if_splits)

lemma history_total:
  assumes "app_inv a"
  shows "\<exists>a'. history_up a = Some a' \<and> app_inv a'" "\<exists>a'. history_down a = Some a' \<and> app_inv a'"
proof -
  have r: "\<exists>a'. recall i a = Some a' \<and> app_inv a'" if "i < length (ap_input_history a)" for i
    using assms that by (simp add: recall_def app_inv_def)
  show "\<exists>a'. history_up a = Some a' \<and> app_inv a'"
    using assms r [of 0] by (auto simp: history_up_def min_less_iff_disj split: option.split intro!: r)
  have "app_inv (a\<lparr>ap_history_index := None, ap_input := [], ap_cursor_pos := 0\<rparr>)"
    using assms by (simp add: app_inv_def)
  moreover have "\<exists>a'. recall (i - 1) a = Some a' \<and> app_inv a'" if "ap_history_index a = Some i" for i
    using that assms by (intro r) (auto simp: app_inv_def)
  ultimately show "\<exists>a'. history_down a = Some a' \<and> app_inv a'"
    using assms by (auto simp: history_down_def split: option.split)
qed

lemma inv_completion: "app_inv a \<Longrightarrow> update_completion_state e a = Some a' \<Longrightarrow> app_inv a'"
proof -
  assume a: "app_inv a" and u: "update_completion_state e a = Some a'"
  have c: "comp_ok (ap_completion_state a)" using a by (simp add: app_inv_def)
  obtain tr where "detect_trigger (ae_alnum e) (ap_input a) (ap_cursor_pos a) = Some tr"
    using u by (cases "detect_trigger (ae_alnum e) (ap_input a) (ap_cursor_pos a)") (simp_all add: update_completion_state_def)
  then have a': "a' = (case tr of
       Some (CommandTrigger query) \<Rightarrow>
         a\<lparr>ap_completion_state := set_items (map ch_name (search (ae_indices e) query 50 (ap_command_cache a))) (ap_completion_state a)\<rparr>
     | Some (AgentTrigger query forced) \<Rightarrow> request_completion (if forced then FetchAgents else FetchMixed) query a
     | Some (FileTrigger query) \<Rightarrow> request_completion FetchFiles query a
     | Some (BashTrigger _) \<Rightarrow> a\<lparr>ap_completion_state := (ap_completion_state a)\<lparr>cs_ghost_text := None\<rparr>\<rparr>
     | None \<Rightarrow> a\<lparr>ap_completion_state := (ap_completion_state a)\<lparr>cs_ghost_text := None, cs_popup_visible := False, cs_items := [],
                   cs_selected_index := 0, cs_scroll_offset := 0\<rparr>\<rparr>)"
    using u by (simp add: update_completion_state_def Let_def)
  show "app_inv a'"
    using a c unfolding a' by (simp add: request_completion_def Let_def split: option.split completion_trigger.split)
qed

lemma inv_help [simp]: "app_inv a \<Longrightarrow> app_inv (show_help a)"
  unfolding show_help_def Let_def by (intro inv_scroll inv_messages)

lemma inv_submit_line: "app_inv a \<Longrightarrow> submit_line t a = (a', rs) \<Longrightarrow> app_inv a'"
  by (auto simp: submit_line_def Let_def split: if_splits option.splits prod.splits)

lemma inv_edit_key: "app_inv a \<Longrightarrow> edit_key e key a = Some (a', rs) \<Longrightarrow> app_inv a'"
proof -
  assume a: "app_inv a" and k: "edit_key e key a = Some (a', rs)"
  have bs: "app_inv x" if "backspace e a = Some x" for x
    using a that by (auto simp: backspace_def bind_eq_Some_conv split: if_splits dest!: inv_completion [rotated])
  have tc: "app_inv x" if "type_char e c a = Some x" for c x
    using a that by (auto simp: type_char_def bind_eq_Some_conv dest!: inv_completion [rotated])
  have up: "app_inv x" if "history_up a = Some x" for x using history_total(1) [OF a] that by auto
  have dn: "app_inv x" if "history_down a = Some x" for x using history_total(2) [OF a] that by auto
  have sub: "app_inv (scroll_to_bottom y)" if "submit_input a = (x, Some t)" "submit_line t x = (y, rs)" for x y t rs
    using inv_submit_line [OF inv_submit [OF a that(1)] that(2)] by simp
  show "app_inv a'"
    using a k bs tc up dn sub
    by (cases "ke_code key") (auto simp: edit_key_def Let_def split: if_splits prod.splits option.splits)
qed

lemma inv_completion_key: "app_inv a \<Longrightarrow> handle_completion_key key a = (a', act) \<Longrightarrow> app_inv a'"
proof -
  assume a: "app_inv a" and k: "handle_completion_key key a = (a', act)"
  then have c: "comp_ok (ap_completion_state a)" by (simp add: app_inv_def)
  have "comp_ok (move_selection (\<lambda>n i. if i = 0 then n - 1 else i - 1) (ap_completion_state a))"
    "comp_ok (move_selection (\<lambda>n i. (i + 1) mod n) (ap_completion_state a))"
    by (rule comp_ok_move [OF c]; auto)+
  then show "app_inv a'"
    using a c k by (auto simp: handle_completion_key_def Let_def split: if_splits key_code.splits)
qed

lemma inv_accept: "app_inv a \<Longrightarrow> accept_completion e t a = Some (a', rs) \<Longrightarrow> app_inv a'"
proof -
  assume a: "app_inv a" and k: "accept_completion e t a = Some (a', rs)"
  have rt: "app_inv x" if "replace_token r a = Some x" for r x
    using a that by (auto simp: replace_token_def Let_def)
  show "app_inv a'"
    using k by (auto simp: accept_completion_def Let_def bind_eq_Some_conv split: option.splits
        dest!: rt intro: inv_completion)
qed

lemma inv_input_key:
  assumes "app_inv a" "handle_input_key e key a = Some (a', rs)"
  shows "app_inv a'"
proof -
  obtain a1 act where k: "handle_completion_key key a = (a1, act)" by fastforce
  note a1 = inv_completion_key [OF assms(1) k]
  show ?thesis
  proof (cases act)
    case NoAction
    then show ?thesis using inv_edit_key [OF a1] assms(2) by (simp add: handle_input_key_def k)
  next
    case (AcceptText t)
    then show ?thesis using inv_accept [OF a1] assms(2) by (simp add: handle_input_key_def k)
  next
    case Updated
    then show ?thesis using a1 assms(2) by (simp add: handle_input_key_def k)
  qed
qed

section \<open>Dialogs keep the invariant\<close>

definition key_ok :: "key_code \<Rightarrow> bool" where
  "key_ok code = (case code of KChar c \<Rightarrow> utf8_char c | _ \<Rightarrow> True)"

lemma editor_total:
  assumes "editor_ok p" "key_ok code"
  shows "\<exists>p'. edit_buffer code p = Some p' \<and> editor_ok p' \<and> pq_request_id p' = pq_request_id p"
proof -
  let ?s = "pq_edit_buffer p" and ?i = "pq_edit_cursor p"
  have s: "text_start ?s" "is_char_boundary ?s ?i" using assms by (simp_all add: editor_ok_def)
  show ?thesis
  proof (cases code)
    case (KChar c)
    then show ?thesis using insert_ok [OF s, of c] assms(2) by (auto simp: edit_buffer_def editor_ok_def key_ok_def)
  next
    case KBackspace
    show ?thesis
    proof (cases "?i = 0")
      case False
      then have pb: "is_char_boundary ?s (prev_char ?s ?i)" "prev_char ?s ?i < ?i"
        using prev_char_boundary [OF s] by auto
      then have "prev_char ?s ?i < length ?s" using boundary_le [OF s(2)] by simp
      then show ?thesis using remove_ok [OF s(1) pb(1)] KBackspace False s
        by (auto simp: edit_buffer_def editor_ok_def slice_to_def)
    qed (use assms KBackspace in \<open>simp add: edit_buffer_def\<close>)
  next
    case KLeft
    then show ?thesis using s assms prev_char_boundary [OF s] by (auto simp: edit_buffer_def editor_ok_def slice_to_def)
  next
    case KRight
    then show ?thesis using s assms next_char_boundary [OF s(2)] by (auto simp: edit_buffer_def editor_ok_def slice_from_def)
  qed (use assms in \<open>simp_all add: edit_buffer_def\<close>)
qed

lemma question_ok_ops:
  assumes "app_inv a"
  shows "app_inv (move_question_highlight d a)" "app_inv (select_question_option i a)"
proof -
  have "pred_option question_ok (ap_pending_question a)" using assms by (simp add: app_inv_def)
  then have "pred_option question_ok (ap_pending_question (move_question_highlight d a))"
    "pred_option question_ok (ap_pending_question (select_question_option i a))"
    by (cases "ap_pending_question a";
        auto simp: move_question_highlight_def select_question_option_def question_ok_def list_all_iff nat_less_iff
          dest: notin_set_remove1)+
  then show "app_inv (move_question_highlight d a)" "app_inv (select_question_option i a)"
    using assms by (auto simp: app_inv_def move_question_highlight_def select_question_option_def)
qed

lemma inv_question_key: "app_inv a \<Longrightarrow> handle_question_key code a = (a', rs) \<Longrightarrow> app_inv a'"
  by (auto simp: handle_question_key_def submit_question_def Let_def question_ok_ops
      split: key_code.splits if_splits option.splits)

definition env_ok :: "app_env \<Rightarrow> bool" where
  "env_ok e \<longleftrightarrow> (\<forall>v s. ae_pretty e v = Some s \<longrightarrow> text_start s)"

lemma inv_send [simp]: "app_inv a \<Longrightarrow> app_inv (fst (send_permission e d u m a))"
  by (simp add: send_permission_def)

text \<open>What a key of the permission dialog does: an answer, one of the editors, or nothing.\<close>

lemma permission_key_cases:
  "(\<exists>d. handle_permission_key e code a = send_permission e d None [] a)
   \<or> handle_permission_key e code a = (start_permission_edit e a, [])
   \<or> (\<exists>m i. permission_mode m \<and> handle_permission_key e code a = (start_permission_text m i a, []))
   \<or> handle_permission_key e code a = (a, [])"
proof -
  define P where "P r \<longleftrightarrow> (\<exists>d. r = send_permission e d None [] a) \<or> r = (start_permission_edit e a, [])
    \<or> (\<exists>m i. permission_mode m \<and> r = (start_permission_text m i a, [])) \<or> r = (a, [])" for r
  have "P (send_permission e d None [] a)" "P (start_permission_edit e a, [])" "P (a, [])"
    "P (start_permission_text PermissionComment i a, [])" "P (start_permission_text PermissionDenyMessage i a, [])" for d i
    using permission_mode_simps(3,4) unfolding P_def by blast+
  then have "P (handle_permission_key e code a)"
    unfolding handle_permission_key_def by (simp only: simp_thms split: if_split)
  then show ?thesis by (simp only: P_def)
qed

lemma inv_permission_key:
  assumes "app_inv a" "env_ok e" "ap_mode a = PermissionPrompt" "handle_permission_key e code a = (a', rs)"
  shows "app_inv a'"
proof -
  obtain p where p: "ap_pending_permission a = Some p" using assms by (auto simp: app_inv_def)
  have "text_start (unwrap_or [] (Option.bind (pq_original_input p) (ae_pretty e)))"
    using assms(2) by (cases "Option.bind (pq_original_input p) (ae_pretty e)")
      (auto simp: env_ok_def bind_eq_Some_conv, simp add: text_start_def)
  then have "app_inv (start_permission_edit e a)"
    using assms(1) p by (simp add: start_permission_edit_def app_inv_def editor_ok_def Let_def)
  moreover have "app_inv (start_permission_text m i a)" if "permission_mode m" for m i
    using assms(1) p that by (auto simp: start_permission_text_def app_inv_def editor_ok_def text_start_def)
  ultimately have "app_inv (fst (handle_permission_key e code a))"
    using permission_key_cases [of e code a] assms(1) by (elim disjE exE conjE) simp_all
  then show ?thesis using assms(4) by simp
qed

lemma inv_permission_edit_key:
  assumes "app_inv a" "key_ok code" "permission_mode (ap_mode a)"
  shows "\<exists>a' rs. handle_permission_edit_key e code a = Some (a', rs) \<and> app_inv a'"
proof -
  have snd: "app_inv (fst (submit_permission_edit e a))"
    using assms(1) by (simp add: submit_permission_edit_def Let_def split_beta split: app_mode.split)
  obtain p where p: "ap_pending_permission a = Some p" "editor_ok p" using assms by (auto simp: app_inv_def)
  then obtain p' where "edit_buffer code p = Some p'" "editor_ok p'" using editor_total assms(2) by blast
  then have "\<exists>a' rs. (case ap_pending_permission a of None \<Rightarrow> quiet a
      | Some p \<Rightarrow> quiet_opt (map_option (\<lambda>p'. a\<lparr>ap_pending_permission := Some p'\<rparr>) (edit_buffer code p))) = Some (a', rs) \<and> app_inv a'"
    using p assms(1) by (auto simp: app_inv_def)
  moreover have "app_inv (a\<lparr>ap_mode := PermissionPrompt\<rparr>)" using assms p by (simp add: app_inv_def)
  ultimately show ?thesis
    using snd by (cases "submit_permission_edit e a") (auto simp: handle_permission_edit_key_def)
qed

definition event_ok :: "loop_event \<Rightarrow> bool" where
  "event_ok ev = (case ev of LoopTerm (TermKey key) \<Rightarrow> key_ok (ke_code key) | _ \<Rightarrow> True)"

lemma inv_fingerprint [simp]: "app_inv a \<Longrightarrow> app_inv (handle_fingerprint_key k a)"
  by (simp add: handle_fingerprint_key_def)

lemma inv_key:
  assumes "app_inv a" "env_ok e" "key_ok (ke_code key)" "handle_key e key a = Some (a', rs)"
  shows "app_inv a'"
proof -
  let ?r = "case ap_mode a of
        PermissionPrompt \<Rightarrow> Some (handle_permission_key e (ke_code key) a)
      | PermissionEditInput \<Rightarrow> handle_permission_edit_key e (ke_code key) a
      | PermissionComment \<Rightarrow> handle_permission_edit_key e (ke_code key) a
      | PermissionDenyMessage \<Rightarrow> handle_permission_edit_key e (ke_code key) a
      | UserQuestionMode \<Rightarrow> Some (handle_question_key (ke_code key) a)
      | FingerprintVerification \<Rightarrow> quiet (handle_fingerprint_key (ke_code key) a)
      | Normal \<Rightarrow> handle_input_key e key a
      | SessionListMode \<Rightarrow> handle_input_key e key a"
  have mode: "app_inv x" if "?r = Some (x, r)" for x r
  proof (cases "permission_mode (ap_mode a)")
    case True
    then show ?thesis
      using that inv_permission_edit_key [OF assms(1,3) True, of e] inv_permission_key [OF assms(1,2)]
      by (cases "ap_mode a") simp_all
  next
    case False
    then show ?thesis
      using that inv_question_key [OF assms(1)] inv_input_key [OF assms(1)] inv_fingerprint [OF assms(1)]
      by (cases "ap_mode a") auto
  qed
  consider "a' = a\<lparr>ap_show_status_panel := \<not> ap_show_status_panel a\<rparr>" | "a' = toggle_detail_panel a"
    | "a' = a\<lparr>ap_should_quit := True\<rparr>" | "?r = Some (a', rs)"
    using assms(4) unfolding handle_key_def by (simp only: prod.inject option.inject split: if_split_asm)
  then show ?thesis using assms(1) mode by cases simp_all
qed

lemma inv_turn:
  assumes "app_inv a" "env_ok e" "event_ok ev" "loop_turn e ev a = Some (a', rs)"
  shows "app_inv a'"
proof (cases ev)
  case (LoopTerm t)
  then show ?thesis using assms inv_key [OF assms(1,2)]
    by (cases t) (auto simp: loop_turn_def handle_term_event_def event_ok_def split: if_splits)
next
  case (LoopAgent now x)
  then show ?thesis using assms inv_event [OF assms(1)] by (auto simp: loop_turn_def)
qed (use assms in \<open>auto simp: loop_turn_def\<close>)

lemma inv_run:
  "app_inv a \<Longrightarrow> env_ok e \<Longrightarrow> list_all event_ok evs \<Longrightarrow> tui_run e evs a = Some (a', rs) \<Longrightarrow> app_inv a'"
proof (induction evs arbitrary: a a' rs)
  case (Cons ev evs)
  obtain a1 rs1 where t: "loop_turn e ev a = Some (a1, rs1)" using Cons.prems(4) by (auto split: option.splits)
  have a1: "app_inv a1" using inv_turn [OF _ _ _ t] Cons.prems by simp
  show ?case
  proof (cases "ap_should_quit a1")
    case True
    then show ?thesis using a1 t Cons.prems(4) by simp
  next
    case False
    then obtain rs2 where "tui_run e evs a1 = Some (a', rs2)" using t Cons.prems(4) by (auto split: option.splits)
    then show ?thesis using Cons.IH [OF a1] Cons.prems by simp
  qed
qed simp

section \<open>The input line\<close>

text \<open>The parts of the state that edit positions depend on.\<close>

definition line_of :: "app \<Rightarrow> string \<times> nat \<times> string list \<times> string list \<times> command_cache" where
  "line_of a = (ap_input a, ap_cursor_pos a, ap_input_history a, cs_items (ap_completion_state a), ap_command_cache a)"

definition ascii_line :: "app \<Rightarrow> bool" where
  "ascii_line a \<longleftrightarrow> is_ascii (ap_input a) \<and> ap_cursor_pos a \<le> length (ap_input a) \<and> list_all is_ascii (ap_input_history a)
     \<and> list_all is_ascii (cs_items (ap_completion_state a)) \<and> list_all (is_ascii \<circ> ch_name) (ap_command_cache a)"

lemma ascii_line_cong: "line_of a = line_of b \<Longrightarrow> ascii_line a = ascii_line b"
  by (simp add: line_of_def ascii_line_def)

lemma line_push [simp]: "line_of (push_message msg a) = line_of a"
  by (simp add: line_of_def push_message_def)

lemma line_modify [simp]: "line_of (modify_last f a) = line_of a"
  by (simp add: line_of_def modify_last_def)

lemma line_messages [simp]:
  "line_of (add_user_message c a) = line_of a" "line_of (add_system_message r c a) = line_of a"
  "line_of (start_assistant_message a) = line_of a" "line_of (append_text t a) = line_of a"
  "line_of (finish_streaming a) = line_of a" "line_of (set_label l a) = line_of a" "line_of (show_error l code c a) = line_of a"
  by (simp_all add: message_ops show_error_def)

lemma line_fields [simp]:
  "line_of (a\<lparr>ap_tool_calls := ts\<rparr>) = line_of a" "line_of (a\<lparr>ap_agent_busy := bz\<rparr>) = line_of a" "line_of (a\<lparr>ap_status := s\<rparr>) = line_of a"
  "line_of (a\<lparr>ap_should_quit := qt\<rparr>) = line_of a" "line_of (a\<lparr>ap_token_usage := u\<rparr>) = line_of a"
  "line_of (a\<lparr>ap_session_id := i, ap_model := md\<rparr>) = line_of a"
  "line_of (a\<lparr>ap_mode := mo, ap_pending_permission := pp\<rparr>) = line_of a" "line_of (a\<lparr>ap_mode := mo, ap_pending_question := pu\<rparr>) = line_of a"
  "line_of (a\<lparr>ap_pending_permission := pp, ap_mode := mo\<rparr>) = line_of a" "line_of (a\<lparr>ap_pending_question := pu, ap_mode := mo\<rparr>) = line_of a"
  "line_of (a\<lparr>ap_pending_permission := pp\<rparr>) = line_of a" "line_of (a\<lparr>ap_mode := mo\<rparr>) = line_of a" "line_of (a\<lparr>ap_pending_question := pu\<rparr>) = line_of a"
  "line_of (a\<lparr>ap_pending_fingerprint := f\<rparr>) = line_of a"
  "line_of (a\<lparr>ap_show_status_panel := sp\<rparr>) = line_of a" "line_of (a\<lparr>ap_status := s, ap_agent_busy := bz\<rparr>) = line_of a"
  "line_of (a\<lparr>ap_spinner_tick := tk, ap_viewport_height := vh, ap_total_lines := tl'\<rparr>) = line_of a"
  "line_of (a\<lparr>ap_completion_request_tx := ctx\<rparr>) = line_of a" "line_of (a\<lparr>ap_service_command_tx := stx\<rparr>) = line_of a"
  "line_of (a\<lparr>ap_pending_client_command := pc\<rparr>) = line_of a"
  by (simp_all add: line_of_def)

lemma line_scroll [simp]:
  "line_of (scroll_up n a) = line_of a" "line_of (scroll_down n a) = line_of a" "line_of (scroll_to_bottom a) = line_of a"
  "line_of (scroll_detail_panel d a) = line_of a" "line_of (toggle_detail_panel a) = line_of a"
  "line_of (select_next_tool a) = line_of a" "line_of (select_prev_tool a) = line_of a"
  by (simp_all add: line_of_def scroll_up_def scroll_down_def scroll_to_bottom_def scroll_detail_panel_def
      toggle_detail_panel_def select_next_tool_def select_prev_tool_def Let_def)

lemma line_compaction [simp]: "line_of (execute_pending_client_command a) = line_of a"
  by (simp add: line_of_def execute_pending_client_command_def apply_compaction_def scroll_to_bottom_def Let_def
      split: option.split client_command.split)




section \<open>ASCII input\<close>








lemma line_send [simp]: "line_of (fst (send_permission e d u m a)) = line_of a"
  by (simp add: send_permission_def)





lemma line_help [simp]: "line_of (show_help a) = line_of a"
  unfolding show_help_def Let_def by (simp only: line_scroll line_messages)





lemmas ascii_scroll [simp] = line_scroll [THEN ascii_line_cong]












text \<open>
  C30. The state of the terminal client is well formed in every run that does not panic: at most 100 inputs are remembered and
  the recalled one exists, the selected completion is in the visible window, every tool call points
  to its line, a dialog is only shown for a request that is pending, the editor of the permission dialog
  stands on a character boundary, and selected answers exist and are distinct.
\<close>

theorem tui_state_wellformed:
  assumes "env_ok e" and "list_all event_ok evs" and "tui_run e evs new_app = Some (a, rs)"
  shows "app_inv a"
  using inv_run [OF inv_new_app assms] .

definition demo_key :: "key_code \<Rightarrow> loop_event" where
  "demo_key code = LoopTerm (TermKey \<lparr> ke_code = code, ke_shift = False, ke_ctrl = False \<rparr>)"

lemma env_ok_demo: "env_ok demo_app_env"
  by (simp add: env_ok_def demo_app_env_def text_start_def continuation_byte_def)

text \<open>A request is edited with a character of two bytes.\<close>

definition demo_edit_run :: "loop_event list" where
  "demo_edit_run = [LoopAgent 2 (demo_event (PermissionRequest ''r1'' ''Bash'' ''ls'' [(''command'', StringValue ''ls'')])),
     demo_key KTab, demo_key KLeft, demo_key (KChar [CHR 0xC3, CHR 0xA9]), demo_key KLeft]"

theorem tui_state_wellformed_witness:
  "\<exists>a rs. tui_run demo_app_env demo_edit_run new_app = Some (a, rs) \<and> app_inv a
     \<and> map_option (\<lambda>p. (pq_edit_buffer p, pq_edit_cursor p)) (ap_pending_permission a)
       = Some ([CHR ''{'', CHR 0xC3, CHR 0xA9, CHR ''}''], 1)"
proof -
  have 1: "list_all event_ok demo_edit_run" by code_simp
  have 2: "map_option (\<lambda>(a, rs). map_option (\<lambda>p. (pq_edit_buffer p, pq_edit_cursor p)) (ap_pending_permission a))
      (tui_run demo_app_env demo_edit_run new_app) = Some (Some ([CHR ''{'', CHR 0xC3, CHR 0xA9, CHR ''}''], 1))"
    by code_simp
  then obtain a rs where r: "tui_run demo_app_env demo_edit_run new_app = Some (a, rs)" by auto
  show ?thesis using tui_state_wellformed [OF env_ok_demo 1 r] r 2 by simp
qed



text \<open>
  C28. Every character outside ASCII that is typed into the input line panics the terminal client:
  the cursor moves by one byte into the character, and the detection of a completion slices the input there.
\<close>

theorem multibyte_key_panics:
  assumes "ap_mode a = Normal" and "ke_code key = KChar c" and "utf8_char c" and "\<not> is_ascii c"
  shows "loop_turn e (LoopTerm (TermKey key)) a = None"
proof -
  have c: "c \<noteq> ''t''" "c \<noteq> ''d''" "c \<noteq> ''c''" using assms(4) by auto
  have "type_char e c a = None"
  proof (cases "is_char_boundary (ap_input a) (ap_cursor_pos a)")
    case True
    let ?p = "take (ap_cursor_pos a) (ap_input a)" and ?t = "drop (ap_cursor_pos a) (ap_input a)"
    have l: "length ?p = ap_cursor_pos a" using boundary_le [OF True] by simp
    have "\<not> is_char_boundary (?p @ c @ ?t) (Suc (ap_cursor_pos a))"
      using inside_not_boundary [OF assms(3,4), of ?p ?t] unfolding l .
    moreover have "Suc (ap_cursor_pos a) \<le> length (?p @ c @ ?t)"
      using utf8_char_length [OF assms(3)] boundary_le [OF True] by (cases c) auto
    ultimately have "detect_trigger (ae_alnum e) (?p @ c @ ?t) (ap_cursor_pos a + 1) = None"
      by (simp add: detect_trigger_def slice_to_def min_absorb1)
    then show ?thesis using True by (simp add: type_char_def str_insert_def update_completion_state_def)
  qed (simp add: type_char_def str_insert_def)
  moreover have "handle_completion_key key a = (a, NoAction)"
    using assms(2) by (simp add: handle_completion_key_def Let_def)
  ultimately show ?thesis
    using assms(1,2) c
    by (simp add: loop_turn_def handle_term_event_def handle_key_def handle_input_key_def edit_key_def Let_def)
qed

text \<open>The first key of a session is an accented letter.\<close>

theorem multibyte_key_panics_witness:
  "tui_run demo_app_env [demo_key (KChar [CHR 0xC3, CHR 0xA9])] new_app = None"
proof -
  have "utf8_char [CHR 0xC3, CHR 0xA9]" "\<not> is_ascii [CHR 0xC3, CHR 0xA9]" by code_simp+
  then show ?thesis
    using multibyte_key_panics [where key = "\<lparr> ke_code = KChar [CHR 0xC3, CHR 0xA9], ke_shift = False, ke_ctrl = False \<rparr>"]
    by (simp add: demo_key_def new_app_def)
qed

end
