(* ===== verification/ClientPermissions.thy ===== *)
theory ClientPermissions
  imports ClientRuns
begin

text \<open>
  Permission requests in the terminal client and what becomes of the answers. A request is answered
  at most as often as it was asked; a request that another dialog covers is never answered; and
  of an answer only whether it grants reaches the subprocess, not the edited input or the message.
\<close>

section \<open>What leaves the permission dialog alone\<close>

definition dialog_of :: "app \<Rightarrow> app_mode \<times> pending_perm option" where
  "dialog_of a = (ap_mode a, ap_pending_permission a)"

lemma dialog_push [simp]: "dialog_of (push_message msg a) = dialog_of a"
  by (simp add: dialog_of_def push_message_def)

lemma dialog_modify [simp]: "dialog_of (modify_last f a) = dialog_of a"
  by (simp add: dialog_of_def modify_last_def)

lemma dialog_messages [simp]:
  "dialog_of (add_user_message c a) = dialog_of a" "dialog_of (add_system_message r c a) = dialog_of a"
  "dialog_of (start_assistant_message a) = dialog_of a" "dialog_of (append_text t a) = dialog_of a"
  "dialog_of (finish_streaming a) = dialog_of a" "dialog_of (set_label l a) = dialog_of a"
  "dialog_of (show_error l code c a) = dialog_of a"
  by (simp_all add: message_ops show_error_def)

lemma dialog_fields [simp]:
  "dialog_of (a\<lparr>ap_tool_calls := ts\<rparr>) = dialog_of a" "dialog_of (a\<lparr>ap_agent_busy := bz\<rparr>) = dialog_of a"
  "dialog_of (a\<lparr>ap_status := s\<rparr>) = dialog_of a" "dialog_of (a\<lparr>ap_should_quit := qt\<rparr>) = dialog_of a"
  "dialog_of (a\<lparr>ap_token_usage := u\<rparr>) = dialog_of a" "dialog_of (a\<lparr>ap_session_id := i, ap_model := md\<rparr>) = dialog_of a"
  "dialog_of (a\<lparr>ap_show_status_panel := sp\<rparr>) = dialog_of a" "dialog_of (a\<lparr>ap_pending_client_command := pc\<rparr>) = dialog_of a"
  "dialog_of (a\<lparr>ap_spinner_tick := tk, ap_viewport_height := vh, ap_total_lines := tl'\<rparr>) = dialog_of a"
  "dialog_of (a\<lparr>ap_completion_request_tx := ctx\<rparr>) = dialog_of a" "dialog_of (a\<lparr>ap_service_command_tx := stx\<rparr>) = dialog_of a"
  "dialog_of (a\<lparr>ap_completion_state := cs\<rparr>) = dialog_of a" "dialog_of (a\<lparr>ap_command_cache := cc\<rparr>) = dialog_of a"
  "dialog_of (a\<lparr>ap_input := inp\<rparr>) = dialog_of a" "dialog_of (a\<lparr>ap_cursor_pos := cp\<rparr>) = dialog_of a"
  by (simp_all add: dialog_of_def)

lemma dialog_scroll [simp]:
  "dialog_of (scroll_up n a) = dialog_of a" "dialog_of (scroll_down n a) = dialog_of a" "dialog_of (scroll_to_bottom a) = dialog_of a"
  "dialog_of (scroll_detail_panel d a) = dialog_of a" "dialog_of (toggle_detail_panel a) = dialog_of a"
  "dialog_of (select_next_tool a) = dialog_of a" "dialog_of (select_prev_tool a) = dialog_of a"
  by (simp_all add: dialog_of_def scroll_up_def scroll_down_def scroll_to_bottom_def scroll_detail_panel_def
      toggle_detail_panel_def select_next_tool_def select_prev_tool_def Let_def)

lemma dialog_commands [simp]:
  "dialog_of (execute_pending_client_command a) = dialog_of a" "dialog_of (start_tool e l i n inp d a) = dialog_of a"
  by (simp_all add: dialog_of_def execute_pending_client_command_def apply_compaction_def scroll_to_bottom_def Let_def
      start_tool_def add_system_message_def set_label_def finish_streaming_def push_message_def modify_last_def
      split: option.split client_command.split)

lemma dialog_update: "update_completion_state e a = Some a' \<Longrightarrow> dialog_of a' = dialog_of a"
proof -
  assume u: "update_completion_state e a = Some a'"
  then obtain tr where "detect_trigger (ae_alnum e) (ap_input a) (ap_cursor_pos a) = Some tr"
    by (cases "detect_trigger (ae_alnum e) (ap_input a) (ap_cursor_pos a)") (simp_all add: update_completion_state_def)
  then show ?thesis
    using u by (cases tr; cases "the tr") (auto simp: update_completion_state_def request_completion_def dialog_of_def Let_def)
qed

lemma dialog_help [simp]: "dialog_of (show_help a) = dialog_of a"
  unfolding show_help_def Let_def by (simp only: dialog_scroll dialog_messages)

lemma dialog_submit: "submit_input a = (a', r) \<Longrightarrow> dialog_of a' = dialog_of a"
  by (auto simp: submit_input_def dialog_of_def add_user_message_def push_message_def Let_def split: if_splits)

section \<open>Answers\<close>

definition responses :: "string \<Rightarrow> agent_request list \<Rightarrow> nat" where
  "responses rid rs = length (filter (\<lambda>q. case q of PermissionReq i _ _ _ \<Rightarrow> i = rid | _ \<Rightarrow> False) rs)"

lemma responses_simps [simp]:
  "responses rid [] = 0" "responses rid (MessageReq c i # rs) = responses rid rs"
  "responses rid (QuestionReq q x # rs) = responses rid rs"
  "responses rid (PermissionReq i n u m # rs) = (if i = rid then 1 else 0) + responses rid rs"
  "responses rid (rs @ rs') = responses rid rs + responses rid rs'"
  by (simp_all add: responses_def)

lemma submit_line_quiet: "dialog_of (fst (submit_line t a)) = dialog_of a \<and> responses rid (snd (submit_line t a)) = 0"
  by (simp add: submit_line_def Let_def split: prod.split option.split)

lemma input_key_quiet:
  assumes "handle_input_key e key a = Some (a', rs)"
  shows "dialog_of a' = dialog_of a" "responses rid rs = 0"
proof -
  obtain a1 act where k: "handle_completion_key key a = (a1, act)" by fastforce
  have a1: "dialog_of a1 = dialog_of a"
    using k by (auto simp: handle_completion_key_def Let_def split: if_splits key_code.splits)
  have hist: "dialog_of x = dialog_of a1" if "history_up a1 = Some x \<or> history_down a1 = Some x" for x
    using that by (auto simp: history_up_def history_down_def recall_def dialog_of_def split: if_splits option.splits)
  have typed: "dialog_of x = dialog_of a1" if "type_char e c a1 = Some x \<or> backspace e a1 = Some x" for c x
    using that by (auto simp: type_char_def backspace_def bind_eq_Some_conv split: if_splits dest!: dialog_update)
  have edit: "dialog_of a' = dialog_of a1 \<and> responses rid rs = 0" if "edit_key e key a1 = Some (a', rs)"
  proof (cases "ke_code key")
    case KEnter
    obtain a2 r where s: "submit_input a1 = (a2, r)" by fastforce
    show ?thesis
    proof (cases r)
      case (Some t)
      obtain a3 qs where l: "submit_line t a2 = (a3, qs)" by fastforce
      show ?thesis
        using that dialog_submit [OF s] submit_line_quiet [of t a2 rid] by (auto simp: edit_key_def KEnter s Some l Let_def)
    qed (use that in \<open>simp add: edit_key_def KEnter s Let_def\<close>)
  qed (use that hist typed in \<open>auto simp: edit_key_def Let_def split: if_splits\<close>)
  have accept: "dialog_of a' = dialog_of a1 \<and> rs = []" if "accept_completion e t a1 = Some (a', rs)" for t
    using that by (auto simp: accept_completion_def replace_token_def Let_def bind_eq_Some_conv split: option.splits dest!: dialog_update)
  show "dialog_of a' = dialog_of a" "responses rid rs = 0"
    using assms a1 edit accept unfolding handle_input_key_def k by (cases act; force)+
qed

text \<open>A request waits for the user when it is pending and its dialog is open.\<close>

definition waiting :: "string \<Rightarrow> app \<Rightarrow> bool" where
  "waiting rid a \<longleftrightarrow> permission_mode (ap_mode a) \<and> (\<exists>p. ap_pending_permission a = Some p \<and> pq_request_id p = rid)"

lemma waiting_cong: "dialog_of a = dialog_of b \<Longrightarrow> waiting rid a = waiting rid b"
  by (simp add: waiting_def dialog_of_def)

definition asks :: "string \<Rightarrow> loop_event \<Rightarrow> bool" where
  "asks rid ev = (case ev of LoopAgent _ x \<Rightarrow> (case ev_event x of Some (PermissionRequest i _ _ _) \<Rightarrow> i = rid | _ \<Rightarrow> False) | _ \<Rightarrow> False)"

abbreviation credit :: "bool \<Rightarrow> nat" where
  "credit b \<equiv> of_bool b"

text \<open>The account of a request: an answer or a waiting dialog is paid for by a dialog that waited or by a new request.\<close>

definition balanced :: "string \<Rightarrow> app \<Rightarrow> nat \<Rightarrow> app \<times> agent_request list \<Rightarrow> bool" where
  "balanced rid a n r = (responses rid (snd r) + credit (waiting rid (fst r)) \<le> credit (waiting rid a) + n)"

lemma balanced_quiet: "dialog_of a' = dialog_of a \<Longrightarrow> responses rid rs = 0 \<Longrightarrow> balanced rid a n (a', rs)"
  using waiting_cong [of a' a rid] by (simp add: balanced_def)

lemma balanced_send:
  "permission_mode (ap_mode a) \<Longrightarrow> balanced rid a n (send_permission e d u m a)"
  by (auto simp: balanced_def send_permission_def waiting_def split: option.split)

lemma balanced_permission_key:
  assumes "permission_mode (ap_mode a)"
  shows "balanced rid a n (handle_permission_key e code a)"
proof -
  have "balanced rid a n (start_permission_edit e a, [])" "balanced rid a n (start_permission_text m i a, [])" if "permission_mode m" for m i
    using assms that by (auto simp: balanced_def waiting_def start_permission_edit_def start_permission_text_def Let_def)
  moreover have "balanced rid a n (start_permission_edit e a, [])"
    using assms by (auto simp: balanced_def waiting_def start_permission_edit_def Let_def)
  ultimately show ?thesis
    using permission_key_cases [of e code a] balanced_send [OF assms] by (elim disjE exE conjE) (simp_all add: balanced_quiet)
qed

lemma balanced_permission_edit_key:
  assumes "permission_mode (ap_mode a)" "handle_permission_edit_key e code a = Some r"
  shows "balanced rid a n r"
proof -
  have "balanced rid a n (x, rs @ [MessageReq c i])" if "balanced rid a n (x, rs)" for x rs c i
    using that by (simp add: balanced_def)
  then have sub: "balanced rid a n (submit_permission_edit e a)"
    using balanced_send [OF assms(1), of rid n e]
    by (auto simp: submit_permission_edit_def Let_def balanced_quiet split: app_mode.split prod.split) (metis, metis)
  have "pq_request_id p' = pq_request_id p" if "edit_buffer code p = Some p'" for p p'
    using that by (auto simp: edit_buffer_def bind_eq_Some_conv Let_def split: key_code.splits if_splits)
  then have ed: "balanced rid a n (a\<lparr>ap_pending_permission := Some p'\<rparr>, [])"
    if "ap_pending_permission a = Some p" "edit_buffer code p = Some p'" for p p'
    using that assms(1) by (simp add: balanced_def waiting_def)
  have "balanced rid a n (a\<lparr>ap_mode := PermissionPrompt\<rparr>, [])"
    using assms(1) by (simp add: balanced_def waiting_def)
  then show ?thesis
    using assms(2) sub ed
    by (auto simp: handle_permission_edit_key_def balanced_quiet split: if_splits option.splits)
qed

lemma balanced_question_key:
  assumes "ap_mode a = UserQuestionMode"
  shows "balanced rid a n (handle_question_key code a)"
  using assms
  by (auto simp: balanced_def waiting_def handle_question_key_def submit_question_def move_question_highlight_def
      select_question_option_def Let_def split: key_code.split option.split)

lemma balanced_key:
  assumes "handle_key e key a = Some r"
  shows "balanced rid a n r"
proof -
  let ?m = "case ap_mode a of
        PermissionPrompt \<Rightarrow> Some (handle_permission_key e (ke_code key) a)
      | PermissionEditInput \<Rightarrow> handle_permission_edit_key e (ke_code key) a
      | PermissionComment \<Rightarrow> handle_permission_edit_key e (ke_code key) a
      | PermissionDenyMessage \<Rightarrow> handle_permission_edit_key e (ke_code key) a
      | UserQuestionMode \<Rightarrow> Some (handle_question_key (ke_code key) a)
      | FingerprintVerification \<Rightarrow> quiet (handle_fingerprint_key (ke_code key) a)
      | Normal \<Rightarrow> handle_input_key e key a
      | SessionListMode \<Rightarrow> handle_input_key e key a"
  have input: "balanced rid a n x" if "handle_input_key e key a = Some x" for x
    using input_key_quiet(1) [of e key a "fst x" "snd x"] input_key_quiet(2) [of e key a "fst x" "snd x" rid]
      that balanced_quiet [of "fst x" a rid "snd x" n] by simp
  have fp: "balanced rid a n (handle_fingerprint_key (ke_code key) a, [])" if "ap_mode a = FingerprintVerification"
    using that by (simp add: balanced_def waiting_def handle_fingerprint_key_def)
  have mode: "balanced rid a n x" if "?m = Some x" for x
    using that input fp balanced_permission_key [of a] balanced_permission_edit_key [of a] balanced_question_key [of a]
    by (cases "ap_mode a") auto
  have "balanced rid a n (a\<lparr>ap_show_status_panel := b\<rparr>, [])" "balanced rid a n (toggle_detail_panel a, [])"
    "balanced rid a n (a\<lparr>ap_should_quit := True\<rparr>, [])" for b by (simp_all add: balanced_quiet)
  then show ?thesis
    using assms mode unfolding handle_key_def by (auto split: if_split_asm simp del: split_paired_All)
qed

lemma balanced_event:
  assumes "handle_event e now ev a = Some a'"
  shows "balanced rid a (credit (asks rid (LoopAgent now ev))) (a', [])"
proof (cases "ev_event ev")
  case None
  then show ?thesis using assms by (simp add: handle_event_def balanced_quiet)
next
  case (Some x)
  have fin: "dialog_of y = dialog_of a" if "finish_tool t l i out er dur a = Some y" for t l i out er dur y
    using that by (auto simp: finish_tool_def Let_def)
  show ?thesis
  proof (cases x)
    case (PermissionRequest i nm d inp)
    then show ?thesis using assms Some
      by (auto simp: handle_event_def balanced_def waiting_def asks_def)
  next
    case (UserQuestion q t os ms)
    then show ?thesis using assms Some by (auto simp: handle_event_def balanced_def waiting_def)
  qed (use assms Some fin in \<open>auto simp: handle_event_def live_delta_def Let_def intro!: balanced_quiet\<close>)
qed

lemma balanced_turn:
  assumes "loop_turn e ev a = Some r"
  shows "balanced rid a (credit (asks rid ev)) r"
proof (cases ev)
  case (LoopTerm t)
  then show ?thesis using assms balanced_key
    by (cases t) (auto simp: loop_turn_def handle_term_event_def balanced_quiet)
next
  case (LoopAgent now x)
  then obtain a' where a': "handle_event e now x a = Some a'" "r = (a', [])"
    using assms by (auto simp: loop_turn_def)
  then show ?thesis using balanced_event [OF a'(1)] LoopAgent by simp
qed (use assms in \<open>auto simp: loop_turn_def balanced_quiet\<close>)

lemma run_balance:
  "tui_run e evs a = Some (a', rs) \<Longrightarrow> responses rid rs \<le> credit (waiting rid a) + length (filter (asks rid) evs)"
proof (induction evs arbitrary: a a' rs)
  case (Cons ev evs)
  obtain a1 rs1 where t: "loop_turn e ev a = Some (a1, rs1)" using Cons.prems by (auto split: option.splits)
  have b: "responses rid rs1 + credit (waiting rid a1) \<le> credit (waiting rid a) + credit (asks rid ev)"
    using balanced_turn [OF t, of rid] by (simp add: balanced_def)
  show ?case
  proof (cases "ap_should_quit a1")
    case True
    then show ?thesis using b t Cons.prems by (cases "asks rid ev") auto
  next
    case False
    then obtain rs2 where r: "tui_run e evs a1 = Some (a', rs2)" "rs = rs1 @ rs2"
      using t Cons.prems by (auto split: option.splits)
    show ?thesis using Cons.IH [OF r(1)] r(2) b by (cases "asks rid ev") auto
  qed
qed simp

text \<open>
  C27. The client answers a permission request at most as often as it was asked: in every run, whatever
  keys are pressed and whatever events come in between, there are no more responses with an identifier
  than requests with it.
\<close>

theorem answers_at_most_requests:
  assumes "tui_run e evs new_app = Some (a, rs)"
  shows "responses rid rs \<le> length (filter (asks rid) evs)"
  using run_balance [OF assms, of rid] by (simp add: waiting_def new_app_def)

definition ask :: "string \<Rightarrow> loop_event" where
  "ask rid = LoopAgent 2 (demo_event (PermissionRequest rid ''Bash'' ''ls'' [(''command'', StringValue ''ls'')]))"

lemma run_result: "map_option snd x = Some rs \<Longrightarrow> \<exists>a. x = Some (a, rs)"
  by auto

text \<open>The user opens the editor, leaves it and answers yes.\<close>

theorem answers_at_most_requests_witness:
  "\<exists>a rs. tui_run demo_app_env [ask ''r1'', demo_key KTab, demo_key KEsc, demo_key (KChar ''y''), LoopLine ''done''] new_app = Some (a, rs)
     \<and> rs = [PermissionReq ''r1'' 1 None []] \<and> responses ''r1'' rs \<le> 1"
proof -
  let ?evs = "[ask ''r1'', demo_key KTab, demo_key KEsc, demo_key (KChar ''y''), LoopLine ''done'']"
  have run: "map_option snd (tui_run demo_app_env ?evs new_app) = Some [PermissionReq ''r1'' 1 None []]" by code_simp
  from run_result [OF this] obtain a where r: "tui_run demo_app_env ?evs new_app = Some (a, [PermissionReq ''r1'' 1 None []])" ..
  have one: "length (filter (asks ''r1'') ?evs) = 1" by code_simp
  have "responses ''r1'' [PermissionReq ''r1'' 1 None []] \<le> 1"
    using answers_at_most_requests [OF r, of "''r1''"] unfolding one .
  note q = this
  show ?thesis by (intro exI conjI, rule r, rule refl, rule q)
qed

text \<open>
  C26. A request that another dialog covers is never answered. When a permission request or a question arrives while
  the request \<open>rid\<close> waits, then whatever the user does afterwards, no answer to \<open>rid\<close> is
  sent unless the daemon asks again: the new request replaces it, and after a question the dialog does not come back.
\<close>

theorem covered_request_unanswered:
  assumes "ev_event ev = Some (PermissionRequest rid2 tool desc input) \<and> rid2 \<noteq> rid \<or> ev_event ev = Some (UserQuestion q t opts multi)"
    and "tui_run e (LoopAgent now ev # evs) a = Some (a', rs)" and "\<not> list_ex (asks rid) evs"
  shows "responses rid rs = 0"
proof -
  obtain a1 where a1: "handle_event e now ev a = Some a1" "\<not> waiting rid a1"
    using assms(1) by (auto simp: handle_event_def waiting_def)
  have quiet: "filter (asks rid) evs = []" using assms(3) by (simp add: filter_empty_conv list_ex_iff)
  show ?thesis
  proof (cases "ap_should_quit a1")
    case True
    then show ?thesis using assms(2) a1 by (auto simp: loop_turn_def)
  next
    case False
    then obtain b where "tui_run e evs a1 = Some (b, rs)"
      using assms(2) a1 by (auto simp: loop_turn_def split: option.splits)
    from run_balance [OF this, of rid] show ?thesis using a1(2) quiet by simp
  qed
qed

text \<open>Two requests arrive, and the user answers yes.\<close>

theorem covered_request_unanswered_witness:
  "\<exists>a rs. tui_run demo_app_env [ask ''r2'', demo_key (KChar ''y'')]
       (the (handle_event demo_app_env 2 (demo_event (PermissionRequest ''r1'' ''Bash'' ''ls'' [])) new_app)) = Some (a, rs)
     \<and> rs = [PermissionReq ''r2'' 1 None []] \<and> responses ''r1'' rs = 0"
proof -
  let ?a = "the (handle_event demo_app_env 2 (demo_event (PermissionRequest ''r1'' ''Bash'' ''ls'' [])) new_app)"
  have run: "map_option snd (tui_run demo_app_env [ask ''r2'', demo_key (KChar ''y'')] ?a)
      = Some [PermissionReq ''r2'' 1 None []]" by code_simp
  from run_result [OF this] obtain a where r: "tui_run demo_app_env [ask ''r2'', demo_key (KChar ''y'')] ?a
      = Some (a, [PermissionReq ''r2'' 1 None []])" ..
  have 1: "\<not> list_ex (asks ''r1'') [demo_key (KChar ''y'')]" by code_simp
  have "responses ''r1'' [PermissionReq ''r2'' 1 None []] = 0"
    by (rule covered_request_unanswered [where ?rid2.0 = "''r2''" and tool = "''Bash''" and desc = "''ls''"
          and input = "[(''command'', StringValue ''ls'')]", OF _ r [unfolded ask_def] 1]) (simp add: demo_event_def)
  note q = this
  show ?thesis by (intro exI conjI, rule r, rule refl, rule q)
qed

section \<open>Answers at the daemon\<close>

text \<open>
  C25. Of an answer only whether it grants reaches the subprocess. When the user edits the input of a tool and confirms, the daemon
  lets the tool run with the original input; when the user denies with a message, or asks not to
  interrupt the turn, the subprocess is told to interrupt with a fixed message. This holds for every edited text and message.
\<close>

theorem edited_input_discarded:
  assumes "ap_pending_permission a = Some p" and "ap_mode a = PermissionEditInput \<or> ap_mode a = PermissionDenyMessage"
    and "\<And>d. rq_decision re (ae_decision_number e d) = Some d"
    and "cv_session_id cv = Some sid" and "get_handle sid r = Some h" and "rq_stdin_open re"
    and "hm_get (rc_permissions (the_cells (rh_cells h) r)) (pq_request_id p) = Some asked"
  shows "\<exists>request. snd (submit_permission_edit e a) = [request]
    \<and> rl_stdin (fst (snd (handle_agent_request re cid request cv r))) = rl_stdin r @ [(rh_stdin_tx h, re_print (rq_env re)
        (control_response (pq_request_id p)
          (if ap_mode a = PermissionEditInput
           then JObject [(''behavior'', JString ''allow''), (''updatedInput'', pp_input asked)]
           else JObject [(''behavior'', JString ''deny''), (''interrupt'', JBool True),
                  (''message'', JString ''User denied permission'')])))]"
proof -
  have step: "rl_stdin (fst (snd (handle_agent_request re cid (PermissionReq (pq_request_id p) (ae_decision_number e d) u m) cv r)))
      = rl_stdin r @ [(rh_stdin_tx h, re_print (rq_env re)
          (build_permission_response_json (pq_request_id p) (is_granted d) (pp_input asked)))]" for d u m
    using permission_answer_step [OF assms(4-7), of d "ae_decision_number e d" cid u m] assms(3)
    by (simp add: send_line_def)
  show ?thesis
    using assms(1,2) step
    by (auto simp: submit_permission_edit_def send_permission_def build_permission_response_json_def Let_def)
qed

text \<open>The user empties the input that the tool \<open>Bash\<close> was called with; it runs with the original.\<close>

definition demo_decisions :: "int \<Rightarrow> permission_decision option" where
  "demo_decisions n = find (\<lambda>d. ae_decision_number demo_app_env d = n)
     [Unspecified, AllowOnce, AllowSession, Deny, AllowWithEdit, DenyNoInterrupt, DenyWithInterrupt]"

theorem edited_input_discarded_witness:
  "\<exists>request. snd (submit_permission_edit (demo_app_env\<lparr>ae_parse := \<lambda>_. Some (JObject [])\<rparr>)
       (new_app\<lparr>ap_mode := PermissionEditInput, ap_pending_permission := Some \<lparr> pq_request_id = ''r1'', pq_tool_name = ''Bash'',
          pq_description = ''ls'', pq_original_input = None, pq_edit_buffer = ''{}'', pq_edit_cursor = 2, pq_deny_interrupt = True \<rparr>\<rparr>)) = [request]
    \<and> rl_stdin (fst (snd (handle_agent_request (demo_request_env\<lparr>rq_decision := demo_decisions\<rparr>) ''c'' request
         \<lparr> cv_session_id = Some ''s'', cv_pending_config = None \<rparr> demo_permission)))
      = rl_stdin demo_permission @ [(0, re_print demo_relay_env (control_response ''r1''
          (JObject [(''behavior'', JString ''allow''), (''updatedInput'', JObject [(''command'', JString ''ls'')])])))]"
proof -
  let ?p = "\<lparr> pq_request_id = ''r1'', pq_tool_name = ''Bash'', pq_description = ''ls'', pq_original_input = None,
    pq_edit_buffer = ''{}'', pq_edit_cursor = 2, pq_deny_interrupt = True \<rparr>"
  let ?h = "\<lparr> rh_process_id = ''p'', rh_session_id = ''s'', rh_stdin_tx = 0, rh_cells = 0 \<rparr>"
  let ?asked = "\<lparr> pp_input = JObject [(''command'', JString ''ls'')], pp_tool_name = ''Bash'' \<rparr>"
  let ?e = "demo_app_env\<lparr>ae_parse := \<lambda>_. Some (JObject [])\<rparr>"
  have num: "rq_decision (demo_request_env\<lparr>rq_decision := demo_decisions\<rparr>) (ae_decision_number ?e d) = Some d" for d
    by (cases d) (simp_all add: demo_decisions_def demo_app_env_def)
  have 1: "get_handle ''s'' demo_permission = Some ?h" by code_simp
  have 2: "hm_get (rc_permissions (the_cells (rh_cells ?h) demo_permission)) (pq_request_id ?p) = Some ?asked" by code_simp
  show ?thesis
    using edited_input_discarded [where a = "new_app\<lparr>ap_mode := PermissionEditInput, ap_pending_permission := Some ?p\<rparr>"
        and p = ?p and e = ?e and re = "demo_request_env\<lparr>rq_decision := demo_decisions\<rparr>" and sid = "''s''" and cid = "''c''"
        and cv = "\<lparr> cv_session_id = Some ''s'', cv_pending_config = None \<rparr>", OF _ _ num _ 1 _ 2]
    by (simp add: demo_request_env_def)
qed

end
