(* ===== verification/ClientReplay.thy ===== *)
theory ClientReplay
  imports ClientInput
begin

text \<open>
  What a client that resumes a session sees of it, against what the client that held it saw live.
  The live client handles events and the Enter key (\<^verbatim>\<open>betcode-cli/src/app\<close>, \<^verbatim>\<open>tui\<close>); the daemon records
  events, and messages except those that start the subprocess
  (\<^verbatim>\<open>betcode-daemon/src/server/handler.rs\<close>, \<^verbatim>\<open>relay/pipeline.rs\<close>).
\<close>

section \<open>The live client\<close>




definition sent :: "view_step list \<Rightarrow> agent_request list" where
  "sent steps = concat (map (\<lambda>st. case st of Happened _ _ \<Rightarrow> [] | Typed t \<Rightarrow> [MessageReq t []]) steps)"

lemma sent_simps [simp]:
  "sent [] = []" "sent (Happened now ev # steps) = sent steps" "sent (Typed t # steps) = MessageReq t [] # sent steps"
  by (simp_all add: sent_def)




section \<open>What the daemon records\<close>




section \<open>A message in front\<close>

text \<open>The view with one more message in front of all others: the tool calls point one line further down.\<close>

definition moved_down :: "tool_call_entry \<Rightarrow> tool_call_entry" where
  "moved_down en = en\<lparr>te_message_index := Suc (te_message_index en)\<rparr>"

definition prefixed :: "display_message \<Rightarrow> app \<Rightarrow> app" where
  "prefixed msg b = b\<lparr>ap_messages := msg # ap_messages b, ap_tool_calls := map moved_down (ap_tool_calls b)\<rparr>"




lemma prefixed_simps [simp]:
  "ap_messages (prefixed msg b) = msg # ap_messages b"
  "ap_tool_calls (prefixed msg b) = map moved_down (ap_tool_calls b)"
  by (simp_all add: prefixed_def)







section \<open>Live against resumed\<close>



end
