(* ===== verification/Spec2Isabelle.thy ===== *)
theory Spec2Isabelle
  imports Orchestration SpawnRuns AgentService DaemonPermission RelayDrain RelayServices TunnelRuns ClientPermissions ClientReplay
begin

text \<open>
  \<^bold>\<open>The program.\<close> BetCode runs a coding agent on a developer's machine and lets clients use it from
  elsewhere. A \<^emph>\<open>daemon\<close> (\<^verbatim>\<open>crates/betcode-daemon\<close>) starts the agent as a subprocess per session, turns
  its output into numbered events, stores and broadcasts them, asks clients for permissions, and runs
  groups of subagents with dependencies. A \<^emph>\<open>relay\<close> server (\<^verbatim>\<open>crates/betcode-relay\<close>) authenticates
  users and forwards their calls through tunnels that daemons open to it. \<^verbatim>\<open>crates/betcode-core\<close> holds
  what they share; clients and installers are separate crates.

  \<^bold>\<open>Theories and sources.\<close>

  \<^item> \<open>Prelude\<close>: hash maps, strings, reachability, and the interfaces as locales: \<open>step_system\<close> (invariants of
    runs), \<open>event_source\<close> (consecutively numbered events), \<open>pending_store\<close> (requests parked under an
    identifier). \<open>Json\<close>, \<open>Grpc\<close> and \<open>Frames\<close>: JSON values, gRPC status codes with the operator \<^verbatim>\<open>?\<close>, and the
    frames of a tunnel. \<open>CoreDb\<close>: \<^verbatim>\<open>betcode-core/src/db.rs\<close>.
  \<^item> \<open>Scheduler\<close>, \<open>SchedulerRun\<close>, \<open>Pool\<close>, \<open>SubagentStore\<close>, \<open>Subagents\<close>, \<open>SpawnRuns\<close>, \<open>Orchestration\<close>:
    \<^verbatim>\<open>betcode-daemon/src/orchestration/\<close>, its tables and the handler that creates an orchestration. The
    scheduler accepts exactly the acyclic graphs when all keys of the dependency map are steps, never starts a step before its
    dependencies, makes progress and terminates, and a failure blocks exactly what depends on it; in
    every interleaving of spawn calls and monitoring tasks the permits bound the supervised subprocesses, but a call that
    fails late leaves its subprocess outside the limit; the task of an orchestration can wait forever. In \<open>Subagents\<close> and
    \<open>Orchestration\<close> a spawn call is one step; \<open>SpawnRuns\<close> cuts it at its awaits.
  \<^item> \<open>SessionStore\<close>, \<open>Multiplexer\<close>: \<^verbatim>\<open>storage/queries.rs\<close>, \<^verbatim>\<open>repo_queries.rs\<close>, \<^verbatim>\<open>session/\<close>. Every statement
    keeps the constraints of the schema; at most one client holds the input lock of a session.
  \<^item> \<open>Ndjson\<close>, \<open>Commands\<close>, \<open>EventBridge\<close>, \<open>Subprocess\<close>, \<open>SessionRelay\<close>, \<open>AgentService\<close>: the way of a line of
    output from the subprocess to the clients (\<^verbatim>\<open>betcode-core/src/ndjson/\<close>, \<^verbatim>\<open>commands/\<close>,
    \<^verbatim>\<open>subprocess/\<close>, \<^verbatim>\<open>relay/\<close>, \<^verbatim>\<open>server/agent.rs\<close>, \<^verbatim>\<open>server/handler.rs\<close>). The stored history is complete and
    consecutively numbered, resuming replays exactly what was missed, and a permission answer
    reaches the subprocess once, with the input that was asked about, and leaves the database as it was.
  \<^item> \<open>PermissionRules\<close>, \<open>DaemonPermission\<close>: \<^verbatim>\<open>betcode-core/src/permissions.rs\<close> and
    \<^verbatim>\<open>betcode-daemon/src/permission/\<close>. The engine decides by priority and age of the rules, not by their action, allows nothing without a
    ground, and removes requests when their time has passed, which starts anew with every change of the client's status.
  \<^item> \<open>RelayStore\<close>, \<open>RelayAuth\<close>: \<^verbatim>\<open>betcode-relay/src/storage/\<close>, \<^verbatim>\<open>auth/\<close>, \<^verbatim>\<open>server/auth_svc.rs\<close>,
    \<^verbatim>\<open>server/interceptor.rs\<close>. The schema's constraints hold in every run; a used refresh token is refused
    after its grace period.
  \<^item> \<open>RelayRegistry\<close>, \<open>RelayRouter\<close>, \<open>RelayRuns\<close>, \<open>RelayIsolation\<close>, \<open>RelayDrain\<close>, \<open>RelayServices\<close>:
    \<^verbatim>\<open>registry/\<close>, \<^verbatim>\<open>router/\<close>, \<^verbatim>\<open>buffer/\<close>, \<^verbatim>\<open>server/tunnel_svc.rs\<close>, \<^verbatim>\<open>grpc_util.rs\<close>, \<^verbatim>\<open>agent_proxy.rs\<close>,
    \<^verbatim>\<open>machine_svc.rs\<close>, \<^verbatim>\<open>notifications/service.rs\<close>. In every interleaving a response reaches exactly the
    call that waits for it, and users reach only their own daemons while no machine is removed; the
    counterexamples with removal, with an old tunnel that ends late and with a long buffer are proved.
  \<^item> \<open>Text\<close>, \<open>Crypto\<close>, \<open>Fingerprints\<close>: string operations of the standard library, and \<^verbatim>\<open>betcode-crypto/src/\<close>. Nonces are
    unique under concurrent calls, matching sessions decrypt each other, and a recorded fingerprint is pinned.
  \<^item> \<open>TunnelHandler\<close>, \<open>TunnelRuns\<close>: \<^verbatim>\<open>betcode-daemon/src/tunnel/handler.rs\<close> and the loop of \<^verbatim>\<open>client.rs\<close>. A tunnel never
    falls back to plaintext conversations, and grants and cancellations agree with the direct service; frames can
    overtake each other, and calls outside conversations are accepted unencrypted.
  \<^item> \<open>ClientConnection\<close>, \<open>SecureChannel\<close>, \<open>KeyExchange\<close>: \<^verbatim>\<open>betcode-cli/src/connection.rs\<close>, and client and daemon together.
    After an exchange over an honest relay events and requests pass unchanged and in order; the fingerprint
    does not bind the exchanged keys, so a relay can take the exchange over.
  \<^item> \<open>TermText\<close>, \<open>Completion\<close>, \<open>ClientApp\<close>, \<open>ClientView\<close>, \<open>ClientInput\<close>, \<open>ClientRuns\<close>, \<open>ClientPermissions\<close>,
    \<open>ClientReplay\<close>: the terminal client,
    \<^verbatim>\<open>betcode-cli/src/app/state.rs\<close>, \<^verbatim>\<open>tui/\<close>, \<^verbatim>\<open>completion/\<close>, \<^verbatim>\<open>commands/cache.rs\<close>. A panic is the value \<open>None\<close>. A replay shows what was
    shown live except the first message, which the daemon does not record; the state is well formed in every run of the event loop;
    with ASCII input only a tool output that is cut inside a character panics, and any other character in the input line does; a permission request is answered at most once, never when another dialog has
    covered it, and of the answer only the decision reaches the subprocess.

  \<^bold>\<open>Conventions.\<close> A struct is a record, an enum a datatype; the state of a component is passed
  explicitly; errors are values of a sum type. A \<^verbatim>\<open>String\<close> is its UTF-8 bytes, a \<^verbatim>\<open>u64\<close> a 64-bit word; the
  other integers are unbounded where the code cannot leave their range. An operation under one lock is one step; a task that waits
  is a sequence of steps, and an inductive relation interleaves the steps of all tasks. An \<^verbatim>\<open>Arc\<close> that
  is shared is a cell behind an address. An SQL table is the list of its rows, a statement has an
  argument that says whether it executes, and it fails when a constraint is violated. Readings of the
  clock, new identifiers, the choice among rows that SQLite makes, process starts, the JSON and
  protobuf codecs, the JWT library, the hash functions and the cipher are arguments.

  \<^bold>\<open>Bounds.\<close> Kahn's algorithm and the search for dependents are \<open>partial_function (option)\<close> or functions with a
  measure, and are proved to return. A channel of the relay has 128 places as in the code; no
  other bound is imposed. Runs are of any length.

  \<^bold>\<open>Not modelled.\<close> Drawing in the terminal client, its other commands and the installers, whose work is terminal output,
  prompts and calls of system programs; logging in to the relay from the daemon; the worktree, repository,
  GitLab, completion and plugin services, which call git, HTTP and the file system; generated
  protocol code, whose definitions are not part of the sources; TLS and server start-up; the loss of
  events by slow receivers of a broadcast channel.
\<close>

end
